(* ===== verification/Prelude.thy ===== *)
theory Prelude
  imports Complex_Main "HOL-Library.Word" "HOL-Library.Sublist"
begin

text \<open>
  The vocabulary the component theories share: fixed-width integers, results with errors,
  Rust's checked and saturating integer operations, and byte strings.

  A Rust \<open>String\<close>, \<open>\<lbrace>str\<rbrace>\<close> or \<open>Vec<u8>\<close> that the code
  treats as text is a \<open>string\<close>, the list of its UTF-8 bytes; binary data is a list of
  \<open>8 word\<close>. A \<open>Result<T, E>\<close> is the sum \<open>'e + 'a\<close> with \<open>Inl\<close> for
  the error, an \<open>Option<T>\<close> is \<open>'a option\<close>.
\<close>

unbundle bit_operations_syntax

type_synonym u8 = "8 word"
type_synonym u16 = "16 word"
type_synonym u32 = "32 word"
type_synonym u64 = "64 word"
type_synonym u128 = "128 word"
type_synonym i32 = "32 word"
type_synonym bytes = "8 word list"

named_theorems frames "which parts of a state an operation leaves alone"

text \<open>Largest values of the unsigned types the code compares against.\<close>

abbreviation usize_max :: nat where
  "usize_max \<equiv> 18446744073709551615"

abbreviation u32_max :: nat where
  "u32_max \<equiv> 4294967295"

section \<open>Errors\<close>

text \<open>The kinds of \<open>std::io::Error\<close> the modelled code constructs, with their message.\<close>

datatype io_error =
    InvalidData string
  | InvalidInput string
  | OtherError string

section \<open>Lists\<close>

lemma take_append_exact [simp]: "length xs = n \<Longrightarrow> take n (xs @ ys) = xs"
  by simp

lemma drop_append_exact [simp]: "length xs = n \<Longrightarrow> drop n (xs @ ys) = ys"
  by simp

lemma append_eq_prefix_cases:
  assumes "pre @ buf = e @ rest" and "length e \<le> length pre"
  shows "\<exists>d. pre = e @ d \<and> d @ buf = rest"
  using assms by (auto simp: append_eq_append_conv2)

section \<open>Words\<close>

lemma or_push_bit_nat:
  assumes "(a::nat) < 2 ^ k"
  shows "a OR push_bit k b = a + 2 ^ k * b"
proof -
  have "take_bit k a = a" using assms by (simp add: take_bit_nat_eq_self)
  then have "a + push_bit k b = a OR push_bit k b"
    by (intro disjunctive_add) (metis bit_push_bit_iff bit_take_bit_iff not_less)
  then show ?thesis by (simp add: push_bit_eq_mult mult.commute)
qed

lemma unat_and_3: "unat ((b::u8) AND 3) = unat b mod 4"
proof -
  have "unat (b AND 3) = unat b AND 3" by (simp add: unsigned_and_eq)
  also have "\<dots> = take_bit 2 (unat b)" by (simp add: take_bit_eq_mask mask_eq_exp_minus_1)
  finally show ?thesis by (simp add: take_bit_eq_mod)
qed

lemma unat_ucast_mod: "unat (ucast (w::'a::len word) :: 'b::len word) = unat w mod 2 ^ LENGTH('b)"
  by (simp add: unsigned_ucast_eq take_bit_eq_mod)

lemma unat_drop_bit_div: "unat (drop_bit n (w::'a::len word)) = unat w div 2^n"
  by (subst unat_drop_bit_eq) (rule drop_bit_eq_div)

lemma unat_u16_less: "unat (p :: u16) < 65536"
  using unsigned_less [of p] by simp

lemma unat_u8_less: "unat (b :: u8) < 256"
  using unsigned_less [of b] by simp

end
