(* ===== verification/Framing.thy ===== *)
theory Framing
  imports Prelude
begin

text \<open>
  The interface of a streaming frame decoder. A connection hands its decoder the bytes as they
  arrive; the reader calls \<open>decode\<close> until it asks for more
  (\<open>drain\<close>, the loop that \<open>tokio_util\<close>'s \<open>Framed\<close> runs) and then
  waits for the next chunk (\<open>feed\<close>). The locale states what a decoder promises about
  one frame; inside it the promise is lifted to whole streams, cut into chunks anywhere.
\<close>

section \<open>The reading loop\<close>

partial_function (option) drain ::
  "('s \<Rightarrow> 'b list \<Rightarrow> 's \<times> 'b list \<times> ('e + 'm option)) \<Rightarrow> 's \<Rightarrow> 'b list
     \<Rightarrow> ('s \<times> 'b list \<times> 'm list \<times> 'e option) option" where
  "drain dec s buf =
     (case dec s buf of (s', buf', r) \<Rightarrow>
        (case r of
           Inl e \<Rightarrow> Some (s', buf', [], Some e)
         | Inr None \<Rightarrow> Some (s', buf', [], None)
         | Inr (Some m) \<Rightarrow>
             Option.bind (drain dec s' buf')
               (\<lambda>(s'', buf'', ms, e). Some (s'', buf'', m # ms, e))))"

fun feed ::
  "('s \<Rightarrow> 'b list \<Rightarrow> 's \<times> 'b list \<times> ('e + 'm option)) \<Rightarrow> 's \<Rightarrow> 'b list \<Rightarrow> 'b list list
     \<Rightarrow> ('s \<times> 'b list \<times> 'm list \<times> 'e option) option" where
  "feed dec s buf [] = Some (s, buf, [], None)"
| "feed dec s buf (c # cs) =
     Option.bind (drain dec s (buf @ c))
       (\<lambda>(s', buf', ms, e).
          case e of
            Some _ \<Rightarrow> Some (s', buf', ms, e)
          | None \<Rightarrow> Option.bind (feed dec s' buf' cs)
              (\<lambda>(s'', buf'', ms', e'). Some (s'', buf'', ms @ ms', e')))"

lemma drain_incomplete:
  "dec s buf = (s', buf', Inr None) \<Longrightarrow> drain dec s buf = Some (s', buf', [], None)"
  by (simp add: drain.simps)

lemma drain_complete:
  "dec s buf = (s', buf', Inr (Some m)) \<Longrightarrow> drain dec s' buf' = Some (s'', buf'', ms, e) \<Longrightarrow>
   drain dec s buf = Some (s'', buf'', m # ms, e)"
  by (simp add: drain.simps [of dec s buf])

section \<open>The contract of a decoder\<close>

text \<open>
  \<open>rep s pre\<close> says that the decoder state \<open>s\<close> has consumed the bytes \<open>pre\<close> of the
  current frame already.
\<close>

locale framing =
  fixes enc :: "'m \<Rightarrow> 'b list"
    and valid :: "'m \<Rightarrow> bool"
    and dec :: "'s \<Rightarrow> 'b list \<Rightarrow> 's \<times> 'b list \<times> ('e + 'm option)"
    and init :: 's
    and rep :: "'s \<Rightarrow> 'b list \<Rightarrow> bool"
  assumes enc_nonempty: "valid m \<Longrightarrow> enc m \<noteq> []"
    and rep_init: "rep init []"
    and dec_complete: "valid m \<Longrightarrow> rep s pre \<Longrightarrow> prefix pre (enc m) \<Longrightarrow>
      pre @ buf = enc m @ rest \<Longrightarrow> dec s buf = (init, rest, Inr (Some m))"
    and dec_incomplete: "valid m \<Longrightarrow> rep s pre \<Longrightarrow> strict_prefix (pre @ buf) (enc m) \<Longrightarrow>
      \<exists>s' pre' buf'. dec s buf = (s', buf', Inr None) \<and> rep s' pre' \<and> pre' @ buf' = pre @ buf"
    and dec_empty: "dec init [] = (init, [], Inr None)"
begin

definition stream :: "'m list \<Rightarrow> 'b list" where
  "stream ms = concat (map enc ms)"

text \<open>The bytes held so far are a proper part of the next frame.\<close>

definition partial :: "'s \<Rightarrow> 'b list \<Rightarrow> 'm list \<Rightarrow> 'b list \<Rightarrow> bool" where
  "partial s buf ms fut \<longleftrightarrow>
     (ms = [] \<and> s = init \<and> buf = [] \<and> fut = []) \<or>
     (\<exists>m ms' pre. ms = m # ms' \<and> rep s pre \<and> strict_prefix (pre @ buf) (enc m)
        \<and> pre @ buf @ fut = stream ms)"

lemma stream_simps [simp]: "stream [] = []" "stream (m # ms) = enc m @ stream ms"
  by (simp_all add: stream_def)

lemma partial_init:
  "\<forall>m\<in>set ms. valid m \<Longrightarrow> partial init [] ms (stream ms)"
  by (cases ms) (auto simp: partial_def rep_init strict_prefix_def dest: enc_nonempty [THEN not_sym])

lemma drain_frames:
  assumes "\<forall>m\<in>set ms. valid m"
    and "ms = [] \<Longrightarrow> s = init \<and> pre = []"
    and "ms \<noteq> [] \<Longrightarrow> rep s pre \<and> prefix pre (enc (hd ms))"
    and "pre @ buf @ fut = stream ms"
  shows "\<exists>s' buf' ms1 ms2. drain dec s buf = Some (s', buf', ms1, None)
    \<and> ms = ms1 @ ms2 \<and> partial s' buf' ms2 fut"
  using assms
proof (induction ms arbitrary: s pre buf)
  case Nil
  then show ?case
    by (auto simp: partial_def intro: drain_incomplete dec_empty)
next
  case (Cons m ms)
  have rep: "rep s pre" "prefix pre (enc m)" and v: "valid m" using Cons.prems by auto
  show ?case
  proof (cases "length (pre @ buf) < length (enc m)")
    case True
    have "prefix (pre @ buf) (enc m @ stream ms)"
      using Cons.prems(4) by (metis append_assoc prefixI stream_simps(2))
    then have sp: "strict_prefix (pre @ buf) (enc m)"
      using True by (metis append_prefixD less_le_not_le not_less prefix_length_le
          prefix_order.less_le prefix_same_cases prefixI strict_prefixI)
    obtain s' pre' buf' where d: "dec s buf = (s', buf', Inr None)" "rep s' pre'" "pre' @ buf' = pre @ buf"
      using dec_incomplete [OF v rep(1) sp] by blast
    have "pre' @ buf' @ fut = stream (m # ms)"
      using Cons.prems(4) d(3) by (metis append_assoc)
    then have "partial s' buf' (m # ms) fut"
      using d sp unfolding partial_def by auto
    then show ?thesis using drain_incomplete [where dec = dec, OF d(1)] by (metis append_Nil)
  next
    case False
    then obtain rest where r: "pre @ buf = enc m @ rest" "rest @ fut = stream ms"
      using Cons.prems(4) append_eq_prefix_cases [of "pre @ buf" fut "enc m" "stream ms"] by auto
    have d: "dec s buf = (init, rest, Inr (Some m))"
      by (rule dec_complete [OF v rep r(1)])
    have "\<exists>s' buf' ms1 ms2. drain dec init rest = Some (s', buf', ms1, None)
        \<and> ms = ms1 @ ms2 \<and> partial s' buf' ms2 fut"
      by (rule Cons.IH [of init "[]"]) (use Cons.prems r rep_init in auto)
    then show ?thesis using drain_complete [where dec = dec, OF d] by (metis append_Cons)
  qed
qed

text \<open>One chunk keeps the invariant and moves finished messages out.\<close>

lemma drain_partial:
  assumes "\<forall>m\<in>set ms. valid m" and "partial s buf ms (c @ fut)"
  shows "\<exists>s' buf' ms1 ms2. drain dec s (buf @ c) = Some (s', buf', ms1, None)
    \<and> ms = ms1 @ ms2 \<and> partial s' buf' ms2 fut"
proof (cases ms)
  case Nil
  then show ?thesis using assms drain_frames [of "[]" s "[]" "buf @ c" fut] by (auto simp: partial_def)
next
  case (Cons m ms')
  then obtain pre where p: "rep s pre" "strict_prefix (pre @ buf) (enc m)" "pre @ buf @ c @ fut = stream ms"
    using assms(2) by (auto simp: partial_def)
  then have "prefix pre (enc m)"
    by (metis append_prefixD prefix_order.less_imp_le)
  then show ?thesis using p Cons assms(1) by (intro drain_frames [of ms s pre]) auto
qed

lemma feed_partial:
  assumes "\<forall>m\<in>set ms. valid m" and "partial s buf ms (concat cs)"
  shows "feed dec s buf cs = Some (init, [], ms, None)"
  using assms
proof (induction cs arbitrary: s buf ms)
  case Nil
  have "ms = []"
  proof (rule ccontr)
    assume "ms \<noteq> []"
    then obtain m ms' pre where "ms = m # ms'" "strict_prefix (pre @ buf) (enc m)" "pre @ buf = enc m @ stream ms'"
      using Nil.prems(2) by (auto simp: partial_def)
    then show False by (metis prefixI prefix_order.less_le_not_le)
  qed
  then show ?case using Nil.prems by (auto simp: partial_def)
next
  case (Cons c cs)
  obtain s' buf' ms1 ms2 where d: "drain dec s (buf @ c) = Some (s', buf', ms1, None)"
    "ms = ms1 @ ms2" "partial s' buf' ms2 (concat cs)"
    using drain_partial [of ms s buf c "concat cs"] Cons.prems by auto
  have "feed dec s' buf' cs = Some (init, [], ms2, None)"
    by (rule Cons.IH) (use d Cons.prems in auto)
  then show ?case using d by simp
qed

lemma feed_stream:
  assumes "\<forall>m\<in>set ms. valid m" and "concat cs = stream ms"
  shows "feed dec init [] cs = Some (init, [], ms, None)"
  by (rule feed_partial) (use assms partial_init in auto)

end

end
