(* ===== verification/BytesCodec.thy ===== *)
theory BytesCodec
  imports Framing
begin

text \<open>
  The length-prefixed framing of every peer connection
  (\<open>libs/hbb_common/src/bytes_codec.rs\<close>): a header of one to four bytes whose two low bits
  give its own length and whose other bits give the payload length, little endian, then the
  payload. \<open>usize\<close> values are natural numbers: the decoder only shifts and ORs bytes into
  them, below \<open>2^34\<close>, so no operation wraps.
\<close>

section \<open>State\<close>

datatype decode_state = Head | Data nat

record bytes_codec =
  state :: decode_state
  raw :: bool
  max_packet_length :: nat

definition codec_new :: bytes_codec where
  "codec_new = \<lparr>state = Head, raw = False, max_packet_length = usize_max\<rparr>"

definition set_raw :: "bytes_codec \<Rightarrow> bytes_codec" where
  "set_raw c = c\<lparr>raw := True\<rparr>"

definition set_max_packet_length :: "bytes_codec \<Rightarrow> nat \<Rightarrow> bytes_codec" where
  "set_max_packet_length c n = c\<lparr>max_packet_length := n\<rparr>"

section \<open>Decoding\<close>

text \<open>
  \<open>decode_head\<close> returns the payload length and the buffer after the header;
  \<open>Inr None\<close> asks for more bytes and leaves the buffer as it is.
\<close>

definition decode_head :: "bytes_codec \<Rightarrow> bytes \<Rightarrow> io_error + (nat \<times> bytes) option" where
  "decode_head c src =
     (if src = [] then Inr None
      else
        let head_len = unat ((src ! 0) AND 3) + 1 in
        if length src < head_len then Inr None
        else
          let n = unat (src ! 0);
              n = (if head_len > 1 then n OR push_bit 8 (unat (src ! 1)) else n);
              n = (if head_len > 2 then n OR push_bit 16 (unat (src ! 2)) else n);
              n = (if head_len > 3 then n OR push_bit 24 (unat (src ! 3)) else n);
              n = drop_bit 2 n
          in
          if n > max_packet_length c then Inl (InvalidData ''Too big packet'')
          else Inr (Some (n, drop head_len src)))"

definition decode_data :: "nat \<Rightarrow> bytes \<Rightarrow> (bytes \<times> bytes) option" where
  "decode_data n src = (if length src < n then None else Some (take n src, drop n src))"

text \<open>The whole decoder: new codec state, new buffer, result.\<close>

definition decode ::
  "bytes_codec \<Rightarrow> bytes \<Rightarrow> bytes_codec \<times> bytes \<times> (io_error + bytes option)" where
  "decode c src =
     (if raw c then
        (if src \<noteq> [] then (c, [], Inr (Some src)) else (c, src, Inr None))
      else
        case (case state c of
                Head \<Rightarrow> (case decode_head c src of
                   Inl e \<Rightarrow> Inl e
                 | Inr None \<Rightarrow> Inr None
                 | Inr (Some (n, src')) \<Rightarrow> Inr (Some (n, c\<lparr>state := Data n\<rparr>, src')))
              | Data n \<Rightarrow> Inr (Some (n, c, src))) of
          Inl e \<Rightarrow> (c, src, Inl e)
        | Inr None \<Rightarrow> (c, src, Inr None)
        | Inr (Some (n, c', src')) \<Rightarrow>
            (case decode_data n src' of
               Some (data, src'') \<Rightarrow> (c'\<lparr>state := Head\<rparr>, src'', Inr (Some data))
             | None \<Rightarrow> (c', src', Inr None)))"

section \<open>Encoding\<close>

definition put_u16_le :: "u16 \<Rightarrow> bytes" where
  "put_u16_le w = [ucast w, ucast (drop_bit 8 w)]"

definition put_u32_le :: "u32 \<Rightarrow> bytes" where
  "put_u32_le w =
     [ucast w, ucast (drop_bit 8 w), ucast (drop_bit 16 w), ucast (drop_bit 24 w)]"

definition encode_head :: "nat \<Rightarrow> bytes option" where
  "encode_head len =
     (if len \<le> 0x3F then Some [word_of_nat (push_bit 2 len)]
      else if len \<le> 0x3FFF then Some (put_u16_le (word_of_nat (push_bit 2 len) OR 1))
      else if len \<le> 0x3FFFFF then
        (let h = (word_of_nat (push_bit 2 len) :: u32) OR 2
         in Some (put_u16_le (ucast (h AND 0xFFFF)) @ [ucast (drop_bit 16 h)]))
      else if len \<le> 0x3FFFFFFF then Some (put_u32_le (word_of_nat (push_bit 2 len) OR 3))
      else None)"

definition encode :: "bytes_codec \<Rightarrow> bytes \<Rightarrow> bytes \<Rightarrow> io_error + bytes" where
  "encode c data buf =
     (if raw c then Inr (buf @ data)
      else case encode_head (length data) of
        None \<Rightarrow> Inl (InvalidInput ''Overflow'')
      | Some h \<Rightarrow> Inr (buf @ h @ data))"

section \<open>The header as base-256 digits\<close>

lemma unat_or_small:
  assumes "4 * len + k < 2 ^ LENGTH('a::len)" and "k < 4"
  shows "unat (word_of_nat (push_bit 2 len) OR (word_of_nat k :: 'a word)) = 4 * len + k"
proof -
  have "unat (word_of_nat (push_bit 2 len) OR (word_of_nat k :: 'a word))
     = unat (word_of_nat (push_bit 2 len) :: 'a word) OR unat (word_of_nat k :: 'a word)"
    by (simp add: unsigned_or_eq)
  also have "unat (word_of_nat (push_bit 2 len) :: 'a word) = push_bit 2 len"
    using assms(1) by (subst unat_of_nat) (simp add: push_bit_eq_mult)
  also have "unat (word_of_nat k :: 'a word) = k" 
    using assms(1) by (simp add: unat_of_nat)
  also have "push_bit 2 len OR k = 4 * len + k"
    using or_push_bit_nat[of k 2 len] assms(2) by (simp add: or.commute)
  finally show ?thesis .
qed

fun le_digits :: "nat \<Rightarrow> nat \<Rightarrow> nat list" where
  "le_digits 0 v = []"
| "le_digits (Suc n) v = v mod 256 # le_digits n (v div 256)"


lemma le_digits_num [simp]:
  "le_digits 1 v = [v mod 256]"
  "le_digits 2 v = [v mod 256, v div 256 mod 256]"
  "le_digits 3 v = [v mod 256, v div 256 mod 256, v div 65536 mod 256]"
  "le_digits 4 v = [v mod 256, v div 256 mod 256, v div 65536 mod 256, v div 16777216 mod 256]"
proof -
  have 4: "(4::nat) = Suc 3" by simp
  have d: "v div 256 div 256 = v div 65536" "v div 256 div 65536 = v div 16777216" for v :: nat
    by (simp_all add: div_mult2_eq[symmetric])
  show "le_digits 1 v = [v mod 256]" by (simp only: One_nat_def le_digits.simps)
  show *: "le_digits 2 v = [v mod 256, v div 256 mod 256]" for v
    by (simp only: numeral_2_eq_2 le_digits.simps)
  have s: "le_digits 3 v = v mod 256 # le_digits 2 (v div 256)" for v
    by (simp only: numeral_3_eq_3 numeral_2_eq_2 le_digits.simps)
  show **: "le_digits 3 v = [v mod 256, v div 256 mod 256, v div 65536 mod 256]" for v
    by (simp only: s * d)
  show "le_digits 4 v = [v mod 256, v div 256 mod 256, v div 65536 mod 256, v div 16777216 mod 256]"
    by (simp only: 4 le_digits.simps ** d)
qed

lemma length_le_digits [simp]: "length (le_digits n v) = n"
  by (induction n v rule: le_digits.induct) simp_all

lemma put_u16_le_digits: "map unat (put_u16_le w) = le_digits 2 (unat w)"
  by (simp only: put_u16_le_def list.map unat_ucast_mod unat_drop_bit_div le_digits_num) simp

lemma put_u32_le_digits: "map unat (put_u32_le w) = le_digits 4 (unat w)"
  by (simp only: put_u32_le_def list.map unat_ucast_mod unat_drop_bit_div le_digits_num) simp

lemma unat_low16: "unat (ucast ((w::u32) AND 0xFFFF) :: u16) = unat w mod 65536"
proof -
  have "unat (w AND 0xFFFF) = unat w AND 0xFFFF" by (simp add: unsigned_and_eq)
  also have "\<dots> = take_bit 16 (unat w)" by (simp add: take_bit_eq_mask mask_eq_exp_minus_1)
  finally show ?thesis by (simp add: unat_ucast_mod take_bit_eq_mod)
qed

lemma encode_head_digits:
  assumes "encode_head len = Some h"
  shows "\<exists>k. k < 4 \<and> map unat h = le_digits (k + 1) (4 * len + k) \<and> 4 * len + k < 256 ^ (k + 1)"
proof -
  have u16: "len \<le> 0x3FFF \<Longrightarrow> unat (word_of_nat (push_bit 2 len) OR (1::u16)) = 4 * len + 1"
    using unat_or_small[of len 1, where 'a=16] by simp
  have u24: "len \<le> 0x3FFFFF \<Longrightarrow> unat (word_of_nat (push_bit 2 len) OR (2::u32)) = 4 * len + 2"
    using unat_or_small[of len 2, where 'a=32] by simp
  have u32: "len \<le> 0x3FFFFFFF \<Longrightarrow> unat (word_of_nat (push_bit 2 len) OR (3::u32)) = 4 * len + 3"
    using unat_or_small[of len 3, where 'a=32] by simp
  consider "len \<le> 0x3F" | "0x3F < len" "len \<le> 0x3FFF" | "0x3FFF < len" "len \<le> 0x3FFFFF"
    | "0x3FFFFF < len" "len \<le> 0x3FFFFFFF" | "0x3FFFFFFF < len" by linarith
  then show ?thesis
  proof cases
    case 1
    then have "h = [word_of_nat (push_bit 2 len)]" using assms by (simp add: encode_head_def)
    then have "map unat h = [4 * len]" using 1 
      by (simp only: list.map unat_of_nat push_bit_eq_mult) simp
    then show ?thesis using 1 by (intro exI[of _ 0]) simp
  next
    case 2
    then have "h = put_u16_le (word_of_nat (push_bit 2 len) OR 1)" using assms by (simp add: encode_head_def)
    then show ?thesis using 2 u16 by (intro exI[of _ 1]) (simp add: put_u16_le_digits)
  next
    case 3
    define w where "w = (word_of_nat (push_bit 2 len) :: u32) OR 2"
    have w: "unat w = 4 * len + 2" using 3 u24 by (simp add: w_def)
    have "h = put_u16_le (ucast (w AND 0xFFFF)) @ [ucast (drop_bit 16 w)]"
      using assms 3 by (simp add: encode_head_def Let_def w_def)
    then have "map unat h = le_digits 2 (unat w mod 65536) @ [unat w div 65536 mod 256]"
      using unat_low16[of w] by (simp only: map_append put_u16_le_digits list.map unat_ucast_mod[of "drop_bit 16 w"] unat_drop_bit_div) simp
    also have "\<dots> = le_digits 3 (4 * len + 2)"
      using mod_mult2_eq[of "unat w" 256 256] by (simp add: w)
    finally show ?thesis using 3 by (intro exI[of _ 2]) simp
  next
    case 4
    then have "h = put_u32_le (word_of_nat (push_bit 2 len) OR 3)" using assms by (simp add: encode_head_def)
    then show ?thesis using 4 u32 by (intro exI[of _ 3]) (simp add: put_u32_le_digits)
  next
    case 5
    then show ?thesis using assms by (simp add: encode_head_def)
  qed
qed



lemma or_shifted_bytes:
  "(a::nat) < 256 \<Longrightarrow> a OR push_bit 8 b = a + 256 * b"
  "(a::nat) < 65536 \<Longrightarrow> a OR push_bit 16 b = a + 65536 * b"
  "(a::nat) < 16777216 \<Longrightarrow> a OR push_bit 24 b = a + 16777216 * b"
  using or_push_bit_nat[of a 8 b] or_push_bit_nat[of a 16 b] or_push_bit_nat[of a 24 b] by simp_all

lemma digits_sum:
  "v < 65536 \<Longrightarrow> v mod 256 + 256 * (v div 256 mod 256) = (v::nat)"
  "v < 16777216 \<Longrightarrow> v mod 256 + 256 * (v div 256 mod 256) + 65536 * (v div 65536 mod 256) = v"
  "v < 4294967296 \<Longrightarrow> v mod 256 + 256 * (v div 256 mod 256) + 65536 * (v div 65536 mod 256)
     + 16777216 * (v div 16777216 mod 256) = v"
  using mod_mult2_eq[of v 256 256] mod_mult2_eq[of v 65536 256] mod_mult2_eq[of v 16777216 256] by simp_all

lemma decode_head_digits:
  assumes h: "map unat h = le_digits (k + 1) v" and k: "v mod 4 = k" and v: "v < 256 ^ (k + 1)"
    and max: "v div 4 \<le> max_packet_length c"
  shows "decode_head c (h @ rest) = Inr (Some (v div 4, rest))"
proof -
  have k4: "k < 4" using k by auto
  have m: "v mod 256 mod 4 = k" using k by (simp add: mod_mod_cancel)
  from k4 consider "k = 0" | "k = 1" | "k = 2" | "k = 3" by linarith
  then show ?thesis
  proof cases
    case 1
    then obtain a where "h = [a]" "unat a = v mod 256" using h by (auto simp: map_eq_Cons_conv)
    then show ?thesis using 1 m v max
      by (simp add: decode_head_def unat_and_3 drop_bit_eq_div)
  next
    case 2
    then obtain a b where ab: "h = [a, b]" "unat a = v mod 256" "unat b = v div 256 mod 256" 
      using h by (auto simp: map_eq_Cons_conv)
    then show ?thesis using 2 m v max digits_sum(1)[of v]
      by (simp add: decode_head_def Let_def unat_and_3 drop_bit_eq_div or_shifted_bytes)
  next
    case 3
    then obtain a b d where ab: "h = [a, b, d]" "unat a = v mod 256" "unat b = v div 256 mod 256" 
      "unat d = v div 65536 mod 256" 
      using h by (auto simp: map_eq_Cons_conv)
    have "v mod 256 + 256 * (v div 256 mod 256) < 65536"
      using mod_less_divisor[of 256 v] mod_less_divisor[of 256 "v div 256"] by linarith
    then show ?thesis using ab 3 m v max digits_sum(2)[of v]
      by (simp add: decode_head_def Let_def unat_and_3 drop_bit_eq_div or_shifted_bytes)
  next
    case 4
    then obtain a b d e where ab: "h = [a, b, d, e]" "unat a = v mod 256" "unat b = v div 256 mod 256" 
      "unat d = v div 65536 mod 256" "unat e = v div 16777216 mod 256" 
      using h by (auto simp: map_eq_Cons_conv)
    have "v mod 256 + 256 * (v div 256 mod 256) < 65536" "v mod 256 + 256 * (v div 256 mod 256) + 65536 * (v div 65536 mod 256) < 16777216"
      using mod_less_divisor[of 256 v] mod_less_divisor[of 256 "v div 256"] mod_less_divisor[of 256 "v div 65536"] by linarith+
    then show ?thesis using ab 4 m v max digits_sum(3)[of v]
      by (simp add: decode_head_def Let_def unat_and_3 drop_bit_eq_div or_shifted_bytes)
  qed
qed

lemma decode_head_short:
  assumes "map unat h = le_digits (k + 1) v" and "v mod 4 = k" and "length src < length h" and "prefix src h"
  shows "decode_head c src = Inr None"
proof (cases src)
  case Nil then show ?thesis by (simp add: decode_head_def)
next
  case (Cons a as)
  then have "a = hd h" "h \<noteq> []" using assms(4) by (auto simp: prefix_def)
  then have "unat a = v mod 256" using assms(1) by (cases h) auto
  then have "unat (a AND 3) = k" using assms(2) by (simp add: unat_and_3 mod_mod_cancel)
  moreover have "length h = k + 1" using arg_cong[OF assms(1), of length] by simp
  ultimately show ?thesis using Cons assms(3) by (simp add: decode_head_def)
qed


section \<open>One frame\<close>

text \<open>\<open>encode_seq\<close> appends several messages to one send buffer.\<close>

fun encode_seq :: "bytes_codec \<Rightarrow> bytes list \<Rightarrow> bytes \<Rightarrow> io_error + bytes" where
  "encode_seq c [] buf = Inr buf"
| "encode_seq c (m # ms) buf =
     (case encode c m buf of Inl e \<Rightarrow> Inl e | Inr buf' \<Rightarrow> encode_seq c ms buf')"

definition header :: "nat \<Rightarrow> bytes" where
  "header n = (case encode_head n of Some h \<Rightarrow> h | None \<Rightarrow> [])"

definition frame :: "bytes \<Rightarrow> bytes" where
  "frame m = header (length m) @ m"

definition fits :: "nat \<Rightarrow> bytes \<Rightarrow> bool" where
  "fits mx m \<longleftrightarrow> length m \<le> 0x3FFFFFFF \<and> length m \<le> mx"

definition codec_rep :: "nat \<Rightarrow> bytes_codec \<Rightarrow> bytes \<Rightarrow> bool" where
  "codec_rep mx c pre \<longleftrightarrow>
     (c = set_max_packet_length codec_new mx \<and> pre = []) \<or>
     (\<exists>n. n \<le> 0x3FFFFFFF \<and> n \<le> mx \<and> pre = header n
        \<and> c = (set_max_packet_length codec_new mx)\<lparr>state := Data n\<rparr>)"

lemma codec_repE:
  assumes "codec_rep mx c pre"
    and "c = set_max_packet_length codec_new mx \<Longrightarrow> pre = [] \<Longrightarrow> P"
    and "\<And>n. n \<le> 0x3FFFFFFF \<Longrightarrow> n \<le> mx \<Longrightarrow> pre = header n \<Longrightarrow>
      c = (set_max_packet_length codec_new mx)\<lparr>state := Data n\<rparr> \<Longrightarrow> P"
  shows P
  using assms by (auto simp: codec_rep_def)

lemma header_some: "n \<le> 0x3FFFFFFF \<Longrightarrow> encode_head n = Some (header n)"
  by (simp add: header_def encode_head_def Let_def)

lemma decode_head_header:
  assumes "n \<le> 0x3FFFFFFF" and "n \<le> max_packet_length c"
  shows "decode_head c (header n @ rest) = Inr (Some (n, rest))"
proof -
  obtain k where k: "k < 4" "map unat (header n) = le_digits (k + 1) (4 * n + k)" "4 * n + k < 256 ^ (k + 1)"
    using encode_head_digits [OF header_some [OF assms(1)]] by auto
  have "(4 * n + k) mod 4 = k" "(4 * n + k) div 4 = n" using k(1) by auto
  then show ?thesis using decode_head_digits [of "header n" k "4 * n + k" c rest] k assms(2) by simp
qed

lemma decode_head_header_short:
  assumes "n \<le> 0x3FFFFFFF" and "strict_prefix src (header n)"
  shows "decode_head c src = Inr None"
proof -
  obtain k where k: "k < 4" "map unat (header n) = le_digits (k + 1) (4 * n + k)"
    using encode_head_digits [OF header_some [OF assms(1)]] by auto
  have "(4 * n + k) mod 4 = k" using k(1) by auto
  moreover have "length src < length (header n)" "prefix src (header n)"
    using assms(2) by (simp_all add: prefix_length_less)
  ultimately show ?thesis using decode_head_short [of "header n" k "4 * n + k" src c] k by blast
qed

lemma header_nonempty: "n \<le> 0x3FFFFFFF \<Longrightarrow> header n \<noteq> []"
  using encode_head_digits [OF header_some, of n] by auto

lemma header_unique:
  assumes "n \<le> 0x3FFFFFFF" and "n' \<le> 0x3FFFFFFF" and "header n @ xs = header n' @ ys"
  shows "n = n' \<and> xs = ys"
  using decode_head_header [OF assms(1), of codec_new xs] decode_head_header [OF assms(2), of codec_new ys]
    assms by (simp add: codec_new_def)

lemma encode_frame:
  "encode codec_new m buf =
     (if length m \<le> 0x3FFFFFFF then Inr (buf @ frame m) else Inl (InvalidInput ''Overflow''))"
  using header_some [of "length m"]
  by (simp add: encode_def codec_new_def frame_def) (simp add: encode_head_def)

interpretation codec: framing frame "fits mx" decode "set_max_packet_length codec_new mx" "codec_rep mx"
  for mx :: nat
proof unfold_locales
  fix m :: bytes
  assume "fits mx m"
  then show "frame m \<noteq> []" by (simp add: frame_def fits_def header_nonempty)
next
  show "codec_rep mx (set_max_packet_length codec_new mx) []" by (simp add: codec_rep_def)
next
  show "decode (set_max_packet_length codec_new mx) [] = (set_max_packet_length codec_new mx, [], Inr None)"
    by (simp add: decode_def decode_head_def set_max_packet_length_def codec_new_def)
next
  fix m s pre buf rest
  assume m: "fits mx m" and rep: "codec_rep mx s pre" and eq: "pre @ buf = frame m @ rest"
  show "decode s buf = (set_max_packet_length codec_new mx, rest, Inr (Some m))"
    using rep
  proof (rule codec_repE)
    assume "s = set_max_packet_length codec_new mx" and "pre = []"
    then show ?thesis using m eq decode_head_header [of "length m" s "m @ rest"]
      by (simp add: decode_def fits_def frame_def decode_data_def set_max_packet_length_def codec_new_def)
  next
    fix n
    assume n: "n \<le> 0x3FFFFFFF" "n \<le> mx" "pre = header n"
      and s: "s = (set_max_packet_length codec_new mx)\<lparr>state := Data n\<rparr>"
    have "n = length m" "buf = m @ rest"
      using header_unique [of n "length m" buf "m @ rest"] n eq m by (auto simp: frame_def fits_def)
    then show ?thesis using s by (simp add: decode_def decode_data_def set_max_packet_length_def codec_new_def)
  qed
next
  fix m s pre buf
  assume m: "fits mx m" and rep: "codec_rep mx s pre" and sp: "strict_prefix (pre @ buf) (frame m)"
  obtain ys where ys: "pre @ buf @ ys = header (length m) @ m" "ys \<noteq> []"
    using sp by (auto simp: strict_prefix_def prefix_def frame_def)
  show "\<exists>s' pre' buf'. decode s buf = (s', buf', Inr None) \<and> codec_rep mx s' pre' \<and> pre' @ buf' = pre @ buf"
    using rep
  proof (rule codec_repE)
    assume s: "s = set_max_packet_length codec_new mx" and pre: "pre = []"
    show ?thesis
    proof (cases "length buf < length (header (length m))")
      case True
      then have "strict_prefix buf (header (length m))"
        using ys pre by (metis append_Nil append_eq_append_conv_if less_le_not_le prefixI
            prefix_length_le prefix_same_cases strict_prefixI)
      then have "decode s buf = (s, buf, Inr None)"
        using decode_head_header_short [of "length m" buf s] m s
        by (simp add: decode_def fits_def set_max_packet_length_def codec_new_def)
      then show ?thesis using s pre unfolding codec_rep_def by blast
    next
      case False
      then obtain b where b: "buf = header (length m) @ b" "b @ ys = m"
        using ys pre append_eq_prefix_cases [of buf ys "header (length m)" m] by auto
      then have "length b < length m" using ys(2) by auto
      then have d: "decode s buf = (s\<lparr>state := Data (length m)\<rparr>, b, Inr None)"
        using decode_head_header [of "length m" s b] m s b(1)
        by (simp add: decode_def fits_def decode_data_def set_max_packet_length_def codec_new_def)
      have "codec_rep mx (s\<lparr>state := Data (length m)\<rparr>) (header (length m))"
        using m s by (auto simp: codec_rep_def fits_def)
      then show ?thesis using d b pre unfolding codec_rep_def by auto
    qed
  next
    fix n
    assume n: "n \<le> 0x3FFFFFFF" "n \<le> mx" "pre = header n"
      and s: "s = (set_max_packet_length codec_new mx)\<lparr>state := Data n\<rparr>"
    have "n = length m" "buf @ ys = m"
      using header_unique [of n "length m" "buf @ ys" m] n ys m by (auto simp: fits_def)
    then have "length buf < n" using ys(2) by auto
    then have "decode s buf = (s, buf, Inr None)"
      using s by (simp add: decode_def decode_data_def set_max_packet_length_def codec_new_def)
    then show ?thesis using rep unfolding codec_rep_def by blast
  qed
qed

section \<open>Streams\<close>

lemma codec_new_max: "set_max_packet_length codec_new usize_max = codec_new"
  by (simp add: set_max_packet_length_def codec_new_def)

lemma encode_seq_stream:
  "encode_seq codec_new ms buf = Inr out \<Longrightarrow>
     (\<forall>m\<in>set ms. length m \<le> 0x3FFFFFFF) \<and> out = buf @ codec.stream ms"
  by (induction ms arbitrary: buf) (force simp: encode_frame split: if_splits sum.splits)+

text \<open>
  C3. However the network cuts the bytes of any sequence of encoded messages into chunks, the
  reading loop of a fresh codec terminates on every chunk and returns exactly the messages, in
  order, with no bytes left over and no error.
\<close>

theorem codec_any_chunking:
  assumes "encode_seq codec_new ms [] = Inr out" and "concat chunks = out"
  shows "feed decode codec_new [] chunks = Some (codec_new, [], ms, None)"
proof -
  have ms: "\<forall>m\<in>set ms. length m \<le> 0x3FFFFFFF" "out = codec.stream ms"
    using encode_seq_stream [OF assms(1)] by auto
  then show ?thesis
    using codec.feed_stream [of ms usize_max chunks] assms(2) unfolding codec_new_max
    by (fastforce simp: fits_def)
qed

theorem codec_any_chunking_witness:
  "feed decode codec_new [] [[4], [], [7, 8, 1], [2]] = Some (codec_new, [], [[7], [1, 2]], None)"
  by (rule codec_any_chunking [of "[[7], [1, 2]]" "[4, 7, 8, 1, 2]"])
     (simp_all add: encode_def encode_head_def codec_new_def push_bit_eq_mult)

text \<open>
  A header that announces more than the configured maximum is refused with \<open>Too big packet\<close>,
  whatever follows it, and neither the codec nor the buffer changes; every announced length up to
  the maximum is accepted.
\<close>

theorem codec_too_big:
  assumes "encode_head n = Some h" and "mx < n"
  shows "decode (set_max_packet_length codec_new mx) (h @ rest) =
    (set_max_packet_length codec_new mx, h @ rest, Inl (InvalidData ''Too big packet''))"
proof -
  have n: "n \<le> 0x3FFFFFFF" "h = header n"
    using assms(1) by (auto simp: header_def) (auto simp: encode_head_def split: if_splits)
  have "decode_head (codec_new\<lparr>max_packet_length := n\<rparr>) (header n @ rest) = Inr (Some (n, rest))"
    by (rule decode_head_header) (use n in simp_all)
  then have "decode_head (set_max_packet_length codec_new mx) (header n @ rest) =
      Inl (InvalidData ''Too big packet'')"
    using assms(2) by (auto simp: decode_head_def set_max_packet_length_def Let_def split: if_splits)
  moreover have "state (set_max_packet_length codec_new mx) = Head" "\<not> raw (set_max_packet_length codec_new mx)"
    by (simp_all add: set_max_packet_length_def codec_new_def)
  ultimately show ?thesis by (simp add: decode_def n(2))
qed

theorem codec_too_big_witness:
  "snd (snd (decode (set_max_packet_length codec_new 63) [1, 1])) =
     Inl (InvalidData ''Too big packet'')"
  using codec_too_big [of 64 "[1, 1]" 63 "[]"]
  by (simp add: encode_head_def put_u16_le_def push_bit_eq_mult)

end
