(* ===== verification/SecureStream.thy ===== *)
theory SecureStream
  imports BytesCodec
begin

text \<open>
  The encrypted message stream of \<open>libs/hbb_common/src/tcp.rs\<close>: \<open>Encrypt\<close> numbers the messages
  of each direction and uses the number as the nonce, \<open>FramedStream\<close> puts it between the
  caller and the frame codec. \<open>box_fns\<close> are sodiumoxide's functions. Time-outs and the socket
  are left out: what is sent is the bytes written to it.
\<close>

section \<open>Encryption of numbered messages\<close>

type_synonym key = bytes
type_synonym nonce = bytes

record box_fns =
  seal :: "bytes \<Rightarrow> nonce \<Rightarrow> key \<Rightarrow> bytes"
  open_box :: "bytes \<Rightarrow> nonce \<Rightarrow> key \<Rightarrow> bytes option"
  open_pk :: "bytes \<Rightarrow> nonce \<Rightarrow> bytes \<Rightarrow> bytes \<Rightarrow> bytes option"

record encrypt =
  enc_key :: key
  enc_seq :: u64
  dec_seq :: u64

abbreviation "NONCEBYTES \<equiv> (24 :: nat)"
abbreviation "PUBLICKEYBYTES \<equiv> (32 :: nat)"
abbreviation "SECRETKEYBYTES \<equiv> (32 :: nat)"

definition u64_le_bytes :: "u64 \<Rightarrow> bytes" where
  "u64_le_bytes w = map (\<lambda>i. ucast (drop_bit (8 * i) w)) [0..<8]"

definition get_nonce :: "u64 \<Rightarrow> nonce" where
  "get_nonce seqnum =
     (let nonce = replicate NONCEBYTES 0 in u64_le_bytes seqnum @ drop 8 nonce)"

definition encrypt_new :: "key \<Rightarrow> encrypt" where
  "encrypt_new key = \<lparr>enc_key = key, enc_seq = 0, dec_seq = 0\<rparr>"

definition enc :: "box_fns \<Rightarrow> encrypt \<Rightarrow> bytes \<Rightarrow> encrypt \<times> bytes" where
  "enc f k data =
     (let k = k\<lparr>enc_seq := enc_seq k + 1\<rparr>
      in (k, seal f data (get_nonce (enc_seq k)) (enc_key k)))"

text \<open>\<open>dec\<close> returns the new state, the buffer and whether decryption succeeded.\<close>

definition dec_box :: "box_fns \<Rightarrow> encrypt \<Rightarrow> bytes \<Rightarrow> encrypt \<times> (io_error + bytes)" where
  "dec_box f k data =
     (if length data \<le> 1 then (k, Inr data)
      else
        let k = k\<lparr>dec_seq := dec_seq k + 1\<rparr>
        in case open_box f data (get_nonce (dec_seq k)) (enc_key k) of
             Some res \<Rightarrow> (k, Inr res)
           | None \<Rightarrow> (k, Inl (OtherError ''decryption error'')))"

text \<open>The key a client sent in the handshake.\<close>

definition handshake_key :: "box_fns \<Rightarrow> bytes \<Rightarrow> bytes \<Rightarrow> bytes \<Rightarrow> string + key" where
  "handshake_key f symmetric_data their_pk our_sk =
     (if length their_pk \<noteq> PUBLICKEYBYTES then Inl ''Handshake failed: pk length''
      else case open_pk f symmetric_data (replicate NONCEBYTES 0) their_pk our_sk of
        None \<Rightarrow> Inl ''Handshake failed: box decryption failure''
      | Some k \<Rightarrow>
          if length k \<noteq> SECRETKEYBYTES
          then Inl ''Handshake failed: invalid secret key length from peer''
          else Inr k)"

section \<open>The stream\<close>

record framed_stream =
  fs_codec :: bytes_codec
  fs_crypt :: "encrypt option"

definition stream_new :: framed_stream where
  "stream_new = \<lparr>fs_codec = codec_new, fs_crypt = None\<rparr>"

definition stream_set_raw :: "framed_stream \<Rightarrow> framed_stream" where
  "stream_set_raw s = s\<lparr>fs_codec := set_raw (fs_codec s), fs_crypt := None\<rparr>"

definition is_secured :: "framed_stream \<Rightarrow> bool" where
  "is_secured s = (fs_crypt s \<noteq> None)"

definition set_key :: "key \<Rightarrow> framed_stream \<Rightarrow> framed_stream" where
  "set_key key s = s\<lparr>fs_crypt := Some (encrypt_new key)\<rparr>"

text \<open>\<open>send_raw\<close> writes to the end of \<open>out\<close>.\<close>

definition send_raw ::
  "box_fns \<Rightarrow> framed_stream \<Rightarrow> bytes \<Rightarrow> bytes \<Rightarrow> framed_stream \<times> (io_error + bytes)" where
  "send_raw f s msg out =
     (let (s, msg) =
        (case fs_crypt s of
           Some key \<Rightarrow> (case enc f key msg of (key, msg) \<Rightarrow> (s\<lparr>fs_crypt := Some key\<rparr>, msg))
         | None \<Rightarrow> (s, msg))
      in (s, encode (fs_codec s) msg out))"

text \<open>
  \<open>next\<close> once the codec has taken a frame: the frame is decrypted in place. A reader calls it for
  every frame the codec delivers and stops at the first error.
\<close>

definition next_message :: "box_fns \<Rightarrow> framed_stream \<Rightarrow> bytes \<Rightarrow> framed_stream \<times> (io_error + bytes)" where
  "next_message f s bs =
     (case fs_crypt s of
        Some key \<Rightarrow> (case dec_box f key bs of (key, r) \<Rightarrow> (s\<lparr>fs_crypt := Some key\<rparr>, r))
      | None \<Rightarrow> (s, Inr bs))"

fun send_all :: "box_fns \<Rightarrow> framed_stream \<Rightarrow> bytes list \<Rightarrow> bytes \<Rightarrow> framed_stream \<times> (io_error + bytes)" where
  "send_all f s [] out = (s, Inr out)"
| "send_all f s (m # ms) out =
     (case send_raw f s m out of
        (s, Inl e) \<Rightarrow> (s, Inl e)
      | (s, Inr out) \<Rightarrow> send_all f s ms out)"

fun next_all :: "box_fns \<Rightarrow> framed_stream \<Rightarrow> bytes list \<Rightarrow> framed_stream \<times> bytes list \<times> io_error option" where
  "next_all f s [] = (s, [], None)"
| "next_all f s (x # xs) =
     (case next_message f s x of
        (s, Inl e) \<Rightarrow> (s, [], Some e)
      | (s, Inr m) \<Rightarrow> (case next_all f s xs of (s, ms, e) \<Rightarrow> (s, m # ms, e)))"

text \<open>Everything that arrives in \<open>chunks\<close>: the codec loop, then \<open>next\<close> on its frames.\<close>

definition receive ::
  "box_fns \<Rightarrow> framed_stream \<Rightarrow> bytes list \<Rightarrow> (framed_stream \<times> bytes list \<times> io_error option) option" where
  "receive f s chunks =
     (case feed decode (fs_codec s) [] chunks of
        Some (c, _, frames, e) \<Rightarrow>
          (case next_all f (s\<lparr>fs_codec := c\<rparr>) frames of
             (s, ms, e') \<Rightarrow> Some (s, ms, if e' = None then e else e'))
      | None \<Rightarrow> None)"

section \<open>Facts\<close>

definition box_fns_ok :: "box_fns \<Rightarrow> bool" where
  "box_fns_ok f \<longleftrightarrow>
     (\<forall>m n k. open_box f (seal f m n k) n k = Some m \<and> length (seal f m n k) = length m + 16)"

text \<open>The ciphertexts of a list of messages, numbered from \<open>i + 1\<close>.\<close>

fun sealed :: "box_fns \<Rightarrow> key \<Rightarrow> u64 \<Rightarrow> bytes list \<Rightarrow> bytes list" where
  "sealed f k i [] = []"
| "sealed f k i (m # ms) = seal f m (get_nonce (i + 1)) k # sealed f k (i + 1) ms"

lemma send_all_sealed:
  assumes "fs_crypt s = Some key" and "fs_codec s = codec_new" and "box_fns_ok f"
    and "\<forall>m\<in>set ms. length m + 16 \<le> 0x3FFFFFFF"
  shows "\<exists>out'. encode_seq codec_new (sealed f (enc_key key) (enc_seq key) ms) out = Inr out' \<and>
    send_all f s ms out =
      (s\<lparr>fs_crypt := Some (key\<lparr>enc_seq := enc_seq key + of_nat (length ms)\<rparr>)\<rparr>, Inr out')"
  using assms
proof (induction ms arbitrary: s key out)
  case (Cons m ms)
  let ?k = "key\<lparr>enc_seq := enc_seq key + 1\<rparr>"
  let ?c = "seal f m (get_nonce (enc_seq key + 1)) (enc_key key)"
  have len: "length ?c \<le> 0x3FFFFFFF" using Cons.prems(3,4) by (simp add: box_fns_ok_def)
  have send: "send_raw f s m out = (s\<lparr>fs_crypt := Some ?k\<rparr>, Inr (out @ frame ?c))"
    using Cons.prems(1,2) len by (simp add: send_raw_def enc_def Let_def encode_frame)
  obtain out' where "encode_seq codec_new (sealed f (enc_key key) (enc_seq key + 1) ms) (out @ frame ?c) = Inr out'"
    and "send_all f (s\<lparr>fs_crypt := Some ?k\<rparr>) ms (out @ frame ?c) =
      (s\<lparr>fs_crypt := Some (key\<lparr>enc_seq := enc_seq key + 1 + of_nat (length ms)\<rparr>)\<rparr>, Inr out')"
    using Cons.IH [of "s\<lparr>fs_crypt := Some ?k\<rparr>" ?k "out @ frame ?c"] Cons.prems by auto
  then show ?case using send len by (simp add: encode_frame add.assoc)
qed simp

lemma next_all_sealed:
  assumes "fs_crypt s = Some key" and "box_fns_ok f"
  shows "next_all f s (sealed f (enc_key key) (dec_seq key) ms) =
    (s\<lparr>fs_crypt := Some (key\<lparr>dec_seq := dec_seq key + of_nat (length ms)\<rparr>)\<rparr>, ms, None)"
  using assms
proof (induction ms arbitrary: s key)
  case (Cons m ms)
  let ?k = "key\<lparr>dec_seq := dec_seq key + 1\<rparr>"
  have "next_message f s (seal f m (get_nonce (dec_seq key + 1)) (enc_key key)) =
      (s\<lparr>fs_crypt := Some ?k\<rparr>, Inr m)"
    using Cons.prems by (simp add: next_message_def dec_box_def Let_def box_fns_ok_def)
  then show ?case
    using Cons.IH [of "s\<lparr>fs_crypt := Some ?k\<rparr>" ?k] Cons.prems by (simp add: add.assoc)
qed simp

text \<open>
  C6. Two ends that agreed on a key: whatever messages one end sends and however the network cuts
  the bytes, the other end receives exactly these messages in order, and both ends have counted
  them alike, so that the channel stays usable.
\<close>

theorem secure_channel_delivers:
  assumes "box_fns_ok f" and "\<forall>m\<in>set ms. length m + 16 \<le> 0x3FFFFFFF"
    and "send_all f (set_key k stream_new) ms [] = (s, Inr out)" and "concat chunks = out"
  shows "\<exists>r. receive f (set_key k stream_new) chunks = Some (r, ms, None) \<and>
    dec_seq (the (fs_crypt r)) = enc_seq (the (fs_crypt s))"
proof -
  have s0: "fs_crypt (set_key k stream_new) = Some (encrypt_new k)"
    "fs_codec (set_key k stream_new) = codec_new"
    by (simp_all add: set_key_def stream_new_def)
  have n: "enc_key (encrypt_new k) = k" "enc_seq (encrypt_new k) = 0" "dec_seq (encrypt_new k) = 0"
    by (simp_all add: encrypt_new_def)
  note sent = send_all_sealed [OF s0 assms(1,2), of "[]", unfolded n]
  have e: "encode_seq codec_new (sealed f k 0 ms) [] = Inr out"
    and c: "enc_seq (the (fs_crypt s)) = of_nat (length ms)"
    using sent assms(3) by auto
  have "feed decode codec_new [] chunks = Some (codec_new, [], sealed f k 0 ms, None)"
  proof -
    have ms: "\<forall>m\<in>set (sealed f k 0 ms). length m \<le> 0x3FFFFFFF" "out = codec.stream (sealed f k 0 ms)"
      using encode_seq_stream [OF e] by auto
    then show ?thesis
      using codec.feed_stream [of "sealed f k 0 ms" usize_max chunks] assms(4) unfolding codec_new_max
      by (fastforce simp: fits_def)
  qed
  moreover have r: "(set_key k stream_new)\<lparr>fs_codec := codec_new\<rparr> = set_key k stream_new"
    by (simp add: set_key_def stream_new_def)
  ultimately show ?thesis
    using next_all_sealed [OF s0(1) assms(1), unfolded n, of ms] c s0
    by (simp add: receive_def r)
qed

definition demo_box :: box_fns where
  "demo_box = \<lparr>seal = (\<lambda>m n k. replicate 16 0 @ m), open_box = (\<lambda>c n k. Some (drop 16 c)),
     open_pk = (\<lambda>c n p s. None)\<rparr>"

theorem secure_channel_delivers_witness:
  "\<exists>r. receive demo_box (set_key [1] stream_new)
      [frame (replicate 16 0 @ [9]), frame (replicate 16 0 @ [])] = Some (r, [[9], []], None)"
proof -
  have ok: "box_fns_ok demo_box" by (simp add: box_fns_ok_def demo_box_def)
  let ?s0 = "set_key [1] stream_new"
  have s0: "fs_crypt ?s0 = Some (encrypt_new [1])" "fs_codec ?s0 = codec_new"
    by (simp_all add: set_key_def stream_new_def)
  obtain s where "send_all demo_box ?s0 [[9], []] [] =
      (s, Inr (frame (replicate 16 0 @ [9]) @ frame (replicate 16 0 @ [])))"
    by (simp add: send_raw_def enc_def s0 Let_def encode_frame demo_box_def)
  from secure_channel_delivers [OF ok _ this, of "[frame (replicate 16 0 @ [9]), frame (replicate 16 0 @ [])]"]
  show ?thesis by auto
qed

section \<open>Nonces\<close>

lemma u64_le_bytes_inj: "u64_le_bytes a = u64_le_bytes b \<Longrightarrow> a = b"
proof (rule bit_eqI)
  fix n :: nat
  assume eq: "u64_le_bytes a = u64_le_bytes b" and "possible_bit TYPE(u64) n"
  then have n: "n < 64" by simp
  let ?i = "n div 8"
  have i: "?i < 8" using n by simp
  have nth: "u64_le_bytes w ! j = ucast (drop_bit (8 * j) w)" if "j < 8" for w j
    using that by (simp add: u64_le_bytes_def del: upt_rec_numeral)
  have "bit (u64_le_bytes w ! ?i) (n mod 8) = bit w n" for w
    using nth [OF i, of w] by (simp add: bit_simps)
  then show "bit a n = bit b n" using eq by metis
qed

lemma length_u64_le_bytes [simp]: "length (u64_le_bytes w) = 8"
  by (simp add: u64_le_bytes_def)

lemma get_nonce_inj: "get_nonce a = get_nonce b \<longleftrightarrow> a = b"
  using u64_le_bytes_inj [of a b] by (auto simp: get_nonce_def Let_def)

text \<open>\<open>nonces k n\<close>: the nonces under which a sender in state \<open>k\<close> seals its next \<open>n\<close> messages.\<close>

definition nonces :: "encrypt \<Rightarrow> nat \<Rightarrow> nonce list" where
  "nonces k n = map (\<lambda>i. get_nonce (enc_seq k + of_nat i)) [1..<Suc n]"

text \<open>
  One end never seals two of its messages under the same nonce, for as many messages as the
  64-bit counter can tell apart.
\<close>

theorem nonces_distinct_one_way:
  assumes "n < 2 ^ 64"
  shows "distinct (nonces (encrypt_new k) n) \<and> length (nonces (encrypt_new k) n) = n"
proof -
  have "inj_on (\<lambda>i. get_nonce (of_nat i)) {1..<Suc n}"
  proof (rule inj_onI)
    fix i j assume "i \<in> {1..<Suc n}" "j \<in> {1..<Suc n}" and eq: "get_nonce (of_nat i) = get_nonce (of_nat j)"
    then have "i < 2 ^ LENGTH(64)" "j < 2 ^ LENGTH(64)" using assms by auto
    note of_nat_inverse [OF refl this(1)] of_nat_inverse [OF refl this(2)]
    moreover have "(of_nat i :: u64) = of_nat j" using eq by (simp only: get_nonce_inj)
    ultimately show "i = j" by metis
  qed
  then show ?thesis
    by (simp add: nonces_def distinct_map encrypt_new_def atLeastLessThanSuc del: upt_Suc)
qed

theorem nonces_distinct_one_way_witness: "distinct (nonces (encrypt_new [1]) 3)"
  using nonces_distinct_one_way [of 3 "[1]"] by simp

lemma sealed_nth:
  "i < length ms \<Longrightarrow> sealed f k n ms ! i = seal f (ms ! i) (get_nonce (n + 1 + of_nat i)) k"
proof (induction ms arbitrary: i n)
  case (Cons m ms)
  then show ?case by (cases i) (simp_all add: add.assoc)
qed simp

lemma length_sealed [simp]: "length (sealed f k n ms) = length ms"
  by (induction f k n ms rule: sealed.induct) simp_all

lemma sealed_map:
  "sealed f k 0 ms = map (\<lambda>i. seal f (ms ! i) (get_nonce (of_nat (Suc i))) k) [0..<length ms]"
  by (rule nth_equalityI) (simp_all add: sealed_nth add.commute)

text \<open>What a fresh end writes, and what an end in the state it is left in makes of such bytes.\<close>

lemma fresh_sends:
  assumes "box_fns_ok f" and "\<forall>m \<in> set ms. length m + 16 \<le> 0x3FFFFFFF"
  shows "send_all f (set_key k stream_new) ms [] =
    ((set_key k stream_new)\<lparr>fs_crypt := Some ((encrypt_new k)\<lparr>enc_seq := of_nat (length ms)\<rparr>)\<rparr>,
     Inr (codec.stream (sealed f k 0 ms)))"
proof -
  have s0: "fs_crypt (set_key k stream_new) = Some (encrypt_new k)"
    "fs_codec (set_key k stream_new) = codec_new" by (simp_all add: set_key_def stream_new_def)
  obtain out where out: "encode_seq codec_new (sealed f k 0 ms) [] = Inr out"
    "send_all f (set_key k stream_new) ms [] =
      ((set_key k stream_new)\<lparr>fs_crypt := Some ((encrypt_new k)\<lparr>enc_seq := of_nat (length ms)\<rparr>)\<rparr>, Inr out)"
    using send_all_sealed [OF s0 assms, of "[]"] by (auto simp: encrypt_new_def)
  then show ?thesis using encode_seq_stream [OF out(1)] by simp
qed

lemma receives_sealed:
  assumes "fs_crypt s = Some key" and "fs_codec s = codec_new" and "box_fns_ok f"
    and "\<forall>m \<in> set ms. length m + 16 \<le> 0x3FFFFFFF"
    and "concat chunks = codec.stream (sealed f (enc_key key) (dec_seq key) ms)"
  shows "\<exists>r. receive f s chunks = Some (r, ms, None)"
proof -
  let ?xs = "sealed f (enc_key key) (dec_seq key) ms"
  have "\<forall>x \<in> set ?xs. length x \<le> 0x3FFFFFFF"
    using assms(3,4) nth_mem [of _ ms] by (auto simp: in_set_conv_nth [of _ ?xs] sealed_nth box_fns_ok_def)
  then have "feed decode codec_new [] chunks = Some (codec_new, [], ?xs, None)"
    using codec.feed_stream [of ?xs usize_max chunks] assms(5) unfolding codec_new_max
    by (fastforce simp: fits_def)
  moreover have r: "s\<lparr>fs_codec := codec_new\<rparr> = s" unfolding assms(2) [symmetric] by simp
  ultimately show ?thesis
    using next_all_sealed [OF assms(1,3), of ms] by (simp add: receive_def assms(2) r)
qed

text \<open>
  C39. The two ends of a connection share one key and both count from one: what either writes is its
  messages in order, the i-th sealed under the nonce of the number i and the shared key, so the i-th
  messages of the two directions are sealed under the same key and the same nonce. Nothing in a
  frame tells the directions apart: an end that is given its own frames back, however they are cut,
  takes them for the messages of the other end.
\<close>

theorem directions_reuse_nonces:
  fixes f :: box_fns and k :: key
  defines "frames ms \<equiv> map (\<lambda>i. frame (seal f (ms ! i) (get_nonce (of_nat (Suc i))) k)) [0..<length ms]"
  assumes "box_fns_ok f" and "\<forall>m \<in> set ms \<union> set ms'. length m + 16 \<le> 0x3FFFFFFF"
  shows "\<exists>a b. send_all f (set_key k stream_new) ms [] = (a, Inr (concat (frames ms))) \<and>
    send_all f (set_key k stream_new) ms' [] = (b, Inr (concat (frames ms'))) \<and>
    (\<forall>chunks. concat chunks = concat (frames ms) \<longrightarrow> (\<exists>r. receive f a chunks = Some (r, ms, None)))"
proof -
  have stream: "codec.stream (sealed f k 0 xs) = concat (frames xs)" for xs
    by (simp add: codec.stream_def sealed_map frames_def comp_def)
  note out = fresh_sends [OF assms(2), of _ k, unfolded stream]
  have "\<exists>r. receive f (fst (send_all f (set_key k stream_new) ms [])) chunks = Some (r, ms, None)"
    if "concat chunks = concat (frames ms)" for chunks
    using receives_sealed [of _ "(encrypt_new k)\<lparr>enc_seq := of_nat (length ms)\<rparr>" f ms chunks] out [of ms] assms(2,3) that
    by (simp add: stream [of ms, symmetric] encrypt_new_def set_key_def stream_new_def)
  then show ?thesis using out [of ms] out [of ms'] assms(3) by (auto simp del: stream)
qed

theorem directions_reuse_nonces_witness:
  "(\<exists>r. receive demo_box (fst (send_all demo_box (set_key [1] stream_new) [[9]] []))
      [frame (replicate 16 0 @ [9])] = Some (r, [[9]], None)) \<and>
   snd (send_all demo_box (set_key [1] stream_new) [[8]] []) = Inr (frame (seal demo_box [8] (get_nonce 1) [1]))"
proof -
  have "box_fns_ok demo_box" by (simp add: box_fns_ok_def demo_box_def)
  from directions_reuse_nonces [OF this, of "[[9]]" "[[8]]" "[1]"]
  show ?thesis by (force simp: demo_box_def)
qed

text \<open>A frame of at most one byte is not decrypted and does not count, even on a secured stream.\<close>

lemma short_frame_passes:
  "length m \<le> 1 \<Longrightarrow> fs_crypt s = Some k \<Longrightarrow> next_message f s m = (s, Inr m)"
  by (simp add: next_message_def dec_box_def)

lemma raw_is_not_secured: "\<not> is_secured (stream_set_raw s)"
  by (simp add: is_secured_def stream_set_raw_def)

end
