(* ===== verification/Text.thy ===== *)
theory Text
  imports Prelude
begin

text \<open>
  The string operations of the Rust standard library that the modelled code uses, on UTF-8 byte
  strings. \<open>split_on\<close> is \<open>str::split\<close> with a one-byte pattern (always at least one piece),
  \<open>trim\<close> removes every Unicode \<open>White_Space\<close> character of the standard library's
  \<open>trim\<close>, \<open>to_lower\<close> is \<open>to_lowercase\<close> on text whose letters with a case are ASCII
  (every other byte is kept), \<open>dec\<close> is the decimal \<open>to_string\<close> of an unsigned integer
  and \<open>parse_unsigned\<close> its \<open>FromStr\<close>.
\<close>

section \<open>Searching and splitting\<close>

fun starts_with :: "string \<Rightarrow> string \<Rightarrow> bool" where
  "starts_with s [] = True"
| "starts_with [] (p # ps) = False"
| "starts_with (c # s) (p # ps) = (c = p \<and> starts_with s ps)"

definition ends_with :: "string \<Rightarrow> string \<Rightarrow> bool" where
  "ends_with s p = starts_with (rev s) (rev p)"

fun contains_str :: "string \<Rightarrow> string \<Rightarrow> bool" where
  "contains_str [] p = (p = [])"
| "contains_str (c # s) p = (starts_with (c # s) p \<or> contains_str s p)"

definition strip_prefix :: "string \<Rightarrow> string \<Rightarrow> string option" where
  "strip_prefix p s = (if starts_with s p then Some (drop (length p) s) else None)"

fun split_on :: "(char \<Rightarrow> bool) \<Rightarrow> string \<Rightarrow> string list" where
  "split_on p [] = [[]]"
| "split_on p (c # s) =
     (if p c then [] # split_on p s
      else case split_on p s of [] \<Rightarrow> [[c]] | x # xs \<Rightarrow> (c # x) # xs)"

fun join_with :: "char \<Rightarrow> string list \<Rightarrow> string" where
  "join_with c [] = []"
| "join_with c [x] = x"
| "join_with c (x # y # xs) = x @ c # join_with c (y # xs)"

lemma starts_with_iff: "starts_with s p \<longleftrightarrow> (\<exists>t. s = p @ t)"
  by (induction s p rule: starts_with.induct) auto

lemma starts_with_append [simp]: "starts_with (p @ t) p"
  by (auto simp: starts_with_iff)

lemma starts_with_self [simp]: "starts_with p p"
  using starts_with_append [of p "[]"] by simp

lemma strip_prefix_append [simp]: "strip_prefix p (p @ t) = Some t"
  by (simp add: strip_prefix_def)

lemma contains_str_iff: "contains_str s p \<longleftrightarrow> (\<exists>a b. s = a @ p @ b)"
proof (induction s p rule: contains_str.induct)
  case (2 c s p)
  have "(\<exists>a b. c # s = a @ p @ b) \<longleftrightarrow> starts_with (c # s) p \<or> (\<exists>a b. s = a @ p @ b)"
    unfolding starts_with_iff by (metis append_Cons append_Nil list.exhaust list.inject)
  with 2 show ?case by simp
qed auto

lemma split_on_nonempty [simp]: "split_on p s \<noteq> []"
  by (induction s) (auto split: list.split)

lemma split_on_pieces: "x \<in> set (split_on p s) \<Longrightarrow> \<forall>c\<in>set x. \<not> p c"
proof (induction s arbitrary: x)
  case (Cons a s)
  then show ?case
    by (cases "split_on p s") (fastforce split: if_splits)+
qed simp

lemma split_on_none: "\<forall>c\<in>set s. \<not> p c \<Longrightarrow> split_on p s = [s]"
  by (induction s) auto

lemma join_split: "join_with c (split_on ((=) c) s) = s"
proof (induction s)
  case (Cons a s)
  then show ?case by (cases "split_on ((=) c) s"; cases "tl (split_on ((=) c) s)") auto
qed simp

lemma split_on_cons:
  assumes "\<forall>c\<in>set x. \<not> p c" and "p d"
  shows "split_on p (x @ d # s) = x # split_on p s"
  using assms by (induction x) auto

lemma split_join:
  assumes "xs \<noteq> []" and "\<forall>x\<in>set xs. c \<notin> set x"
  shows "split_on ((=) c) (join_with c xs) = xs"
  using assms
proof (induction c xs rule: join_with.induct)
  case (2 c x)
  then have "\<forall>d\<in>set x. c \<noteq> d" by auto
  then show ?case by (simp add: split_on_none)
next
  case (3 c x y xs)
  then show ?case using split_on_cons [of x "(=) c" c "join_with c (y # xs)"] by auto
qed simp

section \<open>Case and white space\<close>

definition lower_char :: "char \<Rightarrow> char" where
  "lower_char c =
     (if 65 \<le> (of_char c :: nat) \<and> (of_char c :: nat) \<le> 90
      then char_of (of_char c + 32 :: nat) else c)"

definition to_lower :: "string \<Rightarrow> string" where
  "to_lower s = map lower_char s"

text \<open>
  Length in bytes of a white-space character at the front of the list, 0 if there is none: U+0009
  to U+000D, U+0020, U+0085, U+00A0, U+1680, U+2000 to U+200A, U+2028, U+2029, U+202F, U+205F,
  U+3000. \<open>ws_last\<close> reads a reversed string.
\<close>

definition ws_codes :: "nat list list" where
  "ws_codes =
     map (\<lambda>c. [c]) [9, 10, 11, 12, 13, 32]
     @ [[194, 133], [194, 160], [225, 154, 128]]
     @ map (\<lambda>c. [226, 128, c]) [128, 129, 130, 131, 132, 133, 134, 135, 136, 137, 138, 168, 169, 175]
     @ [[226, 129, 159], [227, 128, 128]]"

definition ws_first :: "string \<Rightarrow> nat" where
  "ws_first s = (case find (\<lambda>w. take (length w) (map of_char s) = w) ws_codes of
     Some w \<Rightarrow> length w | None \<Rightarrow> 0)"

definition ws_last :: "string \<Rightarrow> nat" where
  "ws_last s = (case find (\<lambda>w. take (length w) (map of_char s) = rev w) ws_codes of
     Some w \<Rightarrow> length w | None \<Rightarrow> 0)"

function drop_ws :: "(string \<Rightarrow> nat) \<Rightarrow> string \<Rightarrow> string" where
  "drop_ws f s = (if s = [] \<or> f s = 0 then s else drop_ws f (drop (f s) s))"
  by pat_completeness auto
termination
  by (relation "measure (length \<circ> snd)") auto

declare drop_ws.simps [simp del]

definition trim :: "string \<Rightarrow> string" where
  "trim s = rev (drop_ws ws_last (rev (drop_ws ws_first s)))"

lemma trim_Nil [simp]: "trim [] = []"
  by (simp add: trim_def drop_ws.simps)

lemma drop_ws_suffix: "\<exists>t. s = t @ drop_ws f s"
proof (induction f s rule: drop_ws.induct)
  case (1 f s)
  show ?case
  proof (cases "s = [] \<or> f s = 0")
    case True
    then show ?thesis by (simp add: drop_ws.simps)
  next
    case False
    with 1 obtain t where "drop (f s) s = t @ drop_ws f (drop (f s) s)" by blast
    then have "s = (take (f s) s @ t) @ drop_ws f (drop (f s) s)"
      by (metis append.assoc append_take_drop_id)
    with False show ?thesis by (metis drop_ws.simps)
  qed
qed

lemma set_trim: "set (trim s) \<subseteq> set s"
proof -
  obtain t where "s = t @ drop_ws ws_first s" using drop_ws_suffix by blast
  then have 1: "set (drop_ws ws_first s) \<subseteq> set s" by (metis Un_upper2 set_append)
  obtain u where "rev (drop_ws ws_first s) = u @ drop_ws ws_last (rev (drop_ws ws_first s))"
    using drop_ws_suffix by blast
  then have "set (trim s) \<subseteq> set (rev (drop_ws ws_first s))"
    unfolding trim_def by (metis Un_upper2 set_append set_rev)
  with 1 show ?thesis by simp
qed

text \<open>Text that neither starts nor ends with a byte of a white-space character is kept.\<close>

definition plain_char :: "char \<Rightarrow> bool" where
  "plain_char c \<longleftrightarrow> 32 < (of_char c :: nat) \<and> (of_char c :: nat) < 127"

lemma ws_first_plain: "plain_char c \<Longrightarrow> ws_first (c # s) = 0"
  by (auto simp: ws_first_def ws_codes_def plain_char_def split: option.splits)

lemma ws_last_plain: "plain_char c \<Longrightarrow> ws_last (c # s) = 0"
  by (auto simp: ws_last_def ws_codes_def plain_char_def split: option.splits)

lemma trim_plain: "list_all plain_char s \<Longrightarrow> trim s = s"
proof (cases s)
  case (Cons c cs)
  assume s: "list_all plain_char s"
  have "drop_ws ws_first s = s"
    using Cons s by (subst drop_ws.simps) (simp add: ws_first_plain)
  moreover have "drop_ws ws_last (rev s) = rev s"
  proof (cases "rev s")
    case (Cons d ds)
    then have "d \<in> set s" by (metis list.set_intros(1) set_rev)
    then have "plain_char d" using s by (auto simp: list_all_iff)
    with Cons show ?thesis by (subst drop_ws.simps) (simp add: ws_last_plain)
  qed (simp add: drop_ws.simps)
  ultimately show ?thesis by (simp add: trim_def)
qed simp

section \<open>Decimal numbers\<close>

definition digit_char :: "nat \<Rightarrow> char" where
  "digit_char d = char_of (48 + d)"

definition is_digit :: "char \<Rightarrow> bool" where
  "is_digit c \<longleftrightarrow> 48 \<le> (of_char c :: nat) \<and> (of_char c :: nat) \<le> 57"

definition digit_val :: "char \<Rightarrow> nat" where
  "digit_val c = of_char c - 48"

fun dec :: "nat \<Rightarrow> string" where
  "dec n = (if n < 10 then [digit_char n] else dec (n div 10) @ [digit_char (n mod 10)])"

declare dec.simps [simp del]

definition digits_val :: "string \<Rightarrow> nat" where
  "digits_val s = foldl (\<lambda>n c. n * 10 + digit_val c) 0 s"

definition parse_unsigned :: "nat \<Rightarrow> string \<Rightarrow> nat option" where
  "parse_unsigned maxv s =
     (let ds = (case s of c # cs \<Rightarrow> if c = CHR ''+'' then cs else s | [] \<Rightarrow> s)
      in if ds \<noteq> [] \<and> list_all is_digit ds \<and> digits_val ds \<le> maxv
         then Some (digits_val ds) else None)"

definition parse_i64 :: "string \<Rightarrow> int option" where
  "parse_i64 s =
     (case s of
        c # cs \<Rightarrow>
          if c = CHR ''-'' then
            (if cs \<noteq> [] \<and> list_all is_digit cs \<and> digits_val cs \<le> 9223372036854775808
             then Some (- int (digits_val cs)) else None)
          else map_option int (parse_unsigned 9223372036854775807 s)
      | [] \<Rightarrow> None)"

lemma digit_char_props:
  assumes "d < 10"
  shows "is_digit (digit_char d)" "digit_val (digit_char d) = d" "digit_char d \<noteq> CHR ''+''"
    "plain_char (digit_char d)" "digit_char d \<noteq> CHR ''.''" "digit_char d \<noteq> CHR '':''"
    "digit_char d \<noteq> CHR ''-''"
proof -
  have c: "of_char (digit_char d) = (48 + d :: nat)"
    using assms by (simp add: digit_char_def)
  show "is_digit (digit_char d)" "digit_val (digit_char d) = d" "plain_char (digit_char d)"
    using assms by (simp_all add: is_digit_def digit_val_def plain_char_def c)
  show "digit_char d \<noteq> CHR ''+''" "digit_char d \<noteq> CHR ''.''" "digit_char d \<noteq> CHR '':''"
    "digit_char d \<noteq> CHR ''-''"
    using c assms by (auto dest: arg_cong [where f = "of_char :: char \<Rightarrow> nat"])
qed

lemma dec_chars: "c \<in> set (dec n) \<Longrightarrow> \<exists>d < 10. c = digit_char d"
proof (induction n rule: dec.induct)
  case (1 n)
  show ?case
  proof (cases "n < 10")
    case True
    with "1.prems" show ?thesis by (auto simp: dec.simps [of n])
  next
    case False
    have "\<exists>d<10. digit_char (n mod 10) = digit_char d" by (intro exI [of _ "n mod 10"]) simp
    with False "1.prems" "1.IH" show ?thesis by (auto simp: dec.simps [of n])
  qed
qed

lemma dec_nonempty [simp]: "dec n \<noteq> []"
  by (subst dec.simps) simp

lemma dec_digits: "list_all is_digit (dec n)"
  by (auto simp: list_all_iff dest!: dec_chars digit_char_props(1))

lemma digits_val_snoc: "digits_val (s @ [c]) = digits_val s * 10 + digit_val c"
  by (simp add: digits_val_def)

lemma digits_val_dec [simp]: "digits_val (dec n) = n"
proof (induction n rule: dec.induct)
  case (1 n)
  show ?case
  proof (cases "n < 10")
    case True
    then show ?thesis by (simp add: dec.simps [of n] digits_val_def digit_char_props)
  next
    case False
    with 1 show ?thesis by (simp add: dec.simps [of n] digits_val_snoc digit_char_props)
  qed
qed

lemma dec_inj: "dec m = dec n \<longleftrightarrow> m = n"
  using digits_val_dec by metis

lemma dec_hd: "dec n = c # cs \<Longrightarrow> c \<noteq> CHR ''+'' \<and> c \<noteq> CHR ''-''"
  using dec_chars [of c n] digit_char_props(3,7) by auto

lemma parse_dec [simp]: "parse_unsigned m (dec n) = (if n \<le> m then Some n else None)"
proof (cases "dec n")
  case (Cons c cs)
  then have "c \<noteq> CHR ''+''" using dec_hd by auto
  then show ?thesis
    using Cons dec_digits [of n] digits_val_dec [of n] by (auto simp: parse_unsigned_def)
qed simp

lemma parse_i64_dec [simp]: "n \<le> 9223372036854775807 \<Longrightarrow> parse_i64 (dec n) = Some (int n)"
  using dec_hd [of n] parse_dec [of 9223372036854775807 n]
  by (cases "dec n") (auto simp: parse_i64_def)

lemma dec_plain: "list_all plain_char (dec n)"
  by (auto simp: list_all_iff dest!: dec_chars digit_char_props(4))

lemma dec_no_sep: "CHR ''.'' \<notin> set (dec n)" "CHR '':'' \<notin> set (dec n)" "CHR ''-'' \<notin> set (dec n)"
  using dec_chars digit_char_props(5-7) by metis+

text \<open>Digits without a leading zero are the decimal numeral of their value.\<close>

lemma digit_char_val: "is_digit c \<Longrightarrow> digit_char (digit_val c) = c"
  by (simp add: is_digit_def digit_char_def digit_val_def)

lemma digit_val_less: "is_digit c \<Longrightarrow> digit_val c < 10"
  by (auto simp: is_digit_def digit_val_def)

lemma digit_char_0: "digit_char 0 = CHR ''0''"
  using char_of_char [of "CHR ''0''"] by (simp add: digit_char_def)

lemma digit_val_zero: "is_digit c \<Longrightarrow> digit_val c = 0 \<longleftrightarrow> c = CHR ''0''"
  using digit_char_val [of c] digit_char_0 by (auto simp: digit_val_def)

lemma dec_no_leading_zero: "0 < n \<Longrightarrow> hd (dec n) \<noteq> CHR ''0''"
proof (induction n rule: dec.induct)
  case (1 n)
  show ?case
  proof (cases "n < 10")
    case True
    then have "digit_val (digit_char n) = n" by (rule digit_char_props(2))
    with True "1.prems" show ?thesis
      by (auto simp: dec.simps [of n] digit_val_def dest: arg_cong [where f = "of_char :: char \<Rightarrow> nat"])
  next
    case False
    then show ?thesis using 1 by (simp add: dec.simps [of n])
  qed
qed

lemma dec_single: "n < 10 \<Longrightarrow> length (dec n) = 1"
  by (simp add: dec.simps)

lemma digits_val_pos:
  assumes "list_all is_digit s" and "s \<noteq> []" and "hd s \<noteq> CHR ''0''"
  shows "0 < digits_val s"
  using assms
proof (induction s rule: rev_induct)
  case (snoc c s)
  show ?case
  proof (cases "s = []")
    case True
    then have "digit_val c \<noteq> 0" using snoc.prems digit_val_zero [of c] by simp
    then show ?thesis using True by (simp add: digits_val_def)
  next
    case False
    then show ?thesis using snoc by (simp add: digits_val_snoc)
  qed
qed simp

lemma dec_digits_val:
  assumes "list_all is_digit s" and "s \<noteq> []" and "length s = 1 \<or> hd s \<noteq> CHR ''0''"
  shows "dec (digits_val s) = s"
  using assms
proof (induction s rule: rev_induct)
  case (snoc c s)
  have c: "is_digit c" using snoc.prems by simp
  note c' = digit_val_less [OF c] digit_char_val [OF c]
  show ?case
  proof (cases "s = []")
    case True
    then show ?thesis using c' by (simp add: digits_val_def dec.simps)
  next
    case False
    then have h: "hd s \<noteq> CHR ''0''" using snoc.prems by auto
    then have "0 < digits_val s" using snoc.prems(1) False by (simp add: digits_val_pos)
    then have "\<not> digits_val s * 10 + digit_val c < 10" by simp
    moreover have "(digits_val s * 10 + digit_val c) mod 10 = digit_val c" using c'(1) by presburger
    moreover have "(digits_val s * 10 + digit_val c) div 10 = digits_val s" using c'(1) by simp
    ultimately show ?thesis
      using snoc.IH snoc.prems(1) False h c'(2)
      by (subst dec.simps) (simp add: digits_val_snoc)
  qed
qed simp

end
