(* ===== verification/Service.thy ===== *)
theory Service
  imports Text
begin

text \<open>
  The publishing side of a session: \<open>ServiceTmpl\<close> (\<open>src/server/service.rs\<close>), one per source of
  messages (audio, clipboard, cursor, each display), and the \<open>Server\<close> (\<open>src/server.rs\<close>) that
  holds the services and subscribes connections to them. A subscriber is known by its connection
  number; \<open>inbox\<close> records what a service has sent to it. Every method of the code takes the
  lock of the service once, except \<open>snapshot\<close>, whose steps are separate functions here.
\<close>

section \<open>One service\<close>

record 'm service =
  s_name :: string
  subscribes :: "int set"
  new_subscribes :: "int set"
  s_active :: bool
  need_snapshot :: bool
  s_options :: "string \<rightharpoonup> string"
  inbox :: "int \<Rightarrow> 'm list"

definition service_new :: "string \<Rightarrow> bool \<Rightarrow> 'm service" where
  "service_new name snap =
     \<lparr>s_name = name, subscribes = {}, new_subscribes = {}, s_active = True, need_snapshot = snap,
      s_options = Map.empty, inbox = (\<lambda>_. [])\<rparr>"

definition deliver :: "int set \<Rightarrow> 'm \<Rightarrow> 'm service \<Rightarrow> 'm service" where
  "deliver ids m s = s\<lparr>inbox := (\<lambda>i. if i \<in> ids then inbox s i @ [m] else inbox s i)\<rparr>"

definition send_new_subscribes :: "'m \<Rightarrow> 'm service \<Rightarrow> 'm service" where
  "send_new_subscribes m s = deliver (new_subscribes s) m s"

definition swap_new_subscribes :: "'m service \<Rightarrow> 'm service" where
  "swap_new_subscribes s =
     s\<lparr>subscribes := subscribes s \<union> new_subscribes s, new_subscribes := {}\<rparr>"

definition has_subscribes :: "'m service \<Rightarrow> bool" where
  "has_subscribes s = (subscribes s \<noteq> {} \<or> new_subscribes s \<noteq> {})"

definition is_subed :: "'m service \<Rightarrow> int \<Rightarrow> bool" where
  "is_subed s i = (i \<in> subscribes s \<or> i \<in> new_subscribes s)"

definition on_subscribe :: "int \<Rightarrow> 'm service \<Rightarrow> 'm service" where
  "on_subscribe i s =
     (if i \<in> subscribes s then s
      else if need_snapshot s then s\<lparr>new_subscribes := insert i (new_subscribes s)\<rparr>
      else s\<lparr>subscribes := insert i (subscribes s)\<rparr>)"

definition on_unsubscribe :: "int \<Rightarrow> 'm service \<Rightarrow> 'm service" where
  "on_unsubscribe i s =
     (if i \<notin> subscribes s then s\<lparr>new_subscribes := new_subscribes s - {i}\<rparr>
      else s\<lparr>subscribes := subscribes s - {i}\<rparr>)"

definition join :: "'m service \<Rightarrow> 'm service" where
  "join s = s\<lparr>s_active := False\<rparr>"

definition service_get_option :: "string \<Rightarrow> 'm service \<Rightarrow> string option" where
  "service_get_option k s = s_options s k"

definition service_set_option :: "string \<Rightarrow> string \<Rightarrow> 'm service \<Rightarrow> string option \<times> 'm service" where
  "service_set_option k v s = (s_options s k, s\<lparr>s_options := (s_options s)(k \<mapsto> v)\<rparr>)"

definition is_option_true :: "string \<Rightarrow> 'm service \<Rightarrow> bool" where
  "is_option_true k s = (case service_get_option k s of Some v \<Rightarrow> v = ''1'' | None \<Rightarrow> False)"

definition set_option_bool :: "string \<Rightarrow> bool \<Rightarrow> 'm service \<Rightarrow> 'm service" where
  "set_option_bool k b s =
     (if b then snd (service_set_option k ''1'' s) else snd (service_set_option k ''0'' s))"

definition service_ok :: "'m service \<Rightarrow> bool" where
  "service_ok s = (s_active s \<and> has_subscribes s)"

definition send_shared :: "'m \<Rightarrow> 'm service \<Rightarrow> 'm service" where
  "send_shared m s = deliver (subscribes s) m s"

definition send_to :: "'m \<Rightarrow> int \<Rightarrow> 'm service \<Rightarrow> 'm service" where
  "send_to m i s = (if i \<in> subscribes s then deliver {i} m s else s)"

definition send_to_others :: "'m \<Rightarrow> int \<Rightarrow> 'm service \<Rightarrow> 'm service" where
  "send_to_others m i s = deliver (subscribes s - {i}) m s"

definition send_without :: "'m \<Rightarrow> int \<Rightarrow> 'm service \<Rightarrow> 'm service" where
  "send_without m i s = deliver (subscribes s - {i}) m s"

definition send_video_frame_shared :: "'m \<Rightarrow> 'm service \<Rightarrow> int set \<times> 'm service" where
  "send_video_frame_shared m s = (subscribes s, deliver (subscribes s) m s)"

text \<open>
  \<open>snapshot\<close> when nothing comes between its steps: the messages \<open>ms\<close> the callback sends to the
  new subscribers, then the swap when the \<open>ServiceSwap\<close> is dropped, also after an error.
\<close>

definition snapshot :: "'m list \<Rightarrow> 'm service \<Rightarrow> 'm service" where
  "snapshot ms s =
     (if new_subscribes s \<noteq> {} then swap_new_subscribes (fold send_new_subscribes ms s) else s)"

section \<open>The loop that runs a service\<close>

abbreviation "HIBERNATE_TIMEOUT \<equiv> (30 :: nat)"
abbreviation "MAX_ERROR_TIMEOUT \<equiv> (1000 :: nat)"

text \<open>The sleep after an error of a callback that ran for \<open>elapsed\<close> milliseconds.\<close>

definition next_error_timeout :: "nat \<Rightarrow> nat \<Rightarrow> nat" where
  "next_error_timeout elapsed error_timeout =
     (let error_timeout =
        (if MAX_ERROR_TIMEOUT < elapsed then HIBERNATE_TIMEOUT else error_timeout * 2)
      in if MAX_ERROR_TIMEOUT < error_timeout then MAX_ERROR_TIMEOUT else error_timeout)"

text \<open>
  \<open>run\<close>: what the callback did in each turn in which there was a subscriber (its running time
  and whether it failed) gives the sleeps of the loop.
\<close>

fun run_sleeps :: "nat \<Rightarrow> (nat \<times> bool) option list \<Rightarrow> nat list" where
  "run_sleeps error_timeout [] = []"
| "run_sleeps error_timeout (None # turns) = HIBERNATE_TIMEOUT # run_sleeps error_timeout turns"
| "run_sleeps error_timeout (Some (elapsed, failed) # turns) =
     (if failed then
        (let error_timeout = next_error_timeout elapsed error_timeout
         in error_timeout # HIBERNATE_TIMEOUT # run_sleeps error_timeout turns)
      else HIBERNATE_TIMEOUT # run_sleeps error_timeout turns)"

text \<open>
  \<open>repeat\<close>: one turn of its loop on \<open>may_reset\<close>, with what it does to the callback's state.
\<close>

datatype turn = Init | Call | ErrorSleep | Reset

definition repeat_turn :: "bool \<Rightarrow> bool \<Rightarrow> bool \<Rightarrow> bool \<times> turn list" where
  "repeat_turn subscribed fails may_reset =
     (if subscribed then
        (True, (if \<not> may_reset then [Init] else []) @ [Call] @ (if fails then [ErrorSleep] else []))
      else if may_reset then (False, [Reset])
      else (may_reset, []))"

fun repeat_turns :: "bool \<Rightarrow> (bool \<times> bool) list \<Rightarrow> turn list" where
  "repeat_turns may_reset [] = []"
| "repeat_turns may_reset ((subscribed, fails) # ts) =
     (case repeat_turn subscribed fails may_reset of
        (may_reset, acts) \<Rightarrow> acts @ repeat_turns may_reset ts)"

section \<open>The contract of subscription\<close>

locale subscription =
  fixes subd :: "'s \<Rightarrow> int \<Rightarrow> bool"
    and on_sub :: "int \<Rightarrow> 's \<Rightarrow> 's"
    and on_unsub :: "int \<Rightarrow> 's \<Rightarrow> 's"
    and inv :: "'s \<Rightarrow> bool"
  assumes inv_sub: "inv s \<Longrightarrow> inv (on_sub i s)"
    and inv_unsub: "inv s \<Longrightarrow> inv (on_unsub i s)"
    and subd_sub: "inv s \<Longrightarrow> subd (on_sub i s) j \<longleftrightarrow> subd s j \<or> j = i"
    and subd_unsub: "inv s \<Longrightarrow> subd (on_unsub i s) j \<longleftrightarrow> subd s j \<and> j \<noteq> i"
begin

text \<open>Asking for a state of subscription gives that state and leaves everybody else alone.\<close>

definition ask :: "int \<Rightarrow> bool \<Rightarrow> 's \<Rightarrow> 's" where
  "ask i wanted s = (if subd s i = wanted then s else if wanted then on_sub i s else on_unsub i s)"

lemma inv_ask: "inv s \<Longrightarrow> inv (ask i w s)"
  by (simp add: ask_def inv_sub inv_unsub)

lemma subd_ask: "inv s \<Longrightarrow> subd (ask i w s) j \<longleftrightarrow> (if j = i then w else subd s j)"
  by (auto simp: ask_def subd_sub subd_unsub)

lemma asks:
  "inv s \<Longrightarrow> subd (fold (\<lambda>(i, w). ask i w) ws s) j \<longleftrightarrow>
     (case map_of (rev ws) j of Some w \<Rightarrow> w | None \<Rightarrow> subd s j)"
proof (induction ws arbitrary: s)
  case (Cons x ws)
  then show ?case
    by (cases x) (auto simp: inv_ask subd_ask map_add_def split: option.splits)
qed simp

end

definition service_inv :: "'m service \<Rightarrow> bool" where
  "service_inv s \<longleftrightarrow> subscribes s \<inter> new_subscribes s = {} \<and> (need_snapshot s \<or> new_subscribes s = {})"

interpretation service_sub: subscription is_subed on_subscribe on_unsubscribe service_inv
  by unfold_locales
    (auto simp: service_inv_def is_subed_def on_subscribe_def on_unsubscribe_def)

lemma service_inv_new [simp]: "service_inv (service_new n b)"
  by (simp add: service_inv_def service_new_def)

lemma service_inv_ops:
  "service_inv s \<Longrightarrow> service_inv (deliver ids m s)"
  "service_inv s \<Longrightarrow> service_inv (swap_new_subscribes s)"
  by (auto simp: service_inv_def deliver_def swap_new_subscribes_def)

lemma deliver_fields [simp]:
  "subscribes (deliver ids m s) = subscribes s" "new_subscribes (deliver ids m s) = new_subscribes s"
  "need_snapshot (deliver ids m s) = need_snapshot s"
  by (simp_all add: deliver_def)

lemma fold_send_new:
  "fold send_new_subscribes ms s =
     s\<lparr>inbox := (\<lambda>i. if i \<in> new_subscribes s then inbox s i @ ms else inbox s i)\<rparr>"
proof (induction ms arbitrary: s)
  case (Cons m ms)
  then show ?case by (simp add: send_new_subscribes_def deliver_def cong: if_cong)
qed (simp cong: if_cong)

section \<open>Snapshots\<close>

text \<open>What may happen to a service whose callback is not interrupted.\<close>

datatype 'm event = Sub int | Unsub int | Snap "'m list" | Send 'm

fun do_event :: "'m event \<Rightarrow> 'm service \<Rightarrow> 'm service" where
  "do_event (Sub i) s = on_subscribe i s"
| "do_event (Unsub i) s = on_unsubscribe i s"
| "do_event (Snap ms) s = snapshot ms s"
| "do_event (Send m) s = send_shared m s"

text \<open>
  \<open>greeted snap es i\<close>: what connection \<open>i\<close> must have received after the events \<open>es\<close>, latest first: the
  snapshot taken when it was new, then every message sent since, as long as it stays subscribed.
\<close>

fun greeted :: "'m event list \<Rightarrow> int \<Rightarrow> (bool \<times> 'm list) option" where
  "greeted [] i = None"
| "greeted (Sub j # es) i =
     (if j = i \<and> greeted es i = None then Some (False, []) else greeted es i)"
| "greeted (Unsub j # es) i = (if j = i then None else greeted es i)"
| "greeted (Snap ms # es) i =
     (case greeted es i of Some (False, xs) \<Rightarrow> Some (True, ms) | r \<Rightarrow> r)"
| "greeted (Send m # es) i =
     (case greeted es i of Some (True, xs) \<Rightarrow> Some (True, xs @ [m]) | r \<Rightarrow> r)"

definition received_since :: "'m service \<Rightarrow> int \<Rightarrow> 'm list \<Rightarrow> bool" where
  "received_since s i xs \<longleftrightarrow> (\<exists>old. inbox s i = old @ xs)"

lemma greeted_inv:
  assumes "s = foldr do_event es (service_new n True)"
  shows "service_inv s \<and> need_snapshot s \<and>
    (case greeted es i of
       None \<Rightarrow> \<not> is_subed s i
     | Some (False, xs) \<Rightarrow> i \<in> new_subscribes s \<and> i \<notin> subscribes s \<and> xs = []
     | Some (True, xs) \<Rightarrow> i \<in> subscribes s \<and> received_since s i xs)"
  using assms
proof (induction es arbitrary: s)
  case Nil
  then show ?case by (simp add: is_subed_def service_new_def service_inv_def)
next
  case (Cons e es)
  define t where "t = foldr do_event es (service_new n True)"
  have s: "s = do_event e t" using Cons.prems t_def by simp
  note IH = Cons.IH [OF t_def]
  show ?case
  proof (cases e)
    case (Sub j)
    then show ?thesis using IH s
      by (auto simp: on_subscribe_def is_subed_def service_inv_def received_since_def
          split: option.splits bool.splits)
  next
    case (Unsub j)
    then show ?thesis using IH s
      by (auto simp: on_unsubscribe_def is_subed_def service_inv_def received_since_def
          split: option.splits bool.splits)
  next
    case (Snap ms)
    then show ?thesis using IH s
      by (auto simp: snapshot_def fold_send_new swap_new_subscribes_def is_subed_def service_inv_def
          received_since_def split: option.splits bool.splits)
  next
    case (Send m)
    then show ?thesis using IH s
      by (auto simp: send_shared_def deliver_def is_subed_def service_inv_def received_since_def
          split: option.splits bool.splits)
  qed
qed

text \<open>
  A connection subscribed to a service that gives snapshots has received nothing before the
  first snapshot taken after it subscribed, and from then on exactly that snapshot and every
  message sent, in order and without a gap, provided no subscription falls into a snapshot.
\<close>

theorem snapshot_comes_first:
  assumes "greeted es i = Some (True, xs)"
  shows "i \<in> subscribes (foldr do_event es (service_new n True)) \<and>
    (\<exists>old. inbox (foldr do_event es (service_new n True)) i = old @ xs)"
  using greeted_inv [OF refl, where es = es and i = i and n = n] assms by (simp add: received_since_def)

theorem snapshot_comes_first_witness:
  "\<exists>old. inbox (foldr do_event [Send ''b'', Snap [''a''], Send ''x'', Sub 1] (service_new ''audio'' True)) 1
     = old @ [''a'', ''b'']"
  using snapshot_comes_first [of "[Send ''b'', Snap [''a''], Send ''x'', Sub 1]" 1 "[''a'', ''b'']" "''audio''"]
  by simp

text \<open>
  Between the callback's last message and the swap the lock is free: a connection that subscribes
  just then becomes a regular subscriber and never gets the snapshot.
\<close>

lemma snapshot_missed:
  fixes ms :: "'m list" and s :: "'m service"
  assumes "i \<notin> subscribes s" and "need_snapshot s"
  defines "t \<equiv> swap_new_subscribes (on_subscribe i (fold send_new_subscribes ms s))"
  shows "i \<in> subscribes t \<and> (i \<notin> new_subscribes s \<longrightarrow> inbox t i = inbox s i)"
  using assms by (simp add: fold_send_new on_subscribe_def swap_new_subscribes_def)

section \<open>Sleeping\<close>

lemma next_error_timeout_bounds:
  "HIBERNATE_TIMEOUT \<le> t \<Longrightarrow> HIBERNATE_TIMEOUT \<le> next_error_timeout e t \<and> next_error_timeout e t \<le> MAX_ERROR_TIMEOUT"
  by (simp add: next_error_timeout_def)

text \<open>
  However often and after however long its callback fails, the loop of a service never sleeps
  less than 30 milliseconds nor more than one second at a time.
\<close>

theorem run_sleeps_bounded:
  "set (run_sleeps HIBERNATE_TIMEOUT turns) \<subseteq> {30..1000}"
proof -
  have "set (run_sleeps t turns) \<subseteq> {30..1000}" if "30 \<le> t" for t
    using that
  proof (induction t turns rule: run_sleeps.induct)
    case (3 t elapsed failed turns)
    then show ?case using next_error_timeout_bounds [of t elapsed] by (simp add: Let_def)
  qed simp_all
  then show ?thesis by simp
qed

text \<open>Failures that come fast double the sleep up to the bound.\<close>

lemma fast_failures_double:
  "next_error_timeout 0 t = min 1000 (t * 2)"
  by (simp add: next_error_timeout_def)

text \<open>The state of a repeated callback is initialised once per period of subscription.\<close>

fun alternating :: "bool \<Rightarrow> turn list \<Rightarrow> bool" where
  "alternating up [] = True"
| "alternating up (Init # ts) = (\<not> up \<and> alternating True ts)"
| "alternating up (Reset # ts) = (up \<and> alternating False ts)"
| "alternating up (Call # ts) = (up \<and> alternating up ts)"
| "alternating up (ErrorSleep # ts) = (up \<and> alternating up ts)"

lemma repeat_alternates: "alternating up (repeat_turns up ts)"
proof (induction up ts rule: repeat_turns.induct)
  case (2 may_reset subscribed fails ts)
  then show ?case
    by (cases subscribed; cases may_reset; cases fails) (simp_all add: repeat_turn_def)
qed simp

end
