(* ===== verification/Address.thy ===== *)
theory Address
  imports Text
begin

text \<open>
  Addresses: the parser of direct targets of \<open>src/vntc.rs\<close> (with the standard library's
  \<open>Ipv4Addr\<close> and \<open>SocketAddrV4\<close> parsers), and \<open>AddrMangle\<close>, the encoding
  of socket addresses in rendezvous messages, of \<open>libs/hbb_common/src/lib.rs\<close>, with the
  version strings of the same file. The words of \<open>encode\<close> and \<open>decode\<close> wrap, as in
  a release build.
\<close>

type_synonym ipv4 = "u8 \<times> u8 \<times> u8 \<times> u8"

datatype socket_addr =
    V4 ipv4 u16
  | V6 "u8 list" u16

section \<open>Text form\<close>

definition parse_octet :: "string \<Rightarrow> u8 option" where
  "parse_octet s =
     (if s \<noteq> [] \<and> list_all is_digit s \<and> (length s = 1 \<or> hd s \<noteq> CHR ''0'')
         \<and> digits_val s \<le> 255
      then Some (of_nat (digits_val s)) else None)"

definition parse_ipv4 :: "string \<Rightarrow> ipv4 option" where
  "parse_ipv4 s =
     (case map parse_octet (split_on ((=) CHR ''.'') s) of
        [Some a, Some b, Some c, Some d] \<Rightarrow> Some (a, b, c, d)
      | _ \<Rightarrow> None)"

definition parse_port :: "string \<Rightarrow> u16 option" where
  "parse_port s =
     (if s \<noteq> [] \<and> list_all is_digit s \<and> digits_val s \<le> 65535
      then Some (of_nat (digits_val s)) else None)"

definition parse_socket_v4 :: "string \<Rightarrow> (ipv4 \<times> u16) option" where
  "parse_socket_v4 s =
     (case split_on ((=) CHR '':'') s of
        [a, p] \<Rightarrow>
          (case (parse_ipv4 a, parse_port p) of
             (Some ip, Some port) \<Rightarrow> Some (ip, port)
           | _ \<Rightarrow> None)
      | _ \<Rightarrow> None)"

fun show_ipv4 :: "ipv4 \<Rightarrow> string" where
  "show_ipv4 (a, b, c, d) =
     join_with CHR ''.'' [dec (unat a), dec (unat b), dec (unat c), dec (unat d)]"

definition show_socket_v4 :: "ipv4 \<Rightarrow> u16 \<Rightarrow> string" where
  "show_socket_v4 ip port = join_with CHR '':'' [show_ipv4 ip, dec (unat port)]"

abbreviation "DIRECT_ACCESS_PORT \<equiv> (49999 :: u16)"

definition DIRECT_ONLY_ERROR :: string where
  "DIRECT_ONLY_ERROR =
     ''Only VNT virtual IPv4 direct connections are supported. Use <IPv4> or <IPv4:49999>.''"

definition normalize_direct_target :: "string \<Rightarrow> string + string" where
  "normalize_direct_target target =
     (let trimmed = trim target in
      if trimmed = [] \<or> ends_with trimmed [CHR 0x5C, CHR ''r''] \<or> ends_with trimmed ''/r''
      then Inl DIRECT_ONLY_ERROR
      else case parse_socket_v4 trimmed of
        Some (ip, port) \<Rightarrow> Inr (show_socket_v4 ip port)
      | None \<Rightarrow>
          (case parse_ipv4 trimmed of
             Some ip \<Rightarrow> Inr (show_ipv4 ip @ '':'' @ dec (unat DIRECT_ACCESS_PORT))
           | None \<Rightarrow> Inl DIRECT_ONLY_ERROR))"

section \<open>Facts about the text form\<close>

lemma parse_octet_dec [simp]: "parse_octet (dec (unat (b :: u8))) = Some b"
proof -
  have "length (dec (unat b)) = 1 \<or> hd (dec (unat b)) \<noteq> CHR ''0''"
    using dec_single [of "unat b"] dec_no_leading_zero [of "unat b"] by (cases "unat b < 10") auto
  then show ?thesis
    using unat_u8_less [of b] dec_digits [of "unat b"] by (simp add: parse_octet_def)
qed

lemma parse_octet_sound: "parse_octet s = Some b \<Longrightarrow> s = dec (unat b)"
  using dec_digits_val [of s]
  by (auto simp: parse_octet_def unat_of_nat split: if_splits)

lemma parse_port_dec [simp]: "parse_port (dec (unat (p :: u16))) = Some p"
  using unat_u16_less [of p] dec_digits [of "unat p"] by (simp add: parse_port_def)

lemma parse_ipv4_show [simp]: "parse_ipv4 (show_ipv4 ip) = Some ip"
proof -
  obtain a b c d where ip: "ip = (a, b, c, d)" by (cases ip)
  have "split_on ((=) CHR ''.'') (show_ipv4 ip) = [dec (unat a), dec (unat b), dec (unat c), dec (unat d)]"
    unfolding ip show_ipv4.simps by (rule split_join) (auto simp: dec_no_sep)
  then show ?thesis by (simp add: parse_ipv4_def ip)
qed

lemma parse_ipv4_sound:
  assumes "parse_ipv4 s = Some ip"
  shows "s = show_ipv4 ip"
proof -
  obtain a b c d where p: "map parse_octet (split_on ((=) CHR ''.'') s) = [Some a, Some b, Some c, Some d]"
    and ip: "ip = (a, b, c, d)"
    using assms by (auto simp: parse_ipv4_def split: list.splits option.splits)
  then obtain w x y z where q: "split_on ((=) CHR ''.'') s = [w, x, y, z]"
    and o: "parse_octet w = Some a" "parse_octet x = Some b" "parse_octet y = Some c" "parse_octet z = Some d"
    by auto
  have "s = join_with CHR ''.'' [w, x, y, z]" using join_split [of "CHR ''.''" s] q by simp
  then show ?thesis using o [THEN parse_octet_sound] ip by simp
qed

lemma show_ipv4_chars: "c \<in> set (show_ipv4 ip) \<Longrightarrow> plain_char c \<and> c \<noteq> CHR '':''"
proof -
  obtain w x y z where ip: "ip = (w, x, y, z)" by (cases ip)
  have p: "plain_char e \<and> e \<noteq> CHR '':''" if "e \<in> set (dec n)" for e n
    using that dec_plain [of n] dec_no_sep [of n] by (auto simp: list_all_iff)
  have "plain_char CHR ''.''" by (simp add: plain_char_def)
  moreover assume "c \<in> set (show_ipv4 ip)"
  ultimately show ?thesis using p by (auto simp: ip)
qed

lemma parse_socket_show [simp]: "parse_socket_v4 (show_socket_v4 ip port) = Some (ip, port)"
proof -
  have "split_on ((=) CHR '':'') (show_socket_v4 ip port) = [show_ipv4 ip, dec (unat port)]"
    unfolding show_socket_v4_def
    by (rule split_join) (use show_ipv4_chars [of _ ip] dec_no_sep in \<open>auto\<close>)
  then show ?thesis by (simp add: parse_socket_v4_def)
qed

lemma show_socket_plain: "list_all plain_char (show_socket_v4 ip port)"
  using show_ipv4_chars [of _ ip] dec_plain [of "unat port"]
  by (auto simp: list_all_iff show_socket_v4_def plain_char_def [of "CHR '':''"])

lemma show_socket_ends:
  "show_socket_v4 ip port \<noteq> []" "\<not> ends_with (show_socket_v4 ip port) (p @ ''r'')"
proof -
  have "\<exists>s d. show_socket_v4 ip port = s @ [d] \<and> is_digit d"
    using dec_digits [of "unat port"] dec_nonempty [of "unat port"]
    by (cases "dec (unat port)" rule: rev_cases) (auto simp: show_socket_v4_def)
  then obtain s d where s: "show_socket_v4 ip port = s @ [d]" and d: "is_digit d" by blast
  show "show_socket_v4 ip port \<noteq> []" using s by simp
  have "d \<noteq> CHR ''r''" using d by (auto simp: is_digit_def)
  then show "\<not> ends_with (show_socket_v4 ip port) (p @ ''r'')" using s by (simp add: ends_with_def)
qed

lemma normalize_canonical: "normalize_direct_target (show_socket_v4 ip port) = Inr (show_socket_v4 ip port)"
  using show_socket_ends(1) [of ip port] show_socket_ends(2) [of ip port "[CHR 0x5C]"]
    show_socket_ends(2) [of ip port "''/''"]
  by (simp add: normalize_direct_target_def trim_plain show_socket_plain)

text \<open>
  A direct target is accepted only when it names an IPv4 address, with the default port added
  if there is none; what is accepted is a canonical \<open>address:port\<close> text, which is accepted again
  unchanged, so no peer identifier or host name ever reaches the dialler.
\<close>

theorem normalized_target_canonical:
  assumes "normalize_direct_target s = Inr t"
  shows "(\<exists>ip port. t = show_socket_v4 ip port \<and>
      (parse_socket_v4 (trim s) = Some (ip, port) \<or> trim s = show_ipv4 ip \<and> port = DIRECT_ACCESS_PORT)) \<and>
    normalize_direct_target t = Inr t"
proof -
  have "\<exists>ip port. t = show_socket_v4 ip port \<and>
      (parse_socket_v4 (trim s) = Some (ip, port) \<or> trim s = show_ipv4 ip \<and> port = DIRECT_ACCESS_PORT)"
    using assms parse_ipv4_sound
    by (fastforce simp: normalize_direct_target_def Let_def show_socket_v4_def
        split: if_splits option.splits)
  then show ?thesis using normalize_canonical by blast
qed

lemma show_demo: "show_ipv4 (10, 0, 0, 8) = ''10.0.0.8''"
proof -
  have "char_of (48::nat) = CHR ''0''" "char_of (49::nat) = CHR ''1''" "char_of (56::nat) = CHR ''8''"
    using char_of_char [of "CHR ''0''"] char_of_char [of "CHR ''1''"] char_of_char [of "CHR ''8''"]
    by simp_all
  then show ?thesis by (simp add: dec.simps digit_char_def)
qed

theorem normalized_target_canonical_witness:
  "normalize_direct_target (''10.0.0.8:'' @ dec 49999) = Inr (''10.0.0.8:'' @ dec 49999)"
proof -
  have "list_all plain_char (''10.0.0.8'')" by (simp add: plain_char_def)
  moreover have "parse_ipv4 ''10.0.0.8'' = Some (10, 0, 0, 8)"
    using parse_ipv4_show [of "(10, 0, 0, 8)"] by (simp only: show_demo)
  moreover have "parse_socket_v4 ''10.0.0.8'' = None" by (simp add: parse_socket_v4_def)
  ultimately have "normalize_direct_target ''10.0.0.8'' = Inr (''10.0.0.8:'' @ dec 49999)"
    using show_demo by (simp add: normalize_direct_target_def trim_plain ends_with_def)
  from normalized_target_canonical [OF this] show ?thesis by blast
qed

section \<open>Mangled addresses\<close>

fun le_bytes :: "nat \<Rightarrow> u128 \<Rightarrow> u8 list" where
  "le_bytes 0 w = []"
| "le_bytes (Suc n) w = ucast w # le_bytes n (drop_bit 8 w)"

fun of_le_bytes :: "u8 list \<Rightarrow> u128" where
  "of_le_bytes [] = 0"
| "of_le_bytes (b # bs) = ucast b OR push_bit 8 (of_le_bytes bs)"

definition strip_zeros :: "u8 list \<Rightarrow> u8 list" where
  "strip_zeros bs = rev (dropWhile (\<lambda>b. b = 0) (rev bs))"

text \<open>\<open>Ipv6Addr::to_ipv4\<close>: IPv4-compatible and IPv4-mapped addresses.\<close>

definition v6_to_v4 :: "u8 list \<Rightarrow> ipv4 option" where
  "v6_to_v4 o6 =
     (if length o6 = 16 \<and> take 10 o6 = replicate 10 0
         \<and> (take 2 (drop 10 o6) = [0, 0] \<or> take 2 (drop 10 o6) = [255, 255])
      then Some (o6 ! 12, o6 ! 13, o6 ! 14, o6 ! 15) else None)"

definition v6_loopback :: "u8 list \<Rightarrow> bool" where
  "v6_loopback o6 = (o6 = replicate 15 0 @ [1])"

definition try_into_v4 :: "socket_addr \<Rightarrow> socket_addr" where
  "try_into_v4 addr =
     (case addr of
        V6 o6 port \<Rightarrow>
          if \<not> v6_loopback o6 then
            (case v6_to_v4 o6 of Some ip \<Rightarrow> V4 ip port | None \<Rightarrow> addr)
          else addr
      | V4 ip port \<Rightarrow> addr)"

definition ip_to_u32 :: "ipv4 \<Rightarrow> u32" where
  "ip_to_u32 ip =
     (case ip of (a, b, c, d) \<Rightarrow>
        ucast a OR push_bit 8 (ucast b) OR push_bit 16 (ucast c) OR push_bit 24 (ucast d))"

definition u32_to_ip :: "u32 \<Rightarrow> ipv4" where
  "u32_to_ip w = (ucast w, ucast (drop_bit 8 w), ucast (drop_bit 16 w), ucast (drop_bit 24 w))"

text \<open>\<open>tm\<close> is the clock in microseconds, cut to 32 bits.\<close>

definition mangle_number :: "u32 \<Rightarrow> ipv4 \<Rightarrow> u16 \<Rightarrow> u128" where
  "mangle_number tm32 ip4 port16 =
     (let tm = ucast tm32 :: u128; ip = ucast (ip_to_u32 ip4) :: u128; port = ucast port16 :: u128
      in push_bit 49 (ip + tm) OR push_bit 17 tm OR (port + (tm AND 0xFFFF)))"

definition mangle_encode :: "u32 \<Rightarrow> socket_addr \<Rightarrow> u8 list" where
  "mangle_encode tm addr =
     (case try_into_v4 addr of
        V4 ip port \<Rightarrow> strip_zeros (le_bytes 16 (mangle_number tm ip port))
      | V6 o6 port \<Rightarrow> o6 @ [ucast port, ucast (drop_bit 8 port)])"

definition any_listen_addr_v6 :: socket_addr where
  "any_listen_addr_v6 = V6 (replicate 16 0) 0"

definition mangle_decode :: "u8 list \<Rightarrow> socket_addr" where
  "mangle_decode bs =
     (if 16 < length bs then
        (if length bs \<noteq> 18 then any_listen_addr_v6
         else V6 (take 16 bs) (ucast (bs ! 16) OR push_bit 8 (ucast (bs ! 17))))
      else
        let number = of_le_bytes (bs @ replicate (16 - length bs) 0);
            tm = drop_bit 17 number AND 0xFFFFFFFF;
            ip = ucast (drop_bit 49 number - tm) :: u32;
            port = (number AND 0xFFFFFF) - (tm AND 0xFFFF)
        in V4 (u32_to_ip ip) (ucast port))"

lemma of_le_le_bytes: "of_le_bytes (le_bytes n w) = take_bit (8 * n) w"
proof (induction n arbitrary: w)
  case (Suc n)
  show ?case
    unfolding le_bytes.simps of_le_bytes.simps Suc
    by (rule bit_eqI) (auto simp: bit_simps not_less)
qed simp

lemma of_le_bytes_zeros: "of_le_bytes (bs @ replicate k 0) = of_le_bytes bs"
proof (induction bs)
  case Nil
  show ?case by (induction k) auto
qed simp

lemma strip_zeros_decomp: "\<exists>k. bs = strip_zeros bs @ replicate k 0"
proof -
  have "rev bs = takeWhile (\<lambda>b. b = 0) (rev bs) @ dropWhile (\<lambda>b. b = 0) (rev bs)" by simp
  moreover have "takeWhile (\<lambda>b. b = 0) (rev bs) = replicate (length (takeWhile (\<lambda>b. b = 0) (rev bs))) 0"
    by (rule replicate_eqI) (auto dest: set_takeWhileD)
  ultimately have "rev bs = replicate (length (takeWhile (\<lambda>b. b = 0) (rev bs))) 0 @ rev (strip_zeros bs)"
    by (simp add: strip_zeros_def)
  then have "bs = strip_zeros bs @ rev (replicate (length (takeWhile (\<lambda>b. b = 0) (rev bs))) 0)"
    by (metis rev_append rev_rev_ident)
  then show ?thesis by (metis rev_replicate)
qed

lemma length_le_bytes [simp]: "length (le_bytes n w) = n"
  by (induction n arbitrary: w) auto

lemma padded_strip:
  "of_le_bytes (strip_zeros (le_bytes 16 w) @ replicate (16 - length (strip_zeros (le_bytes 16 w))) 0) = w"
  "length (strip_zeros (le_bytes 16 w)) \<le> 16"
proof -
  obtain k where k: "le_bytes 16 w = strip_zeros (le_bytes 16 w) @ replicate k 0"
    using strip_zeros_decomp by blast
  have "of_le_bytes (strip_zeros (le_bytes 16 w)) = of_le_bytes (le_bytes 16 w)"
    by (subst (2) k) (simp add: of_le_bytes_zeros)
  also have "\<dots> = w" by (simp only: of_le_le_bytes) (simp add: take_bit_word_eq_self)
  finally have "of_le_bytes (strip_zeros (le_bytes 16 w)) = w" .
  then show "of_le_bytes (strip_zeros (le_bytes 16 w) @ replicate (16 - length (strip_zeros (le_bytes 16 w))) 0) = w"
    by (simp add: of_le_bytes_zeros)
  show "length (strip_zeros (le_bytes 16 w)) \<le> 16"
    using arg_cong [OF k, of length] by simp
qed

lemma u32_to_ip_inverse [simp]: "u32_to_ip (ip_to_u32 ip) = ip"
proof -
  obtain a b c d where ip: "ip = (a, b, c, d)" by (cases ip)
  show ?thesis
    unfolding ip ip_to_u32_def u32_to_ip_def prod.case prod.inject
    by (intro conjI; rule bit_eqI) (auto simp: bit_simps not_less dest: bit_imp_le_length)
qed

text \<open>The three fields of the number do not overlap: as numbers they are added.\<close>

lemma unat_push_bit_small:
  assumes "unat (w :: u128) * 2 ^ n < 2 ^ 128"
  shows "unat (push_bit n w) = push_bit n (unat w)"
proof -
  have "push_bit n (unat w) < 2 ^ LENGTH(128)" using assms by (simp add: push_bit_eq_mult)
  then show ?thesis by (simp only: unsigned_push_bit_eq take_bit_nat_eq_self)
qed

lemma unat_or: "unat ((a :: 'a::len word) OR b) = unat a OR unat b"
  by (simp add: unsigned_or_eq)

lemma unat_and_mask: "unat ((w :: 'a::len word) AND mask n) = unat w mod 2 ^ n"
proof -
  have "w AND mask n = take_bit n w" by (simp only: take_bit_eq_mask)
  then have "unat (w AND mask n) = take_bit n (unat w)" by (simp only: unsigned_take_bit_eq)
  then show ?thesis by (simp only: take_bit_eq_mod)
qed

lemma masks: "(0xFFFF :: u128) = mask 16" "(0xFFFFFF :: u128) = mask 24" "(0xFFFFFFFF :: u128) = mask 32"
  by (simp_all add: mask_eq_exp_minus_1)

lemma mangle_number_value:
  fixes tm :: u32 and ip :: ipv4 and port :: u16
  defines "T \<equiv> unat tm" and "I \<equiv> unat (ip_to_u32 ip)" and "P \<equiv> unat port"
  shows "unat (mangle_number tm ip port) = (P + T mod 2 ^ 16) + 2 ^ 17 * T + 2 ^ 49 * (I + T)"
proof -
  have b: "T < 2 ^ 32" "I < 2 ^ 32" "P < 2 ^ 16"
    using unsigned_less [of tm] unsigned_less [of "ip_to_u32 ip"] unsigned_less [of port]
    by (simp_all add: T_def I_def P_def)
  have t: "unat (ucast tm :: u128) = T" "unat (ucast (ip_to_u32 ip) :: u128) = I"
    "unat (ucast port :: u128) = P"
    using b by (simp_all add: unat_ucast_mod T_def I_def P_def)
  have s: "unat (ucast (ip_to_u32 ip) + ucast tm :: u128) = I + T"
    using b by (subst unat_add_lem [THEN iffD1]) (simp_all add: t)
  have l: "unat ((ucast port :: u128) + (ucast tm AND 0xFFFF)) = P + T mod 2 ^ 16"
    using b by (subst unat_add_lem [THEN iffD1]) (simp_all only: t unat_and_mask masks, simp_all)
  let ?L = "P + T mod 2 ^ 16"
  have L: "?L < 2 ^ 17" using b by simp
  then have m: "?L + 2 ^ 17 * T < 2 ^ 49" using b by simp
  have "unat (mangle_number tm ip port) = push_bit 49 (I + T) OR (push_bit 17 T OR ?L)"
    using b by (simp add: mangle_number_def Let_def unat_or l s t unat_push_bit_small)
  also have "push_bit 17 T OR ?L = ?L + 2 ^ 17 * T"
    using or_push_bit_nat [OF L, of T] by (simp add: or.commute)
  also have "push_bit 49 (I + T) OR (?L + 2 ^ 17 * T) = (?L + 2 ^ 17 * T) + 2 ^ 49 * (I + T)"
    using or_push_bit_nat [OF m, of "I + T"] by (simp only: or.commute)
  finally show ?thesis .
qed

lemma mangle_fields:
  fixes N T I P :: nat
  assumes "T < 2 ^ 32" and "I < 2 ^ 32" and "P < 2 ^ 16"
    and "N = (P + T mod 2 ^ 16) + 2 ^ 17 * T + 2 ^ 49 * (I + T)"
  shows "N div 2 ^ 17 mod 2 ^ 32 = T" and "N div 2 ^ 49 = I + T"
    and "\<exists>k. N mod 2 ^ 24 = P + T mod 2 ^ 16 + 2 ^ 17 * k"
proof -
  have L: "P + T mod 2 ^ 16 < 2 ^ 17" using assms(3) by simp
  have N: "N = (P + T mod 2 ^ 16) + (T + 2 ^ 32 * (I + T)) * 2 ^ 17" by (simp add: assms(4) algebra_simps)
  then have d: "N div 2 ^ 17 = T + 2 ^ 32 * (I + T)" using L by simp
  then show "N div 2 ^ 17 mod 2 ^ 32 = T" using assms(1) by (simp only: mod_mult_self2 mod_less)
  have "N div 2 ^ 49 = N div 2 ^ 17 div 2 ^ 32" by (simp add: div_mult2_eq [symmetric])
  also have "\<dots> = I + T" using assms(1) unfolding d by (subst div_mult_self2) simp_all
  finally show "N div 2 ^ 49 = I + T" .
  have "N mod 2 ^ 17 = P + T mod 2 ^ 16"
    using L unfolding N by (simp only: mod_mult_self1 mod_less)
  then show "\<exists>k. N mod 2 ^ 24 = P + T mod 2 ^ 16 + 2 ^ 17 * k"
    using mod_mult2_eq [of N "2 ^ 17" "2 ^ 7"] by auto
qed

lemma u32_up: "(ucast (ucast (w :: u32) :: u128) :: u32) = w"
  by (rule bit_eqI) (auto simp: bit_simps dest: bit_imp_le_length)

text \<open>
  A mangled address decodes to itself, whatever the clock said when it was encoded, an IPv6
  address that only wraps an IPv4 one being sent as that IPv4 address.
\<close>

theorem mangle_roundtrip:
  assumes "\<And>o6 port. addr = V6 o6 port \<Longrightarrow> length o6 = 16"
  shows "mangle_decode (mangle_encode tm addr) = try_into_v4 addr"
proof (cases "try_into_v4 addr")
  case (V4 ip port)
  define N where "N = unat (mangle_number tm ip port)"
  have b: "unat tm < 2 ^ 32" "unat (ip_to_u32 ip) < 2 ^ 32" "unat port < 2 ^ 16"
    using unsigned_less [of tm] unsigned_less [of "ip_to_u32 ip"] unsigned_less [of port] by simp_all
  have f: "N div 2 ^ 17 mod 2 ^ 32 = unat tm" "N div 2 ^ 49 = unat (ip_to_u32 ip) + unat tm"
    "\<exists>k. N mod 2 ^ 24 = unat port + unat tm mod 2 ^ 16 + 2 ^ 17 * k"
    using mangle_fields [of "unat tm" "unat (ip_to_u32 ip)" "unat port" N] b
      mangle_number_value [of tm ip port] by (simp_all add: N_def)
  let ?n = "mangle_number tm ip port"
  have tm: "drop_bit 17 ?n AND 0xFFFFFFFF = ucast tm"
    by (rule word_unat_eq_iff [THEN iffD2])
      (simp only: masks unat_and_mask unat_drop_bit_div f N_def [symmetric], use b in \<open>simp add: unat_ucast_mod\<close>)
  have u: "unat (ucast (ip_to_u32 ip) :: u128) = unat (ip_to_u32 ip)" "unat (ucast tm :: u128) = unat tm"
    using b by (simp_all add: unat_ucast_mod)
  have "unat (ucast (ip_to_u32 ip) + ucast tm :: u128) = unat (ip_to_u32 ip) + unat tm"
    using b by (subst unat_add_lem [THEN iffD1]) (simp_all add: u)
  then have "unat (drop_bit 49 ?n) = unat (ucast (ip_to_u32 ip) + ucast tm :: u128)"
    by (simp only: unat_drop_bit_div f N_def [symmetric])
  then have ip: "drop_bit 49 ?n - ucast tm = ucast (ip_to_u32 ip)"
    by (simp add: word_unat_eq_iff [symmetric])
  obtain k where k: "N mod 2 ^ 24 = unat port + unat tm mod 2 ^ 16 + 2 ^ 17 * k" using f(3) by blast
  have n24: "unat (?n AND 0xFFFFFF) = unat port + unat tm mod 2 ^ 16 + 2 ^ 17 * k"
    "unat (ucast tm AND 0xFFFF :: u128) = unat tm mod 2 ^ 16"
    by (simp_all only: masks unat_and_mask u k N_def [symmetric])
  then have "unat ((?n AND 0xFFFFFF) - (ucast tm AND 0xFFFF)) = unat port + k * 2 * 2 ^ 16"
    by (subst unat_sub) (simp_all add: word_le_nat_alt)
  moreover have "(unat port + k * 2 * 2 ^ 16) mod 2 ^ 16 = unat port"
    using b(3) by (simp only: mod_mult_self1 mod_less)
  ultimately have port: "(ucast ((?n AND 0xFFFFFF) - (ucast tm AND 0xFFFF)) :: u16) = port"
    by (intro word_unat_eq_iff [THEN iffD2]) (simp add: unat_ucast_mod)
  show ?thesis
    using V4 padded_strip [of ?n] tm ip port u32_up
    by (simp add: mangle_encode_def mangle_decode_def Let_def)
next
  case (V6 o6 port)
  have "addr = V6 o6 port"
    using V6 by (auto simp: try_into_v4_def split: socket_addr.splits if_splits option.splits)
  then have "length o6 = 16" by (rule assms)
  moreover have "(ucast (ucast port :: u8) OR push_bit 8 (ucast (ucast (drop_bit 8 port) :: u8)) :: u16) = port"
    by (rule bit_eqI) (auto simp: bit_simps not_less dest: bit_imp_le_length)
  ultimately show ?thesis
    using V6 by (simp add: mangle_encode_def mangle_decode_def nth_append)
qed

theorem mangle_roundtrip_witness:
  "mangle_decode (mangle_encode 4294967295 (V4 (192, 168, 16, 32) 21116)) = V4 (192, 168, 16, 32) 21116"
  by (subst mangle_roundtrip) (simp_all add: try_into_v4_def)

section \<open>Versions\<close>

text \<open>\<open>get_version_number\<close> in 64-bit signed arithmetic that wraps.\<close>

definition i64_of :: "string \<Rightarrow> 64 word" where
  "i64_of s = (case parse_i64 s of Some n \<Rightarrow> of_int n | None \<Rightarrow> 0)"

definition version_parts :: "string \<Rightarrow> 64 word" where
  "version_parts v =
     (case foldl (\<lambda>(n, _) x. (n * 1000 + i64_of x, i64_of x)) (0, 0) (split_on ((=) CHR ''.'') v) of
        (n, lst) \<Rightarrow> n - lst + lst * 10)"

definition get_version_number :: "string \<Rightarrow> 64 word" where
  "get_version_number v =
     (case split_on ((=) CHR ''-'') v of
        [] \<Rightarrow> 0
      | [a] \<Rightarrow> version_parts a
      | a # b # _ \<Rightarrow> version_parts a + i64_of b)"

text \<open>
  \<open>position\<close> in the reversed text is \<open>rpos\<close>; the separators are ASCII, so that counting
  bytes and counting characters from the end select the same text.
\<close>

fun position :: "char \<Rightarrow> string \<Rightarrow> nat option" where
  "position c [] = None"
| "position c (x # xs) = (if x = c then Some 0 else map_option Suc (position c xs))"

definition rpos :: "char \<Rightarrow> string \<Rightarrow> nat option" where
  "rpos c s = position c (rev s)"

definition get_version_from_url :: "string \<Rightarrow> string" where
  "get_version_from_url url =
     (let n = length url in
      case rpos CHR ''-'' url of
        Some a \<Rightarrow>
          (case rpos CHR ''.'' url of
             Some b \<Rightarrow>
               if b < a then
                 (case parse_i64 (drop (n - b) url) of
                    Some i \<Rightarrow>
                      if -2147483648 \<le> i \<and> i \<le> 2147483647 then drop (n - a) url
                      else take (a - b - 1) (drop (n - a) url)
                  | None \<Rightarrow> take (a - b - 1) (drop (n - a) url))
               else drop (n - a) url
           | None \<Rightarrow> [])
      | None \<Rightarrow> [])"

definition time_based_rand :: "u64 \<Rightarrow> u32" where
  "time_based_rand nanos =
     (let x = nanos;
          x = x XOR push_bit 13 x;
          x = x XOR drop_bit 7 x;
          x = x XOR push_bit 17 x
      in ucast (x mod 32768))"

lemma i64_of_dec: "n \<le> 9223372036854775807 \<Longrightarrow> i64_of (dec n) = of_nat n"
  by (simp add: i64_of_def)

definition show_version :: "nat \<Rightarrow> nat \<Rightarrow> nat \<Rightarrow> nat \<Rightarrow> string" where
  "show_version a b c p =
     join_with CHR ''-'' [join_with CHR ''.'' [dec a, dec b, dec c], dec p]"

lemma split_version:
  "split_on ((=) CHR ''-'') (show_version a b c p) = [join_with CHR ''.'' [dec a, dec b, dec c], dec p]"
  "split_on ((=) CHR ''.'') (join_with CHR ''.'' [dec a, dec b, dec c]) = [dec a, dec b, dec c]"
  unfolding show_version_def by (rule split_join; auto simp: dec_no_sep)+

lemma version_number_value:
  assumes "a < 1000000" "b < 1000000" "c < 1000000" "p < 1000000"
  shows "get_version_number (show_version a b c p) = of_nat (a * 1000000 + b * 1000 + c * 10 + p)"
proof -
  have "get_version_number (show_version a b c p)
    = version_parts (join_with CHR ''.'' [dec a, dec b, dec c]) + i64_of (dec p)"
    by (simp only: get_version_number_def split_version list.case)
  also have "version_parts (join_with CHR ''.'' [dec a, dec b, dec c]) = of_nat (a * 1000000 + b * 1000 + c * 10)"
    unfolding version_parts_def split_version using assms by (simp add: i64_of_dec algebra_simps)
  finally show ?thesis using assms by (simp add: i64_of_dec)
qed

lemma sint_of_nat_small: "n < 2 ^ 63 \<Longrightarrow> sint (of_nat n :: 64 word) = int n"
  by (simp add: signed_of_nat signed_take_bit_int_eq_self)

text \<open>
  The version number orders releases: with fewer than 1000 minor, 100 third-place and 10 patch
  releases, comparing numbers is comparing the four parts from left to right.
\<close>

theorem version_number_orders:
  assumes "a < 1000000" "b < 1000" "c < 100" "p < 10" and "a' < 1000000" "b' < 1000" "c' < 100" "p' < 10"
  shows "sint (get_version_number (show_version a b c p)) < sint (get_version_number (show_version a' b' c' p'))
    \<longleftrightarrow> a < a' \<or> a = a' \<and> (b < b' \<or> b = b' \<and> (c < c' \<or> c = c' \<and> p < p'))"
proof -
  have "sint (get_version_number (show_version a b c p)) = int (a * 1000000 + b * 1000 + c * 10 + p)"
    using assms by (subst version_number_value) (simp_all add: sint_of_nat_small del: of_nat_add of_nat_mult)
  moreover have "sint (get_version_number (show_version a' b' c' p'))
      = int (a' * 1000000 + b' * 1000 + c' * 10 + p')"
    using assms by (subst version_number_value) (simp_all add: sint_of_nat_small del: of_nat_add of_nat_mult)
  ultimately show ?thesis using assms by (simp only: of_nat_less_iff) linarith
qed

theorem version_number_orders_witness:
  "sint (get_version_number (show_version 1 3 9 0)) < sint (get_version_number (show_version 1 4 0 0))"
  by (subst version_number_orders) simp_all

text \<open>The hundredth third-place release of a minor version counts as the next minor version.\<close>

lemma version_number_clash:
  "get_version_number (show_version 1 1 100 0) = get_version_number (show_version 1 2 0 0)"
  by (simp add: version_number_value)

lemma time_based_rand_bound: "time_based_rand n < 32768"
proof -
  have "(x :: u64) mod 32768 < 32768" for x by (simp add: word_less_nat_alt unat_mod)
  then show ?thesis
    by (simp add: time_based_rand_def Let_def word_less_nat_alt unat_ucast_mod unat_mod)
qed

end
