(* ===== verification/PasswordStore.thy ===== *)
theory PasswordStore
  imports Text
begin

text \<open>
  How secrets are written to the configuration files
  (\<open>libs/hbb_common/src/password_security.rs\<close>): a value is stored as \<open>"00"\<close> followed by
  the base64 text of a secretbox under a key derived from the machine, and a value that already has
  this shape, is too long or cannot be sealed is stored as it is. The crypto library is a parameter:
  \<open>secret_fns\<close> holds sodiumoxide's base64 and secretbox (with the fixed zero nonce the code
  uses), and \<open>machine\<close> what \<open>get_uuid\<close> and \<open>get_existing_key_pair\<close> return.
  Byte vectors are \<open>string\<close>s here, as text is.
\<close>

section \<open>UTF-8\<close>

definition byte_in :: "nat \<Rightarrow> nat \<Rightarrow> string \<Rightarrow> nat \<Rightarrow> bool" where
  "byte_in lo hi s i \<longleftrightarrow> i < length s \<and> lo \<le> of_char (s ! i) \<and> of_char (s ! i) \<le> hi"

text \<open>
  One step of \<open>from_utf8_lossy\<close>: whether the text starts with a well-formed character, and the
  length of that character or of the malformed sequence (at least 1).
\<close>

definition utf8_step :: "string \<Rightarrow> bool \<times> nat" where
  "utf8_step s =
     (let b = (of_char (hd s) :: nat);
          cont = byte_in 0x80 0xBF s;
          lo2 = (if b = 0xE0 then 0xA0 else if b = 0xF0 then 0x90 else 0x80);
          hi2 = (if b = 0xED then 0x9F else if b = 0xF4 then 0x8F else 0xBF)
      in if b < 0x80 then (True, 1)
         else if 0xC2 \<le> b \<and> b \<le> 0xDF then (if cont 1 then (True, 2) else (False, 1))
         else if 0xE0 \<le> b \<and> b \<le> 0xEF then
           (if \<not> byte_in lo2 hi2 s 1 then (False, 1)
            else if \<not> cont 2 then (False, 2) else (True, 3))
         else if 0xF0 \<le> b \<and> b \<le> 0xF4 then
           (if \<not> byte_in lo2 hi2 s 1 then (False, 1)
            else if \<not> cont 2 then (False, 2)
            else if \<not> cont 3 then (False, 3) else (True, 4))
         else (False, 1))"

lemma utf8_step_pos: "0 < snd (utf8_step s)"
  by (simp add: utf8_step_def Let_def)

definition replacement_char :: string where
  "replacement_char = map char_of [0xEF :: nat, 0xBF, 0xBD]"

function from_utf8_lossy :: "string \<Rightarrow> string" where
  "from_utf8_lossy s =
     (if s = [] then []
      else
        (if fst (utf8_step s) then take (snd (utf8_step s)) s else replacement_char)
        @ from_utf8_lossy (drop (snd (utf8_step s)) s))"
  by pat_completeness auto
termination
  by (relation "measure length") (auto simp: utf8_step_pos)

declare from_utf8_lossy.simps [simp del]

function valid_utf8 :: "string \<Rightarrow> bool" where
  "valid_utf8 s =
     (if s = [] then True
      else if fst (utf8_step s) then valid_utf8 (drop (snd (utf8_step s)) s) else False)"
  by pat_completeness auto
termination
  by (relation "measure length") (auto simp: utf8_step_pos)

declare valid_utf8.simps [simp del]

lemma lossy_valid [simp]: "valid_utf8 s \<Longrightarrow> from_utf8_lossy s = s"
proof (induction s rule: valid_utf8.induct)
  case (1 s)
  then show ?case
    by (cases "s = []") (auto simp: from_utf8_lossy.simps [of s] from_utf8_lossy.simps [of "[]"]
        valid_utf8.simps [of s] split: if_splits)
qed

text \<open>\<open>s.chars().count()\<close>: the bytes of a valid string that are no continuation bytes.\<close>

definition char_count :: "string \<Rightarrow> nat" where
  "char_count s = length (filter (\<lambda>c. \<not> (0x80 \<le> (of_char c :: nat) \<and> (of_char c :: nat) < 0xC0)) s)"

section \<open>Sealing\<close>

record secret_fns =
  b64_encode :: "string \<Rightarrow> string"
  b64_decode :: "string \<Rightarrow> string option"
  box_seal :: "string \<Rightarrow> string \<Rightarrow> string"
  box_open :: "string \<Rightarrow> string \<Rightarrow> string option"

record machine =
  machine_uuid :: string
  existing_key_pair :: "(string \<times> string) option"

abbreviation "VERSION_LEN \<equiv> (2 :: nat)"
abbreviation "MACBYTES \<equiv> (16 :: nat)"
abbreviation "KEYBYTES \<equiv> (32 :: nat)"

text \<open>\<open>keybuf.resize(KEYBYTES, 0)\<close>\<close>

definition resize_key :: "string \<Rightarrow> string" where
  "resize_key k = take KEYBYTES (k @ replicate KEYBYTES (CHR 0x00))"

definition symmetric_crypt ::
  "secret_fns \<Rightarrow> machine \<Rightarrow> string \<Rightarrow> bool \<Rightarrow> string option" where
  "symmetric_crypt f mc data encrypt =
     (let uuid = machine_uuid mc; key = resize_key uuid in
      if encrypt then Some (box_seal f key data)
      else case box_open f key data of
        Some m \<Rightarrow> Some m
      | None \<Rightarrow>
          (case existing_key_pair mc of
             Some (sk, pk) \<Rightarrow>
               if pk \<noteq> uuid then box_open f (resize_key pk) data else None
           | None \<Rightarrow> None))"

definition encrypt_bytes :: "secret_fns \<Rightarrow> machine \<Rightarrow> string \<Rightarrow> string option" where
  "encrypt_bytes f mc v =
     (if v \<noteq> [] then map_option (b64_encode f) (symmetric_crypt f mc v True) else None)"

definition decrypt_bytes :: "secret_fns \<Rightarrow> machine \<Rightarrow> string \<Rightarrow> string option" where
  "decrypt_bytes f mc v =
     (if v \<noteq> [] then Option.bind (b64_decode f v) (\<lambda>v. symmetric_crypt f mc v False) else None)"

definition is_encrypted :: "secret_fns \<Rightarrow> string \<Rightarrow> bool" where
  "is_encrypted f v =
     (if length v \<le> VERSION_LEN \<or> \<not> starts_with v ''00'' then False
      else case b64_decode f (drop VERSION_LEN v) of
        Some decoded \<Rightarrow> MACBYTES \<le> length decoded
      | None \<Rightarrow> False)"

definition encrypt_str_or_original ::
  "secret_fns \<Rightarrow> machine \<Rightarrow> string \<Rightarrow> string \<Rightarrow> nat \<Rightarrow> string" where
  "encrypt_str_or_original f mc s version max_len =
     (if is_encrypted f s then s
      else if max_len < char_count s then []
      else if version = ''00'' then
        (case encrypt_bytes f mc s of Some e \<Rightarrow> version @ e | None \<Rightarrow> s)
      else s)"

text \<open>The text, whether decryption succeeded, whether the caller should store it again.\<close>

definition decrypt_str_or_original ::
  "secret_fns \<Rightarrow> machine \<Rightarrow> string \<Rightarrow> string \<Rightarrow> string \<times> bool \<times> bool" where
  "decrypt_str_or_original f mc s current_version =
     (let plain = (s, False, s \<noteq> [] \<and> \<not> is_encrypted f s) in
      if VERSION_LEN < length s \<and> starts_with s ''00'' then
        (case decrypt_bytes f mc (drop VERSION_LEN s) of
           Some v \<Rightarrow> (from_utf8_lossy v, True, ''00'' \<noteq> current_version)
         | None \<Rightarrow> plain)
      else plain)"

definition encrypt_vec_or_original ::
  "secret_fns \<Rightarrow> machine \<Rightarrow> string \<Rightarrow> string \<Rightarrow> nat \<Rightarrow> string" where
  "encrypt_vec_or_original f mc v version max_len =
     (if is_encrypted f v then v
      else if max_len < length v then []
      else if version = ''00'' then
        (case encrypt_bytes f mc v of Some e \<Rightarrow> version @ e | None \<Rightarrow> v)
      else v)"

definition decrypt_vec_or_original ::
  "secret_fns \<Rightarrow> machine \<Rightarrow> string \<Rightarrow> string \<Rightarrow> string \<times> bool \<times> bool" where
  "decrypt_vec_or_original f mc v current_version =
     (let plain = (v, False, v \<noteq> [] \<and> \<not> is_encrypted f v) in
      if VERSION_LEN < length v then
        (let version = from_utf8_lossy (take VERSION_LEN v) in
         if version = ''00'' then
           (case decrypt_bytes f mc (drop VERSION_LEN v) of
              Some v' \<Rightarrow> (v', True, version \<noteq> current_version)
            | None \<Rightarrow> plain)
         else plain)
      else plain)"

section \<open>Facts\<close>

text \<open>What the code relies on: sodiumoxide's documented round trips and ciphertext length.\<close>

definition secret_fns_ok :: "secret_fns \<Rightarrow> bool" where
  "secret_fns_ok f \<longleftrightarrow>
     (\<forall>m. b64_decode f (b64_encode f m) = Some m) \<and>
     (\<forall>m. m \<noteq> [] \<longrightarrow> b64_encode f m \<noteq> []) \<and>
     (\<forall>k m. box_open f k (box_seal f k m) = Some m) \<and>
     (\<forall>k m. length (box_seal f k m) = length m + MACBYTES)"

lemma secret_fns_okD:
  assumes "secret_fns_ok f"
  shows "b64_decode f (b64_encode f m) = Some m" "m \<noteq> [] \<Longrightarrow> b64_encode f m \<noteq> []"
    "box_open f k (box_seal f k m) = Some m" "length (box_seal f k m) = length m + MACBYTES"
  using assms by (auto simp: secret_fns_ok_def)

lemma box_seal_nonempty: "secret_fns_ok f \<Longrightarrow> box_seal f k m \<noteq> []"
  using secret_fns_okD(4) [of f k m] by auto

lemma encrypt_bytes_eq:
  "v \<noteq> [] \<Longrightarrow> encrypt_bytes f mc v = Some (b64_encode f (box_seal f (resize_key (machine_uuid mc)) v))"
  by (simp add: encrypt_bytes_def symmetric_crypt_def)

lemma decrypt_encrypt_bytes:
  assumes "secret_fns_ok f" and "encrypt_bytes f mc v = Some e"
  shows "decrypt_bytes f mc e = Some v" "e \<noteq> []"
    "\<exists>d. b64_decode f e = Some d \<and> MACBYTES \<le> length d"
proof -
  have v: "v \<noteq> []" using assms(2) by (auto simp: encrypt_bytes_def split: if_splits)
  then have e: "e = b64_encode f (box_seal f (resize_key (machine_uuid mc)) v)"
    using assms(2) by (simp add: encrypt_bytes_eq)
  show "e \<noteq> []" using assms(1) e by (simp add: secret_fns_okD box_seal_nonempty)
  then show "decrypt_bytes f mc e = Some v"
    using assms(1) e by (simp add: decrypt_bytes_def symmetric_crypt_def secret_fns_okD)
  show "\<exists>d. b64_decode f e = Some d \<and> MACBYTES \<le> length d"
    using assms(1) e by (simp add: secret_fns_okD)
qed

lemma sealed_is_encrypted:
  assumes "secret_fns_ok f" and "encrypt_bytes f mc v = Some e"
  shows "is_encrypted f (''00'' @ e)"
  using decrypt_encrypt_bytes(2,3) [OF assms] by (auto simp: is_encrypted_def)

lemma utf8_00: "from_utf8_lossy (CHR ''0'' # CHR ''0'' # []) = ''00''"
  by (simp add: from_utf8_lossy.simps utf8_step_def)

lemma encrypt_str_some:
  assumes "\<not> is_encrypted f s" and "char_count s \<le> max_len" and "encrypt_bytes f mc s = Some e"
  shows "encrypt_str_or_original f mc s ''00'' max_len = ''00'' @ e"
  using assms by (simp add: encrypt_str_or_original_def)

lemma encrypt_str_encrypted [simp]:
  "is_encrypted f s \<Longrightarrow> encrypt_str_or_original f mc s v n = s"
  by (simp add: encrypt_str_or_original_def)

text \<open>The stored peer passwords are byte vectors; the same round trip holds for them.\<close>

lemma stored_vec_roundtrip:
  assumes "secret_fns_ok f" and "v \<noteq> []" and "\<not> is_encrypted f v" and "length v \<le> max_len"
  shows "decrypt_vec_or_original f mc (encrypt_vec_or_original f mc v ''00'' max_len) ''00''
    = (v, True, False)"
proof -
  obtain e where e: "encrypt_bytes f mc v = Some e" using encrypt_bytes_eq [OF assms(2)] by blast
  then have "encrypt_vec_or_original f mc v ''00'' max_len = ''00'' @ e"
    using assms(3,4) by (simp add: encrypt_vec_or_original_def)
  then show ?thesis
    using decrypt_encrypt_bytes [OF assms(1) e] by (simp add: decrypt_vec_or_original_def utf8_00)
qed

text \<open>
  A secret that fits the length limit is stored encrypted and read back unchanged, with no
  request to store it again, and storing what was stored already changes nothing.
\<close>

theorem stored_secret_roundtrip:
  assumes "secret_fns_ok f" and "s \<noteq> []" and "\<not> is_encrypted f s"
    and "char_count s \<le> max_len" and "valid_utf8 s"
  shows "decrypt_str_or_original f mc (encrypt_str_or_original f mc s ''00'' max_len) ''00''
           = (s, True, False) \<and>
         is_encrypted f (encrypt_str_or_original f mc s ''00'' max_len) \<and>
         encrypt_str_or_original f mc (encrypt_str_or_original f mc s ''00'' max_len) ''00'' n
           = encrypt_str_or_original f mc s ''00'' max_len"
proof -
  obtain e where e: "encrypt_bytes f mc s = Some e" using encrypt_bytes_eq [OF assms(2)] by blast
  note enc = encrypt_str_some [OF assms(3,4) e] and de = decrypt_encrypt_bytes [OF assms(1) e]
  show ?thesis
    using sealed_is_encrypted [OF assms(1) e] de assms(5)
    by (simp add: enc) (simp add: decrypt_str_or_original_def)
qed

definition demo_fns :: secret_fns where
  "demo_fns = \<lparr>b64_encode = id, b64_decode = Some, box_seal = (\<lambda>k m. replicate MACBYTES CHR ''m'' @ m),
     box_open = (\<lambda>k m. Some (drop MACBYTES m))\<rparr>"

lemma demo_fns_ok: "secret_fns_ok demo_fns"
  by (simp add: secret_fns_ok_def demo_fns_def)

theorem stored_secret_roundtrip_witness:
  "decrypt_str_or_original demo_fns \<lparr>machine_uuid = ''u'', existing_key_pair = None\<rparr>
     (encrypt_str_or_original demo_fns \<lparr>machine_uuid = ''u'', existing_key_pair = None\<rparr> ''pw1'' ''00'' 128) ''00''
   = (''pw1'', True, False)"
proof -
  have "\<not> is_encrypted demo_fns ''pw1''" "char_count ''pw1'' \<le> 128" "valid_utf8 ''pw1''"
    by (simp_all add: is_encrypted_def char_count_def valid_utf8.simps utf8_step_def)
  then show ?thesis using stored_secret_roundtrip [OF demo_fns_ok, of "''pw1''" 128] by simp
qed

text \<open>
  What is read back after a failed decryption is the stored text itself, and storing is asked
  for only if the text does not already look encrypted: a key mismatch never makes the program
  rewrite the file on each load.
\<close>

theorem failed_decrypt_keeps_value:
  assumes "decrypt_str_or_original f mc s cur = (s', False, store)"
  shows "s' = s \<and> (store \<longleftrightarrow> s \<noteq> [] \<and> \<not> is_encrypted f s)"
  using assms by (auto simp: decrypt_str_or_original_def Let_def split: if_splits option.splits)

theorem failed_decrypt_keeps_value_witness:
  "decrypt_str_or_original demo_fns \<lparr>machine_uuid = ''u'', existing_key_pair = None\<rparr> ''abc'' ''00''
     = (''abc'', False, True)"
proof -
  have d: "decrypt_str_or_original demo_fns \<lparr>machine_uuid = ''u'', existing_key_pair = None\<rparr> ''abc'' ''00''
     = (''abc'', False, \<not> is_encrypted demo_fns ''abc'')"
    by (simp add: decrypt_str_or_original_def)
  show ?thesis using failed_decrypt_keeps_value [OF d] d by (simp add: is_encrypted_def)
qed

end
