(* ===== verification/OptionStore.thy ===== *)
theory OptionStore
  imports Text
begin

text \<open>
  The interface of a settings store: what a reader of options relies on, whichever of the stores
  (main, local, interface, display defaults) holds them. A key can be pinned by the build of the
  program (\<open>pinned\<close>); the empty text resets a key to its default. The locale
  \<open>saved_options\<close> adds what is kept on disk.
\<close>

locale option_store =
  fixes get :: "'s \<Rightarrow> string \<Rightarrow> string"
    and put :: "string \<Rightarrow> string \<Rightarrow> 's \<Rightarrow> 's"
    and pinned :: "'s \<Rightarrow> string \<Rightarrow> bool"
    and fallback :: "'s \<Rightarrow> string \<Rightarrow> string"
    and ordinary :: "string \<Rightarrow> string \<Rightarrow> bool"
  assumes get_put_same: "ordinary k v \<Longrightarrow> \<not> pinned s k \<Longrightarrow>
      get (put k v s) k = (if v = [] then fallback s k else v)"
    and get_put_other: "k' \<noteq> k \<Longrightarrow> get (put k v s) k' = get s k'"
    and get_put_pinned: "pinned s k \<Longrightarrow> get (put k v s) k = get s k"
    and pinned_put: "pinned (put k v s) k' = pinned s k'"
    and fallback_put: "fallback (put k v s) k' = fallback s k'"
begin

definition puts :: "(string \<times> string) list \<Rightarrow> 's \<Rightarrow> 's" where
  "puts ws s = fold (\<lambda>(k, v). put k v) ws s"

lemma puts_Nil [simp]: "puts [] s = s"
  by (simp add: puts_def)

lemma puts_Cons [simp]: "puts (w # ws) s = puts ws (put (fst w) (snd w) s)"
  by (cases w) (simp add: puts_def)

lemma puts_snoc: "puts (ws @ [(k, v)]) s = put k v (puts ws s)"
  by (simp add: puts_def)

lemma pinned_puts [simp]: "pinned (puts ws s) k = pinned s k"
  by (induction ws arbitrary: s) (simp_all add: pinned_put)

lemma fallback_puts [simp]: "fallback (puts ws s) k = fallback s k"
  by (induction ws arbitrary: s) (simp_all add: fallback_put)

lemma puts_pinned: "pinned s k \<Longrightarrow> get (puts ws s) k = get s k"
proof (induction ws rule: rev_induct)
  case (snoc w ws)
  then show ?case
    by (cases w; cases "fst w = k") (auto simp: puts_snoc get_put_other get_put_pinned)
qed simp

text \<open>The last writer of a key decides what is read.\<close>

lemma last_writer:
  assumes "\<forall>(k, v) \<in> set ws. ordinary k v"
  shows "get (puts ws s) k =
    (if pinned s k then get s k
     else case map_of (rev ws) k of
       None \<Rightarrow> get s k
     | Some v \<Rightarrow> if v = [] then fallback s k else v)"
  using assms
proof (induction ws rule: rev_induct)
  case (snoc w ws)
  obtain k' v' where w: "w = (k', v')" by (cases w)
  have IH: "get (puts ws s) k =
    (if pinned s k then get s k
     else case map_of (rev ws) k of
       None \<Rightarrow> get s k
     | Some v \<Rightarrow> if v = [] then fallback s k else v)"
    using snoc by simp
  show ?case
  proof (cases "k' = k")
    case True
    then show ?thesis
      using snoc.prems w by (simp add: puts_snoc get_put_same puts_pinned get_put_pinned)
  next
    case False
    then show ?thesis using IH w by (simp add: puts_snoc get_put_other)
  qed
qed simp

lemma put_twice:
  assumes "ordinary k v" "ordinary k v'"
  shows "get (put k v' (put k v s)) k = get (put k v' s) k"
  using assms by (cases "pinned s k") (simp_all add: get_put_same get_put_pinned pinned_put fallback_put)

lemma put_commute:
  assumes "k \<noteq> k'" "ordinary k v" "ordinary k' v'"
  shows "get (put k v (put k' v' s)) j = get (put k' v' (put k v s)) j"
proof -
  have c: "get (put k v (put k' v' s)) j =
      (if j = k then get (put k v s) k else if j = k' then get (put k' v' s) k' else get s j)"
    if "k \<noteq> k'" "ordinary k v" for k k' v v'
    using that
    by (cases "pinned s k") (auto simp: get_put_same get_put_other get_put_pinned pinned_put fallback_put)
  show ?thesis using c [OF assms(1,2)] c [of k' k v' v] assms by auto
qed

end

text \<open>A store whose every write leaves the file equal to the image of what is in memory.\<close>

locale saved_options = option_store get put pinned fallback ordinary
  for get :: "'s \<Rightarrow> string \<Rightarrow> string" and put pinned fallback ordinary +
  fixes on_disk :: "'s \<Rightarrow> bool"
  assumes on_disk_put: "on_disk s \<Longrightarrow> on_disk (put k v s)"
begin

lemma on_disk_puts: "on_disk s \<Longrightarrow> on_disk (puts ws s)"
  by (induction ws arbitrary: s) (simp_all add: on_disk_put)

end

end
