(* ===== verification/Config.thy ===== *)
theory Config
  imports PasswordStore OptionStore
begin

text \<open>
  The configuration store (\<open>libs/hbb_common/src/config.rs\<close>): the process-wide settings maps,
  the two main configuration files, the local and the display-default options, and the trusted
  devices of two-factor login. The lazily initialised globals are one record \<open>cfg\<close>; what the
  code writes to a file is kept in the \<open>file\<close> fields, encrypted as the code encrypts it.
  \<open>cfg_env\<close> holds what the code takes from outside: the crypto library, the machine identity,
  \<open>serde_json\<close> on the device list, and the time in milliseconds.
\<close>

section \<open>Data\<close>

type_synonym options = "string \<rightharpoonup> string"

record socks5_server =
  proxy :: string
  socks_username :: string
  socks_password :: string

record config_rec =
  cfg_id :: string
  enc_id :: string
  cfg_password :: string
  cfg_salt :: string
  key_pair :: "string \<times> string"
  key_confirmed :: bool
  keys_confirmed :: "string \<rightharpoonup> bool"

record config2_rec =
  rendezvous_server :: string
  nat_type :: int
  serial :: int
  unlock_pin :: string
  trusted_devices :: string
  socks :: "socks5_server option"
  cfg2_options :: options

record local_rec =
  remote_id :: string
  kb_layout_type :: string
  local_size :: "int \<times> int \<times> int \<times> int"
  fav :: "string list"
  local_options :: options
  ui_flutter :: options

record trusted_device =
  td_hwid :: string
  td_time :: int
  td_id :: string
  td_name :: string
  td_platform :: string

record cfg_env =
  fns :: secret_fns
  mach :: machine
  devices_to_json :: "trusted_device list \<Rightarrow> string"
  devices_of_json :: "string \<Rightarrow> trusted_device list option"
  get_time :: int

record cfg =
  config :: config_rec
  config2 :: config2_rec
  local_config :: local_rec
  user_default :: options
  trusted_cache :: "trusted_device list \<times> bool"
  default_settings :: options
  overwrite_settings :: options
  default_display_settings :: options
  overwrite_display_settings :: options
  default_local_settings :: options
  overwrite_local_settings :: options
  hard_settings :: options
  builtin_settings :: options
  config_file :: "config_rec option"
  config2_file :: "config2_rec option"
  local_file :: "local_rec option"
  default_file :: "options option"
  key_cache :: "(string \<times> string) option"
  status :: options
  status_file :: "options option"

abbreviation "PASSWORD_ENC_VERSION \<equiv> ''00''"
abbreviation "ENCRYPT_MAX_LEN \<equiv> (128 :: nat)"
abbreviation "SERIAL \<equiv> (3 :: int)"

section \<open>Reading options\<close>

definition get_or :: "options \<Rightarrow> options \<Rightarrow> options \<Rightarrow> string \<Rightarrow> string option" where
  "get_or a b c k =
     (case a k of Some v \<Rightarrow> Some v
      | None \<Rightarrow> (case b k of Some v \<Rightarrow> Some v | None \<Rightarrow> c k))"

definition is_option_can_save :: "options \<Rightarrow> string \<Rightarrow> options \<Rightarrow> string \<Rightarrow> bool" where
  "is_option_can_save overwrite k defaults v =
     (if overwrite k \<noteq> None \<or> (case defaults k of Some x \<Rightarrow> x = v | None \<Rightarrow> False)
      then False else True)"

definition unwrap_or_default :: "string option \<Rightarrow> string" where
  "unwrap_or_default x = (case x of Some v \<Rightarrow> v | None \<Rightarrow> [])"

definition option2bool :: "string \<Rightarrow> string \<Rightarrow> bool" where
  "option2bool option value =
     (if starts_with option ''enable-'' then value \<noteq> ''N''
      else if starts_with option ''allow-'' \<or> option = ''stop-service''
        \<or> option = ''direct-server'' \<or> option = ''force-always-relay''
      then value = ''Y''
      else value \<noteq> ''N'')"

definition map_or_eq :: "options \<Rightarrow> string \<Rightarrow> string \<Rightarrow> bool" where
  "map_or_eq m k v = (case m k of Some x \<Rightarrow> x = v | None \<Rightarrow> False)"

definition is_incoming_only :: "cfg \<Rightarrow> bool" where
  "is_incoming_only g = map_or_eq (hard_settings g) ''conn-type'' ''incoming''"

definition is_outgoing_only :: "cfg \<Rightarrow> bool" where
  "is_outgoing_only g = map_or_eq (hard_settings g) ''conn-type'' ''outgoing''"

definition is_some_hard_opton :: "cfg \<Rightarrow> string \<Rightarrow> bool" where
  "is_some_hard_opton g name = map_or_eq (hard_settings g) name ''Y''"

definition no_register_device :: "cfg \<Rightarrow> bool" where
  "no_register_device g = map_or_eq (builtin_settings g) ''register-device'' ''N''"

definition is_disable_change_permanent_password :: "cfg \<Rightarrow> bool" where
  "is_disable_change_permanent_password g =
     map_or_eq (builtin_settings g) ''disable-change-permanent-password'' ''Y''"

definition is_disable_change_id :: "cfg \<Rightarrow> bool" where
  "is_disable_change_id g = map_or_eq (builtin_settings g) ''disable-change-id'' ''Y''"

definition is_disable_unlock_pin :: "cfg \<Rightarrow> bool" where
  "is_disable_unlock_pin g = map_or_eq (builtin_settings g) ''disable-unlock-pin'' ''Y''"

definition get_option :: "cfg \<Rightarrow> string \<Rightarrow> string" where
  "get_option g k =
     unwrap_or_default
       (get_or (overwrite_settings g) (cfg2_options (config2 g)) (default_settings g) k)"

definition get_bool_option :: "cfg \<Rightarrow> string \<Rightarrow> bool" where
  "get_bool_option g k = option2bool k (get_option g k)"

text \<open>\<open>extend\<close> inserts every entry of the argument over the entries of the receiver.\<close>

definition get_options :: "cfg \<Rightarrow> options" where
  "get_options g = (default_settings g ++ cfg2_options (config2 g)) ++ overwrite_settings g"

section \<open>Writing the files\<close>

definition config_image :: "cfg_env \<Rightarrow> config_rec \<Rightarrow> config_rec" where
  "config_image e c =
     (let enc = (\<lambda>s. encrypt_str_or_original (fns e) (mach e) s PASSWORD_ENC_VERSION ENCRYPT_MAX_LEN);
          c = c\<lparr>cfg_password := enc (cfg_password c)\<rparr>;
          c = c\<lparr>enc_id := enc (cfg_id c)\<rparr>
      in c\<lparr>cfg_id := []\<rparr>)"

definition config_store :: "cfg_env \<Rightarrow> cfg \<Rightarrow> cfg" where
  "config_store e g = g\<lparr>config_file := Some (config_image e (config g))\<rparr>"

definition config2_image :: "cfg_env \<Rightarrow> config2_rec \<Rightarrow> config2_rec" where
  "config2_image e c =
     (let enc = (\<lambda>s. encrypt_str_or_original (fns e) (mach e) s PASSWORD_ENC_VERSION ENCRYPT_MAX_LEN);
          c = (case socks c of
                 Some s \<Rightarrow> c\<lparr>socks := Some (s\<lparr>socks_password := enc (socks_password s)\<rparr>)\<rparr>
               | None \<Rightarrow> c)
      in c\<lparr>unlock_pin := enc (unlock_pin c)\<rparr>)"

definition config2_store :: "cfg_env \<Rightarrow> cfg \<Rightarrow> cfg" where
  "config2_store e g = g\<lparr>config2_file := Some (config2_image e (config2 g))\<rparr>"

definition config2_load :: "cfg_env \<Rightarrow> config2_rec \<Rightarrow> config2_rec \<times> bool" where
  "config2_load e c =
     (let dec = (\<lambda>s. decrypt_str_or_original (fns e) (mach e) s PASSWORD_ENC_VERSION);
          (c, store) =
            (case socks c of
               Some s \<Rightarrow>
                 (case dec (socks_password s) of
                    (p, _, st) \<Rightarrow> (c\<lparr>socks := Some (s\<lparr>socks_password := p\<rparr>)\<rparr>, st))
             | None \<Rightarrow> (c, False))
      in case dec (unlock_pin c) of (p, _, st) \<Rightarrow> (c\<lparr>unlock_pin := p\<rparr>, store \<or> st))"

text \<open>
  \<open>Config::load\<close> on the raw file contents: the configuration and whether it is stored again.
  \<open>gens\<close> are the results of the calls of \<open>gen_id\<close>, of which at most three are made.
\<close>

fun first_some :: "'a option list \<Rightarrow> 'a option" where
  "first_some [] = None"
| "first_some (Some x # xs) = Some x"
| "first_some (None # xs) = first_some xs"

definition config_load :: "cfg_env \<Rightarrow> config_rec \<Rightarrow> string option list \<Rightarrow> config_rec \<times> bool" where
  "config_load e c gens =
     (let dec = (\<lambda>s. decrypt_str_or_original (fns e) (mach e) s PASSWORD_ENC_VERSION);
          (pw, _, store1) = dec (cfg_password c);
          c = c\<lparr>cfg_password := pw\<rparr>;
          (i, encrypted, store2) = dec (enc_id c);
          (c, id_valid, store) =
            (if encrypted then (c\<lparr>cfg_id := i\<rparr>, True, store1 \<or> store2)
             else if cfg_id c \<noteq> [] \<and> enc_id c = [] \<and> \<not> fst (snd (dec (cfg_id c)))
             then (c, True, True)
             else (c, False, store1))
      in if id_valid then (c, store)
         else case first_some (take 3 gens) of
           Some i \<Rightarrow> (c\<lparr>cfg_id := i\<rparr>, True)
         | None \<Rightarrow> (c, store))"

definition local_store :: "cfg \<Rightarrow> cfg" where
  "local_store g = g\<lparr>local_file := Some (local_config g)\<rparr>"

definition default_store :: "cfg \<Rightarrow> cfg" where
  "default_store g = g\<lparr>default_file := Some (user_default g)\<rparr>"

section \<open>Options of the main configuration\<close>

definition update_options2 :: "(options \<Rightarrow> options) \<Rightarrow> cfg \<Rightarrow> cfg" where
  "update_options2 f g = g\<lparr>config2 := (config2 g)\<lparr>cfg2_options := f (cfg2_options (config2 g))\<rparr>\<rparr>"

definition set_option :: "cfg_env \<Rightarrow> string \<Rightarrow> string \<Rightarrow> cfg \<Rightarrow> cfg" where
  "set_option e k v g =
     (if \<not> is_option_can_save (overwrite_settings g) k (default_settings g) v then
        (if cfg2_options (config2 g) k \<noteq> None
         then config2_store e (update_options2 (\<lambda>m. m(k := None)) g) else g)
      else
        let v2 = (if v = [] then None else Some v) in
        if v2 \<noteq> cfg2_options (config2 g) k then
          config2_store e
            (if v2 = None then update_options2 (\<lambda>m. m(k := None)) g
             else update_options2 (\<lambda>m. m(k \<mapsto> v)) g)
        else g)"

definition purify_options :: "cfg \<Rightarrow> options \<Rightarrow> options" where
  "purify_options g m =
     (\<lambda>k. case m k of
        Some v \<Rightarrow>
          if is_option_can_save (overwrite_settings g) k (default_settings g) v then Some v else None
      | None \<Rightarrow> None)"

definition set_options :: "cfg_env \<Rightarrow> options \<Rightarrow> cfg \<Rightarrow> cfg" where
  "set_options e m g =
     (let m = purify_options g m in
      if cfg2_options (config2 g) = m then g
      else config2_store e (update_options2 (\<lambda>_. m) g))"

section \<open>Local, interface and display options\<close>

definition get_local_option :: "cfg \<Rightarrow> string \<Rightarrow> string" where
  "get_local_option g k =
     unwrap_or_default
       (get_or (overwrite_local_settings g) (local_options (local_config g)) (default_local_settings g) k)"

definition set_local_options :: "(options \<Rightarrow> options) \<Rightarrow> cfg \<Rightarrow> cfg" where
  "set_local_options f g =
     g\<lparr>local_config := (local_config g)\<lparr>local_options := f (local_options (local_config g))\<rparr>\<rparr>"

definition set_local_option :: "string \<Rightarrow> string \<Rightarrow> cfg \<Rightarrow> cfg" where
  "set_local_option k v g =
     (if \<not> is_option_can_save (overwrite_local_settings g) k (default_local_settings g) v then
        (if local_options (local_config g) k \<noteq> None
         then local_store (set_local_options (\<lambda>m. m(k := None)) g) else g)
      else if k = ''lang'' \<and> v = ''default'' then
        local_store (set_local_options (\<lambda>m. m(k \<mapsto> [])) g)
      else
        let v2 = (if v = [] then None else Some v) in
        if v2 \<noteq> local_options (local_config g) k then
          local_store
            (if v2 = None then set_local_options (\<lambda>m. m(k := None)) g
             else set_local_options (\<lambda>m. m(k \<mapsto> v)) g)
        else g)"

definition get_flutter_option :: "cfg \<Rightarrow> string \<Rightarrow> string" where
  "get_flutter_option g k =
     unwrap_or_default
       (get_or (overwrite_local_settings g) (ui_flutter (local_config g)) (default_local_settings g) k)"

definition set_flutter_option :: "string \<Rightarrow> string \<Rightarrow> cfg \<Rightarrow> cfg" where
  "set_flutter_option k v g =
     (let v2 = (if v = [] then None else Some v) in
      if v2 \<noteq> ui_flutter (local_config g) k then
        local_store (g\<lparr>local_config := (local_config g)\<lparr>ui_flutter :=
          (if v2 = None then (ui_flutter (local_config g))(k := None)
           else (ui_flutter (local_config g))(k \<mapsto> v))\<rparr>\<rparr>)
      else g)"

definition set_local_size :: "int \<Rightarrow> int \<Rightarrow> int \<Rightarrow> int \<Rightarrow> cfg \<Rightarrow> cfg" where
  "set_local_size x y w h g =
     (if (x, y, w, h) = local_size (local_config g) \<or> w < 300 \<or> h < 300 then g
      else local_store (g\<lparr>local_config := (local_config g)\<lparr>local_size := (x, y, w, h)\<rparr>\<rparr>))"

definition set_kb_layout_type :: "string \<Rightarrow> cfg \<Rightarrow> cfg" where
  "set_kb_layout_type t g =
     local_store (g\<lparr>local_config := (local_config g)\<lparr>kb_layout_type := t\<rparr>\<rparr>)"

definition set_remote_id :: "string \<Rightarrow> cfg \<Rightarrow> cfg" where
  "set_remote_id i g =
     (if i = remote_id (local_config g) then g
      else local_store (g\<lparr>local_config := (local_config g)\<lparr>remote_id := i\<rparr>\<rparr>))"

definition set_fav :: "string list \<Rightarrow> cfg \<Rightarrow> cfg" where
  "set_fav f g =
     (if fav (local_config g) = f then g
      else local_store (g\<lparr>local_config := (local_config g)\<lparr>fav := f\<rparr>\<rparr>))"

definition get_after :: "cfg \<Rightarrow> string \<Rightarrow> string option" where
  "get_after g k = get_or (overwrite_display_settings g) (user_default g) (default_display_settings g) k"

definition set_user_default :: "string \<Rightarrow> string \<Rightarrow> cfg \<Rightarrow> cfg" where
  "set_user_default k v g =
     (if \<not> is_option_can_save (overwrite_display_settings g) k (default_display_settings g) v then
        (if user_default g k \<noteq> None
         then default_store (g\<lparr>user_default := (user_default g)(k := None)\<rparr>) else g)
      else default_store
        (if v = [] then g\<lparr>user_default := (user_default g)(k := None)\<rparr>
         else g\<lparr>user_default := (user_default g)(k \<mapsto> v)\<rparr>))"

definition get_string :: "cfg \<Rightarrow> string \<Rightarrow> string \<Rightarrow> string list \<Rightarrow> string" where
  "get_string g key dflt others =
     (case get_after g key of
        Some option \<Rightarrow> if option \<in> set others then option else dflt
      | None \<Rightarrow> dflt)"

text \<open>\<open>get_num_string\<close> at type \<open>i32\<close>: the thickness of the edge and the trackpad speed.\<close>

definition parse_i32 :: "string \<Rightarrow> int option" where
  "parse_i32 s =
     (case parse_i64 s of
        Some n \<Rightarrow> if -2147483648 \<le> n \<and> n \<le> 2147483647 then Some n else None
      | None \<Rightarrow> None)"

definition show_int :: "int \<Rightarrow> string" where
  "show_int n = (if n < 0 then CHR ''-'' # dec (nat (- n)) else dec (nat n))"

definition get_num_string :: "cfg \<Rightarrow> string \<Rightarrow> int \<Rightarrow> int \<Rightarrow> int \<Rightarrow> string" where
  "get_num_string g key dflt lo hi =
     (case get_after g key of
        Some option \<Rightarrow>
          (let v = (case parse_i32 option of Some v \<Rightarrow> v | None \<Rightarrow> dflt) in
           if lo \<le> v \<and> v \<le> hi then show_int v else show_int dflt)
      | None \<Rightarrow> show_int dflt)"


section \<open>Identity, keys and servers\<close>

definition set_id :: "cfg_env \<Rightarrow> string \<Rightarrow> cfg \<Rightarrow> cfg" where
  "set_id e i g =
     (if i = cfg_id (config g) then g
      else config_store e (g\<lparr>config := (config g)\<lparr>cfg_id := i\<rparr>\<rparr>))"

definition get_id_or :: "cfg \<Rightarrow> string \<Rightarrow> string" where
  "get_id_or g b = (if cfg_id (config g) = [] then b else cfg_id (config g))"

definition set_nat_type :: "cfg_env \<Rightarrow> int \<Rightarrow> cfg \<Rightarrow> cfg" where
  "set_nat_type e n g =
     (if n = nat_type (config2 g) then g
      else config2_store e (g\<lparr>config2 := (config2 g)\<lparr>nat_type := n\<rparr>\<rparr>))"

definition set_serial :: "cfg_env \<Rightarrow> int \<Rightarrow> cfg \<Rightarrow> cfg" where
  "set_serial e n g =
     (if n = serial (config2 g) then g
      else config2_store e (g\<lparr>config2 := (config2 g)\<lparr>serial := n\<rparr>\<rparr>))"

definition get_serial :: "cfg \<Rightarrow> int" where
  "get_serial g = max (serial (config2 g)) SERIAL"

text \<open>The identifier made from a MAC address (\<open>None\<close> when there is none).\<close>

definition get_auto_id :: "u8 list option \<Rightarrow> string option" where
  "get_auto_id mac =
     (case mac of
        Some bs \<Rightarrow>
          (let n = foldl (\<lambda>i x. push_bit 8 i OR (ucast x :: u32)) 0 (drop 2 bs) AND 0x1FFFFFFF
           in Some (dec (unat n)))
      | None \<Rightarrow> None)"

definition NUM_CHARS :: string where
  "NUM_CHARS = ''0123456789''"

definition CHARS :: string where
  "CHARS = ''23456789abcdefghijkmnpqrstuvwxyz''"

text \<open>\<open>rnd\<close> is the sequence of \<open>usize\<close> values the generator returns.\<close>

definition get_auto_password_with_chars :: "(nat \<Rightarrow> nat) \<Rightarrow> nat \<Rightarrow> string \<Rightarrow> string" where
  "get_auto_password_with_chars rnd n chars = map (\<lambda>i. chars ! (rnd i mod length chars)) [0..<n]"

definition set_key_confirmed :: "cfg_env \<Rightarrow> bool \<Rightarrow> cfg \<Rightarrow> cfg" where
  "set_key_confirmed e v g =
     (if key_confirmed (config g) = v then g
      else
        let c = (config g)\<lparr>key_confirmed := v\<rparr>;
            c = (if \<not> v then c\<lparr>keys_confirmed := Map.empty\<rparr> else c)
        in config_store e (g\<lparr>config := c\<rparr>))"

definition get_host_key_confirmed :: "cfg \<Rightarrow> string \<Rightarrow> bool" where
  "get_host_key_confirmed g host = (keys_confirmed (config g) host = Some True)"

definition set_host_key_confirmed :: "cfg_env \<Rightarrow> string \<Rightarrow> bool \<Rightarrow> cfg \<Rightarrow> cfg" where
  "set_host_key_confirmed e host v g =
     (if get_host_key_confirmed g host = v then g
      else config_store e (g\<lparr>config := (config g)\<lparr>keys_confirmed :=
        (keys_confirmed (config g))(host \<mapsto> v)\<rparr>\<rparr>))"

text \<open>
  \<open>gen_id\<close> on a desktop: \<open>hostname\<close> is what \<open>whoami\<close> returns (\<open>None\<close> for an error). \<open>update_id\<close> takes
  the random number it draws.
\<close>

definition OPTION_ALLOW_HOSTNAME_AS_ID :: string where
  "OPTION_ALLOW_HOSTNAME_AS_ID = ''allow-hostname-as-id''"

definition gen_id :: "string option \<Rightarrow> u8 list option \<Rightarrow> cfg \<Rightarrow> string option" where
  "gen_id hostname mac g =
     (let hostname_as_id =
        (case builtin_settings g OPTION_ALLOW_HOSTNAME_AS_ID of
           Some v \<Rightarrow> option2bool OPTION_ALLOW_HOSTNAME_AS_ID v
         | None \<Rightarrow> False)
      in if hostname_as_id then
           (case hostname of
              Some h \<Rightarrow> Some (map (\<lambda>c. if c = CHR '' '' then CHR ''-'' else c) h)
            | None \<Rightarrow> get_auto_id mac)
         else get_auto_id mac)"

definition get_id :: "cfg_env \<Rightarrow> string option \<Rightarrow> u8 list option \<Rightarrow> cfg \<Rightarrow> string \<times> cfg" where
  "get_id e hostname mac g =
     (if cfg_id (config g) = [] then
        (case gen_id hostname mac g of
           Some tmp \<Rightarrow> (tmp, set_id e tmp g)
         | None \<Rightarrow> ([], g))
      else (cfg_id (config g), g))"

definition update_id :: "cfg_env \<Rightarrow> string option \<Rightarrow> u8 list option \<Rightarrow> nat \<Rightarrow> cfg \<Rightarrow> cfg" where
  "update_id e hostname mac drawn g = set_id e (dec drawn) (snd (get_id e hostname mac g))"

definition config_set :: "cfg_env \<Rightarrow> config_rec \<Rightarrow> cfg \<Rightarrow> bool \<times> cfg" where
  "config_set e c g =
     (if config g = c then (False, g) else (True, config_store e (g\<lparr>config := c\<rparr>)))"

definition config2_set :: "cfg_env \<Rightarrow> config2_rec \<Rightarrow> cfg \<Rightarrow> bool \<times> cfg" where
  "config2_set e c g =
     (if config2 g = c then (False, g) else (True, config2_store e (g\<lparr>config2 := c\<rparr>)))"

text \<open>
  The signing key pair. \<open>fresh\<close> is what \<open>sign::gen_keypair\<close> returns. The third component says
  that a thread was started to save the new pair, which \<open>save_key_pair\<close> does.
\<close>

definition raw_key_pair :: "cfg \<Rightarrow> string \<times> string" where
  "raw_key_pair g = (case config_file g of Some c \<Rightarrow> key_pair c | None \<Rightarrow> ([], []))"

definition get_key_pair ::
  "string \<times> string \<Rightarrow> cfg \<Rightarrow> (string \<times> string) \<times> cfg \<times> (string \<times> string) option" where
  "get_key_pair fresh g =
     (case key_cache g of
        Some p \<Rightarrow> (p, g, None)
      | None \<Rightarrow>
          (let (kp, spawned) =
             (if fst (raw_key_pair g) = [] then (fresh, Some fresh) else (raw_key_pair g, None))
           in (kp, g\<lparr>key_cache := Some kp\<rparr>, spawned)))"

definition save_key_pair :: "cfg_env \<Rightarrow> string \<times> string \<Rightarrow> cfg \<Rightarrow> cfg" where
  "save_key_pair e kp g = config_store e (g\<lparr>config := (config g)\<lparr>key_pair := kp\<rparr>\<rparr>)"

definition get_existing_key_pair :: "cfg \<Rightarrow> (string \<times> string) option \<times> cfg" where
  "get_existing_key_pair g =
     (case key_cache g of
        Some p \<Rightarrow> (Some p, g)
      | None \<Rightarrow>
          if fst (raw_key_pair g) \<noteq> []
          then (Some (raw_key_pair g), g\<lparr>key_cache := Some (raw_key_pair g)\<rparr>)
          else (None, g))"

definition get_status :: "cfg \<Rightarrow> string \<Rightarrow> string" where
  "get_status g k = unwrap_or_default (status g k)"

definition set_status :: "string \<Rightarrow> string \<Rightarrow> cfg \<Rightarrow> cfg" where
  "set_status k v g =
     (if get_status g k = v then g
      else g\<lparr>status := (status g)(k \<mapsto> v), status_file := Some ((status g)(k \<mapsto> v))\<rparr>)"

text \<open>\<open>exe\<close> and \<open>prd\<close> are the globals \<open>EXE_RENDEZVOUS_SERVER\<close> and \<open>PROD_RENDEZVOUS_SERVER\<close>.\<close>

definition RENDEZVOUS_SERVERS :: "string list" where
  "RENDEZVOUS_SERVERS = [''rs-ny.rustdesk.com'']"

definition get_rendezvous_servers :: "string \<Rightarrow> string \<Rightarrow> cfg \<Rightarrow> string list" where
  "get_rendezvous_servers exe prd g =
     (if exe \<noteq> [] then [exe]
      else if get_option g ''custom-rendezvous-server'' \<noteq> []
        then [get_option g ''custom-rendezvous-server'']
      else if prd \<noteq> [] then [prd]
      else
        let ss = filter (\<lambda>x. CHR ''.'' \<in> set x)
                   (split_on ((=) CHR '','') (get_option g ''rendezvous-servers''))
        in if serial (config2 g) > SERIAL \<and> ss \<noteq> [] then ss
           else RENDEZVOUS_SERVERS)"

definition get_rendezvous_server :: "string \<Rightarrow> string \<Rightarrow> cfg \<Rightarrow> string" where
  "get_rendezvous_server exe prd g =
     (let r = exe;
          r = (if r = [] then get_option g ''custom-rendezvous-server'' else r);
          r = (if r = [] then prd else r);
          r = (if r = [] then rendezvous_server (config2 g) else r);
          r = (if r = [] then (case get_rendezvous_servers exe prd g of s # _ \<Rightarrow> s | [] \<Rightarrow> []) else r)
      in if CHR '':'' \<notin> set r then r @ '':'' @ dec 21116 else r)"

text \<open>
  \<open>update_latency\<close>: \<open>online\<close> lists the entries of the \<open>ONLINE\<close> map, the new one included, in the
  order in which the map is iterated.
\<close>

fun best_host :: "(string \<times> int) list \<Rightarrow> string \<Rightarrow> int \<Rightarrow> string \<times> int" where
  "best_host [] host delay = (host, delay)"
| "best_host ((tmp_host, tmp_delay) # rest) host delay =
     (if 0 < tmp_delay \<and> tmp_delay < delay then best_host rest tmp_host tmp_delay
      else best_host rest host delay)"

definition update_latency :: "cfg_env \<Rightarrow> (string \<times> int) list \<Rightarrow> cfg \<Rightarrow> cfg" where
  "update_latency e online g =
     (let host = fst (best_host online [] 9223372036854775807) in
      if host \<noteq> [] \<and> host \<noteq> rendezvous_server (config2 g)
      then config2_store e (g\<lparr>config2 := (config2 g)\<lparr>rendezvous_server := host\<rparr>\<rparr>)
      else g)"

section \<open>Proxy\<close>

datatype network_type = Direct | ProxySocks

definition default_socks :: socks5_server where
  "default_socks = \<lparr>proxy = [], socks_username = [], socks_password = []\<rparr>"

definition set_socks :: "cfg_env \<Rightarrow> socks5_server option \<Rightarrow> cfg \<Rightarrow> cfg" where
  "set_socks e s g =
     (if overwrite_settings g ''proxy-url'' \<noteq> None then g
      else if socks (config2 g) = s then g
      else
        let d = (case s of Some x \<Rightarrow> x | None \<Rightarrow> default_socks);
            same = (default_settings g ''proxy-url'' \<noteq> None
              \<and> map_or_eq (default_settings g) ''proxy-url'' (proxy d)
              \<and> map_or_eq (default_settings g) ''proxy-username'' (socks_username d)
              \<and> map_or_eq (default_settings g) ''proxy-password'' (socks_password d))
        in if socks (config2 g) = None \<and> same then g
           else config2_store e (g\<lparr>config2 := (config2 g)\<lparr>socks := s\<rparr>\<rparr>))"

definition get_socks_from_custom_client_advanced_settings :: "options \<Rightarrow> socks5_server option" where
  "get_socks_from_custom_client_advanced_settings m =
     (case m ''proxy-url'' of
        Some url \<Rightarrow> Some \<lparr>proxy = url, socks_username = unwrap_or_default (m ''proxy-username''),
                          socks_password = unwrap_or_default (m ''proxy-password'')\<rparr>
      | None \<Rightarrow> None)"

definition or_else :: "'a option \<Rightarrow> 'a option \<Rightarrow> 'a option" where
  "or_else a b = (case a of Some x \<Rightarrow> Some x | None \<Rightarrow> b)"

definition get_socks :: "cfg \<Rightarrow> socks5_server option" where
  "get_socks g =
     or_else (or_else (get_socks_from_custom_client_advanced_settings (overwrite_settings g))
                      (socks (config2 g)))
       (get_socks_from_custom_client_advanced_settings (default_settings g))"

definition get_network_type :: "cfg \<Rightarrow> network_type" where
  "get_network_type g =
     (if overwrite_settings g ''proxy-url'' \<noteq> None then ProxySocks
      else if socks (config2 g) \<noteq> None then ProxySocks
      else if default_settings g ''proxy-url'' \<noteq> None then ProxySocks
      else Direct)"

definition is_proxy :: "cfg \<Rightarrow> bool" where
  "is_proxy g = (get_network_type g \<noteq> Direct)"

definition get_unlock_pin :: "cfg \<Rightarrow> string" where
  "get_unlock_pin g = (if is_disable_unlock_pin g then [] else unlock_pin (config2 g))"

definition set_unlock_pin :: "cfg_env \<Rightarrow> string \<Rightarrow> cfg \<Rightarrow> cfg" where
  "set_unlock_pin e pin g =
     (if is_disable_unlock_pin g then g
      else if pin = unlock_pin (config2 g) then g
      else config2_store e (g\<lparr>config2 := (config2 g)\<lparr>unlock_pin := pin\<rparr>\<rparr>))"

section \<open>Trusted devices and the permanent password\<close>

definition outdate :: "int \<Rightarrow> trusted_device \<Rightarrow> bool" where
  "outdate now d = (td_time d + 90 * 24 * 60 * 60 * 1000 < now)"

definition set_trusted_devices :: "cfg_env \<Rightarrow> trusted_device list \<Rightarrow> cfg \<Rightarrow> cfg" where
  "set_trusted_devices e ds g =
     (let ds = filter (\<lambda>d. \<not> outdate (get_time e) d) ds;
          json = devices_to_json e ds;
          max_len = 1024 * 1024
      in if max_len < length json then g
         else
           let text = encrypt_str_or_original (fns e) (mach e) json PASSWORD_ENC_VERSION max_len;
               g = config2_store e (g\<lparr>config2 := (config2 g)\<lparr>trusted_devices := text\<rparr>\<rparr>)
           in g\<lparr>trusted_cache := (ds, True)\<rparr>)"

definition get_trusted_devices :: "cfg_env \<Rightarrow> cfg \<Rightarrow> trusted_device list \<times> cfg" where
  "get_trusted_devices e g =
     (case trusted_cache g of (cached, synced) \<Rightarrow>
        if synced then (cached, g)
        else
          case decrypt_str_or_original (fns e) (mach e) (trusted_devices (config2 g)) PASSWORD_ENC_VERSION of
            (json, succ, store) \<Rightarrow>
              if succ then
                (let ds = (case devices_of_json e json of Some ds \<Rightarrow> ds | None \<Rightarrow> []);
                     ds' = filter (\<lambda>d. \<not> outdate (get_time e) d) ds;
                     g = (if store \<or> length ds' \<noteq> length ds then set_trusted_devices e ds' g else g)
                 in (ds', g\<lparr>trusted_cache := (ds', True)\<rparr>))
              else ([], g))"

definition add_trusted_device :: "cfg_env \<Rightarrow> trusted_device \<Rightarrow> cfg \<Rightarrow> cfg" where
  "add_trusted_device e d g =
     (case get_trusted_devices e g of (ds, g) \<Rightarrow>
        set_trusted_devices e (filter (\<lambda>x. td_hwid x \<noteq> td_hwid d) ds @ [d]) g)"

definition remove_trusted_devices :: "cfg_env \<Rightarrow> string list \<Rightarrow> cfg \<Rightarrow> cfg" where
  "remove_trusted_devices e hwids g =
     (case get_trusted_devices e g of (ds, g) \<Rightarrow>
        set_trusted_devices e (filter (\<lambda>x. td_hwid x \<notin> set hwids) ds) g)"

definition clear_trusted_devices :: "cfg_env \<Rightarrow> cfg \<Rightarrow> cfg" where
  "clear_trusted_devices e g = set_trusted_devices e [] g"

definition set_permanent_password :: "cfg_env \<Rightarrow> string \<Rightarrow> cfg \<Rightarrow> cfg" where
  "set_permanent_password e pw g =
     (if is_disable_change_permanent_password g then g
      else if map_or_eq (hard_settings g) ''password'' pw \<and> cfg_password (config g) = [] then g
      else if pw = cfg_password (config g) then g
      else clear_trusted_devices e (config_store e (g\<lparr>config := (config g)\<lparr>cfg_password := pw\<rparr>\<rparr>)))"

definition get_permanent_password :: "cfg \<Rightarrow> string" where
  "get_permanent_password g =
     (let pw = cfg_password (config g) in
      if pw = [] then (case hard_settings g ''password'' of Some v \<Rightarrow> v | None \<Rightarrow> pw) else pw)"

definition set_salt :: "cfg_env \<Rightarrow> string \<Rightarrow> cfg \<Rightarrow> cfg" where
  "set_salt e s g =
     (if s = cfg_salt (config g) then g
      else config_store e (g\<lparr>config := (config g)\<lparr>cfg_salt := s\<rparr>\<rparr>))"

definition get_salt :: "cfg_env \<Rightarrow> (nat \<Rightarrow> nat) \<Rightarrow> cfg \<Rightarrow> string \<times> cfg" where
  "get_salt e rnd g =
     (if cfg_salt (config g) = [] then
        (let s = get_auto_password_with_chars rnd 6 CHARS in (s, set_salt e s g))
      else (cfg_salt (config g), g))"

section \<open>Facts about options\<close>

lemma unwrap_or_default_simps [simp]:
  "unwrap_or_default None = []" "unwrap_or_default (Some v) = v"
  by (simp_all add: unwrap_or_default_def)

lemma get_or_simps:
  "a k = Some v \<Longrightarrow> get_or a b c k = Some v"
  "a k = None \<Longrightarrow> b k = Some v \<Longrightarrow> get_or a b c k = Some v"
  "a k = None \<Longrightarrow> b k = None \<Longrightarrow> get_or a b c k = c k"
  by (simp_all add: get_or_def)

lemma get_or_union: "get_or a b c k = ((c ++ b) ++ a) k"
  by (simp add: get_or_def map_add_def split: option.splits)

lemma is_option_can_save_iff:
  "is_option_can_save a k c v \<longleftrightarrow> a k = None \<and> c k \<noteq> Some v"
  by (auto simp: is_option_can_save_def split: option.splits)

text \<open>The store of the main options when it has a file.\<close>

definition main_saved :: "cfg_env \<Rightarrow> cfg \<Rightarrow> bool" where
  "main_saved e g = (config2_file g = Some (config2_image e (config2 g)))"

definition identity_saved :: "cfg_env \<Rightarrow> cfg \<Rightarrow> bool" where
  "identity_saved e g = (config_file g = Some (config_image e (config g)))"

definition local_saved :: "cfg \<Rightarrow> bool" where
  "local_saved g = (local_file g = Some (local_config g))"

definition default_saved :: "cfg \<Rightarrow> bool" where
  "default_saved g = (default_file g = Some (user_default g))"

lemmas main_write = config2_store_def update_options2_def Let_def
lemmas local_write = local_store_def set_local_options_def Let_def

lemma get_or_other: "b k = b' k \<Longrightarrow> get_or a b c k = get_or a b' c k"
  by (auto simp: get_or_def split: option.split)

text \<open>What every setter does to the map that holds its options.\<close>

definition written :: "options \<Rightarrow> options \<Rightarrow> string \<Rightarrow> string \<Rightarrow> options \<Rightarrow> options" where
  "written a c k v m = m(k := if a k \<noteq> None \<or> c k = Some v \<or> v = [] then None else Some v)"

lemma get_or_written:
  "a k = None \<Longrightarrow> unwrap_or_default (get_or a (written a c k v m) c k)
     = (if v = [] then unwrap_or_default (c k) else v)"
  "k' \<noteq> k \<Longrightarrow> get_or a (written a c k v m) c k' = get_or a m c k'"
  "a k = Some x \<Longrightarrow> get_or a b c k = Some x"
    apply (auto simp: get_or_def written_def) [1]
   apply (rule get_or_other, simp add: written_def)
  by (simp add: get_or_def)

lemma fun_upd_same: "m k = x \<Longrightarrow> m(k := x) = m"
  by auto

lemma set_option_frame:
  "overwrite_settings (set_option e k v g) = overwrite_settings g"
  "default_settings (set_option e k v g) = default_settings g"
  "cfg2_options (config2 (set_option e k v g))
     = written (overwrite_settings g) (default_settings g) k v (cfg2_options (config2 g))"
  by (auto simp: set_option_def main_write written_def is_option_can_save_iff fun_upd_same)

lemma set_option_saved: "main_saved e g \<Longrightarrow> main_saved e (set_option e k v g)"
  by (auto simp: set_option_def main_write main_saved_def)

interpretation main_opts: saved_options get_option "set_option e"
  "\<lambda>g k. overwrite_settings g k \<noteq> None" "\<lambda>g k. unwrap_or_default (default_settings g k)"
  "\<lambda>_ _. True" "main_saved e" for e
  by unfold_locales (auto simp: get_option_def set_option_frame set_option_saved get_or_written)

lemma set_local_option_frame:
  "overwrite_local_settings (set_local_option k v g) = overwrite_local_settings g"
  "default_local_settings (set_local_option k v g) = default_local_settings g"
  "\<not> (k = ''lang'' \<and> v = ''default'') \<Longrightarrow>
    local_options (local_config (set_local_option k v g))
     = written (overwrite_local_settings g) (default_local_settings g) k v (local_options (local_config g))"
  "k' \<noteq> k \<Longrightarrow> local_options (local_config (set_local_option k v g)) k' = local_options (local_config g) k'"
  by (auto simp: set_local_option_def local_write written_def is_option_can_save_iff fun_upd_same)

lemma set_local_option_saved: "local_saved g \<Longrightarrow> local_saved (set_local_option k v g)"
  by (simp add: set_local_option_def local_write local_saved_def)

interpretation local_opts: saved_options get_local_option set_local_option
  "\<lambda>g k. overwrite_local_settings g k \<noteq> None" "\<lambda>g k. unwrap_or_default (default_local_settings g k)"
  "\<lambda>k v. \<not> (k = ''lang'' \<and> v = ''default'')" local_saved
proof unfold_locales
  fix k' k v and s :: cfg
  show "k' \<noteq> k \<Longrightarrow> get_local_option (set_local_option k v s) k' = get_local_option s k'"
    by (simp add: get_local_option_def get_or_def set_local_option_frame cong: option.case_cong)
qed (auto simp: get_local_option_def set_local_option_frame(1-3) set_local_option_saved get_or_written)

lemma set_flutter_option_frame:
  "overwrite_local_settings (set_flutter_option k v g) = overwrite_local_settings g"
  "default_local_settings (set_flutter_option k v g) = default_local_settings g"
  "ui_flutter (local_config (set_flutter_option k v g))
     = (ui_flutter (local_config g))(k := if v = [] then None else Some v)"
  by (auto simp: set_flutter_option_def local_write fun_upd_same)

lemma set_flutter_option_saved: "local_saved g \<Longrightarrow> local_saved (set_flutter_option k v g)"
  by (simp add: set_flutter_option_def local_write local_saved_def)

interpretation flutter_opts: saved_options get_flutter_option set_flutter_option
  "\<lambda>g k. overwrite_local_settings g k \<noteq> None" "\<lambda>g k. unwrap_or_default (default_local_settings g k)"
  "\<lambda>_ _. True" local_saved
  by unfold_locales
    (auto simp: get_flutter_option_def set_flutter_option_frame set_flutter_option_saved get_or_def
      cong: option.case_cong)

definition get_user_default :: "cfg \<Rightarrow> string \<Rightarrow> string" where
  "get_user_default g k = unwrap_or_default (get_after g k)"

lemma set_user_default_frame:
  "overwrite_display_settings (set_user_default k v g) = overwrite_display_settings g"
  "default_display_settings (set_user_default k v g) = default_display_settings g"
  "user_default (set_user_default k v g)
     = written (overwrite_display_settings g) (default_display_settings g) k v (user_default g)"
  by (auto simp: set_user_default_def default_store_def written_def is_option_can_save_iff fun_upd_same)

lemma set_user_default_saved: "default_saved g \<Longrightarrow> default_saved (set_user_default k v g)"
  by (simp add: set_user_default_def default_store_def default_saved_def)

interpretation default_opts: saved_options get_user_default set_user_default
  "\<lambda>g k. overwrite_display_settings g k \<noteq> None"
  "\<lambda>g k. unwrap_or_default (default_display_settings g k)" "\<lambda>_ _. True" default_saved
  by unfold_locales
    (auto simp: get_user_default_def get_after_def set_user_default_frame set_user_default_saved get_or_written)

text \<open>
  After any sequence of writes a main option reads as the last value written to it; the empty
  text gives back the default of the build, and a pinned option never changes.
\<close>

theorem option_last_writer:
  "get_option (fold (\<lambda>(k, v). set_option e k v) ws g) k =
    (if overwrite_settings g k \<noteq> None then get_option g k
     else case map_of (rev ws) k of
       None \<Rightarrow> get_option g k
     | Some v \<Rightarrow> if v = [] then unwrap_or_default (default_settings g k) else v)"
  using main_opts.last_writer [of ws e g k] by (simp add: main_opts.puts_def)

text \<open>
  The value "default" of the language is special: it is stored as the empty text, which hides the
  language the build asks for.
\<close>

lemma lang_default:
  "overwrite_local_settings g ''lang'' = None \<Longrightarrow> default_local_settings g ''lang'' \<noteq> Some ''default'' \<Longrightarrow>
   get_local_option (set_local_option ''lang'' ''default'' g) ''lang'' = []"
  by (simp add: get_local_option_def set_local_option_def is_option_can_save_iff local_write get_or_def)

lemma get_option_in_options: "get_option g k = unwrap_or_default (get_options g k)"
  by (simp add: get_option_def get_options_def get_or_union)

section \<open>Files and memory agree\<close>

inductive cfg_step :: "cfg_env \<Rightarrow> cfg \<Rightarrow> cfg \<Rightarrow> bool" for e where
  "cfg_step e g (set_option e k v g)"
| "cfg_step e g (set_options e m g)"
| "cfg_step e g (set_local_option k v g)"
| "cfg_step e g (set_flutter_option k v g)"
| "cfg_step e g (set_local_size x y w h g)"
| "cfg_step e g (set_kb_layout_type t g)"
| "cfg_step e g (set_remote_id i g)"
| "cfg_step e g (set_fav f g)"
| "cfg_step e g (set_user_default k v g)"
| "cfg_step e g (set_id e i g)"
| "cfg_step e g (snd (get_id e host mac g))"
| "cfg_step e g (update_id e host mac drawn g)"
| "cfg_step e g (set_nat_type e n g)"
| "cfg_step e g (set_serial e n g)"
| "cfg_step e g (snd (config_set e c g))"
| "cfg_step e g (snd (config2_set e c2 g))"
| "cfg_step e g (fst (snd (get_key_pair fresh g)))"
| "cfg_step e g (save_key_pair e kp g)"
| "cfg_step e g (snd (get_existing_key_pair g))"
| "cfg_step e g (set_status k v g)"
| "cfg_step e g (set_key_confirmed e b g)"
| "cfg_step e g (set_host_key_confirmed e host_name b g)"
| "cfg_step e g (update_latency e online g)"
| "cfg_step e g (set_socks e s g)"
| "cfg_step e g (set_unlock_pin e pin g)"
| "cfg_step e g (snd (get_trusted_devices e g))"
| "cfg_step e g (add_trusted_device e d g)"
| "cfg_step e g (remove_trusted_devices e hwids g)"
| "cfg_step e g (clear_trusted_devices e g)"
| "cfg_step e g (set_permanent_password e pw g)"
| "cfg_step e g (set_salt e salt g)"
| "cfg_step e g (snd (get_salt e rnd g))"

definition all_saved :: "cfg_env \<Rightarrow> cfg \<Rightarrow> bool" where
  "all_saved e g = (main_saved e g \<and> identity_saved e g \<and> local_saved g \<and> default_saved g)"

lemmas saved_defs = all_saved_def main_saved_def identity_saved_def local_saved_def default_saved_def

lemmas stores = config_store_def config2_store_def local_store_def default_store_def

lemma set_option_all_saved: "all_saved e g \<Longrightarrow> all_saved e (set_option e k v g)"
  by (simp add: set_option_def Let_def update_options2_def saved_defs stores)

lemma set_local_option_all_saved: "all_saved e g \<Longrightarrow> all_saved e (set_local_option k v g)"
  by (simp add: set_local_option_def Let_def set_local_options_def saved_defs stores)

lemma set_id_all_saved: "all_saved e g \<Longrightarrow> all_saved e (set_id e i g)"
  by (simp add: set_id_def saved_defs stores)

lemma get_id_all_saved: "all_saved e g \<Longrightarrow> all_saved e (snd (get_id e h m g))"
  by (simp add: get_id_def set_id_all_saved split: option.split)

lemma cache_all_saved: "all_saved e g \<Longrightarrow> all_saved e (g\<lparr>trusted_cache := c\<rparr>)"
  "all_saved e g \<Longrightarrow> all_saved e (g\<lparr>key_cache := kc\<rparr>)"
  by (simp_all add: saved_defs)

lemma set_trusted_all_saved: "all_saved e g \<Longrightarrow> all_saved e (set_trusted_devices e ds g)"
  by (simp add: set_trusted_devices_def Let_def saved_defs stores)

lemma get_trusted_all_saved: "all_saved e g \<Longrightarrow> all_saved e (snd (get_trusted_devices e g))"
  by (simp add: get_trusted_devices_def Let_def set_trusted_all_saved cache_all_saved
      split: prod.split option.split)

lemma set_salt_all_saved: "all_saved e g \<Longrightarrow> all_saved e (set_salt e s g)"
  by (simp add: set_salt_def saved_defs stores)

lemma set_password_all_saved: "all_saved e g \<Longrightarrow> all_saved e (set_permanent_password e pw g)"
  unfolding set_permanent_password_def clear_trusted_devices_def
  by (auto intro!: set_trusted_all_saved) (auto simp: saved_defs stores)

lemma add_trusted_all_saved: "all_saved e g \<Longrightarrow> all_saved e (add_trusted_device e d g)"
  "all_saved e g \<Longrightarrow> all_saved e (remove_trusted_devices e hw g)"
  using get_trusted_all_saved [of e g]
  by (auto simp: add_trusted_device_def remove_trusted_devices_def intro!: set_trusted_all_saved
      split: prod.split)

lemmas op_all_saved = set_option_all_saved set_local_option_all_saved set_id_all_saved
  get_id_all_saved cache_all_saved set_trusted_all_saved get_trusted_all_saved set_salt_all_saved
  set_password_all_saved add_trusted_all_saved

lemma cfg_step_saved: "cfg_step e g g' \<Longrightarrow> all_saved e g \<Longrightarrow> all_saved e g'"
proof (induction rule: cfg_step.induct)
  case (17 g fresh)
  then show ?case
    by (simp add: get_key_pair_def Let_def op_all_saved split: option.split prod.split)
next
  case (19 g)
  then show ?case
    by (simp add: get_existing_key_pair_def op_all_saved split: option.split)
next
  case (32 g rnd)
  then show ?case by (simp add: get_salt_def Let_def op_all_saved)
qed (simp_all add: op_all_saved update_id_def clear_trusted_devices_def,
     simp_all add: saved_defs stores Let_def set_options_def update_options2_def set_flutter_option_def
       set_local_size_def set_kb_layout_type_def set_remote_id_def set_fav_def set_user_default_def
       set_nat_type_def set_serial_def config_set_def config2_set_def save_key_pair_def set_status_def
       set_key_confirmed_def set_host_key_confirmed_def update_latency_def set_socks_def
       set_unlock_pin_def)

text \<open>
  C5. Whatever the program does with its settings, from any state whose four files agree with
  memory every later state does too: no setter changes memory without rewriting its file.
\<close>

theorem settings_always_on_disk:
  "(cfg_step e)\<^sup>*\<^sup>* g g' \<Longrightarrow> all_saved e g \<Longrightarrow> all_saved e g'"
  by (induction rule: rtranclp_induct) (auto intro: cfg_step_saved)

definition demo_env :: cfg_env where
  "demo_env = \<lparr>fns = demo_fns, mach = \<lparr>machine_uuid = ''u'', existing_key_pair = None\<rparr>,
     devices_to_json = (\<lambda>ds. ''[]''), devices_of_json = (\<lambda>s. Some []), get_time = 0\<rparr>"

definition fresh_config :: config_rec where
  "fresh_config = \<lparr>cfg_id = ''7'', enc_id = [], cfg_password = [], cfg_salt = [], key_pair = ([], []),
     key_confirmed = False, keys_confirmed = Map.empty\<rparr>"

definition fresh_config2 :: config2_rec where
  "fresh_config2 = \<lparr>rendezvous_server = [], nat_type = 0, serial = 0, unlock_pin = [],
     trusted_devices = [], socks = None, cfg2_options = Map.empty\<rparr>"

definition fresh_local :: local_rec where
  "fresh_local = \<lparr>remote_id = [], kb_layout_type = [], local_size = (0, 0, 0, 0), fav = [],
     local_options = Map.empty, ui_flutter = Map.empty\<rparr>"

text \<open>A first start, with the settings of the build all empty and every file written once.\<close>

definition fresh_cfg :: "cfg_env \<Rightarrow> cfg" where
  "fresh_cfg e = \<lparr>config = fresh_config, config2 = fresh_config2, local_config = fresh_local,
     user_default = Map.empty, trusted_cache = ([], False),
     default_settings = Map.empty, overwrite_settings = Map.empty,
     default_display_settings = Map.empty, overwrite_display_settings = Map.empty,
     default_local_settings = Map.empty, overwrite_local_settings = Map.empty,
     hard_settings = Map.empty, builtin_settings = Map.empty,
     config_file = Some (config_image e fresh_config),
     config2_file = Some (config2_image e fresh_config2), local_file = Some fresh_local,
     default_file = Some Map.empty, key_cache = None, status = Map.empty, status_file = None\<rparr>"

lemma fresh_cfg_saved: "all_saved e (fresh_cfg e)"
  by (simp add: saved_defs fresh_cfg_def)

theorem settings_always_on_disk_witness:
  "all_saved demo_env (set_permanent_password demo_env ''pw'' (fresh_cfg demo_env))"
  by (rule settings_always_on_disk [OF r_into_rtranclp fresh_cfg_saved]) (rule cfg_step.intros)

section \<open>Loading what was stored\<close>

definition storable :: "cfg_env \<Rightarrow> string \<Rightarrow> nat \<Rightarrow> bool" where
  "storable e s n = (\<not> is_encrypted (fns e) s \<and> char_count s \<le> n \<and> valid_utf8 s)"

lemma encrypt_Nil [simp]: "encrypt_str_or_original f m [] v n = []"
  by (simp add: encrypt_str_or_original_def encrypt_bytes_def char_count_def)

lemma decrypt_Nil [simp]: "decrypt_str_or_original f m [] v = ([], False, False)"
  by (simp add: decrypt_str_or_original_def)

lemma decrypt_encrypt_str:
  assumes "secret_fns_ok f" and "\<not> is_encrypted f s" and "char_count s \<le> n" and "valid_utf8 s"
  shows "decrypt_str_or_original f m (encrypt_str_or_original f m s ''00'' n) ''00'' = (s, s \<noteq> [], False)"
proof (cases "s = []")
  case False
  obtain b where e: "encrypt_bytes f m s = Some b" using encrypt_bytes_eq [OF False] by blast
  show ?thesis
    using decrypt_encrypt_bytes [OF assms(1) e] assms(4) False
    by (simp add: encrypt_str_some [OF assms(2,3) e]) (simp add: decrypt_str_or_original_def)
qed simp

text \<open>
  C8. A restart reads back the identity, the password, the salt and the keys that were stored,
  and does not ask for another write.
\<close>

theorem config_survives_restart:
  assumes "secret_fns_ok (fns e)" and "cfg_id c \<noteq> []"
    and "storable e (cfg_id c) ENCRYPT_MAX_LEN" and "storable e (cfg_password c) ENCRYPT_MAX_LEN"
  shows "config_load e (config_image e c) gens = (c\<lparr>enc_id := enc_id (config_image e c)\<rparr>, False)"
proof -
  note de = decrypt_encrypt_str [OF assms(1)]
  show ?thesis
    using assms(2-4) de [of "cfg_id c" 128 "mach e"] de [of "cfg_password c" 128 "mach e"]
    by (simp add: config_load_def config_image_def storable_def Let_def)
qed

theorem config_survives_restart_witness:
  "config_load demo_env (config_image demo_env (fresh_config\<lparr>cfg_password := ''pw''\<rparr>)) [] =
     (fresh_config\<lparr>cfg_password := ''pw'', enc_id := enc_id (config_image demo_env (fresh_config\<lparr>cfg_password := ''pw''\<rparr>))\<rparr>, False)"
proof -
  have "storable demo_env ''7'' 128" "storable demo_env ''pw'' 128"
    by (simp_all add: storable_def demo_env_def is_encrypted_def char_count_def valid_utf8.simps utf8_step_def)
  then show ?thesis
    using config_survives_restart [of demo_env "fresh_config\<lparr>cfg_password := ''pw''\<rparr>" "[]"]
    by (simp add: fresh_config_def demo_env_def demo_fns_ok)
qed

lemma config2_load_image:
  assumes "secret_fns_ok (fns e)" and "storable e (unlock_pin c) ENCRYPT_MAX_LEN"
    and "\<forall>s. socks c = Some s \<longrightarrow> storable e (socks_password s) ENCRYPT_MAX_LEN"
  shows "config2_load e (config2_image e c) = (c, False)"
  using assms decrypt_encrypt_str [OF assms(1)]
  by (cases "socks c") (auto simp: config2_load_def config2_image_def storable_def Let_def)

text \<open>A restart as far as the trusted devices go: the second file is loaded, the cache is empty.\<close>

definition restart2 :: "cfg_env \<Rightarrow> cfg \<Rightarrow> cfg" where
  "restart2 e g =
     (case config2_file g of
        Some c \<Rightarrow> g\<lparr>config2 := fst (config2_load e c), trusted_cache := ([], False)\<rparr>
      | None \<Rightarrow> g)"

definition json_ok :: "cfg_env \<Rightarrow> trusted_device list \<Rightarrow> bool" where
  "json_ok e ds \<longleftrightarrow> devices_of_json e (devices_to_json e ds) = Some ds \<and>
     valid_utf8 (devices_to_json e ds) \<and> starts_with (devices_to_json e ds) ''[''"

lemma json_storable:
  assumes "json_ok e ds" and "length (devices_to_json e ds) \<le> n"
  shows "storable e (devices_to_json e ds) n" "devices_to_json e ds \<noteq> []"
    "devices_of_json e (devices_to_json e ds) = Some ds"
proof -
  obtain t where t: "devices_to_json e ds = CHR ''['' # t" using assms(1) by (auto simp: json_ok_def starts_with_iff)
  then show "devices_to_json e ds \<noteq> []" by simp
  have "\<not> is_encrypted (fns e) (devices_to_json e ds)" by (simp add: is_encrypted_def t)
  moreover have "char_count (devices_to_json e ds) \<le> n"
    using assms(2) length_filter_le le_trans unfolding char_count_def by blast
  ultimately show "storable e (devices_to_json e ds) n"
    using assms(1) by (simp add: storable_def json_ok_def)
  show "devices_of_json e (devices_to_json e ds) = Some ds" using assms(1) by (simp add: json_ok_def)
qed

abbreviation "live e ds \<equiv> filter (\<lambda>d. \<not> outdate (get_time e) d) ds"
abbreviation "DEVICES_MAX \<equiv> (1024 * 1024 :: nat)"

lemma set_trusted_cached:
  "length (devices_to_json e (live e ds)) \<le> DEVICES_MAX \<Longrightarrow>
   get_trusted_devices e (set_trusted_devices e ds g) = (live e ds, set_trusted_devices e ds g)"
  by (simp add: set_trusted_devices_def get_trusted_devices_def Let_def)

lemma set_trusted_restart:
  assumes "secret_fns_ok (fns e)" and "json_ok e (live e ds)"
    and "length (devices_to_json e (live e ds)) \<le> DEVICES_MAX"
  shows "fst (get_trusted_devices e (restart2 e (set_trusted_devices e ds g))) = live e ds"
proof -
  let ?j = "devices_to_json e (live e ds)"
  have t: "trusted_devices (fst (config2_load e (config2_image e c))) = trusted_devices c" for c
    by (cases "socks c") (simp_all add: config2_load_def config2_image_def Let_def split: prod.split)
  note j = json_storable [OF assms(2,3)]
  have d: "decrypt_str_or_original (fns e) (mach e)
      (encrypt_str_or_original (fns e) (mach e) ?j ''00'' DEVICES_MAX) ''00'' = (?j, True, False)"
    using j decrypt_encrypt_str [OF assms(1), of ?j DEVICES_MAX] by (simp add: storable_def)
  show ?thesis
    using assms(3) d j(3)
    by (simp add: set_trusted_devices_def restart2_def config2_store_def t get_trusted_devices_def Let_def)
qed

text \<open>
  A device that is trusted stays trusted across a restart, in place of its earlier entry and
  after the other devices, of which only the outdated ones are dropped.
\<close>

theorem trusted_device_survives_restart:
  assumes "secret_fns_ok (fns e)" and "get_trusted_devices e g = (ds, g')"
    and "ds' = live e (filter (\<lambda>x. td_hwid x \<noteq> td_hwid d) ds @ [d])"
    and "json_ok e ds'" and "length (devices_to_json e ds') \<le> DEVICES_MAX"
  shows "fst (get_trusted_devices e (restart2 e (add_trusted_device e d g))) = ds'"
  using set_trusted_restart [OF assms(1)] assms(2-5) by (simp add: add_trusted_device_def)

definition demo_device :: trusted_device where
  "demo_device = \<lparr>td_hwid = ''h'', td_time = 5, td_id = ''1'', td_name = ''n'', td_platform = ''p''\<rparr>"

definition json_env :: cfg_env where
  "json_env = demo_env\<lparr>devices_to_json := (\<lambda>ds. if ds = [demo_device] then ''[d]'' else ''[]''),
     devices_of_json := (\<lambda>s. Some (if s = ''[d]'' then [demo_device] else []))\<rparr>"

lemma json_env_ok: "secret_fns_ok (fns json_env)" "json_ok json_env [demo_device]" "json_ok json_env []"
  by (simp_all add: json_env_def demo_env_def demo_fns_ok json_ok_def valid_utf8.simps utf8_step_def)

lemma fresh_devices: "get_trusted_devices e (fresh_cfg e) = ([], fresh_cfg e)"
  by (simp add: get_trusted_devices_def fresh_cfg_def fresh_config2_def)

theorem trusted_device_survives_restart_witness:
  "fst (get_trusted_devices json_env (restart2 json_env (add_trusted_device json_env demo_device (fresh_cfg json_env))))
     = [demo_device]"
  by (rule trusted_device_survives_restart [OF json_env_ok(1) fresh_devices _ json_env_ok(2)])
    (simp_all add: outdate_def json_env_def demo_env_def demo_device_def)

text \<open>
  Changing the permanent password makes every device untrusted, at once and after a restart,
  and the new password is the one that is checked.
\<close>

theorem password_change_forgets_devices:
  assumes "secret_fns_ok (fns e)" and "json_ok e []" and "length (devices_to_json e []) \<le> DEVICES_MAX"
    and "\<not> is_disable_change_permanent_password g" and "pw \<noteq> cfg_password (config g)" and "pw \<noteq> []"
    and "\<not> (map_or_eq (hard_settings g) ''password'' pw \<and> cfg_password (config g) = [])"
  defines "g' \<equiv> set_permanent_password e pw g"
  shows "get_permanent_password g' = pw \<and> fst (get_trusted_devices e g') = [] \<and>
    fst (get_trusted_devices e (restart2 e g')) = []"
proof -
  let ?g = "config_store e (g\<lparr>config := (config g)\<lparr>cfg_password := pw\<rparr>\<rparr>)"
  have g': "g' = set_trusted_devices e [] ?g"
    using assms(4-7) by (auto simp: g'_def set_permanent_password_def clear_trusted_devices_def)
  have "config (set_trusted_devices e [] ?g) = config ?g"
    by (simp add: set_trusted_devices_def Let_def config2_store_def)
  then show ?thesis
    using assms(3,6) set_trusted_cached [of e "[]" ?g] set_trusted_restart [OF assms(1), of "[]" ?g]
      assms(2)
    by (simp add: g' get_permanent_password_def config_store_def)
qed

theorem password_change_forgets_devices_witness:
  "get_permanent_password (set_permanent_password json_env ''pw'' (fresh_cfg json_env)) = ''pw''"
proof -
  have "length (devices_to_json json_env []) \<le> DEVICES_MAX" by (simp add: json_env_def)
  moreover have "\<not> is_disable_change_permanent_password (fresh_cfg json_env)"
    "''pw'' \<noteq> cfg_password (config (fresh_cfg json_env))"
    "\<not> (map_or_eq (hard_settings (fresh_cfg json_env)) ''password'' ''pw''
        \<and> cfg_password (config (fresh_cfg json_env)) = [])"
    by (simp_all add: is_disable_change_permanent_password_def map_or_eq_def fresh_cfg_def fresh_config_def)
  ultimately show ?thesis
    using password_change_forgets_devices [OF json_env_ok(1,3)] by simp
qed

text \<open>
  A password of more than 128 characters is used until the program stops and then lost: it is
  saved as the empty text.
\<close>

lemma long_password_lost:
  assumes "\<not> is_encrypted (fns e) (cfg_password c)" and "char_count (cfg_password c) > ENCRYPT_MAX_LEN"
  shows "cfg_password (fst (config_load e (config_image e c) gens)) = []"
proof -
  have e: "encrypt_str_or_original (fns e) (mach e) (cfg_password c) ''00'' 128 = []"
    using assms by (simp add: encrypt_str_or_original_def)
  show ?thesis
    by (simp add: config_load_def config_image_def Let_def e split: prod.split option.split)
qed

section \<open>Keys and servers\<close>

text \<open>
  The key pair is generated at most once: whoever asks later, by either function and before or
  after the saving thread has run, gets the pair of the first call.
\<close>

lemma key_pair_stable:
  assumes "get_key_pair fresh g = (kp, g', spawned)"
  shows "get_key_pair fresh' g' = (kp, g', None)" "get_existing_key_pair g' = (Some kp, g')"
    "fst (get_key_pair fresh' (save_key_pair e kp g')) = kp"
  using assms
  by (auto simp: get_key_pair_def get_existing_key_pair_def save_key_pair_def config_store_def Let_def
      split: option.splits if_splits)

lemma best_host_least:
  assumes "best_host xs h0 d0 = (h, d)"
  shows "d \<le> d0 \<and> (\<forall>(h', d') \<in> set xs. 0 < d' \<longrightarrow> d \<le> d') \<and> ((h, d) = (h0, d0) \<or> (h, d) \<in> set xs \<and> 0 < d)"
  using assms by (induction xs h0 d0 rule: best_host.induct) (force split: if_splits)+

lemma rendezvous_has_port: "CHR '':'' \<in> set (get_rendezvous_server exe prd g)"
  by (simp add: get_rendezvous_server_def Let_def)

lemma socks_consistent: "is_proxy g \<longleftrightarrow> get_socks g \<noteq> None"
  by (auto simp: is_proxy_def get_network_type_def get_socks_def or_else_def
      get_socks_from_custom_client_advanced_settings_def split: option.split)

end
