(* ===== verification/Policy.thy ===== *)
theory Policy
  imports Config Address
begin

text \<open>
  Who may log in by what means: the password policy of \<open>libs/hbb_common/src/password_security.rs\<close>
  and the VNT profile of \<open>src/vntc.rs\<close>, which pins settings of the configuration. The one-time
  password is a global of the code; here it is an argument \<open>temp\<close> of what reads it.
\<close>

section \<open>Password policy\<close>

datatype verification_method =
    OnlyUseTemporaryPassword
  | OnlyUsePermanentPassword
  | UseBothPasswords

datatype approve_mode =
    Both
  | Password
  | Click

definition verification_method :: "cfg \<Rightarrow> verification_method" where
  "verification_method g =
     (let method = get_option g ''verification-method'' in
      if method = ''use-temporary-password'' then OnlyUseTemporaryPassword
      else if method = ''use-permanent-password'' then OnlyUsePermanentPassword
      else UseBothPasswords)"

definition temporary_password_length :: "cfg \<Rightarrow> nat" where
  "temporary_password_length g =
     (let l = get_option g ''temporary-password-length'' in
      if l = ''8'' then 8 else if l = ''10'' then 10 else 6)"

definition get_auto_password :: "(nat \<Rightarrow> nat) \<Rightarrow> cfg \<Rightarrow> string" where
  "get_auto_password rnd g =
     (let len = temporary_password_length g in
      if get_bool_option g ''allow-numeric-one-time-password''
      then get_auto_password_with_chars rnd len NUM_CHARS
      else get_auto_password_with_chars rnd len CHARS)"

definition temporary_enabled :: "cfg \<Rightarrow> bool" where
  "temporary_enabled g = (verification_method g \<noteq> OnlyUsePermanentPassword)"

definition permanent_enabled :: "cfg \<Rightarrow> bool" where
  "permanent_enabled g = (verification_method g \<noteq> OnlyUseTemporaryPassword)"

definition has_valid_password :: "string \<Rightarrow> cfg \<Rightarrow> bool" where
  "has_valid_password temp g =
     (temporary_enabled g \<and> temp \<noteq> [] \<or> permanent_enabled g \<and> get_permanent_password g \<noteq> [])"

definition approve_mode :: "cfg \<Rightarrow> approve_mode" where
  "approve_mode g =
     (let mode = get_option g ''approve-mode'' in
      if mode = ''password'' then Password
      else if mode = ''click'' then Click
      else Both)"

definition hide_cm :: "cfg \<Rightarrow> bool" where
  "hide_cm g =
     (approve_mode g = Password \<and> verification_method g = OnlyUsePermanentPassword
      \<and> option2bool ''allow-hide-cm'' (get_option g ''allow-hide-cm''))"

section \<open>The VNT profile\<close>

definition apply_profile :: "cfg \<Rightarrow> cfg" where
  "apply_profile g =
     (let g = g\<lparr>overwrite_settings := (overwrite_settings g)
            (''direct-server'' \<mapsto> ''Y'',
             ''direct-access-port'' \<mapsto> dec (unat DIRECT_ACCESS_PORT),
             ''allow-auto-update'' \<mapsto> ''N'',
             ''custom-rendezvous-server'' \<mapsto> [],
             ''relay-server'' \<mapsto> [],
             ''api-server'' \<mapsto> [],
             ''key'' \<mapsto> [])\<rparr>;
          g = g\<lparr>default_settings := (default_settings g)(''approve-mode'' \<mapsto> ''click'')\<rparr>;
          g = g\<lparr>hard_settings := (hard_settings g)
            (''disable-ab'' \<mapsto> ''Y'', ''disable-account'' \<mapsto> ''Y'')\<rparr>
      in g\<lparr>builtin_settings := (builtin_settings g)
            (''hide-server-settings'' \<mapsto> ''Y'',
             ''hide-proxy-settings'' \<mapsto> ''Y'',
             ''hide-websocket-settings'' \<mapsto> ''Y'',
             ''hide-stop-service'' \<mapsto> ''Y'',
             ''hide-help-cards'' \<mapsto> ''Y'',
             ''hide-powered-by-me'' \<mapsto> ''Y'',
             ''disable-change-id'' \<mapsto> ''Y'')\<rparr>)"

section \<open>Facts\<close>

definition profile_on :: "cfg \<Rightarrow> bool" where
  "profile_on g \<longleftrightarrow>
     overwrite_settings g ''direct-server'' = Some ''Y'' \<and>
     overwrite_settings g ''direct-access-port'' = Some (dec (unat DIRECT_ACCESS_PORT)) \<and>
     overwrite_settings g ''allow-auto-update'' = Some ''N'' \<and>
     (\<forall>k \<in> {''custom-rendezvous-server'', ''relay-server'', ''api-server'', ''key''}.
        overwrite_settings g k = Some []) \<and>
     default_settings g ''approve-mode'' = Some ''click'' \<and> is_disable_change_id g"

lemma profile_on_apply: "profile_on (apply_profile g)"
  by (simp add: profile_on_def apply_profile_def Let_def is_disable_change_id_def map_or_eq_def)

lemma get_option_pinned: "overwrite_settings g k = Some v \<Longrightarrow> get_option g k = v"
  by (simp add: get_option_def get_or_simps)

text \<open>No operation on the configuration touches the settings of the build.\<close>

lemma set_trusted_frame [frames]:
  "overwrite_settings (set_trusted_devices e ds g) = overwrite_settings g"
  "default_settings (set_trusted_devices e ds g) = default_settings g"
  "builtin_settings (set_trusted_devices e ds g) = builtin_settings g"
  by (simp_all add: set_trusted_devices_def Let_def stores)

lemma get_trusted_frame [frames]:
  "overwrite_settings (snd (get_trusted_devices e g)) = overwrite_settings g"
  "default_settings (snd (get_trusted_devices e g)) = default_settings g"
  "builtin_settings (snd (get_trusted_devices e g)) = builtin_settings g"
  by (simp_all add: get_trusted_devices_def Let_def frames split: prod.split option.split)

lemma trusted_op_frame [frames]:
  "overwrite_settings (add_trusted_device e d g) = overwrite_settings g"
  "default_settings (add_trusted_device e d g) = default_settings g"
  "builtin_settings (add_trusted_device e d g) = builtin_settings g"
  "overwrite_settings (remove_trusted_devices e hw g) = overwrite_settings g"
  "default_settings (remove_trusted_devices e hw g) = default_settings g"
  "builtin_settings (remove_trusted_devices e hw g) = builtin_settings g"
  using get_trusted_frame [of e g]
  by (auto simp: add_trusted_device_def remove_trusted_devices_def set_trusted_frame split: prod.split)

lemmas id_frame = set_id_def get_id_def update_id_def

lemma cfg_step_frame:
  assumes "cfg_step e g g'"
  shows "overwrite_settings g' = overwrite_settings g \<and> default_settings g' = default_settings g
    \<and> builtin_settings g' = builtin_settings g"
  using assms
proof (cases rule: cfg_step.cases)
  case (11 host mac)
  then show ?thesis by (simp add: id_frame stores split: option.split)
next
  case (12 host mac drawn)
  then show ?thesis by (simp add: id_frame stores split: option.split)
next
  case (17 fresh)
  then show ?thesis by (simp add: get_key_pair_def Let_def split: option.split prod.split)
next
  case 19
  then show ?thesis by (simp add: get_existing_key_pair_def split: option.split)
next
  case (32 rnd)
  then show ?thesis by (simp add: get_salt_def set_salt_def stores Let_def)
qed (simp_all add: frames clear_trusted_devices_def
      set_permanent_password_def stores Let_def set_options_def update_options2_def set_option_def
      set_local_option_def set_local_options_def set_flutter_option_def set_local_size_def
      set_kb_layout_type_def set_remote_id_def set_fav_def set_user_default_def id_frame
      set_nat_type_def set_serial_def config_set_def config2_set_def save_key_pair_def set_status_def
      set_key_confirmed_def set_host_key_confirmed_def update_latency_def set_socks_def
      set_unlock_pin_def set_salt_def)

lemma profile_kept: "(cfg_step e)\<^sup>*\<^sup>* g g' \<Longrightarrow> profile_on g \<Longrightarrow> profile_on g'"
proof (induction rule: rtranclp_induct)
  case (step y z)
  then show ?case
    using cfg_step_frame [OF step.hyps(2)]
    by (simp add: profile_on_def is_disable_change_id_def)
qed simp

text \<open>
  C7. Under the VNT profile the program stays in direct mode whatever the user or a peer writes
  into the settings: the direct server and its port, the empty rendezvous, relay and API servers
  and the switched-off updates can not be changed, and the identity stays locked.
\<close>

theorem direct_mode_is_permanent:
  assumes "(cfg_step e)\<^sup>*\<^sup>* (apply_profile g) g'"
  shows "get_bool_option g' ''direct-server'' \<and>
    get_option g' ''direct-access-port'' = dec 49999 \<and>
    \<not> get_bool_option g' ''allow-auto-update'' \<and>
    get_option g' ''custom-rendezvous-server'' = [] \<and> get_option g' ''relay-server'' = [] \<and>
    get_option g' ''api-server'' = [] \<and> is_disable_change_id g'"
  using profile_kept [OF assms profile_on_apply]
  by (simp add: profile_on_def get_option_pinned get_bool_option_def option2bool_def)

theorem direct_mode_is_permanent_witness:
  "get_bool_option (set_option demo_env ''direct-server'' ''N'' (apply_profile (fresh_cfg demo_env))) ''direct-server''"
proof -
  have "(cfg_step demo_env)\<^sup>*\<^sup>* (apply_profile (fresh_cfg demo_env))
      (set_option demo_env ''direct-server'' ''N'' (apply_profile (fresh_cfg demo_env)))"
    by (rule r_into_rtranclp) (rule cfg_step.intros(1))
  from direct_mode_is_permanent [OF this] show ?thesis by blast
qed

text \<open>
  A user of the VNT profile who never chose how to approve sessions, or who clears the choice,
  is asked for a click: the mode that accepts either a click or a password needs an explicit value.
\<close>

theorem approval_defaults_to_click:
  assumes "\<not> overwrite_settings g ''approve-mode'' \<noteq> None"
    and "case map_of (rev ws) ''approve-mode'' of None \<Rightarrow> get_option (apply_profile g) ''approve-mode'' = ''click''
         | Some v \<Rightarrow> v = [] \<or> v = ''click''"
  shows "approve_mode (fold (\<lambda>(k, v). set_option e k v) ws (apply_profile g)) = Click"
proof -
  have "get_option (fold (\<lambda>(k, v). set_option e k v) ws (apply_profile g)) ''approve-mode'' = ''click''"
    using assms main_opts.last_writer [of ws e "apply_profile g" "''approve-mode''"]
    by (auto simp: main_opts.puts_def apply_profile_def Let_def split: option.splits)
  then show ?thesis by (simp add: approve_mode_def)
qed

theorem approval_defaults_to_click_witness:
  "approve_mode (fold (\<lambda>(k, v). set_option demo_env k v)
     [(''approve-mode'', ''password''), (''approve-mode'', [])] (apply_profile (fresh_cfg demo_env))) = Click"
  by (rule approval_defaults_to_click) (simp_all add: fresh_cfg_def)

text \<open>A hidden connection manager never goes with approval by click or with a one-time password.\<close>

lemma hide_cm_needs_password:
  "hide_cm g \<Longrightarrow> approve_mode g = Password \<and> permanent_enabled g \<and> \<not> temporary_enabled g"
  by (simp add: hide_cm_def permanent_enabled_def temporary_enabled_def)

lemma auto_password_chars:
  "length (get_auto_password_with_chars rnd n cs) = n"
  "cs \<noteq> [] \<Longrightarrow> set (get_auto_password_with_chars rnd n cs) \<subseteq> set cs"
  by (auto simp: get_auto_password_with_chars_def)

lemma char_tables: "NUM_CHARS \<noteq> []" "CHARS \<noteq> []"
  by (simp_all add: NUM_CHARS_def CHARS_def)

lemma temporary_password_length_cases: "temporary_password_length g \<in> {6, 8, 10}"
  by (simp add: temporary_password_length_def Let_def)

lemma auto_password_shape:
  "length (get_auto_password rnd g) \<in> {6, 8, 10}"
  "set (get_auto_password rnd g)
     \<subseteq> set (if get_bool_option g ''allow-numeric-one-time-password'' then NUM_CHARS else CHARS)"
  using temporary_password_length_cases [of g]
  by (simp_all only: get_auto_password_def Let_def auto_password_chars char_tables if_distrib
      split: if_split) (simp_all add: auto_password_chars char_tables)

end
