(* ===== verification/Permissions.thy ===== *)
theory Permissions
  imports Policy
begin

text \<open>
  What a peer may do: the two-bit permission fields an administrator's server sends
  (\<open>get_control_permission\<close> of \<open>src/common.rs\<close>), the decision of a connection between them and
  the local options (\<open>permission\<close> of \<open>src/server/connection.rs\<close>) and the state over all
  connections. Modelled is the desktop build with the Flutter interface.
\<close>

datatype permission_kind =
    Keyboard | RemotePrinter | Clipboard | File | Audio | Camera | Terminal | Tunnel | Restart
  | Recording | BlockInput | RemoteModify

fun permission_value :: "permission_kind \<Rightarrow> nat" where
  "permission_value Keyboard = 0"
| "permission_value RemotePrinter = 1"
| "permission_value Clipboard = 2"
| "permission_value File = 3"
| "permission_value Audio = 4"
| "permission_value Camera = 5"
| "permission_value Terminal = 6"
| "permission_value Tunnel = 7"
| "permission_value Restart = 8"
| "permission_value Recording = 9"
| "permission_value BlockInput = 10"
| "permission_value RemoteModify = 11"

definition get_control_permission :: "u64 \<Rightarrow> permission_kind \<Rightarrow> bool option" where
  "get_control_permission permissions p =
     (let index = permission_value p in
      if index < 32 then
        (let shift = index * 2;
             v = drop_bit shift permissions AND 3
         in if v = 1 then Some False else if v = 2 then Some True else None)
      else None)"

definition is_permission_enabled_locally :: "cfg \<Rightarrow> string \<Rightarrow> bool" where
  "is_permission_enabled_locally g enable_prefix_option =
     (let access_mode = get_option g ''access-mode'' in
      if access_mode = ''full'' then True
      else if access_mode = ''view'' then False
      else option2bool enable_prefix_option (get_option g enable_prefix_option))"

definition option_permission :: "string \<Rightarrow> permission_kind option" where
  "option_permission opt =
     (if opt = ''enable-keyboard'' then Some Keyboard
      else if opt = ''enable-remote-printer'' then Some RemotePrinter
      else if opt = ''enable-clipboard'' then Some Clipboard
      else if opt = ''enable-file-transfer'' then Some File
      else if opt = ''enable-audio'' then Some Audio
      else if opt = ''enable-camera'' then Some Camera
      else if opt = ''enable-terminal'' then Some Terminal
      else if opt = ''enable-tunnel'' then Some Tunnel
      else if opt = ''enable-remote-restart'' then Some Restart
      else if opt = ''enable-record-session'' then Some Recording
      else if opt = ''enable-block-input'' then Some BlockInput
      else None)"

definition permission :: "cfg \<Rightarrow> string \<Rightarrow> u64 option \<Rightarrow> bool" where
  "permission g enable_prefix_option control_permissions =
     (case Option.bind control_permissions (\<lambda>cp.
             Option.bind (option_permission enable_prefix_option) (get_control_permission cp)) of
        Some enabled \<Rightarrow> enabled
      | None \<Rightarrow> is_permission_enabled_locally g enable_prefix_option)"

text \<open>\<open>get_control_permission_state\<close> over the permissions of all connections that have some.\<close>

fun scan_permissions :: "permission_kind \<Rightarrow> (int \<times> u64) list \<Rightarrow> bool \<Rightarrow> bool \<Rightarrow> bool \<times> bool" where
  "scan_permissions p [] has_enable has_disable = (has_enable, has_disable)"
| "scan_permissions p ((_, cp) # rest) has_enable has_disable =
     (case get_control_permission cp p of
        Some False \<Rightarrow> scan_permissions p rest has_enable True
      | Some True \<Rightarrow> scan_permissions p rest True has_disable
      | None \<Rightarrow> scan_permissions p rest has_enable has_disable)"

definition get_control_permission_state ::
  "(int \<times> u64) list \<Rightarrow> permission_kind \<Rightarrow> bool \<Rightarrow> bool option" where
  "get_control_permission_state arr p disable_if_has_disabled =
     (case scan_permissions p arr False False of
        (has_enable, has_disable) \<Rightarrow>
          if disable_if_has_disabled then
            (if has_disable then Some False else if has_enable then Some True else None)
          else
            (if has_enable then Some True else if has_disable then Some False else None))"

text \<open>\<open>ControlPermissionsID\<close>: a connection's permissions are listed while it lives.\<close>

definition control_permissions_new ::
  "int \<Rightarrow> u64 option \<Rightarrow> (int \<times> u64) list \<Rightarrow> (int \<times> u64) list" where
  "control_permissions_new i cp arr = (case cp of Some s \<Rightarrow> arr @ [(i, s)] | None \<Rightarrow> arr)"

definition control_permissions_drop ::
  "int \<Rightarrow> u64 option \<Rightarrow> (int \<times> u64) list \<Rightarrow> (int \<times> u64) list" where
  "control_permissions_drop i cp arr =
     (if cp \<noteq> None then filter (\<lambda>(conn_id, _). conn_id \<noteq> i) arr else arr)"

section \<open>Facts\<close>

lemma scan_permissions_eq:
  "scan_permissions p arr e d =
     (e \<or> (\<exists>(i, cp) \<in> set arr. get_control_permission cp p = Some True),
      d \<or> (\<exists>(i, cp) \<in> set arr. get_control_permission cp p = Some False))"
  by (induction p arr e d rule: scan_permissions.induct) (auto split: option.splits bool.splits)

text \<open>
  The state of a permission over all connections, in both directions of the question: asked
  whether it must be refused, one connection that forbids it decides; asked whether it may be
  granted, one connection that grants it decides; no connection with a say leaves it open.
\<close>

theorem control_permission_state:
  "get_control_permission_state arr p True =
     (if \<exists>(i, cp) \<in> set arr. get_control_permission cp p = Some False then Some False
      else if \<exists>(i, cp) \<in> set arr. get_control_permission cp p = Some True then Some True else None) \<and>
   get_control_permission_state arr p False =
     (if \<exists>(i, cp) \<in> set arr. get_control_permission cp p = Some True then Some True
      else if \<exists>(i, cp) \<in> set arr. get_control_permission cp p = Some False then Some False else None)"
  by (simp add: get_control_permission_state_def scan_permissions_eq)

lemma control_permissions_live:
  assumes "\<forall>(j, _) \<in> set arr. j \<noteq> i"
  shows "control_permissions_drop i cp (control_permissions_new i cp arr) = arr"
proof -
  have "filter (\<lambda>(conn_id, _). conn_id \<noteq> i) arr = arr"
    using assms by (intro filter_True) auto
  then show ?thesis
    by (cases cp) (simp_all add: control_permissions_drop_def control_permissions_new_def)
qed

text \<open>What an administrator decides wins over the local options, also over a view-only mode.\<close>

lemma permission_remote_wins:
  assumes "option_permission opt = Some p" and "get_control_permission cp p = Some b"
  shows "permission g opt (Some cp) = b"
  using assms by (simp add: permission_def)

lemma permission_local:
  "permission g opt None = is_permission_enabled_locally g opt"
  by (simp add: permission_def)

lemma view_only_mode:
  "get_option g ''access-mode'' = ''view'' \<Longrightarrow> \<not> permission g opt None"
  by (simp add: permission_local is_permission_enabled_locally_def)

text \<open>The fields are independent: setting one field leaves every other as it was.\<close>

definition set_field :: "u64 \<Rightarrow> permission_kind \<Rightarrow> u64 \<Rightarrow> u64" where
  "set_field cp p v =
     (cp AND NOT (push_bit (permission_value p * 2) 3)) OR push_bit (permission_value p * 2) (v AND 3)"

lemma permission_value_inj: "permission_value p = permission_value q \<Longrightarrow> p = q"
  by (cases p; cases q) simp_all

lemma permission_value_less: "permission_value p < 12"
  by (cases p) simp_all

lemma bit_3: "bit (3 :: int) n \<longleftrightarrow> n < 2"
proof -
  have "(3 :: int) = mask 2" by (simp add: mask_eq_exp_minus_1)
  then show ?thesis by (simp only: bit_mask_iff possible_bit_int) simp
qed

lemma field_bits:
  "drop_bit (permission_value q * 2) (set_field cp p v) AND 3 =
     (if p = q then v AND 3 else drop_bit (permission_value q * 2) cp AND 3)"
proof (rule bit_eqI)
  fix n
  have d: "permission_value p \<noteq> permission_value q" if "p \<noteq> q" using permission_value_inj that by blast
  show "bit (drop_bit (permission_value q * 2) (set_field cp p v) AND 3) n =
     bit (if p = q then v AND 3 else drop_bit (permission_value q * 2) cp AND 3) n"
    using permission_value_less [of p] permission_value_less [of q] d
    by (cases "n < 2") (auto simp: set_field_def bit_simps bit_3)
qed

lemma get_set_field:
  "get_control_permission (set_field cp p v) q =
     (if p = q then (if v AND 3 = 1 then Some False else if v AND 3 = 2 then Some True else None)
      else get_control_permission cp q)"
  using permission_value_less [of q] field_bits [of q cp p v]
  by (cases "p = q") (simp_all add: get_control_permission_def Let_def)

end
