(* ===== verification/LoginGuard.thy ===== *)
theory LoginGuard
  imports Address
begin

text \<open>
  The guard against guessing (\<open>check_failure\<close>, \<open>check_failure_ipv6_prefix\<close>, \<open>update_failure\<close> and
  \<open>get_ipv6_prefixes\<close> of \<open>src/server/connection.rs\<close>): failures are counted per address and, for
  IPv6, per network prefix, in one map for passwords and one for two-factor codes. The code keys
  the map by the text of the address or prefix; here the keys are the addresses and prefixes.
  A counter holds the minute of the last failure, the failures in it and the failures in all.
\<close>

datatype ip_addr = Ip4 ipv4 | Ip6 u128

datatype failure_key = Full ip_addr | Prefix u128 nat

type_synonym failure = "int \<times> int \<times> int"
type_synonym failures = "failure_key \<rightharpoonup> failure"

definition mask_u128 :: "u128 \<Rightarrow> nat \<Rightarrow> u128" where
  "mask_u128 addr p =
     (let mask = (if p = 0 \<or> 128 < p then 0 else push_bit (128 - p) (- 1)) in addr AND mask)"

definition get_ipv6_prefixes :: "ip_addr \<Rightarrow> (failure_key \<times> failure_key \<times> failure_key) option" where
  "get_ipv6_prefixes ip =
     (case ip of
        Ip4 _ \<Rightarrow> None
      | Ip6 a \<Rightarrow> Some (Prefix (mask_u128 a 64) 64, Prefix (mask_u128 a 56) 56, Prefix (mask_u128 a 48) 48))"

definition get_failure :: "failures \<Rightarrow> failure_key \<Rightarrow> failure" where
  "get_failure m k = (case m k of Some f \<Rightarrow> f | None \<Rightarrow> (0, 0, 0))"

fun bump :: "failure \<Rightarrow> int \<Rightarrow> failure" where
  "bump (minute, recent, overall) time =
     (if minute = time then (minute, recent + 1, overall + 1) else (time, 1, overall + 1))"

definition update_failure :: "failures \<Rightarrow> ip_addr \<Rightarrow> failure \<times> int \<Rightarrow> bool \<Rightarrow> failures" where
  "update_failure m ip ft remove =
     (case ft of (failure, time) \<Rightarrow>
        if remove then
          (if fst failure \<noteq> 0 then
             (case get_ipv6_prefixes ip of
                Some (p64, p56, p48) \<Rightarrow>
                  m(p64 := None, p56 := None, p48 := None, Full ip := None)
              | None \<Rightarrow> m(Full ip := None))
           else m)
        else
          (case get_ipv6_prefixes ip of
             Some (p64, p56, p48) \<Rightarrow>
               (let m = m(p64 \<mapsto> bump (get_failure m p64) time);
                    m = m(p56 \<mapsto> bump (get_failure m p56) time);
                    m = m(p48 \<mapsto> bump (get_failure m p48) time)
                in m(Full ip \<mapsto> bump failure time))
           | None \<Rightarrow> m(Full ip \<mapsto> bump failure time)))"

datatype guard_error = PrefixBlocked nat | TooManyAttempts | TryLater

definition check_failure_ipv6_prefix ::
  "failures \<Rightarrow> int \<Rightarrow> failure_key \<Rightarrow> nat \<Rightarrow> int \<Rightarrow> ((failure \<times> int) \<times> guard_error) option" where
  "check_failure_ipv6_prefix m time pre prefix_num thresh =
     (let failure_prefix = get_failure m pre in
      if thresh < snd (snd failure_prefix)
      then Some ((failure_prefix, time), PrefixBlocked prefix_num) else None)"

text \<open>The counter that was read, and \<open>None\<close> or the refusal that was sent.\<close>

definition check_failure :: "failures \<Rightarrow> ip_addr \<Rightarrow> int \<Rightarrow> (failure \<times> int) \<times> guard_error option" where
  "check_failure m ip time =
     (let blocked =
        (case get_ipv6_prefixes ip of
           Some (p64, p56, p48) \<Rightarrow>
             (case check_failure_ipv6_prefix m time p64 64 60 of
                Some r \<Rightarrow> Some r
              | None \<Rightarrow>
                (case check_failure_ipv6_prefix m time p56 56 80 of
                   Some r \<Rightarrow> Some r
                 | None \<Rightarrow> check_failure_ipv6_prefix m time p48 48 100))
         | None \<Rightarrow> None)
      in case blocked of
           Some (ft, e) \<Rightarrow> (ft, Some e)
         | None \<Rightarrow>
             (let failure = get_failure m (Full ip) in
              if 30 < snd (snd failure) then ((failure, time), Some TooManyAttempts)
              else if time = fst failure \<and> 6 < fst (snd failure) then ((failure, time), Some TryLater)
              else ((failure, time), None)))"

section \<open>Guessing\<close>

text \<open>
  A sequence of wrong guesses, each from an address at a minute: how many of them are compared
  with the secret at all.
\<close>

fun wrong_guesses :: "failures \<Rightarrow> (ip_addr \<times> int) list \<Rightarrow> failures \<times> nat" where
  "wrong_guesses m [] = (m, 0)"
| "wrong_guesses m ((ip, time) # gs) =
     (case check_failure m ip time of
        (ft, None) \<Rightarrow> (case wrong_guesses (update_failure m ip ft False) gs of (m', n) \<Rightarrow> (m', n + 1))
      | (ft, Some _) \<Rightarrow> wrong_guesses m gs)"

definition total_of :: "failures \<Rightarrow> failure_key \<Rightarrow> int" where
  "total_of m k = snd (snd (get_failure m k))"

lemma bump_total [simp]: "snd (snd (bump f t)) = snd (snd f) + 1"
  by (cases f) simp

lemma bump_minute [simp]: "fst (bump f t) = t"
  by (cases f) simp

lemma get_failure_upd [simp]: "get_failure (m(k \<mapsto> f)) j = (if j = k then f else get_failure m j)"
  by (simp add: get_failure_def)

lemma check_failure_ok:
  assumes "check_failure m ip time = (ft, None)"
  shows "ft = (get_failure m (Full ip), time)" and "total_of m (Full ip) \<le> 30"
    and "fst (get_failure m (Full ip)) = time \<Longrightarrow> fst (snd (get_failure m (Full ip))) \<le> 6"
    and "get_ipv6_prefixes ip = Some (p64, p56, p48) \<Longrightarrow>
      total_of m p64 \<le> 60 \<and> total_of m p56 \<le> 80 \<and> total_of m p48 \<le> 100"
  using assms
  by (auto simp: check_failure_def check_failure_ipv6_prefix_def total_of_def Let_def not_less
      split: option.splits if_splits)

text \<open>What a counted failure does to the counter of its own address and of its prefixes.\<close>

lemma update_failure_full:
  "get_failure (update_failure m ip (f, t) False) (Full ip) = bump f t"
  by (auto simp: update_failure_def Let_def get_ipv6_prefixes_def split: option.splits ip_addr.splits)

lemma update_failure_other:
  "ip' \<noteq> ip \<Longrightarrow> get_failure (update_failure m ip (f, t) False) (Full ip') = get_failure m (Full ip')"
  by (auto simp: update_failure_def Let_def get_ipv6_prefixes_def split: option.splits ip_addr.splits)

lemma update_failure_prefix:
  assumes "Prefix a n \<in> (case get_ipv6_prefixes ip of Some (p, q, r) \<Rightarrow> {p, q, r} | None \<Rightarrow> {})"
  shows "total_of (update_failure m ip (f, t) False) (Prefix a n) = total_of m (Prefix a n) + 1"
  using assms
  by (auto simp: update_failure_def total_of_def Let_def get_ipv6_prefixes_def split: ip_addr.splits)

text \<open>
  A key all the guesses count against, with the limit up to which its counter lets them through,
  bounds the number of guesses.
\<close>

definition limit_of :: "failure_key \<Rightarrow> int" where
  "limit_of k = (case k of Full _ \<Rightarrow> 30 | Prefix _ n \<Rightarrow> if n = 64 then 60 else if n = 56 then 80 else 100)"

definition counts_for :: "ip_addr \<Rightarrow> failure_key \<Rightarrow> bool" where
  "counts_for ip k \<longleftrightarrow> k = Full ip \<or>
     (case get_ipv6_prefixes ip of Some (p, q, r) \<Rightarrow> k = p \<or> k = q \<or> k = r | None \<Rightarrow> False)"

lemma counts_for_check:
  assumes "check_failure m ip time = (ft, None)" and "counts_for ip k"
  shows "total_of m k \<le> limit_of k"
    and "total_of (update_failure m ip ft False) k = total_of m k + 1"
proof -
  note c = check_failure_ok [OF assms(1)]
  show "total_of m k \<le> limit_of k"
    using assms(2) c(2,4)
    by (auto simp: counts_for_def limit_of_def get_ipv6_prefixes_def split: ip_addr.splits option.splits)
  show "total_of (update_failure m ip ft False) k = total_of m k + 1"
  proof (cases k)
    case (Full ip')
    then have "ip' = ip" using assms(2) by (auto simp: counts_for_def get_ipv6_prefixes_def split: ip_addr.splits)
    then show ?thesis using Full c(1) by (simp add: total_of_def update_failure_full)
  next
    case (Prefix a n)
    then have "Prefix a n \<in> (case get_ipv6_prefixes ip of Some (p, q, r) \<Rightarrow> {p, q, r} | None \<Rightarrow> {})"
      using assms(2) by (auto simp: counts_for_def split: option.splits)
    then show ?thesis using Prefix c(1) by (simp add: update_failure_prefix)
  qed
qed

lemma wrong_guesses_bound:
  assumes "\<forall>(ip, t) \<in> set gs. counts_for ip k" and "total_of m k \<le> limit_of k + 1"
  shows "total_of m k + int (snd (wrong_guesses m gs)) \<le> limit_of k + 1"
  using assms
proof (induction m gs rule: wrong_guesses.induct)
  case (2 m ip time gs)
  show ?case
  proof (cases "snd (check_failure m ip time)")
    case None
    then obtain ft where ft: "check_failure m ip time = (ft, None)" by (cases "check_failure m ip time") auto
    note k = counts_for_check [OF ft, of k]
    have "total_of (update_failure m ip ft False) k + int (snd (wrong_guesses (update_failure m ip ft False) gs))
        \<le> limit_of k + 1"
      by (rule "2.IH"(1) [OF ft [symmetric] refl]) (use "2.prems" k in auto)
    then show ?thesis
      using ft k "2.prems" by (cases "wrong_guesses (update_failure m ip ft False) gs") auto
  next
    case (Some e)
    then obtain ft where ft: "check_failure m ip time = (ft, Some e)" by (cases "check_failure m ip time") auto
    show ?thesis using "2.IH"(2) [OF ft [symmetric] refl] "2.prems" ft by simp
  qed
qed simp

text \<open>
  C4. Of any sequence of wrong guesses from one address at most 31 are compared with the secret,
  of all guesses from one IPv6 /64 network at most 61, from one /56 at most 81 and from one /48 at
  most 101, however they are spread over addresses and time.
\<close>

theorem guesses_are_bounded:
  assumes "\<forall>(ip, t) \<in> set gs. counts_for ip k"
  shows "int (snd (wrong_guesses Map.empty gs)) \<le> limit_of k + 1"
  using wrong_guesses_bound [OF assms, of Map.empty]
  by (simp add: total_of_def get_failure_def limit_of_def split: failure_key.split)

theorem guesses_are_bounded_witness:
  "int (snd (wrong_guesses Map.empty (replicate 100 (Ip4 (10, 0, 0, 8), 7)))) \<le> 31"
  using guesses_are_bounded [of "replicate 100 (Ip4 (10, 0, 0, 8), 7)" "Full (Ip4 (10, 0, 0, 8))"]
  by (simp add: counts_for_def limit_of_def)

text \<open>Within one minute an address gets at most seven guesses.\<close>

lemma minute_guesses_bound:
  assumes "\<forall>(ip, t) \<in> set gs. ip = a \<and> t = now"
    and "fst (get_failure m (Full a)) = now \<longrightarrow> fst (snd (get_failure m (Full a))) \<le> 7"
  shows "int (snd (wrong_guesses m gs)) \<le>
    (if fst (get_failure m (Full a)) = now then 7 - fst (snd (get_failure m (Full a))) else 7)"
  using assms
proof (induction m gs rule: wrong_guesses.induct)
  case (2 m ip time gs)
  have at: "ip = a" "time = now" using "2.prems"(1) by auto
  obtain x y z where f: "get_failure m (Full a) = (x, y, z)" by (cases "get_failure m (Full a)")
  show ?case
  proof (cases "snd (check_failure m ip time)")
    case None
    then obtain ft where ft: "check_failure m ip time = (ft, None)" by (cases "check_failure m ip time") auto
    note c = check_failure_ok [OF ft]
    let ?m = "update_failure m ip ft False"
    have b: "get_failure ?m (Full a) = bump (x, y, z) now"
      using c(1) at f update_failure_full by simp
    have "int (snd (wrong_guesses ?m gs)) \<le>
      (if fst (get_failure ?m (Full a)) = now then 7 - fst (snd (get_failure ?m (Full a))) else 7)"
      by (rule "2.IH"(1) [OF ft [symmetric] refl]) (use "2.prems" b c(3) f at in auto)
    then show ?thesis using ft b f c(3) at by (auto split: prod.split if_splits)
  next
    case (Some e)
    then obtain ft where ft: "check_failure m ip time = (ft, Some e)" by (cases "check_failure m ip time") auto
    show ?thesis using "2.IH"(2) [OF ft [symmetric] refl] "2.prems" ft by simp
  qed
qed auto

text \<open>
  A second counter limits the rate: in any one minute at most seven wrong guesses of an
  address are compared with the secret.
\<close>

theorem guess_rate_is_bounded:
  assumes "now \<noteq> 0"
  shows "snd (wrong_guesses Map.empty (replicate n (a, now))) \<le> 7"
  using minute_guesses_bound [of "replicate n (a, now)" a now Map.empty] assms
  by (simp add: get_failure_def)

theorem guess_rate_is_bounded_witness:
  "snd (wrong_guesses Map.empty (replicate 100 (Ip6 1, 7))) \<le> 7"
  by (rule guess_rate_is_bounded) simp

text \<open>
  Two connections of one IPv4 address that read the counter before either writes it are counted
  as one failure: the second writer puts back the counter it read.
\<close>

lemma racing_failures_count_once:
  assumes "check_failure m (Ip4 a) t = (f1, None)" and "check_failure m (Ip4 a) t = (f2, None)"
  shows "update_failure (update_failure m (Ip4 a) f1 False) (Ip4 a) f2 False
    = update_failure m (Ip4 a) f1 False"
  using assms by (cases f1; cases f2) (auto simp: update_failure_def get_ipv6_prefixes_def)

text \<open>A correct answer clears the address and its networks.\<close>

lemma success_clears:
  assumes "check_failure m ip t = (ft, None)" and "fst (fst ft) \<noteq> 0" and "counts_for ip k"
  shows "update_failure m ip ft True k = None"
  using assms by (cases ft) (auto simp: update_failure_def counts_for_def split: option.splits)

end
