(* ===== verification/Server.thy ===== *)
theory Server
  imports Service
begin

text \<open>
  \<open>Server\<close> of \<open>src/server.rs\<close>: the services by name, the connections, and who is subscribed to
  what. Display 0 of the monitors and of the cameras is the primary one of its kind by default;
  which display is primary and whether a camera exists are arguments.
\<close>

datatype video_source = Monitor | Camera_source

fun service_name_prefix :: "video_source \<Rightarrow> string" where
  "service_name_prefix Monitor = ''monitor''"
| "service_name_prefix Camera_source = ''camera''"

definition get_service_name :: "video_source \<Rightarrow> nat \<Rightarrow> string" where
  "get_service_name src idx = service_name_prefix src @ dec idx"

record 'm server =
  connections :: "int set"
  services :: "string \<rightharpoonup> 'm service"
  id_count :: int

definition is_video_service_name :: "string \<Rightarrow> bool" where
  "is_video_service_name name =
     (starts_with name (service_name_prefix Monitor) \<or> starts_with name (service_name_prefix Camera_source))"

definition server_contains :: "string \<Rightarrow> 'm server \<Rightarrow> bool" where
  "server_contains name s = (services s name \<noteq> None)"

definition add_service :: "'m service \<Rightarrow> 'm server \<Rightarrow> 'm server" where
  "add_service svc s = s\<lparr>services := (services s)(s_name svc \<mapsto> svc)\<rparr>"

definition try_add_primary_camera_service :: "bool \<Rightarrow> nat \<Rightarrow> 'm server \<Rightarrow> 'm server" where
  "try_add_primary_camera_service camera_exists primary s =
     (if \<not> camera_exists then s
      else let name = get_service_name Camera_source primary in
        if \<not> server_contains name s then add_service (service_new name True) s else s)"

definition try_add_primay_video_service :: "nat \<Rightarrow> 'm server \<Rightarrow> 'm server" where
  "try_add_primay_video_service primary s =
     (let name = get_service_name Monitor primary in
      if \<not> server_contains name s then add_service (service_new name True) s else s)"

definition add_camera_connection :: "bool \<Rightarrow> nat \<Rightarrow> int \<Rightarrow> 'm server \<Rightarrow> 'm server" where
  "add_camera_connection camera_exists primary conn s =
     (let name = get_service_name Camera_source primary;
          s = (if camera_exists then
                 (case services s name of
                    Some svc \<Rightarrow> s\<lparr>services := (services s)(name \<mapsto> on_subscribe conn svc)\<rparr>
                  | None \<Rightarrow> s)
               else s)
      in s\<lparr>connections := insert conn (connections s)\<rparr>)"

definition add_connection :: "nat \<Rightarrow> int \<Rightarrow> string list \<Rightarrow> 'm server \<Rightarrow> 'm server" where
  "add_connection primary conn noperms s =
     (let primary_name = get_service_name Monitor primary;
          s = s\<lparr>services := (\<lambda>k. case services s k of
                 None \<Rightarrow> None
               | Some svc \<Rightarrow> Some
                   (if is_video_service_name (s_name svc) \<and> s_name svc \<noteq> primary_name then svc
                    else if s_name svc \<notin> set noperms then on_subscribe conn svc
                    else svc))\<rparr>
      in s\<lparr>connections := insert conn (connections s)\<rparr>)"

definition remove_connection :: "int \<Rightarrow> 'm server \<Rightarrow> 'm server" where
  "remove_connection conn s =
     (let s = s\<lparr>services := (\<lambda>k. map_option (on_unsubscribe conn) (services s k))\<rparr>
      in s\<lparr>connections := connections s - {conn}\<rparr>)"

definition subscribe :: "string \<Rightarrow> int \<Rightarrow> bool \<Rightarrow> 'm server \<Rightarrow> 'm server" where
  "subscribe name conn sub s =
     (case services s name of
        Some svc \<Rightarrow>
          if is_subed svc conn = sub then s
          else s\<lparr>services := (services s)(name \<mapsto>
                 (if sub then on_subscribe conn svc else on_unsubscribe conn svc))\<rparr>
      | None \<Rightarrow> s)"

definition get_new_id :: "'m server \<Rightarrow> int \<times> 'm server" where
  "get_new_id s = (id_count s + 1, s\<lparr>id_count := id_count s + 1\<rparr>)"

definition set_video_service_opt ::
  "(video_source \<times> nat) option \<Rightarrow> string \<Rightarrow> string \<Rightarrow> 'm server \<Rightarrow> 'm server" where
  "set_video_service_opt display opt v s =
     s\<lparr>services := (\<lambda>k. case services s k of
        None \<Rightarrow> None
      | Some svc \<Rightarrow> Some
          (if (case display of Some (source, d) \<Rightarrow> k \<noteq> get_service_name source d | None \<Rightarrow> False) then svc
           else if is_video_service_name k then snd (service_set_option opt v svc)
           else svc))\<rparr>"

text \<open>The displays and cameras a connection is subscribed to; \<open>keys\<close> lists the names of the services.\<close>

definition get_subbed_displays_count :: "string list \<Rightarrow> int \<Rightarrow> 'm server \<Rightarrow> nat" where
  "get_subbed_displays_count keys conn s =
     length (filter (\<lambda>k. is_video_service_name k \<and>
       (case services s k of Some svc \<Rightarrow> is_subed svc conn | None \<Rightarrow> False)) keys)"

definition capture_displays ::
  "string list \<Rightarrow> int \<Rightarrow> video_source \<Rightarrow> nat list \<Rightarrow> bool \<Rightarrow> bool \<Rightarrow> 'm server \<Rightarrow> 'm server" where
  "capture_displays keys conn source displays incl excl s =
     (let names = map (get_service_name source) displays in
      fold (\<lambda>name s.
        if is_video_service_name name then
          (if name \<in> set names
           then (if incl then subscribe name conn True s else s)
           else (if excl then subscribe name conn False s else s))
        else s) keys s)"

text \<open>Sending a message to the subscribers of one service.\<close>

definition server_send :: "string \<Rightarrow> 'm \<Rightarrow> 'm server \<Rightarrow> 'm server" where
  "server_send name m s =
     (case services s name of
        Some svc \<Rightarrow> s\<lparr>services := (services s)(name \<mapsto> send_shared m svc)\<rparr>
      | None \<Rightarrow> s)"

section \<open>Facts\<close>

definition subscribed :: "'m server \<Rightarrow> string \<Rightarrow> int \<Rightarrow> bool" where
  "subscribed s name conn = (case services s name of Some svc \<Rightarrow> is_subed svc conn | None \<Rightarrow> False)"

definition server_inv :: "'m server \<Rightarrow> bool" where
  "server_inv s \<longleftrightarrow> (\<forall>k svc. services s k = Some svc \<longrightarrow> service_inv svc \<and> s_name svc = k)"

lemma server_invD: "server_inv s \<Longrightarrow> services s k = Some svc \<Longrightarrow> service_inv svc \<and> s_name svc = k"
  by (simp add: server_inv_def)

lemma name_sub [simp]:
  "s_name (on_subscribe i svc) = s_name svc" "s_name (on_unsubscribe i svc) = s_name svc"
  by (simp_all add: on_subscribe_def on_unsubscribe_def)

lemma server_inv_subscribe: "server_inv s \<Longrightarrow> server_inv (subscribe n c w s)"
  by (auto simp: server_inv_def subscribe_def service_sub.inv_sub service_sub.inv_unsub split: option.split)

lemma dom_subscribe [simp]: "(services (subscribe n c w s) k = None) = (services s k = None)"
  by (auto simp: subscribe_def split: option.split)

lemma subscribed_subscribe:
  assumes "server_inv s"
  shows "subscribed (subscribe n c w s) k j \<longleftrightarrow>
    (if k = n \<and> j = c \<and> services s n \<noteq> None then w else subscribed s k j)"
proof (cases "services s n")
  case None
  then show ?thesis by (simp add: subscribe_def)
next
  case (Some svc)
  have inv: "service_inv svc" using server_invD [OF assms Some] by simp
  have "subscribe n c w s = s\<lparr>services := (services s)(n \<mapsto> service_sub.ask c w svc)\<rparr>"
    using Some by (cases s) (auto simp: subscribe_def service_sub.ask_def fun_upd_idem)
  then show ?thesis using Some service_sub.subd_ask [OF inv, of c w j] by (auto simp: subscribed_def)
qed

section \<open>What can happen to a server\<close>

text \<open>
  The operations of the services, as the threads of the services and the snapshots they give call them
  between two operations of the server, and the operations of the server. A service is added where
  there is none of its name, as every caller of \<open>add_service\<close> has it.
\<close>

datatype 'm service_op =
    SendAll 'm | SendTo 'm int | SendOthers 'm int | SendWithout 'm int | SendVideoFrame 'm
  | SendNew 'm | SwapNew | SetOption string string | StopService

fun service_step :: "'m service_op \<Rightarrow> 'm service \<Rightarrow> 'm service" where
  "service_step (SendAll m) svc = send_shared m svc"
| "service_step (SendTo m i) svc = send_to m i svc"
| "service_step (SendOthers m i) svc = send_to_others m i svc"
| "service_step (SendWithout m i) svc = send_without m i svc"
| "service_step (SendVideoFrame m) svc = snd (send_video_frame_shared m svc)"
| "service_step (SendNew m) svc = send_new_subscribes m svc"
| "service_step SwapNew svc = swap_new_subscribes svc"
| "service_step (SetOption k v) svc = snd (service_set_option k v svc)"
| "service_step StopService svc = join svc"

datatype 'm server_op =
    OfService string "'m service_op"
  | AddService string bool
  | AddPrimaryVideo nat
  | AddPrimaryCamera bool nat
  | AddConnection nat int "string list"
  | AddCameraConnection bool nat int
  | RemoveConnection int
  | Subscribe string int bool
  | CaptureDisplays "string list" int video_source "nat list" bool bool
  | NewId
  | SetVideoOption "(video_source \<times> nat) option" string string

fun server_step :: "'m server_op \<Rightarrow> 'm server \<Rightarrow> 'm server" where
  "server_step (OfService name x) s =
     s\<lparr>services := (\<lambda>k. if k = name then map_option (service_step x) (services s k) else services s k)\<rparr>"
| "server_step (AddService name snap) s =
     (if server_contains name s then s else add_service (service_new name snap) s)"
| "server_step (AddPrimaryVideo p) s = try_add_primay_video_service p s"
| "server_step (AddPrimaryCamera b p) s = try_add_primary_camera_service b p s"
| "server_step (AddConnection p i ns) s = add_connection p i ns s"
| "server_step (AddCameraConnection b p i) s = add_camera_connection b p i s"
| "server_step (RemoveConnection i) s = remove_connection i s"
| "server_step (Subscribe name i w) s = subscribe name i w s"
| "server_step (CaptureDisplays keys i src ds incl excl) s = capture_displays keys i src ds incl excl s"
| "server_step NewId s = snd (get_new_id s)"
| "server_step (SetVideoOption d k v) s = set_video_service_opt d k v s"

text \<open>The operations that subscribe a connection.\<close>

fun asks_for :: "int \<Rightarrow> 'm server_op \<Rightarrow> bool" where
  "asks_for c (AddConnection p i ns) = (i = c)"
| "asks_for c (AddCameraConnection b p i) = (i = c)"
| "asks_for c (Subscribe name i w) = (i = c \<and> w)"
| "asks_for c (CaptureDisplays keys i src ds incl excl) = (i = c \<and> incl)"
| "asks_for c x = False"

text \<open>What a connection has got from the service of a name.\<close>

definition got_from :: "'m server \<Rightarrow> string \<Rightarrow> int \<Rightarrow> 'm list" where
  "got_from s k c = (case services s k of Some svc \<Rightarrow> inbox svc c | None \<Rightarrow> [])"

text \<open>A state reached without a subscription of a connection that had none.\<close>

definition quiet :: "int \<Rightarrow> 'm server \<Rightarrow> 'm server \<Rightarrow> bool" where
  "quiet c s t \<longleftrightarrow> (\<forall>k. \<not> subscribed t k c \<and> got_from t k c = got_from s k c) \<and>
     (c \<in> connections t \<longrightarrow> c \<in> connections s)"

lemmas quiet_defs = quiet_def subscribed_def got_from_def

lemma quiet_trans: "quiet c s t \<Longrightarrow> quiet c t u \<Longrightarrow> quiet c s u"
  by (simp add: quiet_def)

lemma quiet_refl: "\<forall>k. \<not> subscribed s k c \<Longrightarrow> quiet c s s"
  by (simp add: quiet_def)

lemma quiet_service:
  "\<not> is_subed svc c \<Longrightarrow> \<not> is_subed (service_step x svc) c \<and> inbox (service_step x svc) c = inbox svc c"
  by (cases x) (auto simp: is_subed_def send_shared_def send_to_def send_to_others_def send_without_def
      send_video_frame_shared_def send_new_subscribes_def deliver_def swap_new_subscribes_def
      service_set_option_def join_def)

lemma quiet_sub:
  "\<not> is_subed svc c \<Longrightarrow> i \<noteq> c \<Longrightarrow> \<not> is_subed (on_subscribe i svc) c"
  "\<not> is_subed svc c \<Longrightarrow> \<not> is_subed (on_unsubscribe i svc) c"
  "inbox (on_subscribe i svc) c = inbox svc c" "inbox (on_unsubscribe i svc) c = inbox svc c"
  by (auto simp: is_subed_def on_subscribe_def on_unsubscribe_def)

lemma quiet_new [simp]: "\<not> is_subed (service_new n b) c" "inbox (service_new n b) c = []"
  "s_name (service_new n b) = n"
  by (simp_all add: is_subed_def service_new_def)

lemma quiet_added:
  "\<forall>k. \<not> subscribed s k c \<Longrightarrow> \<not> server_contains n s \<Longrightarrow> quiet c s (add_service (service_new n b) s)"
  by (auto simp: quiet_defs add_service_def server_contains_def)

lemma quiet_subscribe:
  "\<forall>k. \<not> subscribed s k c \<Longrightarrow> i \<noteq> c \<or> \<not> w \<Longrightarrow> quiet c s (subscribe n i w s)"
  by (auto simp: quiet_defs subscribe_def quiet_sub split: option.splits)

lemma quiet_map:
  assumes "\<forall>k. \<not> subscribed s k c" and "c \<in> connections t \<longrightarrow> c \<in> connections s"
    and "\<And>k svc. services s k = Some svc \<Longrightarrow> \<not> is_subed svc c \<Longrightarrow>
      \<exists>svc'. services t k = Some svc' \<and> \<not> is_subed svc' c \<and> inbox svc' c = inbox svc c"
    and "\<And>k. services s k = None \<Longrightarrow> services t k = None"
  shows "quiet c s t"
  unfolding quiet_def
proof (intro conjI allI assms(2))
  fix k
  have "\<not> subscribed t k c \<and> got_from t k c = got_from s k c"
    using assms(1) [rule_format, of k] assms(3,4) [of k]
    by (cases "services s k") (auto simp: subscribed_def got_from_def)
  then show "\<not> subscribed t k c" "got_from t k c = got_from s k c" by blast+
qed

lemma quiet_capture:
  assumes "\<forall>k. \<not> subscribed s k c" and "i \<noteq> c \<or> \<not> incl"
  shows "quiet c s (capture_displays keys i src ds incl excl s)"
proof -
  define f where "f = (\<lambda>name s. if is_video_service_name name then
      (if name \<in> set (map (get_service_name src) ds) then (if incl then subscribe name i True s else s)
       else (if excl then subscribe name i False s else s)) else (s :: 'a server))"
  have one: "quiet c s (f name s)" if "\<forall>k. \<not> subscribed s k c" for name s
    using that assms(2) quiet_subscribe [OF that, of i True name] quiet_subscribe [OF that, of i False name]
    by (auto simp: f_def quiet_refl)
  have "quiet c s (fold f keys s)" if "\<forall>k. \<not> subscribed s k c" for s
    using that
  proof (induction keys arbitrary: s)
    case (Cons name keys)
    have "\<forall>k. \<not> subscribed (f name s) k c" using one [OF Cons.prems, of name] unfolding quiet_def by blast
    then show ?case using quiet_trans [OF one [OF Cons.prems, of name] Cons.IH] by simp
  qed (simp add: quiet_refl)
  then show ?thesis using assms(1) by (simp add: capture_displays_def Let_def f_def)
qed

lemma quiet_step:
  assumes "\<forall>k. \<not> subscribed s k c" and "\<not> asks_for c x"
  shows "quiet c s (server_step x s)"
proof (cases x)
  case (OfService n y)
  show ?thesis unfolding OfService by (rule quiet_map [OF assms(1)]) (auto simp: quiet_service)
next
  case (AddService n b)
  then show ?thesis using assms(1) by (simp add: quiet_refl quiet_added)
next
  case (AddPrimaryVideo p)
  then show ?thesis using assms(1) by (simp add: try_add_primay_video_service_def Let_def quiet_refl quiet_added)
next
  case (AddPrimaryCamera b p)
  then show ?thesis using assms(1) by (simp add: try_add_primary_camera_service_def Let_def quiet_refl quiet_added)
next
  case (AddConnection p i ns)
  then have "i \<noteq> c" using assms(2) by simp
  then show ?thesis
    unfolding AddConnection by (intro quiet_map [OF assms(1)]) (auto simp: add_connection_def Let_def quiet_sub)
next
  case (AddCameraConnection b p i)
  then have "i \<noteq> c" using assms(2) by simp
  then show ?thesis
    unfolding AddCameraConnection
    by (intro quiet_map [OF assms(1)]) (auto simp: add_camera_connection_def Let_def quiet_sub split: option.split)
next
  case (RemoveConnection i)
  show ?thesis
    unfolding RemoveConnection
    by (rule quiet_map [OF assms(1)]) (auto simp: remove_connection_def Let_def quiet_sub)
next
  case (Subscribe n i w)
  then show ?thesis using assms by (simp add: quiet_subscribe)
next
  case (CaptureDisplays keys i src ds incl excl)
  then show ?thesis using assms by (simp add: quiet_capture)
next
  case NewId
  show ?thesis unfolding NewId by (rule quiet_map [OF assms(1)]) (auto simp: get_new_id_def)
next
  case (SetVideoOption d k v)
  show ?thesis
    unfolding SetVideoOption
    by (rule quiet_map [OF assms(1)])
      (auto simp: set_video_service_opt_def service_set_option_def is_subed_def split: option.split)
qed

lemma quiet_steps:
  "\<forall>k. \<not> subscribed s k c \<Longrightarrow> \<forall>x \<in> set xs. \<not> asks_for c x \<Longrightarrow> quiet c s (fold server_step xs s)"
proof (induction xs arbitrary: s)
  case (Cons x xs)
  then have one: "quiet c s (server_step x s)" by (simp add: quiet_step)
  then have "quiet c (server_step x s) (fold server_step xs (server_step x s))"
    using Cons by (simp add: quiet_def)
  then show ?case using quiet_trans [OF one] by simp
qed (simp add: quiet_refl)

text \<open>
  C28. A closed connection hears nothing more: after it was removed, whatever the services send
  (to all, to one, to all but one, video frames, snapshots to new subscribers and the swap that ends
  them) and whatever is done to the server, other connections coming, subscribing and going and
  services being added, as long as nothing subscribes this connection again, it is subscribed to
  nothing, is not among the connections, and has got from every service what it had got before.
\<close>

theorem removed_connection_is_silent:
  fixes s :: "'m server" and c :: int
  assumes "server_inv s" and "\<forall>x \<in> set xs. \<not> asks_for c x"
  defines "t \<equiv> fold server_step xs (remove_connection c s)"
  shows "c \<notin> connections t \<and> \<not> subscribed t k c \<and> got_from t k c = got_from s k c"
proof -
  have "\<not> subscribed (remove_connection c s) k c \<and> got_from (remove_connection c s) k c = got_from s k c" for k
    using service_sub.subd_unsub server_invD [OF assms(1), of k]
    by (auto simp: remove_connection_def subscribed_def got_from_def quiet_sub split: option.splits)
  moreover have "c \<notin> connections (remove_connection c s)" by (simp add: remove_connection_def)
  ultimately show ?thesis
    using quiet_steps [of "remove_connection c s" c xs] assms(2) by (auto simp: t_def quiet_def)
qed

definition demo_server :: "string server" where
  "demo_server = add_connection 0 7 [''clipboard'']
     (add_service (service_new ''audio'' True) (try_add_primay_video_service 0
        \<lparr>connections = {}, services = Map.empty, id_count = 1000\<rparr>))"

lemma server_inv_add: "server_inv s \<Longrightarrow> service_inv svc \<Longrightarrow> server_inv (add_service svc s)"
  by (simp add: server_inv_def add_service_def)

lemma server_inv_empty: "server_inv \<lparr>connections = C, services = Map.empty, id_count = n\<rparr>"
  by (simp add: server_inv_def)

lemma server_inv_video: "server_inv s \<Longrightarrow> server_inv (try_add_primay_video_service p s)"
  by (simp add: try_add_primay_video_service_def Let_def server_inv_add)

lemma server_inv_add_connection: "server_inv s \<Longrightarrow> server_inv (add_connection p c ns s)"
  by (auto simp: server_inv_def add_connection_def Let_def service_sub.inv_sub split: option.splits)

lemma server_inv_remove: "server_inv s \<Longrightarrow> server_inv (remove_connection c s)"
  by (auto simp: server_inv_def remove_connection_def Let_def service_sub.inv_unsub)

lemma demo_server_inv: "server_inv demo_server"
  unfolding demo_server_def
  by (intro server_inv_add_connection server_inv_add server_inv_video server_inv_empty service_inv_new)

theorem removed_connection_is_silent_witness:
  "got_from (fold server_step [OfService ''monitor0'' (SendNew ''f''), AddConnection 0 8 [],
       OfService ''audio'' SwapNew, OfService ''audio'' (SendAll ''a'')] (remove_connection 7 demo_server)) ''audio'' 7
     = got_from demo_server ''audio'' 7"
  using removed_connection_is_silent [OF demo_server_inv, of "[OfService ''monitor0'' (SendNew ''f''),
    AddConnection 0 8 [], OfService ''audio'' SwapNew, OfService ''audio'' (SendAll ''a'')]" 7 "''audio''"]
  by simp

text \<open>\<open>add_connection\<close>: every service but the refused ones, and of the displays the primary one.\<close>

lemma subscribed_add_connection:
  assumes "server_inv s"
  shows "subscribed (add_connection p c ns s) k j \<longleftrightarrow> subscribed s k j \<or>
    (j = c \<and> services s k \<noteq> None \<and> (is_video_service_name k \<longrightarrow> k = get_service_name Monitor p) \<and> k \<notin> set ns)"
proof (cases "services s k")
  case (Some svc)
  then show ?thesis
    using server_invD [OF assms Some] service_sub.subd_sub [of svc c j]
    by (auto simp: subscribed_def add_connection_def Let_def)
qed (simp add: subscribed_def add_connection_def Let_def)

lemma dom_add_connection [simp]: "(services (add_connection p c ns s) k = None) = (services s k = None)"
  by (simp add: add_connection_def Let_def split: option.split)

lemma capture_fold:
  fixes s :: "'m server" and names :: "string list" and incl excl :: bool and conn :: int
  assumes "server_inv s"
  defines "step \<equiv> \<lambda>name s. if is_video_service_name name then
          (if name \<in> set names
           then (if incl then subscribe name conn True s else s)
           else (if excl then subscribe name conn False s else s))
        else s"
  shows "server_inv (fold step keys s) \<and> (subscribed (fold step keys s) k j \<longleftrightarrow>
      (if k \<in> set keys \<and> services s k \<noteq> None \<and> j = conn \<and> is_video_service_name k
       then (if k \<in> set names then incl \<or> subscribed s k j else \<not> excl \<and> subscribed s k j)
       else subscribed s k j))"
  using assms(1)
proof (induction keys arbitrary: s)
  case (Cons name keys)
  have inv: "server_inv (step name s)" using Cons.prems by (simp add: step_def server_inv_subscribe)
  have dom: "(services (step name s) k = None) = (services s k = None)" by (simp add: step_def)
  define P where "P \<longleftrightarrow> services s k \<noteq> None \<and> j = conn \<and> is_video_service_name k"
  define R where "R = (\<lambda>x. if k \<in> set names then incl \<or> x else \<not> excl \<and> x)"
  have one: "subscribed (step name s) k j \<longleftrightarrow> (if k = name \<and> P then R (subscribed s k j) else subscribed s k j)"
    using Cons.prems by (auto simp: step_def subscribed_subscribe P_def R_def)
  have rest: "server_inv (fold step keys (step name s))"
    "subscribed (fold step keys (step name s)) k j \<longleftrightarrow>
      (if k \<in> set keys \<and> P then R (subscribed (step name s) k j) else subscribed (step name s) k j)"
    using Cons.IH [OF inv] unfolding P_def R_def by (auto simp: dom)
  have idem: "R (R x) = R x" for x by (simp add: R_def)
  have "subscribed (fold step (name # keys) s) k j \<longleftrightarrow>
      (if k \<in> set (name # keys) \<and> P then R (subscribed s k j) else subscribed s k j)"
    using rest(2) one idem by (cases P; cases "k = name"; cases "k \<in> set keys") simp_all
  then show ?case using rest(1) unfolding P_def R_def by auto
qed simp

text \<open>
  Choosing displays to capture, with the others excluded, subscribes the connection to exactly
  the chosen displays that exist, and changes neither other services nor other connections.
\<close>

theorem capture_exactly:
  assumes "server_inv s" and "set keys = dom (services s)"
  shows "subscribed (capture_displays keys c src ds True True s) k j \<longleftrightarrow>
    (if j = c \<and> is_video_service_name k \<and> services s k \<noteq> None
     then k \<in> get_service_name src ` set ds else subscribed s k j)"
  using capture_fold [OF assms(1), where names = "map (get_service_name src) ds" and incl = True
      and excl = True and conn = c and keys = keys and k = k and j = j] assms(2)
  by (auto simp: capture_displays_def Let_def)

theorem capture_exactly_witness:
  "\<not> subscribed (capture_displays [''monitor0'', ''audio''] 7 Monitor [1] True True demo_server) ''monitor0'' 7"
proof -
  have n: "get_service_name Monitor 0 = ''monitor0''"
    using digit_char_0 by (simp add: get_service_name_def dec.simps)
  then have "services demo_server ''monitor0'' \<noteq> None" "dom (services demo_server) = {''monitor0'', ''audio''}"
    by (auto simp: demo_server_def add_connection_def add_service_def try_add_primay_video_service_def
        server_contains_def service_new_def Let_def dom_def split: option.split)
  moreover have "is_video_service_name ''monitor0''" by (simp add: is_video_service_name_def)
  moreover have "''monitor0'' \<noteq> get_service_name Monitor 1"
    using n dec_inj [of 0 1] by (auto simp: get_service_name_def)
  ultimately show ?thesis
    using capture_exactly [OF demo_server_inv, of "[''monitor0'', ''audio'']" 7 Monitor "[1]" "''monitor0''" 7]
    by auto
qed

end
