(* ===== verification/Connection.thy ===== *)
theory Connection
  imports Permissions LoginGuard Server
begin

text \<open>
  The state of one incoming session (\<open>Connection\<close> of \<open>src/server/connection.rs\<close>) and of what the
  sessions of the host share: the configuration, the one-time password, the failure counters, the
  remembered sessions, the list of authorised connections and the services. Modelled are the flags
  by which the local user and the peer allow things, and the subscriptions that depend on them:
  the services started at login, \<open>SwitchPermission\<close> from the connection manager, the options of
  the peer (\<open>update_options\<close>) and voice calls. What is sent to the peer or to other parts of the
  program is recorded in \<open>effects\<close>. The build is the Windows desktop one.
\<close>

section \<open>Messages\<close>

datatype bool_option = NotSet | No | Yes | UnknownOption

datatype image_quality = QualityNotSet | Low | Balanced | Best | UnknownQuality

fun image_quality_value :: "image_quality \<Rightarrow> int" where
  "image_quality_value QualityNotSet = 0"
| "image_quality_value Low = 2"
| "image_quality_value Balanced = 3"
| "image_quality_value Best = 4"
| "image_quality_value UnknownQuality = -1"

record option_message =
  o_image_quality :: image_quality
  o_custom_image_quality :: int
  o_custom_fps :: int
  o_supported_decoding :: bool
  o_lock_after_session_end :: bool_option
  o_show_remote_cursor :: bool_option
  o_follow_remote_cursor :: bool_option
  o_follow_remote_window :: bool_option
  o_disable_audio :: bool_option
  o_enable_file_transfer :: bool_option
  o_disable_clipboard :: bool_option
  o_disable_keyboard :: bool_option
  o_privacy_mode :: bool_option
  o_block_input :: bool_option
  o_terminal_persistent :: bool_option
  o_show_my_cursor :: bool_option

datatype login_union =
    LoginFileTransfer string bool
  | LoginViewCamera
  | LoginTerminal string
  | LoginPortForward string int
  | LoginDefault

record login_request =
  lr_username :: string
  lr_password :: string
  lr_my_id :: string
  lr_my_name :: string
  lr_my_platform :: string
  lr_session_id :: nat
  lr_hwid :: string
  lr_version :: string
  lr_os_username :: string
  lr_os_password :: string
  lr_option :: "option_message option"
  lr_video_ack_required :: bool
  lr_union :: login_union

datatype auth_conn_type = RemoteConn | FileTransferConn | PortForwardConn | ViewCameraConn | TerminalConn

datatype effect =
    LoginError string bool
  | LoginResponse "string option"
  | PermissionInfo permission_kind bool
  | CmLogin bool
  | CmFileEnabled bool
  | CmStartVoice
  | CmCloseVoice
  | CmDisconnected
  | CmClosed
  | VoiceResponse int bool
  | QosOpen
  | QosQuality int
  | QosFps int
  | CodecUpdate
  | CodecVp9Only
  | PrivacyOn
  | PrivacyOff
  | BlockOn
  | BlockOff
  | BlockError bool
  | WhiteboardOn
  | WhiteboardOff
  | MessageBox string
  | LockScreen
  | AlarmWhitelist
  | SendHash
  | CloseByHost
  | Alarm guard_error
  | ReadDir string bool
  | TerminalStart

section \<open>State\<close>

type_synonym session_key = "string \<times> string \<times> nat"

record session =
  last_recv_time :: int
  random_password :: string
  tfa :: bool

record authed_conn =
  ac_id :: int
  ac_type :: auth_conn_type
  ac_session_key :: session_key
  ac_printer :: bool

record host =
  h_cfg :: cfg
  temporary_password :: string
  password_failures :: failures
  tfa_failures :: failures
  sessions :: "session_key \<rightharpoonup> session"
  authed_conns :: "authed_conn list"
  switch_sides_uuid :: "string \<rightharpoonup> int \<times> string"
  h_server :: "string server"

record conn =
  conn_id :: int
  conn_ip :: ip_addr
  hash_salt :: string
  hash_challenge :: string
  file_transfer :: "(string \<times> bool) option"
  delayed_read_dir :: "(string \<times> bool) option"
  view_camera :: bool
  terminal :: bool
  port_forward_socket :: bool
  port_forward_address :: string
  authorized :: bool
  require_2fa :: "string option"
  keyboard :: bool
  clipboard :: bool
  audio :: bool
  file_perm :: bool
  restart :: bool
  recording :: bool
  block_input :: bool
  control_permissions :: "u64 option"
  lock_after_session_end :: bool
  show_remote_cursor :: bool
  follow_remote_cursor :: bool
  follow_remote_window :: bool
  disable_keyboard :: bool
  disable_clipboard :: bool
  disable_audio :: bool
  enable_file_transfer :: bool
  show_my_cursor :: bool
  lr :: login_request
  options_in_login :: "option_message option"
  video_ack_required :: bool
  session_shared :: bool
  from_switch :: bool
  voice_call_request :: "int option"
  voice_calling :: bool
  chat_unanswered :: bool
  file_transferred :: bool
  cm_ipc_started :: bool
  authed_conn_id :: "auth_conn_type option"
  services_subed :: bool
  terminal_service_id :: string
  terminal_persistent :: bool
  terminal_has_token :: "bool option"
  closed :: bool
  effects :: "effect list"

type_synonym state = "conn \<times> host"

definition emit :: "effect \<Rightarrow> conn \<Rightarrow> conn" where
  "emit x c = c\<lparr>effects := effects c @ [x]\<rparr>"

definition session_key :: "conn \<Rightarrow> session_key" where
  "session_key c = (lr_my_id (lr c), lr_my_name (lr c), lr_session_id (lr c))"

abbreviation "CLIPBOARD_NAME \<equiv> ''clipboard''"
abbreviation "AUDIO_NAME \<equiv> ''audio''"
abbreviation "NAME_CURSOR \<equiv> ''mouse_cursor''"
abbreviation "NAME_POS \<equiv> ''mouse_pos''"
abbreviation "NAME_WINDOW_FOCUS \<equiv> ''window_focus''"

section \<open>A new connection\<close>

definition default_login_request :: login_request where
  "default_login_request = \<lparr>lr_username = [], lr_password = [], lr_my_id = [], lr_my_name = [],
     lr_my_platform = [], lr_session_id = 0, lr_hwid = [], lr_version = [], lr_os_username = [],
     lr_os_password = [], lr_option = None, lr_video_ack_required = False, lr_union = LoginDefault\<rparr>"

text \<open>\<open>totp\<close> is what \<open>auth_2fa::get_2fa\<close> returns, \<open>ip\<close> the address after \<open>on_open\<close>.\<close>

definition connection_new ::
  "cfg \<Rightarrow> int \<Rightarrow> ip_addr \<Rightarrow> string \<times> string \<Rightarrow> string option \<Rightarrow> u64 option \<Rightarrow> conn" where
  "connection_new g i ip hash totp cp =
     \<lparr>conn_id = i, conn_ip = ip, hash_salt = fst hash, hash_challenge = snd hash,
      file_transfer = None, delayed_read_dir = None, view_camera = False, terminal = False,
      port_forward_socket = False, port_forward_address = [], authorized = False,
      require_2fa = totp,
      keyboard = permission g ''enable-keyboard'' cp,
      clipboard = permission g ''enable-clipboard'' cp,
      audio = permission g ''enable-audio'' cp,
      file_perm = permission g ''enable-file-transfer'' cp,
      restart = permission g ''enable-remote-restart'' cp,
      recording = permission g ''enable-record-session'' cp,
      block_input = permission g ''enable-block-input'' cp,
      control_permissions = cp,
      lock_after_session_end = False, show_remote_cursor = False, follow_remote_cursor = False,
      follow_remote_window = False, disable_keyboard = False, disable_clipboard = False,
      disable_audio = False, enable_file_transfer = False, show_my_cursor = False,
      lr = default_login_request, options_in_login = None, video_ack_required = False,
      session_shared = False, from_switch = False, voice_call_request = None,
      voice_calling = False, chat_unanswered = False, file_transferred = False,
      cm_ipc_started = False, authed_conn_id = None, services_subed = False,
      terminal_service_id = [], terminal_persistent = False, terminal_has_token = None,
      closed = False, effects = []\<rparr>"

text \<open>The permissions that are off are announced to the peer before it logs in.\<close>

definition announce_permissions :: "conn \<Rightarrow> conn" where
  "announce_permissions c = fold (\<lambda>(p, on) c. if \<not> on then emit (PermissionInfo p False) c else c)
     [(Keyboard, keyboard c), (Clipboard, clipboard c), (Audio, audio c), (File, file_perm c),
      (Restart, restart c), (Recording, recording c), (BlockInput, block_input c)] c"

section \<open>What is enabled\<close>

definition get_builtin_option :: "cfg \<Rightarrow> string \<Rightarrow> string" where
  "get_builtin_option g k = unwrap_or_default (builtin_settings g k)"

definition is_remote :: "conn \<Rightarrow> bool" where
  "is_remote c = (file_transfer c = None \<and> \<not> port_forward_socket c \<and> \<not> view_camera c \<and> \<not> terminal c)"

definition is_authed_remote_conn :: "conn \<Rightarrow> bool" where
  "is_authed_remote_conn c = (authed_conn_id c = Some RemoteConn)"

definition is_authed_view_camera_conn :: "conn \<Rightarrow> bool" where
  "is_authed_view_camera_conn c = (authed_conn_id c = Some ViewCameraConn)"

definition peer_keyboard_enabled :: "conn \<Rightarrow> bool" where
  "peer_keyboard_enabled c = (keyboard c \<and> \<not> disable_keyboard c)"

definition clipboard_enabled :: "conn \<Rightarrow> bool" where
  "clipboard_enabled c = (clipboard c \<and> \<not> disable_clipboard c)"

definition can_sub_clipboard_service :: "cfg \<Rightarrow> conn \<Rightarrow> bool" where
  "can_sub_clipboard_service g c =
     (clipboard_enabled c \<and> peer_keyboard_enabled c
      \<and> get_builtin_option g ''one-way-clipboard-redirection'' \<noteq> ''Y'')"

definition audio_enabled :: "conn \<Rightarrow> bool" where
  "audio_enabled c = (audio c \<and> \<not> disable_audio c)"

definition file_transfer_enabled :: "conn \<Rightarrow> bool" where
  "file_transfer_enabled c = (file_perm c \<and> enable_file_transfer c)"

text \<open>Subscribing this connection to a service of the host.\<close>

definition sub :: "string \<Rightarrow> bool \<Rightarrow> state \<Rightarrow> state" where
  "sub name wanted st =
     (case st of (c, h) \<Rightarrow> (c, h\<lparr>h_server := subscribe name (conn_id c) wanted (h_server h)\<rparr>))"

definition upd :: "(conn \<Rightarrow> conn) \<Rightarrow> state \<Rightarrow> state" where
  "upd f st = (case st of (c, h) \<Rightarrow> (f c, h))"

abbreviation sub_clipboard :: "state \<Rightarrow> state" where
  "sub_clipboard st \<equiv> sub CLIPBOARD_NAME (can_sub_clipboard_service (h_cfg (snd st)) (fst st)) st"

abbreviation sub_cursor :: "state \<Rightarrow> state" where
  "sub_cursor st \<equiv>
     sub NAME_CURSOR (peer_keyboard_enabled (fst st) \<or> show_remote_cursor (fst st)) st"

definition sub_audio :: "state \<Rightarrow> state" where
  "sub_audio st =
     (let c = fst st in
      if is_authed_view_camera_conn c then
        (if voice_calling c \<or> \<not> audio_enabled c then sub AUDIO_NAME (audio_enabled c) st else st)
      else sub AUDIO_NAME (audio_enabled c) st)"

section \<open>At login\<close>

definition try_sub_camera_displays :: "bool \<Rightarrow> nat \<Rightarrow> state \<Rightarrow> state" where
  "try_sub_camera_displays camera_exists primary st =
     (case st of (c, h) \<Rightarrow>
        (c, h\<lparr>h_server := add_camera_connection camera_exists primary (conn_id c)
               (try_add_primary_camera_service camera_exists primary (h_server h))\<rparr>))"

definition noperms :: "cfg \<Rightarrow> conn \<Rightarrow> string list" where
  "noperms g c =
     (if \<not> peer_keyboard_enabled c \<and> \<not> show_remote_cursor c then [NAME_CURSOR] else []) @
     (if \<not> show_remote_cursor c then [NAME_POS] else []) @
     (if \<not> follow_remote_window c then [NAME_WINDOW_FOCUS] else []) @
     (if \<not> can_sub_clipboard_service g c then [CLIPBOARD_NAME] else []) @
     (if \<not> audio_enabled c then [AUDIO_NAME] else [])"

definition try_sub_monitor_services :: "nat \<Rightarrow> state \<Rightarrow> state" where
  "try_sub_monitor_services primary st =
     (case st of (c, h) \<Rightarrow>
        if is_remote c \<and> \<not> services_subed c then
          (c\<lparr>services_subed := True\<rparr>,
           h\<lparr>h_server := add_connection primary (conn_id c) (noperms (h_cfg h) c)
               (try_add_primay_video_service primary (h_server h))\<rparr>)
        else (c, h))"

section \<open>Permissions switched by the local user\<close>

definition switch_permission :: "string \<Rightarrow> bool \<Rightarrow> state \<Rightarrow> state" where
  "switch_permission name enabled st =
     (if name = ''keyboard'' then
        (let st = upd (\<lambda>c. emit (PermissionInfo Keyboard enabled) (c\<lparr>keyboard := enabled\<rparr>)) st;
             st = sub_clipboard st
         in sub NAME_CURSOR (enabled \<or> show_remote_cursor (fst st)) st)
      else if name = ''clipboard'' then
        sub_clipboard (upd (\<lambda>c. emit (PermissionInfo Clipboard enabled) (c\<lparr>clipboard := enabled\<rparr>)) st)
      else if name = ''audio'' then
        (let st = upd (\<lambda>c. emit (PermissionInfo Audio enabled) (c\<lparr>audio := enabled\<rparr>)) st
         in if authorized (fst st) then sub_audio st else st)
      else if name = ''file'' then
        upd (\<lambda>c. emit (PermissionInfo File enabled) (c\<lparr>file_perm := enabled\<rparr>)) st
      else if name = ''restart'' then
        upd (\<lambda>c. emit (PermissionInfo Restart enabled) (c\<lparr>restart := enabled\<rparr>)) st
      else if name = ''recording'' then
        upd (\<lambda>c. emit (PermissionInfo Recording enabled) (c\<lparr>recording := enabled\<rparr>)) st
      else if name = ''block_input'' then
        upd (\<lambda>c. emit (PermissionInfo BlockInput enabled) (c\<lparr>block_input := enabled\<rparr>)) st
      else st)"

section \<open>Voice calls\<close>

definition handle_voice_call :: "bool \<Rightarrow> state \<Rightarrow> state" where
  "handle_voice_call accepted st =
     (case voice_call_request (fst st) of
        Some ts \<Rightarrow>
          (let st = upd (\<lambda>c. c\<lparr>voice_call_request := None\<rparr>) st;
               st = upd (emit (if accepted then CmStartVoice else CmCloseVoice)) st;
               st = upd (emit (VoiceResponse ts accepted)) st;
               st = upd (\<lambda>c. c\<lparr>voice_calling := accepted\<rparr>) st
           in if is_authed_view_camera_conn (fst st)
              then sub AUDIO_NAME (audio_enabled (fst st) \<and> accepted) st else st)
      | None \<Rightarrow> st)"

definition close_voice_call :: "state \<Rightarrow> state" where
  "close_voice_call st =
     (let st = upd (\<lambda>c. (emit CmCloseVoice c)\<lparr>voice_calling := False\<rparr>) st
      in if is_authed_view_camera_conn (fst st) then sub AUDIO_NAME False st else st)"

section \<open>Options of the peer\<close>

text \<open>
  \<open>set_by o f st\<close>: \<open>if let Ok(q) = o.enum_value() { if q != NotSet { ... } }\<close> with the body \<open>f\<close>
  of whether the value is \<open>Yes\<close>.
\<close>

definition set_by :: "bool_option \<Rightarrow> (bool \<Rightarrow> state \<Rightarrow> state) \<Rightarrow> state \<Rightarrow> state" where
  "set_by q f st = (if q = UnknownOption \<or> q = NotSet then st else f (q = Yes) st)"

definition update_image_quality :: "option_message \<Rightarrow> state \<Rightarrow> state" where
  "update_image_quality m st =
     (let q = o_image_quality m in
      if q = UnknownQuality then st
      else
        let image_quality =
          (if q = QualityNotSet
           then (if 0 < o_custom_image_quality m then o_custom_image_quality m else -1)
           else image_quality_value q)
        in if 0 < image_quality then upd (emit (QosQuality image_quality)) st else st)"

definition update_privacy :: "option_message \<Rightarrow> state \<Rightarrow> state" where
  "update_privacy m st =
     (if sint (get_version_number (lr_version (lr (fst st)))) < sint (get_version_number ''1.2.4'')
         \<and> o_privacy_mode m \<noteq> UnknownOption \<and> keyboard (fst st) then
        (if o_privacy_mode m = Yes then upd (emit PrivacyOn) st
         else if o_privacy_mode m = No then upd (emit PrivacyOff) st
         else st)
      else st)"

definition update_block_input :: "option_message \<Rightarrow> state \<Rightarrow> state" where
  "update_block_input m st =
     (let q = o_block_input m in
      if q = UnknownOption then st
      else if keyboard (fst st) \<and> block_input (fst st) then
        (if q = Yes then upd (emit BlockOn) st else if q = No then upd (emit BlockOff) st else st)
      else if q \<noteq> NotSet then upd (emit (BlockError (q = Yes))) st
      else st)"

definition update_show_my_cursor :: "bool \<Rightarrow> bool \<Rightarrow> state \<Rightarrow> state" where
  "update_show_my_cursor win10 yes st =
     (let st = upd (\<lambda>c. c\<lparr>show_my_cursor := yes\<rparr>) st;
          not_support_msg = (if \<not> win10 then ''Windows 10 or greater is required.'' else [])
      in if yes then
           (if not_support_msg = [] then upd (emit WhiteboardOn) st
            else upd (emit (MessageBox not_support_msg)) st)
         else (if not_support_msg = [] then upd (emit WhiteboardOff) st else st))"

definition update_fps :: "option_message \<Rightarrow> state \<Rightarrow> state" where
  "update_fps m st = (if 0 < o_custom_fps m then upd (emit (QosFps (o_custom_fps m))) st else st)"

definition update_codec :: "option_message \<Rightarrow> state \<Rightarrow> state" where
  "update_codec m st = (if o_supported_decoding m then upd (emit CodecUpdate) st else st)"

definition update_cursor :: "bool \<Rightarrow> state \<Rightarrow> state" where
  "update_cursor b st =
     (let st = upd (\<lambda>c. c\<lparr>show_remote_cursor := b\<rparr>) st;
          st = sub_cursor st
      in sub NAME_POS (show_remote_cursor (fst st)) st)"

definition update_follow_window :: "bool \<Rightarrow> state \<Rightarrow> state" where
  "update_follow_window b st =
     (let st = upd (\<lambda>c. c\<lparr>follow_remote_window := b\<rparr>) st
      in sub NAME_WINDOW_FOCUS (follow_remote_window (fst st)) st)"

definition update_audio :: "bool \<Rightarrow> state \<Rightarrow> state" where
  "update_audio b st = sub_audio (upd (\<lambda>c. c\<lparr>disable_audio := b\<rparr>) st)"

definition update_file_transfer :: "bool \<Rightarrow> state \<Rightarrow> state" where
  "update_file_transfer b st =
     (let st = upd (\<lambda>c. c\<lparr>enable_file_transfer := b\<rparr>) st
      in upd (emit (CmFileEnabled (file_transfer_enabled (fst st)))) st)"

definition update_clipboard :: "bool \<Rightarrow> state \<Rightarrow> state" where
  "update_clipboard b st = sub_clipboard (upd (\<lambda>c. c\<lparr>disable_clipboard := b\<rparr>) st)"

definition update_keyboard :: "bool \<Rightarrow> state \<Rightarrow> state" where
  "update_keyboard b st = sub_cursor (sub_clipboard (upd (\<lambda>c. c\<lparr>disable_keyboard := b\<rparr>) st))"

text \<open>The options in the order of the code; \<open>win10\<close> is \<open>is_win_10_or_greater\<close>.\<close>

definition update_options :: "bool \<Rightarrow> option_message \<Rightarrow> state \<Rightarrow> state" where
  "update_options win10 m st = fold (\<lambda>f. f)
     [update_image_quality m,
      update_fps m,
      update_codec m,
      set_by (o_lock_after_session_end m) (\<lambda>b. upd (\<lambda>c. c\<lparr>lock_after_session_end := b\<rparr>)),
      set_by (o_show_remote_cursor m) update_cursor,
      set_by (o_follow_remote_cursor m) (\<lambda>b. upd (\<lambda>c. c\<lparr>follow_remote_cursor := b\<rparr>)),
      set_by (o_follow_remote_window m) update_follow_window,
      set_by (o_disable_audio m) update_audio,
      set_by (o_enable_file_transfer m) update_file_transfer,
      set_by (o_disable_clipboard m) update_clipboard,
      set_by (o_disable_keyboard m) update_keyboard,
      update_privacy m,
      update_block_input m,
      set_by (o_terminal_persistent m) (\<lambda>b. upd (\<lambda>c. c\<lparr>terminal_persistent := b\<rparr>)),
      set_by (o_show_my_cursor m) (update_show_my_cursor win10)] st"

section \<open>Subscriptions follow the flags\<close>

lemma upd_simps [simp]: "fst (upd f st) = f (fst st)" "snd (upd f st) = snd st"
  by (simp_all add: upd_def split: prod.split)

lemma sub_simps [simp]:
  "fst (sub n w st) = fst st" "h_cfg (snd (sub n w st)) = h_cfg (snd st)"
  "h_server (snd (sub n w st)) = subscribe n (conn_id (fst st)) w (h_server (snd st))"
  by (simp_all add: sub_def split: prod.split)

definition session_names :: "string list" where
  "session_names = [CLIPBOARD_NAME, AUDIO_NAME, NAME_CURSOR, NAME_POS, NAME_WINDOW_FOCUS]"

definition has_services :: "state \<Rightarrow> bool" where
  "has_services st \<longleftrightarrow> server_inv (h_server (snd st)) \<and>
     (\<forall>n \<in> set session_names. services (h_server (snd st)) n \<noteq> None)"

definition subbed :: "state \<Rightarrow> string \<Rightarrow> bool" where
  "subbed st n = subscribed (h_server (snd st)) n (conn_id (fst st))"

text \<open>
  The subscriptions of an authorised remote-control session are what its flags say. The cursor is
  left out: switching the keyboard on subscribes it even if the peer has disabled the keyboard.
\<close>

definition subs_match :: "state \<Rightarrow> bool" where
  "subs_match st \<longleftrightarrow> has_services st \<and> authorized (fst st) \<and> authed_conn_id (fst st) = Some RemoteConn \<and>
     subbed st CLIPBOARD_NAME = can_sub_clipboard_service (h_cfg (snd st)) (fst st) \<and>
     subbed st AUDIO_NAME = audio_enabled (fst st) \<and>
     subbed st NAME_POS = show_remote_cursor (fst st) \<and>
     subbed st NAME_WINDOW_FOCUS = follow_remote_window (fst st)"

lemma has_services_upd: "conn_id (f (fst st)) = conn_id (fst st) \<Longrightarrow> has_services (upd f st) = has_services st"
  by (simp add: has_services_def)

lemma has_services_sub [simp]: "has_services st \<Longrightarrow> has_services (sub n w st)"
  by (simp add: has_services_def server_inv_subscribe)

lemma subbed_sub:
  "has_services st \<Longrightarrow> n \<in> set session_names \<Longrightarrow> subbed (sub n w st) k = (if k = n then w else subbed st k)"
  by (auto simp: has_services_def subbed_def subscribed_subscribe)

lemma subbed_upd: "conn_id (f (fst st)) = conn_id (fst st) \<Longrightarrow> subbed (upd f st) k = subbed st k"
  by (simp add: subbed_def)

lemma session_names_mem [simp]:
  "CLIPBOARD_NAME \<in> set session_names" "AUDIO_NAME \<in> set session_names"
  "NAME_CURSOR \<in> set session_names" "NAME_POS \<in> set session_names"
  "NAME_WINDOW_FOCUS \<in> set session_names"
  by (simp_all add: session_names_def)

lemmas enabled_defs = can_sub_clipboard_service_def clipboard_enabled_def peer_keyboard_enabled_def
  audio_enabled_def

lemma emit_fields [simp]:
  "conn_id (emit x c) = conn_id c" "authorized (emit x c) = authorized c"
  "authed_conn_id (emit x c) = authed_conn_id c" "keyboard (emit x c) = keyboard c"
  "clipboard (emit x c) = clipboard c" "audio (emit x c) = audio c"
  "disable_keyboard (emit x c) = disable_keyboard c" "disable_clipboard (emit x c) = disable_clipboard c"
  "disable_audio (emit x c) = disable_audio c" "show_remote_cursor (emit x c) = show_remote_cursor c"
  "follow_remote_window (emit x c) = follow_remote_window c" "block_input (emit x c) = block_input c"
  "voice_calling (emit x c) = voice_calling c" "voice_call_request (emit x c) = voice_call_request c"
  "lr (emit x c) = lr c"
  by (simp_all add: emit_def)

text \<open>Changes that touch none of the flags that matter.\<close>

lemma subs_match_neutral:
  assumes "subs_match st" and "conn_id (f (fst st)) = conn_id (fst st)"
    and "authorized (f (fst st)) = authorized (fst st)" "authed_conn_id (f (fst st)) = authed_conn_id (fst st)"
    and "keyboard (f (fst st)) = keyboard (fst st)" "clipboard (f (fst st)) = clipboard (fst st)"
    and "audio (f (fst st)) = audio (fst st)" "disable_keyboard (f (fst st)) = disable_keyboard (fst st)"
    and "disable_clipboard (f (fst st)) = disable_clipboard (fst st)"
    and "disable_audio (f (fst st)) = disable_audio (fst st)"
    and "show_remote_cursor (f (fst st)) = show_remote_cursor (fst st)"
    and "follow_remote_window (f (fst st)) = follow_remote_window (fst st)"
  shows "subs_match (upd f st)"
  using assms by (simp add: subs_match_def has_services_upd subbed_upd enabled_defs)

lemma subs_match_emit [intro]: "subs_match st \<Longrightarrow> subs_match (upd (emit x) st)"
  by (rule subs_match_neutral) simp_all

lemma subs_match_cursor [intro]: "subs_match st \<Longrightarrow> subs_match (sub NAME_CURSOR w st)"
  by (simp add: subs_match_def subbed_sub)

lemma subs_match_clipboard:
  assumes "subs_match st" and "conn_id (f (fst st)) = conn_id (fst st)"
    and "authorized (f (fst st)) = authorized (fst st)" "authed_conn_id (f (fst st)) = authed_conn_id (fst st)"
    and "audio (f (fst st)) = audio (fst st)" "disable_audio (f (fst st)) = disable_audio (fst st)"
    and "show_remote_cursor (f (fst st)) = show_remote_cursor (fst st)"
    and "follow_remote_window (f (fst st)) = follow_remote_window (fst st)"
  shows "subs_match (sub_clipboard (upd f st))"
  using assms by (simp add: subs_match_def has_services_upd subbed_upd subbed_sub audio_enabled_def)

lemma subs_match_audio:
  assumes "subs_match st" and "conn_id (f (fst st)) = conn_id (fst st)"
    and "authorized (f (fst st)) = authorized (fst st)" "authed_conn_id (f (fst st)) = authed_conn_id (fst st)"
    and "keyboard (f (fst st)) = keyboard (fst st)" "clipboard (f (fst st)) = clipboard (fst st)"
    and "disable_keyboard (f (fst st)) = disable_keyboard (fst st)"
    and "disable_clipboard (f (fst st)) = disable_clipboard (fst st)"
    and "show_remote_cursor (f (fst st)) = show_remote_cursor (fst st)"
    and "follow_remote_window (f (fst st)) = follow_remote_window (fst st)"
  shows "subs_match (sub_audio (upd f st))"
  using assms
  by (simp add: subs_match_def has_services_upd subbed_upd subbed_sub sub_audio_def
      is_authed_view_camera_conn_def Let_def can_sub_clipboard_service_def clipboard_enabled_def
      peer_keyboard_enabled_def)

lemma subs_match_switch: "subs_match st \<Longrightarrow> subs_match (switch_permission name b st)"
proof -
  assume m: "subs_match st"
  then have a: "authorized (fst st)" by (simp add: subs_match_def)
  have k: "subs_match (sub NAME_CURSOR w (sub_clipboard
      (upd (\<lambda>c. emit (PermissionInfo Keyboard b) (c\<lparr>keyboard := b\<rparr>)) st)))" for w
    by (intro subs_match_cursor subs_match_clipboard) (use m in simp_all)
  have c: "subs_match (sub_clipboard (upd (\<lambda>c. emit (PermissionInfo Clipboard b) (c\<lparr>clipboard := b\<rparr>)) st))"
    by (intro subs_match_clipboard) (use m in simp_all)
  have s: "subs_match (sub_audio (upd (\<lambda>c. emit (PermissionInfo Audio b) (c\<lparr>audio := b\<rparr>)) st))"
    by (intro subs_match_audio) (use m in simp_all)
  have n: "subs_match (upd (\<lambda>c. emit (PermissionInfo File b) (c\<lparr>file_perm := b\<rparr>)) st)"
    "subs_match (upd (\<lambda>c. emit (PermissionInfo Restart b) (c\<lparr>restart := b\<rparr>)) st)"
    "subs_match (upd (\<lambda>c. emit (PermissionInfo Recording b) (c\<lparr>recording := b\<rparr>)) st)"
    "subs_match (upd (\<lambda>c. emit (PermissionInfo BlockInput b) (c\<lparr>block_input := b\<rparr>)) st)"
    by (intro subs_match_neutral; use m in simp)+
  show ?thesis
    using k c s n m a unfolding switch_permission_def Let_def by simp
qed

lemma subs_match_voice: "subs_match st \<Longrightarrow> subs_match (handle_voice_call b st)"
  "subs_match st \<Longrightarrow> subs_match (close_voice_call st)"
proof -
  assume m: "subs_match st"
  then have r: "authed_conn_id (fst st) = Some RemoteConn" by (simp add: subs_match_def)
  show "subs_match (handle_voice_call b st)"
    by (auto simp: handle_voice_call_def Let_def is_authed_view_camera_conn_def r m
        intro!: subs_match_neutral subs_match_emit split: option.split)
  show "subs_match (close_voice_call st)"
    by (auto simp: close_voice_call_def Let_def is_authed_view_camera_conn_def r m
        intro!: subs_match_neutral)
qed

lemma subs_match_set_by:
  "subs_match st \<Longrightarrow> (\<And>b. subs_match (f b st)) \<Longrightarrow> subs_match (set_by q f st)"
  by (simp add: set_by_def)

lemma subs_match_cursor_option: "subs_match st \<Longrightarrow> subs_match (update_cursor b st)"
  by (simp add: subs_match_def has_services_upd subbed_upd subbed_sub Let_def enabled_defs update_cursor_def)

lemma subs_match_focus: "subs_match st \<Longrightarrow> subs_match (update_follow_window b st)"
  by (simp add: subs_match_def has_services_upd subbed_upd subbed_sub Let_def enabled_defs
      update_follow_window_def)

lemma subs_match_audio_option: "subs_match st \<Longrightarrow> subs_match (update_audio b st)"
  unfolding update_audio_def by (intro subs_match_audio) simp_all

lemma subs_match_clipboard_options:
  "subs_match st \<Longrightarrow> subs_match (update_clipboard b st)"
  "subs_match st \<Longrightarrow> subs_match (update_keyboard b st)"
  unfolding update_clipboard_def update_keyboard_def
  by (intro subs_match_cursor subs_match_clipboard; simp)+

lemma subs_match_file: "subs_match st \<Longrightarrow> subs_match (update_file_transfer b st)"
  unfolding update_file_transfer_def Let_def by (intro subs_match_emit subs_match_neutral) simp_all

lemma subs_match_misc:
  "subs_match st \<Longrightarrow> subs_match (update_image_quality m st)"
  "subs_match st \<Longrightarrow> subs_match (update_fps m st)"
  "subs_match st \<Longrightarrow> subs_match (update_codec m st)"
  "subs_match st \<Longrightarrow> subs_match (update_privacy m st)"
  "subs_match st \<Longrightarrow> subs_match (update_block_input m st)"
  by (simp_all add: update_image_quality_def update_privacy_def update_block_input_def update_fps_def
      update_codec_def Let_def subs_match_emit)

lemma subs_match_my_cursor: "subs_match st \<Longrightarrow> subs_match (update_show_my_cursor w b st)"
proof -
  assume "subs_match st"
  then have "subs_match (upd (\<lambda>c. c\<lparr>show_my_cursor := b\<rparr>) st)" by (intro subs_match_neutral) simp_all
  then show ?thesis by (cases b) (simp_all add: update_show_my_cursor_def Let_def subs_match_emit)
qed

lemma fold_preserves:
  "(\<And>f s. f \<in> set fs \<Longrightarrow> P s \<Longrightarrow> P (f s)) \<Longrightarrow> P s \<Longrightarrow> P (fold (\<lambda>f. f) fs s)"
  by (induction fs arbitrary: s) auto

lemma subs_match_neutral_set:
  "subs_match st \<Longrightarrow> subs_match (set_by q (\<lambda>b. upd (\<lambda>c. c\<lparr>lock_after_session_end := b\<rparr>)) st)"
  "subs_match st \<Longrightarrow> subs_match (set_by q (\<lambda>b. upd (\<lambda>c. c\<lparr>follow_remote_cursor := b\<rparr>)) st)"
  "subs_match st \<Longrightarrow> subs_match (set_by q (\<lambda>b. upd (\<lambda>c. c\<lparr>terminal_persistent := b\<rparr>)) st)"
  by (intro subs_match_set_by subs_match_neutral; simp)+

lemmas subs_match_steps = subs_match_misc subs_match_cursor_option subs_match_focus
  subs_match_audio_option subs_match_clipboard_options subs_match_file subs_match_my_cursor
  subs_match_neutral_set subs_match_set_by

lemma subs_match_options: "subs_match st \<Longrightarrow> subs_match (update_options win10 m st)"
  unfolding update_options_def
  by (rule fold_preserves) (auto simp: subs_match_steps)

lemma monitor_services:
  assumes "has_services st" and "is_remote (fst st)" and "\<not> services_subed (fst st)"
    and "\<forall>n \<in> set session_names. \<not> subbed st n"
  shows "has_services (try_sub_monitor_services p st)"
    and "n \<in> set session_names \<Longrightarrow> subbed (try_sub_monitor_services p st) n \<longleftrightarrow>
      n \<notin> set (noperms (h_cfg (snd st)) (fst st))"
    and "fst (try_sub_monitor_services p st) = (fst st)\<lparr>services_subed := True\<rparr>"
    and "h_cfg (snd (try_sub_monitor_services p st)) = h_cfg (snd st)"
proof -
  obtain c h where st: "st = (c, h)" by (cases st)
  let ?s = "try_add_primay_video_service p (h_server h)"
  have inv: "server_inv (h_server h)" "server_inv ?s"
    using assms(1) by (simp_all add: has_services_def st server_inv_video)
  have same: "services ?s n = services (h_server h) n" "\<not> is_video_service_name n"
    if "n \<in> set session_names" for n
    using that by (auto simp: try_add_primay_video_service_def Let_def add_service_def service_new_def
        session_names_def get_service_name_def is_video_service_name_def)
  have eq: "try_sub_monitor_services p (c, h) = (c\<lparr>services_subed := True\<rparr>,
      h\<lparr>h_server := add_connection p (conn_id c) (noperms (h_cfg h) c) ?s\<rparr>)"
    using assms(2,3) st by (simp add: try_sub_monitor_services_def)
  show "fst (try_sub_monitor_services p st) = (fst st)\<lparr>services_subed := True\<rparr>"
    "h_cfg (snd (try_sub_monitor_services p st)) = h_cfg (snd st)"
    by (simp_all add: eq st)
  show "has_services (try_sub_monitor_services p st)"
    using assms(1) same server_inv_add_connection [OF inv(2)]
    by (simp add: has_services_def eq st)
  show "subbed (try_sub_monitor_services p st) n \<longleftrightarrow> n \<notin> set (noperms (h_cfg (snd st)) (fst st))"
    if n: "n \<in> set session_names"
  proof -
    have "subscribed ?s n (conn_id c) = subscribed (h_server h) n (conn_id c)" "services ?s n \<noteq> None"
      using assms(1) same(1) [OF n] n by (simp_all add: subscribed_def has_services_def st)
    then show ?thesis
      using assms(4) n same(2) [OF n] subscribed_add_connection [OF inv(2), of p "conn_id c" "noperms (h_cfg h) c" n "conn_id c"]
      by (simp add: subbed_def eq st)
  qed
qed

lemma noperms_mem:
  "CLIPBOARD_NAME \<in> set (noperms g c) \<longleftrightarrow> \<not> can_sub_clipboard_service g c"
  "AUDIO_NAME \<in> set (noperms g c) \<longleftrightarrow> \<not> audio_enabled c"
  "NAME_POS \<in> set (noperms g c) \<longleftrightarrow> \<not> show_remote_cursor c"
  "NAME_WINDOW_FOCUS \<in> set (noperms g c) \<longleftrightarrow> \<not> follow_remote_window c"
  by (simp_all add: noperms_def)

datatype session_event = Switched string bool | PeerOptions bool option_message | VoiceAnswer bool | VoiceClosed

fun session_step :: "session_event \<Rightarrow> state \<Rightarrow> state" where
  "session_step (Switched name b) st = switch_permission name b st"
| "session_step (PeerOptions w m) st = update_options w m st"
| "session_step (VoiceAnswer b) st = handle_voice_call b st"
| "session_step VoiceClosed st = close_voice_call st"

lemma subs_match_session: "subs_match st \<Longrightarrow> subs_match (fold session_step es st)"
proof (induction es arbitrary: st)
  case (Cons e es)
  then show ?case
    by (cases e) (simp_all add: subs_match_switch subs_match_options subs_match_voice)
qed simp

text \<open>
  C2. Throughout a remote-control session the host sends clipboard, audio, pointer positions and
  focus changes to the peer exactly as long as its flags allow them, whatever the local user
  switches, the peer asks for, or happens to voice calls, in any order.
\<close>

theorem subscriptions_follow_flags:
  fixes st :: state and es :: "session_event list" and p :: nat
  assumes "has_services st" and "is_remote (fst st)" and "\<not> services_subed (fst st)"
    and "\<forall>n \<in> set session_names. \<not> subbed st n"
    and "authorized (fst st)" and "authed_conn_id (fst st) = Some RemoteConn"
  defines "r \<equiv> fold session_step es (try_sub_monitor_services p st)"
  shows "subbed r CLIPBOARD_NAME = can_sub_clipboard_service (h_cfg (snd r)) (fst r) \<and>
    subbed r AUDIO_NAME = audio_enabled (fst r) \<and>
    subbed r NAME_POS = show_remote_cursor (fst r) \<and>
    subbed r NAME_WINDOW_FOCUS = follow_remote_window (fst r)"
proof -
  note m = monitor_services [OF assms(1-4)]
  have "subs_match (try_sub_monitor_services p st)"
    using assms(5,6) m noperms_mem by (auto simp: subs_match_def enabled_defs)
  then show ?thesis using subs_match_session by (simp add: r_def subs_match_def)
qed

definition demo_host :: host where
  "demo_host = \<lparr>h_cfg = apply_profile (fresh_cfg demo_env), temporary_password = ''tmp123'',
     password_failures = Map.empty, tfa_failures = Map.empty, sessions = Map.empty,
     authed_conns = [], switch_sides_uuid = Map.empty,
     h_server = fold (\<lambda>n. add_service (service_new n False)) session_names
       \<lparr>connections = {}, services = Map.empty, id_count = 1000\<rparr>\<rparr>"

definition demo_conn :: conn where
  "demo_conn = connection_new (h_cfg demo_host) 7 (Ip4 (10, 0, 0, 8)) (''salt'', ''challenge'') None None"

lemma demo_permission: "permission (h_cfg demo_host) (''enable-'' @ k) None"
  by (simp add: permission_def is_permission_enabled_locally_def option2bool_def demo_host_def
      get_option_def get_or_def apply_profile_def fresh_cfg_def fresh_config2_def Let_def)

lemma demo_conn_flags:
  "keyboard demo_conn" "clipboard demo_conn" "audio demo_conn" "\<not> authorized demo_conn"
  "conn_id demo_conn = 7" "is_remote demo_conn" "\<not> services_subed demo_conn"
  "\<not> disable_keyboard demo_conn" "\<not> disable_clipboard demo_conn" "\<not> disable_audio demo_conn"
  using demo_permission [of "''keyboard''"] demo_permission [of "''clipboard''"]
    demo_permission [of "''audio''"]
  by (simp_all add: demo_conn_def connection_new_def is_remote_def)

lemma demo_services:
  "has_services (c, demo_host)" "\<forall>n \<in> set session_names. \<not> subbed (c, demo_host) n"
proof -
  have "server_inv (h_server demo_host)"
    unfolding demo_host_def session_names_def
    by (simp add: server_inv_add server_inv_empty)
  moreover have "services (h_server demo_host) n = Some (service_new n False)" if "n \<in> set session_names" for n
    using that by (auto simp: demo_host_def session_names_def add_service_def service_new_def)
  ultimately show "has_services (c, demo_host)" "\<forall>n \<in> set session_names. \<not> subbed (c, demo_host) n"
    by (simp_all add: has_services_def subbed_def subscribed_def is_subed_def service_new_def)
qed

theorem subscriptions_follow_flags_witness:
  "\<not> subbed (fold session_step [Switched ''clipboard'' False, Switched ''keyboard'' True]
      (try_sub_monitor_services 0 (demo_conn\<lparr>authorized := True, authed_conn_id := Some RemoteConn\<rparr>, demo_host)))
     CLIPBOARD_NAME"
proof -
  let ?st = "(demo_conn\<lparr>authorized := True, authed_conn_id := Some RemoteConn\<rparr>, demo_host)"
  let ?r = "fold session_step [Switched ''clipboard'' False, Switched ''keyboard'' True]
      (try_sub_monitor_services 0 ?st)"
  have "subbed ?r CLIPBOARD_NAME = can_sub_clipboard_service (h_cfg (snd ?r)) (fst ?r)"
    by (rule subscriptions_follow_flags [THEN conjunct1])
      (use demo_services demo_conn_flags in \<open>simp_all add: is_remote_def\<close>)
  moreover have "\<not> clipboard (fst ?r)"
    by (simp add: switch_permission_def Let_def)
  ultimately show ?thesis by (simp add: can_sub_clipboard_service_def clipboard_enabled_def)
qed

text \<open>
  The clipboard and the cursor are handed out on the switch alone: a local user who turns the
  clipboard of a waiting request off and on again subscribes a peer that has not logged in.
\<close>

theorem clipboard_before_login:
  assumes "has_services (c, h)" and "\<not> authorized c" and "peer_keyboard_enabled c"
    and "\<not> disable_clipboard c" and "get_builtin_option (h_cfg h) ''one-way-clipboard-redirection'' \<noteq> ''Y''"
  defines "r \<equiv> switch_permission ''clipboard'' True (switch_permission ''clipboard'' False (c, h))"
  shows "\<not> authorized (fst r) \<and> subbed r CLIPBOARD_NAME"
  using assms
  by (simp add: r_def switch_permission_def subbed_sub subbed_upd has_services_upd
      can_sub_clipboard_service_def clipboard_enabled_def peer_keyboard_enabled_def)

theorem clipboard_before_login_witness:
  "subbed (switch_permission ''clipboard'' True (switch_permission ''clipboard'' False (demo_conn, demo_host)))
     CLIPBOARD_NAME"
  by (rule clipboard_before_login [THEN conjunct2])
    (use demo_services demo_conn_flags in \<open>simp_all add: peer_keyboard_enabled_def get_builtin_option_def
      demo_host_def apply_profile_def fresh_cfg_def Let_def\<close>)

end
