(* ===== verification/Login.thy ===== *)
theory Login
  imports Connection
begin

text \<open>
  Logging in (\<open>src/server/connection.rs\<close>): the remembered sessions and the list of authorised
  connections (the module \<open>raii\<close>), password checks, trusted devices, the login part of
  \<open>on_message\<close> and \<open>send_logon_response_and_keep_alive\<close>. A handler returns whether the
  connection is kept. \<open>login_env\<close> holds what the handlers take from outside: the hash, the
  one-time-code check, the time, the regular expressions, the operating system and the network.
\<close>

record login_env =
  cfg_e :: cfg_env
  sha256 :: "string \<Rightarrow> string"
  check_totp :: "string \<Rightarrow> string \<Rightarrow> bool option"
  is_ip_str :: "string \<Rightarrow> bool"
  is_domain_port_str :: "string \<Rightarrow> bool"
  now_ms :: int
  hostname :: "string option"
  mac :: "u8 list option"
  in_privacy_mode :: bool
  is_logon :: bool
  is_prelogin :: bool
  is_installed :: bool
  is_win10 :: bool
  main_window_open :: bool
  cidr_contains :: "string \<Rightarrow> ip_addr \<Rightarrow> bool"
  show_ip :: "ip_addr \<Rightarrow> string"
  logon_user_admin :: "string \<Rightarrow> string \<Rightarrow> bool option option"
  session_user_token :: "bool option"
  service_user :: "string \<Rightarrow> bool option"
  can_connect :: "string \<Rightarrow> bool"
  wait_session_id :: "conn \<Rightarrow> host \<Rightarrow> bool"
  displays_error :: "string option"
  camera_exists :: bool
  is_dir :: "string \<Rightarrow> bool"

abbreviation "SESSION_TIMEOUT \<equiv> (30000 :: int)"
abbreviation "REQUIRE_2FA \<equiv> ''2FA Required''"

section \<open>Remembered sessions\<close>

definition update_or_insert_session ::
  "int \<Rightarrow> session_key \<Rightarrow> string option \<Rightarrow> bool option \<Rightarrow> host \<Rightarrow> host" where
  "update_or_insert_session now k password t h =
     h\<lparr>sessions := (sessions h)(k \<mapsto>
       (case sessions h k of
          Some s \<Rightarrow>
            (let s = (case password of Some p \<Rightarrow> s\<lparr>random_password := p\<rparr> | None \<Rightarrow> s)
             in case t of Some b \<Rightarrow> s\<lparr>tfa := b\<rparr> | None \<Rightarrow> s)
        | None \<Rightarrow> \<lparr>last_recv_time = now,
                   random_password = (case password of Some p \<Rightarrow> p | None \<Rightarrow> []),
                   tfa = (case t of Some b \<Rightarrow> b | None \<Rightarrow> False)\<rparr>))\<rparr>"

definition set_session_2fa :: "int \<Rightarrow> session_key \<Rightarrow> host \<Rightarrow> host" where
  "set_session_2fa now k h =
     h\<lparr>sessions := (sessions h)(k \<mapsto>
       (case sessions h k of
          Some s \<Rightarrow> s\<lparr>tfa := True\<rparr>
        | None \<Rightarrow> \<lparr>last_recv_time = now, random_password = [], tfa = True\<rparr>))\<rparr>"

definition check_remove_session :: "int \<Rightarrow> session_key \<Rightarrow> host \<Rightarrow> host" where
  "check_remove_session i k h =
     (if sessions h k \<noteq> None then
        (let remote = (\<exists>a \<in> set (authed_conns h). ac_id a = i \<and> ac_type a = RemoteConn);
             another_remote = (\<exists>a \<in> set (authed_conns h).
               ac_id a \<noteq> i \<and> ac_session_key a = k \<and> ac_type a = RemoteConn)
         in if remote \<or> \<not> another_remote then h\<lparr>sessions := (sessions h)(k := None)\<rparr> else h)
      else h)"

text \<open>Data from the peer renews the session it was authorised with.\<close>

definition touch_session :: "login_env \<Rightarrow> state \<Rightarrow> state" where
  "touch_session e st =
     (case st of (c, h) \<Rightarrow>
        if session_shared c then
          (case sessions h (session_key c) of
             Some s \<Rightarrow> (c, h\<lparr>sessions := (sessions h)(session_key c \<mapsto> s\<lparr>last_recv_time := now_ms e\<rparr>)\<rparr>)
           | None \<Rightarrow> (c, h))
        else (c, h))"

section \<open>Authorised connections\<close>

definition is_support_remote_print :: "string \<Rightarrow> bool" where
  "is_support_remote_print ver =
     (sint (get_version_number ver) \<ge> sint (get_version_number ''1.3.9''))"

definition authed_conn_new :: "conn \<Rightarrow> auth_conn_type \<Rightarrow> host \<Rightarrow> host" where
  "authed_conn_new c t h =
     h\<lparr>authed_conns := authed_conns h @
        [\<lparr>ac_id = conn_id c, ac_type = t, ac_session_key = session_key c,
          ac_printer = (t = RemoteConn \<and> is_support_remote_print (lr_version (lr c))
            \<and> lr_my_platform (lr c) = ''Windows'')\<rparr>]\<rparr>"

definition non_port_forward_conn_count :: "host \<Rightarrow> nat" where
  "non_port_forward_conn_count h = length (filter (\<lambda>a. ac_type a \<noteq> PortForwardConn) (authed_conns h))"

definition authed_conn_drop :: "int \<Rightarrow> host \<Rightarrow> host" where
  "authed_conn_drop i h = h\<lparr>authed_conns := filter (\<lambda>a. ac_id a \<noteq> i) (authed_conns h)\<rparr>"

text \<open>The numbers \<open>check_wake_lock\<close> reports: all authorised and the remote ones.\<close>

definition wake_lock_counts :: "host \<Rightarrow> nat \<times> nat" where
  "wake_lock_counts h =
     (length (authed_conns h), length (filter (\<lambda>a. ac_type a = RemoteConn) (authed_conns h)))"

section \<open>Passwords\<close>

definition enable_trusted_devices :: "cfg \<Rightarrow> bool" where
  "enable_trusted_devices g =
     option2bool ''enable-trusted-devices'' (get_option g ''enable-trusted-devices'')"

definition send_login_error :: "string \<Rightarrow> state \<Rightarrow> state" where
  "send_login_error err st =
     upd (emit (LoginError err (err = REQUIRE_2FA \<and> enable_trusted_devices (h_cfg (snd st))))) st"

definition validate_one_password :: "login_env \<Rightarrow> conn \<Rightarrow> string \<Rightarrow> bool" where
  "validate_one_password e c password =
     (if length password = 0 then False
      else sha256 e (sha256 e (password @ hash_salt c) @ hash_challenge c) = lr_password (lr c))"

definition validate_password :: "login_env \<Rightarrow> state \<Rightarrow> bool \<times> state" where
  "validate_password e st =
     (case st of (c, h) \<Rightarrow>
        if temporary_enabled (h_cfg h) \<and> validate_one_password e c (temporary_password h) then
          (True, c, update_or_insert_session (now_ms e) (session_key c)
             (Some (temporary_password h)) (Some False) h)
        else if permanent_enabled (h_cfg h)
             \<and> validate_one_password e c (get_permanent_password (h_cfg h)) then (True, c, h)
        else (False, c, h))"

definition retain_sessions :: "int \<Rightarrow> host \<Rightarrow> host" where
  "retain_sessions now h =
     h\<lparr>sessions := (\<lambda>k. case sessions h k of
        Some s \<Rightarrow> if now - last_recv_time s < SESSION_TIMEOUT then Some s else None
      | None \<Rightarrow> None)\<rparr>"

definition is_recent_session :: "login_env \<Rightarrow> bool \<Rightarrow> state \<Rightarrow> bool \<times> state" where
  "is_recent_session e t st =
     (case st of (c, h) \<Rightarrow>
        let h = retain_sessions (now_ms e) h in
        case sessions h (session_key c) of
          Some s \<Rightarrow>
            ((lr_password (lr c) \<noteq> [] \<and>
              (t \<and> tfa s \<or> \<not> t \<and> validate_one_password e c (random_password s))), c, h)
        | None \<Rightarrow> (False, c, h))"

definition handle_login_request_without_validation :: "login_env \<Rightarrow> login_request \<Rightarrow> state \<Rightarrow> state" where
  "handle_login_request_without_validation e l st =
     (let (c, h) = st;
          c = c\<lparr>lr := l\<rparr>;
          c = (case lr_option l of Some m \<Rightarrow> c\<lparr>options_in_login := Some m\<rparr> | None \<Rightarrow> c);
          (c, h) =
            (if require_2fa c \<noteq> None \<and> lr_hwid l \<noteq> [] \<and> enable_trusted_devices (h_cfg h) then
               (case get_trusted_devices (cfg_e e) (h_cfg h) of
                  (devices, g) \<Rightarrow>
                    (case find (\<lambda>d. td_hwid d = lr_hwid l) devices of
                       Some d \<Rightarrow>
                         if \<not> outdate (get_time (cfg_e e)) d \<and> td_id d = lr_my_id l
                             \<and> td_name d = lr_my_name l \<and> td_platform d = lr_my_platform l
                         then (c\<lparr>require_2fa := None\<rparr>, h\<lparr>h_cfg := g\<rparr>)
                         else (c, h\<lparr>h_cfg := g\<rparr>)
                     | None \<Rightarrow> (c, h\<lparr>h_cfg := g\<rparr>)))
             else (c, h))
      in (c\<lparr>video_ack_required := lr_video_ack_required l\<rparr>, h))"

section \<open>Port forwarding\<close>

definition normalize_port_forward_target :: "string \<Rightarrow> int \<Rightarrow> string \<times> bool" where
  "normalize_port_forward_target host port =
     (let is_rdp = (host = ''RDP'' \<and> port = 0);
          (host, port) = (if is_rdp then (''localhost'', 3389) else (host, port));
          host = (if host = [] then ''localhost'' else host)
      in (host @ '':'' @ show_int port, is_rdp))"

definition connect_port_forward_if_needed :: "login_env \<Rightarrow> state \<Rightarrow> bool \<times> state" where
  "connect_port_forward_if_needed e st =
     (if port_forward_socket (fst st) then (True, st)
      else case lr_union (lr (fst st)) of
        LoginPortForward host port \<Rightarrow>
          (let (addr, is_rdp) = normalize_port_forward_target host port;
               st = upd (\<lambda>c. c\<lparr>port_forward_address := addr\<rparr>) st
           in if can_connect e addr then (True, upd (\<lambda>c. c\<lparr>port_forward_socket := True\<rparr>) st)
              else (False, send_login_error (''Failed to access remote '' @
                 (if is_rdp then ''RDP'' else addr) @ ''. Please make sure it is reachable/open.'') st))
      | _ \<Rightarrow> (True, st))"

section \<open>The answer to a login\<close>

definition try_start_cm :: "bool \<Rightarrow> state \<Rightarrow> state" where
  "try_start_cm auth st = upd (emit (CmLogin auth)) st"

definition auth_type :: "conn \<Rightarrow> auth_conn_type" where
  "auth_type c =
     (if file_transfer c \<noteq> None then FileTransferConn
      else if port_forward_socket c then PortForwardConn
      else if view_camera c then ViewCameraConn
      else if terminal c then TerminalConn
      else RemoteConn)"

text \<open>What happens once the connection is authorised.\<close>

definition authorize :: "state \<Rightarrow> state" where
  "authorize st =
     (let st = upd (\<lambda>c. c\<lparr>authorized := True\<rparr>) st;
          t = auth_type (fst st);
          st = (fst st, authed_conn_new (fst st) t (snd st));
          st = upd (\<lambda>c. c\<lparr>authed_conn_id := Some t\<rparr>) st;
          st = (if t = RemoteConn \<or> t = ViewCameraConn then upd (emit QosOpen) st else st)
      in upd (\<lambda>c. c\<lparr>session_shared := (sessions (snd st) (session_key c) \<noteq> None)\<rparr>) st)"

definition update_codec_on_login :: "state \<Rightarrow> state" where
  "update_codec_on_login st =
     upd (emit (case lr_option (lr (fst st)) of
        Some m \<Rightarrow> if o_supported_decoding m then CodecUpdate else CodecVp9Only
      | None \<Rightarrow> CodecVp9Only)) st"

definition start_services :: "login_env \<Rightarrow> bool \<Rightarrow> bool \<Rightarrow> state \<Rightarrow> state" where
  "start_services e wait_id sub_service st =
     (case file_transfer (fst st) of
        Some (dir, show_hidden) \<Rightarrow>
          (let dir = (if dir \<noteq> [] \<and> is_dir e dir then dir else [])
           in if \<not> wait_id then upd (emit (ReadDir dir show_hidden)) st
              else upd (\<lambda>c. c\<lparr>delayed_read_dir := Some (dir, show_hidden)\<rparr>) st)
      | None \<Rightarrow>
          if terminal (fst st) then upd (\<lambda>c. emit TerminalStart (c\<lparr>keyboard := False\<rparr>)) st
          else if view_camera (fst st) then
            (let st = (if \<not> wait_id then try_sub_camera_displays (camera_exists e) 0 st else st)
             in upd (\<lambda>c. emit (PermissionInfo Keyboard False) (c\<lparr>keyboard := False\<rparr>)) st)
          else if sub_service \<and> \<not> wait_id then try_sub_monitor_services 0 st
          else st)"

definition answer_login :: "login_env \<Rightarrow> state \<Rightarrow> state" where
  "answer_login e st =
     (if port_forward_socket (fst st) then upd (emit (LoginResponse None)) st
      else
        let wait_id = (if terminal (fst st) then False else wait_session_id e (fst st) (snd st));
            remote = (file_transfer (fst st) = None \<and> \<not> terminal (fst st) \<and> \<not> view_camera (fst st));
            sub_service = (remote \<and> displays_error e = None);
            st = (if remote \<or> (view_camera (fst st) \<and> file_transfer (fst st) = None \<and> \<not> terminal (fst st))
                  then update_codec_on_login st else st);
            st = upd (emit (LoginResponse (if remote then displays_error e else None))) st;
            st = (case options_in_login (fst st) of
                    Some m \<Rightarrow> update_options (is_win10 e) m (upd (\<lambda>c. c\<lparr>options_in_login := None\<rparr>) st)
                  | None \<Rightarrow> st)
        in start_services e wait_id sub_service st)"

definition send_logon_response_and_keep_alive :: "login_env \<Rightarrow> state \<Rightarrow> bool \<times> state" where
  "send_logon_response_and_keep_alive e st =
     (if authorized (fst st) then (True, st)
      else
        let (ask_2fa, st) =
          (if require_2fa (fst st) \<noteq> None
           then (case is_recent_session e True st of (r, st) \<Rightarrow> (\<not> r \<and> \<not> from_switch (fst st), st))
           else (False, st))
        in if ask_2fa then (True, send_login_error REQUIRE_2FA st)
        else
          let (connected, st) = connect_port_forward_if_needed e st in
          if \<not> connected then (False, st) else (True, answer_login e (authorize st)))"

section \<open>Opening the connection\<close>

definition check_whitelist :: "login_env \<Rightarrow> state \<Rightarrow> bool \<times> state" where
  "check_whitelist e st =
     (let whitelist = filter (\<lambda>x. x \<noteq> []) (split_on (\<lambda>x. x = CHR '','') (get_option (h_cfg (snd st)) ''whitelist''))
      in if whitelist \<noteq> [] \<and> ''0.0.0.0'' \<notin> set whitelist
            \<and> filter (\<lambda>x. cidr_contains e x (conn_ip (fst st))) whitelist = []
         then (False, upd (emit AlarmWhitelist) (send_login_error ''Your ip is blocked by the peer'' st))
         else (True, st))"

definition on_open :: "login_env \<Rightarrow> state \<Rightarrow> bool \<times> state" where
  "on_open e st =
     (case check_whitelist e st of
        (False, st) \<Rightarrow> (False, st)
      | (True, st) \<Rightarrow>
          if get_option (h_cfg (snd st)) ''allow-only-conn-window-open'' = ''Y'' \<and> \<not> main_window_open e
          then (False, send_login_error ''The main window is not open'' st)
          else (True, upd (emit SendHash) st))"

section \<open>Login requests\<close>

definition check_privacy_mode_on :: "login_env \<Rightarrow> state \<Rightarrow> bool \<times> state" where
  "check_privacy_mode_on e st =
     (if in_privacy_mode e then (False, send_login_error ''Someone turns on privacy mode, exit'' st)
      else (True, st))"

definition handle_administrator_check :: "login_env \<Rightarrow> string \<Rightarrow> string \<Rightarrow> conn \<Rightarrow> string option \<times> conn" where
  "handle_administrator_check e user pw c =
     (case logon_user_admin e user pw of
        Some (Some True) \<Rightarrow> (None, c\<lparr>terminal_has_token := Some False\<rparr>)
      | Some (Some False) \<Rightarrow> (Some ''The user is not an administrator.'', c)
      | Some None \<Rightarrow> (Some ''Failed to check if the user is an administrator.'', c)
      | None \<Rightarrow> (Some ''Incorrect username or password.'', c))"

definition handle_installed_user :: "login_env \<Rightarrow> conn \<Rightarrow> string option \<times> conn" where
  "handle_installed_user e c =
     (case session_user_token e of
        None \<Rightarrow> (Some ''Failed to get current session id.'', c)
      | Some True \<Rightarrow> (None, c\<lparr>terminal_has_token := Some True\<rparr>)
      | Some False \<Rightarrow> (Some ''Failed to get user token.'', c))"

definition fill_terminal_user_token :: "login_env \<Rightarrow> string \<Rightarrow> string \<Rightarrow> conn \<Rightarrow> string option \<times> conn" where
  "fill_terminal_user_token e user pw c =
     (if user \<noteq> [] then handle_administrator_check e user pw c
      else if is_prelogin e then
        (Some ''No active console user logged on, please connect and logon first.'',
         c\<lparr>terminal_has_token := None\<rparr>)
      else if is_installed e then handle_installed_user e c
      else (None, c\<lparr>terminal_has_token := Some False\<rparr>))"

text \<open>The kind of session asked for: \<open>Inl\<close> when the request is refused and the connection dropped.\<close>

definition terminal_options :: "string \<Rightarrow> conn \<Rightarrow> conn" where
  "terminal_options service_id c =
     (let c = c\<lparr>terminal := True\<rparr>;
          c = (case options_in_login c of
                 Some m \<Rightarrow> c\<lparr>terminal_persistent := (o_terminal_persistent m = Yes)\<rparr>
               | None \<Rightarrow> c)
      in c\<lparr>terminal_service_id := service_id\<rparr>)"

definition terminal_request :: "login_env \<Rightarrow> login_request \<Rightarrow> string \<Rightarrow> state \<Rightarrow> state + state" where
  "terminal_request e l service_id st =
     (if lr_os_username l \<noteq> [] \<and> \<not> is_installed e
      then Inl (send_login_error ''Supported only in the installed version.'' st)
      else
        (case fill_terminal_user_token e (lr_os_username l) (lr_os_password l)
                (terminal_options service_id (fst st)) of
           (Some msg, c) \<Rightarrow> Inl (send_login_error msg (c, snd st))
         | (None, c) \<Rightarrow>
             (case (service_user e service_id, terminal_has_token c) of
                (Some is_user, Some has_token) \<Rightarrow>
                  if is_user \<noteq> has_token
                  then Inl (send_login_error ''Terminal service user mismatch detected.'' (c, snd st))
                  else Inr (c, snd st)
              | _ \<Rightarrow> Inr (c, snd st))))"

definition select_session :: "login_env \<Rightarrow> login_request \<Rightarrow> state \<Rightarrow> state + state" where
  "select_session e l st =
     (let allowed = (\<lambda>k. permission (h_cfg (snd st)) k (control_permissions (fst st))) in
      case lr_union l of
        LoginFileTransfer dir show_hidden \<Rightarrow>
          if \<not> allowed ''enable-file-transfer'' then Inl (send_login_error ''No permission of file transfer'' st)
          else Inr (upd (\<lambda>c. c\<lparr>file_transfer := Some (dir, show_hidden)\<rparr>) st)
      | LoginViewCamera \<Rightarrow>
          if \<not> allowed ''enable-camera'' then Inl (send_login_error ''No permission of viewing camera'' st)
          else Inr (upd (\<lambda>c. c\<lparr>view_camera := True\<rparr>) st)
      | LoginTerminal service_id \<Rightarrow>
          if \<not> allowed ''enable-terminal'' then Inl (send_login_error ''No permission of terminal'' st)
          else terminal_request e l service_id st
      | LoginPortForward host port \<Rightarrow>
          if \<not> allowed ''enable-tunnel'' then Inl (send_login_error ''No permission of IP tunneling'' st)
          else Inr (upd (\<lambda>c. c\<lparr>port_forward_address := fst (normalize_port_forward_target host port)\<rparr>) st)
      | LoginDefault \<Rightarrow>
          (case check_privacy_mode_on e st of (True, st) \<Rightarrow> Inr st | (False, st) \<Rightarrow> Inl st))"

text \<open>The guard of \<open>LoginGuard\<close> with its messages; the two counters are passwords and one-time codes.\<close>

definition guard_message :: "guard_error \<Rightarrow> string" where
  "guard_message x =
     (case x of
        PrefixBlocked n \<Rightarrow> ''Too many wrong attempts for IPv6 prefix /'' @ dec n
      | TooManyAttempts \<Rightarrow> ''Too many wrong attempts''
      | TryLater \<Rightarrow> ''Please try 1 minute later'')"

definition guard :: "login_env \<Rightarrow> (host \<Rightarrow> failures) \<Rightarrow> state \<Rightarrow> (failure \<times> int) \<times> bool \<times> state" where
  "guard e sel st =
     (case check_failure (sel (snd st)) (conn_ip (fst st)) (get_time (cfg_e e) div 60000) of
        (ft, None) \<Rightarrow> (ft, True, st)
      | (ft, Some x) \<Rightarrow> (ft, False, upd (emit (Alarm x)) (send_login_error (guard_message x) st)))"

definition password_failed :: "failure \<times> int \<Rightarrow> bool \<Rightarrow> state \<Rightarrow> state" where
  "password_failed ft remove st =
     (fst st, (snd st)\<lparr>password_failures := update_failure (password_failures (snd st)) (conn_ip (fst st)) ft remove\<rparr>)"

definition tfa_failed :: "failure \<times> int \<Rightarrow> bool \<Rightarrow> state \<Rightarrow> state" where
  "tfa_failed ft remove st =
     (fst st, (snd st)\<lparr>tfa_failures := update_failure (tfa_failures (snd st)) (conn_ip (fst st)) ft remove\<rparr>)"

definition respond_and_start_cm :: "login_env \<Rightarrow> state \<Rightarrow> bool \<times> state" where
  "respond_and_start_cm e st =
     (case send_logon_response_and_keep_alive e st of
        (False, st) \<Rightarrow> (False, st)
      | (True, st) \<Rightarrow> (True, try_start_cm (authorized (fst st)) st))"

definition needs_click :: "login_env \<Rightarrow> host \<Rightarrow> bool" where
  "needs_click e h =
     (approve_mode (h_cfg h) = Click
        \<and> \<not> (get_builtin_option (h_cfg h) ''allow-logon-screen-password'' = ''Y'' \<and> is_logon e)
      \<or> approve_mode (h_cfg h) = Both \<and> \<not> has_valid_password (temporary_password h) (h_cfg h))"

definition check_password :: "login_env \<Rightarrow> login_request \<Rightarrow> state \<Rightarrow> bool \<times> state" where
  "check_password e l st =
     (case is_recent_session e False st of
        (True, st) \<Rightarrow> respond_and_start_cm e st
      | (False, st) \<Rightarrow>
          if lr_password l = [] then (True, try_start_cm False st)
          else
            case guard e password_failures st of
              (ft, False, st) \<Rightarrow> (True, st)
            | (ft, True, st) \<Rightarrow>
                (case validate_password e st of
                   (False, st) \<Rightarrow>
                     (True, try_start_cm False (send_login_error ''Wrong Password'' (password_failed ft False st)))
                 | (True, st) \<Rightarrow> respond_and_start_cm e (password_failed ft True st)))"

definition check_credentials :: "login_env \<Rightarrow> login_request \<Rightarrow> state \<Rightarrow> bool \<times> state" where
  "check_credentials e l st =
     (let by_id = (\<not> is_ip_str e (lr_username l) \<and> \<not> is_domain_port_str e (lr_username l));
          (my_id, g) = (if by_id then get_id (cfg_e e) (hostname e) (mac e) (h_cfg (snd st))
                        else ([], h_cfg (snd st)));
          st = (fst st, (snd st)\<lparr>h_cfg := g\<rparr>)
      in if by_id \<and> lr_username l \<noteq> my_id then (False, send_login_error ''Offline'' st)
         else if needs_click e (snd st) then
           (let st = try_start_cm False st
            in (True, if sint (get_version_number (lr_version l)) \<ge> sint (get_version_number ''1.2.0'')
                      then send_login_error ''No Password Access'' st else st))
         else check_password e l st)"

definition on_login_request :: "login_env \<Rightarrow> login_request \<Rightarrow> state \<Rightarrow> bool \<times> state" where
  "on_login_request e l st =
     (let st = handle_login_request_without_validation e l st
      in if authorized (fst st) then (True, st)
         else case select_session e l st of
           Inl st \<Rightarrow> (False, st)
         | Inr st \<Rightarrow> check_credentials e l (upd (\<lambda>c. c\<lparr>cm_ipc_started := True\<rparr>) st))"

section \<open>One-time codes and switched sides\<close>

definition on_auth_2fa :: "login_env \<Rightarrow> string \<Rightarrow> string \<Rightarrow> state \<Rightarrow> bool \<times> state" where
  "on_auth_2fa e code hwid st =
     (case guard e tfa_failures st of
        (ft, False, st) \<Rightarrow> (True, st)
      | (ft, True, st) \<Rightarrow>
          (case require_2fa (fst st) of
             None \<Rightarrow> (True, st)
           | Some totp \<Rightarrow>
               (case check_totp e totp code of
                  None \<Rightarrow> (True, st)
                | Some True \<Rightarrow>
                    (let st = upd (\<lambda>c. c\<lparr>require_2fa := None\<rparr>) (tfa_failed ft True st);
                         st = (fst st, set_session_2fa (now_ms e) (session_key (fst st)) (snd st))
                     in case respond_and_start_cm e st of
                          (False, st) \<Rightarrow> (False, st)
                        | (True, st) \<Rightarrow>
                            (True, if hwid \<noteq> [] \<and> enable_trusted_devices (h_cfg (snd st)) then
                               (fst st, (snd st)\<lparr>h_cfg := add_trusted_device (cfg_e e)
                                  \<lparr>td_hwid = hwid, td_time = get_time (cfg_e e), td_id = lr_my_id (lr (fst st)),
                                   td_name = lr_my_name (lr (fst st)), td_platform = lr_my_platform (lr (fst st))\<rparr>
                                  (h_cfg (snd st))\<rparr>)
                             else st))
                | Some False \<Rightarrow> (True, send_login_error ''Wrong 2FA Code'' (tfa_failed ft False st)))))"

abbreviation "SWITCH_SIDES_MS \<equiv> (10000 :: int)"

definition insert_switch_sides_uuid :: "int \<Rightarrow> string \<Rightarrow> string \<Rightarrow> host \<Rightarrow> host" where
  "insert_switch_sides_uuid now i uuid h =
     h\<lparr>switch_sides_uuid := (switch_sides_uuid h)(i \<mapsto> (now, uuid))\<rparr>"

definition take_switch_sides_uuid :: "int \<Rightarrow> string \<Rightarrow> host \<Rightarrow> (int \<times> string) option \<times> host" where
  "take_switch_sides_uuid now i h =
     (let m = (\<lambda>k. case switch_sides_uuid h k of
                 Some v \<Rightarrow> if now - fst v < SWITCH_SIDES_MS then Some v else None
               | None \<Rightarrow> None)
      in (m i, h\<lparr>switch_sides_uuid := m(i := None)\<rparr>))"

definition on_switch_sides :: "login_env \<Rightarrow> login_request option \<Rightarrow> string \<Rightarrow> state \<Rightarrow> bool \<times> state" where
  "on_switch_sides e lro uuid st =
     (case lro of
        None \<Rightarrow> (True, st)
      | Some l \<Rightarrow>
          (let st = handle_login_request_without_validation e l st;
               (uuid_old, h) = take_switch_sides_uuid (now_ms e) (lr_my_id l) (snd st);
               st = (fst st, h)
           in if length uuid = 16 \<and> (\<exists>t. uuid_old = Some (t, uuid)) then
                (case respond_and_start_cm e (upd (\<lambda>c. c\<lparr>from_switch := True\<rparr>) st) of
                   (False, st) \<Rightarrow> (False, st)
                 | (True, st) \<Rightarrow> (True, upd (\<lambda>c. c\<lparr>cm_ipc_started := True\<rparr>) st))
              else (True, st)))"

section \<open>Closing\<close>

definition on_close :: "bool \<Rightarrow> state \<Rightarrow> state" where
  "on_close lock st =
     (if closed (fst st) then st
      else
        let st = upd (\<lambda>c. c\<lparr>closed := True\<rparr>) st;
            st = (if lock \<and> lock_after_session_end (fst st) \<and> keyboard (fst st)
                  then upd (emit LockScreen) st else st);
            st = upd (emit (if chat_unanswered (fst st) \<or> file_transferred (fst st)
                            then CmDisconnected else CmClosed)) st
        in upd (\<lambda>c. c\<lparr>port_forward_socket := False\<rparr>) st)"

section \<open>Messages before the login\<close>

datatype login_event =
    CloseReason
  | LoginRequest login_request
  | Auth2fa string string
  | SwitchSidesResponse "login_request option" string
  | CmAuthorize
  | CmClose
  | CmErr string

definition authorize_by_click :: "login_env \<Rightarrow> state \<Rightarrow> bool \<times> state" where
  "authorize_by_click e st =
     (case send_logon_response_and_keep_alive e (upd (\<lambda>c. c\<lparr>require_2fa := None\<rparr>) st) of
        (False, st) \<Rightarrow> (False, st)
      | (True, st) \<Rightarrow> (\<not> port_forward_socket (fst st), st))"

fun login_step :: "login_env \<Rightarrow> login_event \<Rightarrow> state \<Rightarrow> bool \<times> state" where
  "login_step e CloseReason st =
     (let st = on_close True st
      in (False, fst st, check_remove_session (conn_id (fst st)) (session_key (fst st)) (snd st)))"
| "login_step e (LoginRequest l) st = on_login_request e l st"
| "login_step e (Auth2fa code hwid) st = on_auth_2fa e code hwid st"
| "login_step e (SwitchSidesResponse l uuid) st = on_switch_sides e l uuid st"
| "login_step e CmAuthorize st = authorize_by_click e st"
| "login_step e CmClose st =
     (let st = upd (\<lambda>c. emit CloseByHost (c\<lparr>chat_unanswered := False, file_transferred := False\<rparr>)) st;
          st = (fst st, check_remove_session (conn_id (fst st)) (session_key (fst st)) (snd st))
      in (False, on_close True st))"
| "login_step e (CmErr err) st =
     (if err \<noteq> ''expected'' then (False, on_close False st) else (True, st))"

text \<open>The loop of a connection: it ends with the first handler that does not keep it.\<close>

fun login_run :: "(login_env \<times> login_event) list \<Rightarrow> state \<Rightarrow> bool \<times> state" where
  "login_run [] st = (True, st)"
| "login_run ((e, x) # xs) st =
     (case login_step e x st of
        (True, st) \<Rightarrow> login_run xs st
      | (False, st) \<Rightarrow> (False, st))"

section \<open>What admits a peer\<close>

text \<open>
  The contract of the login: the peer knows a password that is in use, which it proves by hashing
  it with the salt and the challenge of this connection, and passes the second factor if there is
  one; or it shows a one-time code; or it answers a switch of sides; or the local user clicks.
\<close>

definition proves :: "login_env \<Rightarrow> conn \<Rightarrow> login_request \<Rightarrow> string \<Rightarrow> bool" where
  "proves e c l password =
     (password \<noteq> [] \<and> lr_password l = sha256 e (sha256 e (password @ hash_salt c) @ hash_challenge c))"

definition remembered :: "login_env \<Rightarrow> login_request \<Rightarrow> host \<Rightarrow> session option" where
  "remembered e l h =
     (case sessions h (lr_my_id l, lr_my_name l, lr_session_id l) of
        Some s \<Rightarrow> if now_ms e - last_recv_time s < SESSION_TIMEOUT then Some s else None
      | None \<Rightarrow> None)"

definition password_known :: "login_env \<Rightarrow> login_request \<Rightarrow> conn \<Rightarrow> host \<Rightarrow> bool" where
  "password_known e l c h =
     (temporary_enabled (h_cfg h) \<and> proves e c l (temporary_password h)
      \<or> permanent_enabled (h_cfg h) \<and> proves e c l (get_permanent_password (h_cfg h))
      \<or> (case remembered e l h of Some s \<Rightarrow> proves e c l (random_password s) | None \<Rightarrow> False))"

definition trusted_here :: "login_env \<Rightarrow> login_request \<Rightarrow> host \<Rightarrow> bool" where
  "trusted_here e l h =
     (lr_hwid l \<noteq> [] \<and> enable_trusted_devices (h_cfg h) \<and>
      (\<exists>d \<in> set (fst (get_trusted_devices (cfg_e e) (h_cfg h))).
         td_hwid d = lr_hwid l \<and> td_id d = lr_my_id l \<and> td_name d = lr_my_name l
         \<and> td_platform d = lr_my_platform l \<and> \<not> outdate (get_time (cfg_e e)) d))"

definition second_factor :: "login_env \<Rightarrow> login_request \<Rightarrow> conn \<Rightarrow> host \<Rightarrow> bool" where
  "second_factor e l c h =
     (require_2fa c = None \<or> trusted_here e l h \<or> from_switch c
      \<or> (case remembered e l h of Some s \<Rightarrow> tfa s | None \<Rightarrow> False))"

definition switch_matches :: "login_env \<Rightarrow> login_request \<Rightarrow> string \<Rightarrow> host \<Rightarrow> bool" where
  "switch_matches e l uuid h =
     (case switch_sides_uuid h (lr_my_id l) of
        Some (t, uuid') \<Rightarrow> now_ms e - t < SWITCH_SIDES_MS \<and> uuid = uuid'
      | None \<Rightarrow> False)"

definition admits :: "login_env \<Rightarrow> login_event \<Rightarrow> state \<Rightarrow> bool" where
  "admits e x st =
     (case x of
        LoginRequest l \<Rightarrow>
          \<not> needs_click e (snd st) \<and> password_known e l (fst st) (snd st)
          \<and> second_factor e l (fst st) (snd st)
      | Auth2fa code hwid \<Rightarrow>
          (case require_2fa (fst st) of Some totp \<Rightarrow> check_totp e totp code = Some True | None \<Rightarrow> False)
          \<and> snd (check_failure (tfa_failures (snd st)) (conn_ip (fst st)) (get_time (cfg_e e) div 60000)) = None
      | SwitchSidesResponse (Some l) uuid \<Rightarrow> switch_matches e l uuid (snd st)
      | CmAuthorize \<Rightarrow> True
      | _ \<Rightarrow> False)"

section \<open>Frames\<close>

text \<open>The settings that decide about a login are not touched by reading the id or the devices.\<close>

definition same_settings :: "cfg \<Rightarrow> cfg \<Rightarrow> bool" where
  "same_settings g g' =
     (get_option g' = get_option g \<and> get_permanent_password g' = get_permanent_password g
      \<and> builtin_settings g' = builtin_settings g)"

lemma same_settings_refl [simp]: "same_settings g g"
  by (simp add: same_settings_def)

lemma same_settings_fields:
  assumes "cfg_password (config g') = cfg_password (config g)" "cfg2_options (config2 g') = cfg2_options (config2 g)"
    "hard_settings g' = hard_settings g" "default_settings g' = default_settings g"
    "overwrite_settings g' = overwrite_settings g" "builtin_settings g' = builtin_settings g"
  shows "same_settings g g'"
  using assms by (simp add: same_settings_def get_option_def [abs_def] get_permanent_password_def
      Let_def cong: option.case_cong if_cong)

lemma same_settings_id: "same_settings g (snd (get_id e n m g))"
  by (rule same_settings_fields) (simp_all add: id_frame stores split: option.split)

lemma same_settings_devices: "same_settings g (snd (get_trusted_devices e g))"
  by (rule same_settings_fields)
    (simp_all add: get_trusted_devices_def set_trusted_devices_def Let_def stores split: prod.split option.split)

lemma same_settings_decide:
  assumes "same_settings g g'"
  shows "temporary_enabled g' = temporary_enabled g" "permanent_enabled g' = permanent_enabled g"
    "get_permanent_password g' = get_permanent_password g" "approve_mode g' = approve_mode g"
    "has_valid_password t g' = has_valid_password t g" "enable_trusted_devices g' = enable_trusted_devices g"
    "get_builtin_option g' k = get_builtin_option g k"
  using assms
  by (simp_all add: same_settings_def temporary_enabled_def permanent_enabled_def verification_method_def
      approve_mode_def has_valid_password_def enable_trusted_devices_def get_builtin_option_def)

lemma send_login_error_conn [simp]:
  "authorized (fst (send_login_error m st)) = authorized (fst st)"
  "snd (send_login_error m st) = snd st"
  by (simp_all add: send_login_error_def)

lemma try_start_cm_conn [simp]:
  "authorized (fst (try_start_cm b st)) = authorized (fst st)"
  by (simp add: try_start_cm_def)

lemma is_recent_session_state [simp, frames]:
  "fst (snd (is_recent_session e t st)) = fst st"
  "snd (snd (is_recent_session e t st)) = retain_sessions (now_ms e) (snd st)"
  by (simp_all add: is_recent_session_def Let_def split: prod.split option.split)

lemma retain_sessions_fields [simp, frames]:
  "h_cfg (retain_sessions n h) = h_cfg h" "temporary_password (retain_sessions n h) = temporary_password h"
  "password_failures (retain_sessions n h) = password_failures h"
  by (simp_all add: retain_sessions_def)

lemma is_recent_session_iff:
  "fst (is_recent_session e t (c, h)) =
     (lr_password (lr c) \<noteq> [] \<and>
      (case remembered e (lr c) h of
         Some s \<Rightarrow> t \<and> tfa s \<or> \<not> t \<and> validate_one_password e c (random_password s)
       | None \<Rightarrow> False))"
  by (auto simp: is_recent_session_def retain_sessions_def remembered_def session_key_def Let_def
      split: option.split)

lemma remembered_retain [simp]: "remembered e l (retain_sessions (now_ms e) h) = remembered e l h"
  by (auto simp: retain_sessions_def remembered_def split: option.split)

lemma validate_one_password_iff: "validate_one_password e c p = proves e c (lr c) p"
  by (auto simp: validate_one_password_def proves_def)

lemma respond_authorized:
  "authorized (fst (snd (respond_and_start_cm e st))) = authorized (fst (snd (send_logon_response_and_keep_alive e st)))"
  by (simp add: respond_and_start_cm_def split: prod.split bool.split)

lemma handle_login_request_state:
  assumes "handle_login_request_without_validation e l st = (c', h')"
  shows "authorized c' = authorized (fst st) \<and> lr c' = l \<and> hash_salt c' = hash_salt (fst st) \<and>
    hash_challenge c' = hash_challenge (fst st) \<and> from_switch c' = from_switch (fst st) \<and>
    conn_ip c' = conn_ip (fst st) \<and> control_permissions c' = control_permissions (fst st) \<and>
    (require_2fa c' = None \<longrightarrow> require_2fa (fst st) = None \<or> trusted_here e l (snd st)) \<and>
    (require_2fa (fst st) = None \<longrightarrow> require_2fa c' = None) \<and>
    (\<exists>g. h' = (snd st)\<lparr>h_cfg := g\<rparr> \<and> same_settings (h_cfg (snd st)) g)"
proof -
  obtain c h where st: "st = (c, h)" by fastforce
  obtain ds g where d: "get_trusted_devices (cfg_e e) (h_cfg h) = (ds, g)" by fastforce
  have g: "same_settings (h_cfg h) g" using same_settings_devices [of "h_cfg h" "cfg_e e"] d by simp
  have self: "\<exists>g. h = h\<lparr>h_cfg := g\<rparr> \<and> same_settings (h_cfg h) g"
    by (intro exI [of _ "h_cfg h"]) simp
  have t: "trusted_here e l h" if "lr_hwid l \<noteq> []" "enable_trusted_devices (h_cfg h)"
    "find (\<lambda>d. td_hwid d = lr_hwid l) ds = Some x" "\<not> outdate (get_time (cfg_e e)) x" "td_id x = lr_my_id l"
    "td_name x = lr_my_name l" "td_platform x = lr_my_platform l" for x
    using that d by (auto simp: trusted_here_def find_Some_iff)
  show ?thesis
    using assms g self t
    by (auto simp: handle_login_request_without_validation_def st d Let_def
        split: option.splits if_splits)
qed

lemma send_logon_second_factor:
  assumes "\<not> authorized (fst st)" and "authorized (fst (snd (send_logon_response_and_keep_alive e st)))"
  shows "require_2fa (fst st) = None \<or> fst (is_recent_session e True st) \<or> from_switch (fst st)"
proof (rule ccontr)
  assume n: "\<not> ?thesis"
  obtain c h where i: "is_recent_session e True st = (False, c, h)" "c = fst st"
    using n is_recent_session_state(1) [of e True st] by (cases "is_recent_session e True st") auto
  have "snd (send_logon_response_and_keep_alive e st) = send_login_error REQUIRE_2FA (c, h)"
    using n i assms(1) by (simp add: send_logon_response_and_keep_alive_def)
  then show False using assms i by simp
qed

definition same_login :: "conn \<Rightarrow> conn \<Rightarrow> bool" where
  "same_login c c' =
     (authorized c' = authorized c \<and> lr c' = lr c \<and> hash_salt c' = hash_salt c
      \<and> hash_challenge c' = hash_challenge c \<and> from_switch c' = from_switch c
      \<and> conn_ip c' = conn_ip c \<and> require_2fa c' = require_2fa c \<and> conn_id c' = conn_id c)"

lemma same_login_fill:
  "same_login c (snd (fill_terminal_user_token e u p c))"
  by (simp add: fill_terminal_user_token_def handle_administrator_check_def handle_installed_user_def
      same_login_def split: option.split bool.split)

lemma same_login_refl [simp]: "same_login c c"
  by (simp add: same_login_def)

lemma same_login_trans: "same_login a b \<Longrightarrow> same_login b c \<Longrightarrow> same_login a c"
  by (simp add: same_login_def)

lemma same_login_error [simp]: "same_login c (fst (send_login_error m st)) = same_login c (fst st)"
  by (simp add: send_login_error_def same_login_def emit_def)

lemma same_login_options: "same_login c (terminal_options i c)"
  by (simp add: terminal_options_def same_login_def Let_def split: option.split)

lemma terminal_request_state:
  "(case terminal_request e l i st of
      Inl st' \<Rightarrow> same_login (fst st) (fst st') \<and> snd st' = snd st
    | Inr st' \<Rightarrow> same_login (fst st) (fst st') \<and> snd st' = snd st)"
proof -
  obtain m c where f: "fill_terminal_user_token e (lr_os_username l) (lr_os_password l)
      (terminal_options i (fst st)) = (m, c)" by fastforce
  have "same_login (fst st) c"
    using same_login_trans [OF same_login_options same_login_fill] f by (metis snd_conv)
  then show ?thesis
    by (simp add: terminal_request_def f split: option.split)
qed

lemma select_session_state:
  "(case select_session e l st of
      Inl st' \<Rightarrow> same_login (fst st) (fst st') \<and> snd st' = snd st
    | Inr st' \<Rightarrow> same_login (fst st) (fst st') \<and> snd st' = snd st)"
proof (cases "lr_union l")
  case (LoginTerminal i)
  then show ?thesis
    using terminal_request_state [of st e l i]
    by (simp add: select_session_def Let_def)
qed (simp_all add: select_session_def Let_def check_privacy_mode_on_def same_login_def [of _ "_ \<lparr>file_transfer := _\<rparr>"]
    same_login_def [of _ "_ \<lparr>view_camera := _\<rparr>"] same_login_def [of _ "_ \<lparr>port_forward_address := _\<rparr>"])

lemma guard_state:
  assumes "guard e sel st = (ft, ok, st')"
  shows "same_login (fst st) (fst st') \<and> snd st' = snd st \<and>
    ok = (snd (check_failure (sel (snd st)) (conn_ip (fst st)) (get_time (cfg_e e) div 60000)) = None)"
  using assms
  by (auto simp: guard_def send_login_error_def same_login_def emit_def split: prod.splits option.splits)

lemma validate_password_true:
  assumes "validate_password e (c, h) = (True, c', h')"
  shows "c' = c \<and> (temporary_enabled (h_cfg h) \<and> proves e c (lr c) (temporary_password h)
      \<and> remembered e (lr c) h' = (case remembered e (lr c) h' of Some s \<Rightarrow> if tfa s then None else Some s | None \<Rightarrow> None)
    \<or> permanent_enabled (h_cfg h) \<and> proves e c (lr c) (get_permanent_password (h_cfg h)) \<and> h' = h)"
  using assms
  by (auto simp: validate_password_def validate_one_password_iff update_or_insert_session_def
      remembered_def session_key_def split: if_splits option.splits)

definition session_2fa :: "login_env \<Rightarrow> login_request \<Rightarrow> host \<Rightarrow> bool" where
  "session_2fa e l h = (case remembered e l h of Some s \<Rightarrow> tfa s | None \<Rightarrow> False)"

lemma respond_admits:
  assumes "\<not> authorized c" and "authorized (fst (snd (respond_and_start_cm e (c, h))))"
  shows "require_2fa c = None \<or> from_switch c \<or> session_2fa e (lr c) h"
  using send_logon_second_factor [of "(c, h)" e] assms
  by (auto simp: respond_authorized is_recent_session_iff session_2fa_def split: option.splits)

lemma session_2fa_retain [simp]: "session_2fa e l (retain_sessions (now_ms e) h) = session_2fa e l h"
  by (simp add: session_2fa_def)

lemma check_password_admits:
  assumes n: "\<not> authorized c" and a: "authorized (fst (snd (check_password e l (c, h))))" and l: "lr c = l"
  shows "password_known e l c h \<and> (require_2fa c = None \<or> from_switch c \<or> session_2fa e l h)"
proof -
  obtain r st1 where i: "is_recent_session e False (c, h) = (r, st1)"
    by (cases "is_recent_session e False (c, h)") auto
  have st1: "st1 = (c, retain_sessions (now_ms e) h)"
    using is_recent_session_state [of e False "(c, h)"] i by (simp add: prod_eq_iff)
  show ?thesis
  proof (cases r)
    case True
    then have "authorized (fst (snd (respond_and_start_cm e st1)))" using a i by (simp add: check_password_def)
    moreover have "password_known e l c h"
      using i True is_recent_session_iff [of e False c h] l
      by (auto simp: password_known_def validate_one_password_iff split: option.splits)
    ultimately show ?thesis using respond_admits [OF n, of e "retain_sessions (now_ms e) h"] l st1 by simp
  next
    case False
    obtain ft ok st2 where g: "guard e password_failures st1 = (ft, ok, st2)" by (metis prod_cases3)
    have s2: "same_login c (fst st2)" "snd st2 = snd st1" using guard_state [OF g] st1 by simp_all
    have p: "lr_password l \<noteq> []" and ok
      using a i False g n st1 s2(1) by (auto simp: check_password_def same_login_def split: if_splits bool.splits)
    obtain v c3 h3 where v: "validate_password e st2 = (v, c3, h3)" by (metis prod_cases3)
    have c3: "c3 = fst st2" using v by (auto simp: validate_password_def split: prod.splits if_splits)
    have b: "\<not> authorized (fst st2)" using n s2 by (simp add: same_login_def)
    have v1: v
    proof (rule ccontr)
      assume "\<not> v"
      then show False
        using a i False g p \<open>ok\<close> v c3 b by (simp add: check_password_def password_failed_def)
    qed
    have r3: "authorized (fst (snd (respond_and_start_cm e (password_failed ft True (c3, h3)))))"
      using a i False g p \<open>ok\<close> v v1 by (simp add: check_password_def)
    let ?pf = "password_failed ft True (c3, h3)"
    have s3: "session_2fa e l (snd ?pf) = session_2fa e l h3"
      by (simp add: password_failed_def session_2fa_def remembered_def)
    have f: "require_2fa (fst st2) = None \<or> from_switch (fst st2) \<or> session_2fa e l h3"
      using respond_admits [of "fst ?pf" e "snd ?pf"] r3 c3 b s3 s2 l
      by (simp add: password_failed_def same_login_def)
    have "validate_password e (fst st2, snd st2) = (True, c3, h3)" using v v1 by simp
    note vt = validate_password_true [OF this]
    show ?thesis using vt f s2 l st1
      by (auto simp: same_login_def password_known_def proves_def session_2fa_def split: option.splits if_splits)
  qed
qed

lemma needs_click_same: "same_settings (h_cfg h) g \<Longrightarrow> needs_click e (h\<lparr>h_cfg := g\<rparr>) = needs_click e h"
  by (simp add: needs_click_def same_settings_decide)

lemma password_known_same: "same_settings (h_cfg h) g \<Longrightarrow> password_known e l c (h\<lparr>h_cfg := g\<rparr>) = password_known e l c h"
  by (simp add: password_known_def same_settings_decide remembered_def)

lemma password_known_conn:
  "hash_salt c = hash_salt c' \<Longrightarrow> hash_challenge c = hash_challenge c' \<Longrightarrow>
    password_known e l c h = password_known e l c' h"
  by (simp add: password_known_def proves_def cong: option.case_cong)

lemma session_2fa_cfg [simp]: "session_2fa e l (h\<lparr>h_cfg := g\<rparr>) = session_2fa e l h"
  by (simp add: session_2fa_def remembered_def)

lemma check_credentials_admits:
  assumes n: "\<not> authorized c" and a: "authorized (fst (snd (check_credentials e l (c, h))))" and l: "lr c = l"
  shows "\<not> needs_click e h \<and> password_known e l c h
    \<and> (require_2fa c = None \<or> from_switch c \<or> session_2fa e l h)"
proof -
  let ?by = "\<not> is_ip_str e (lr_username l) \<and> \<not> is_domain_port_str e (lr_username l)"
  obtain i g where g: "(if ?by then get_id (cfg_e e) (hostname e) (mac e) (h_cfg h) else ([], h_cfg h)) = (i, g)"
    by (cases "if ?by then get_id (cfg_e e) (hostname e) (mac e) (h_cfg h) else ([], h_cfg h)") auto
  have same: "same_settings (h_cfg h) g"
    using g same_settings_id [of "h_cfg h" "cfg_e e" "hostname e" "mac e"] by (auto split: if_splits)
  have "\<not> needs_click e h \<and> authorized (fst (snd (check_password e l (c, h\<lparr>h_cfg := g\<rparr>))))"
    using a n same unfolding check_credentials_def Let_def fst_conv snd_conv g prod.case
    by (auto simp: needs_click_same split: if_splits)
  then show ?thesis using check_password_admits [OF n _ l, of e "h\<lparr>h_cfg := g\<rparr>"] same by (auto simp: password_known_same)
qed

lemma on_login_request_admits:
  assumes n: "\<not> authorized (fst st)" and a: "authorized (fst (snd (on_login_request e l st)))"
  shows "admits e (LoginRequest l) st"
proof -
  obtain c h where s: "handle_login_request_without_validation e l st = (c, h)" by fastforce
  note hs = handle_login_request_state [OF s]
  obtain g where g: "h = (snd st)\<lparr>h_cfg := g\<rparr>" "same_settings (h_cfg (snd st)) g" using hs by blast
  have nc: "\<not> authorized c" using hs n by simp
  obtain st2 where st2: "select_session e l (c, h) = Inr st2"
    using a nc s select_session_state [of "(c, h)" e l]
    by (cases "select_session e l (c, h)") (auto simp: on_login_request_def same_login_def)
  have s2: "same_login c (fst st2)" "snd st2 = h" using select_session_state [of "(c, h)" e l] st2 by simp_all
  let ?c = "(fst st2)\<lparr>cm_ipc_started := True\<rparr>"
  have "authorized (fst (snd (check_credentials e l (?c, h))))"
    using a nc s st2 s2 by (simp add: on_login_request_def upd_def split: prod.splits)
  then have "\<not> needs_click e h \<and> password_known e l ?c h
      \<and> (require_2fa ?c = None \<or> from_switch ?c \<or> session_2fa e l h)"
    by (intro check_credentials_admits) (use nc hs s2 in \<open>auto simp: same_login_def\<close>)
  moreover have "password_known e l ?c h = password_known e l (fst st) h"
    using hs s2 by (intro password_known_conn) (auto simp: same_login_def)
  moreover have "password_known e l (fst st) h = password_known e l (fst st) (snd st)"
    using g password_known_same by simp
  moreover have "needs_click e h = needs_click e (snd st)" "session_2fa e l h = session_2fa e l (snd st)"
    using g needs_click_same by simp_all
  moreover have "from_switch ?c = from_switch (fst st)"
    "require_2fa ?c = None \<longrightarrow> require_2fa (fst st) = None \<or> trusted_here e l (snd st)"
    using hs s2 by (simp_all add: same_login_def)
  ultimately show ?thesis
    unfolding admits_def second_factor_def session_2fa_def by auto
qed

lemma on_auth_2fa_admits:
  assumes n: "\<not> authorized (fst st)" and a: "authorized (fst (snd (on_auth_2fa e code hwid st)))"
  shows "admits e (Auth2fa code hwid) st"
proof -
  obtain ft ok st1 where g: "guard e tfa_failures st = (ft, ok, st1)" by (metis prod_cases3)
  note gs = guard_state [OF g]
  show ?thesis
    using a n gs
    by (auto simp: on_auth_2fa_def g admits_def same_login_def tfa_failed_def split: bool.splits option.splits)
qed

lemma on_switch_sides_admits:
  assumes n: "\<not> authorized (fst st)" and a: "authorized (fst (snd (on_switch_sides e lro uuid st)))"
  shows "admits e (SwitchSidesResponse lro uuid) st"
proof (cases lro)
  case None
  then show ?thesis using a n by (simp add: on_switch_sides_def)
next
  case (Some l)
  obtain c h where s: "handle_login_request_without_validation e l st = (c, h)" by fastforce
  note hs = handle_login_request_state [OF s]
  obtain u h' where u: "take_switch_sides_uuid (now_ms e) (lr_my_id l) h = (u, h')" by fastforce
  have "\<exists>t. u = Some (t, uuid)"
    using a n Some s hs u by (auto simp: on_switch_sides_def Let_def split: if_splits)
  then show ?thesis
    using u hs Some by (auto simp: take_switch_sides_uuid_def Let_def admits_def switch_matches_def split: option.splits if_splits)
qed

lemma on_close_authorized [simp]: "authorized (fst (on_close b st)) = authorized (fst st)"
  by (simp add: on_close_def Let_def)

lemma login_step_admits:
  assumes "\<not> authorized (fst st)" and "authorized (fst (snd (login_step e x st)))"
  shows "admits e x st"
proof (cases x)
  case CmAuthorize
  then show ?thesis by (simp add: admits_def)
qed (use assms on_login_request_admits on_auth_2fa_admits on_switch_sides_admits in
      \<open>auto simp: Let_def split: if_splits\<close>)

text \<open>
  C1. Whatever a peer sends and in whatever order, it gets in only after an event that admits it:
  a request that proves a password in use and passes the second factor, a correct one-time code, an
  answer to a recent switch of sides, or the click of the local user.
\<close>

theorem access_needs_credential:
  assumes "\<not> authorized (fst st)" and "authorized (fst (snd (login_run xs st)))"
  shows "\<exists>ys e x zs. xs = ys @ (e, x) # zs \<and> fst (login_run ys st) \<and> \<not> authorized (fst (snd (login_run ys st))) \<and>
    admits e x (snd (login_run ys st))"
  using assms
proof (induction xs arbitrary: st)
  case (Cons ex xs)
  obtain e x where ex: "ex = (e, x)" by fastforce
  obtain k st' where s: "login_step e x st = (k, st')" by (cases "login_step e x st") auto
  show ?case
  proof (cases "authorized (fst st')")
    case True
    then have "admits e x st" using login_step_admits [of st e x] Cons.prems(1) s by simp
    then show ?thesis using Cons.prems(1) ex by (intro exI [of _ "[]"]) simp
  next
    case False
    then have k "authorized (fst (snd (login_run xs st')))"
      using Cons.prems(2) ex s by (auto split: bool.splits)
    then obtain ys e' x' zs where "xs = ys @ (e', x') # zs" "fst (login_run ys st')" "\<not> authorized (fst (snd (login_run ys st')))"
      "admits e' x' (snd (login_run ys st'))"
      using Cons.IH [OF False] by blast
    then show ?thesis using ex s \<open>k\<close> by (intro exI [of _ "ex # ys"]) simp
  qed
qed simp

text \<open>The kinds of session a connection is, and what it may be by the permissions given to it.\<close>

definition session_of :: "conn \<Rightarrow> (string \<times> bool) option \<times> bool \<times> bool \<times> bool \<times> u64 option" where
  "session_of c = (file_transfer c, view_camera c, terminal c, port_forward_socket c, control_permissions c)"

lemma session_of_emit [simp]: "session_of (emit x c) = session_of c"
  by (simp add: session_of_def emit_def)

text \<open>What the options of a peer leave alone.\<close>

definition same_kind :: "conn \<Rightarrow> conn \<Rightarrow> bool" where
  "same_kind c c' =
     (authorized c' = authorized c \<and> conn_id c' = conn_id c \<and> lr c' = lr c \<and> require_2fa c' = require_2fa c
      \<and> session_of c' = session_of c)"

lemma same_kind_trans: "same_kind a b \<Longrightarrow> same_kind b c \<Longrightarrow> same_kind a c"
  by (simp add: same_kind_def)

lemma same_kind_refl [simp]: "same_kind c c"
  by (simp add: same_kind_def)

lemma same_kind_emit [simp]: "same_kind c (emit x d) = same_kind c d"
  by (simp add: same_kind_def session_of_def emit_def)

lemma same_kind_upds [simp]:
  "same_kind c (d\<lparr>lock_after_session_end := b\<rparr>) = same_kind c d"
  "same_kind c (d\<lparr>follow_remote_cursor := b\<rparr>) = same_kind c d"
  "same_kind c (d\<lparr>follow_remote_window := b\<rparr>) = same_kind c d"
  "same_kind c (d\<lparr>show_remote_cursor := b\<rparr>) = same_kind c d"
  "same_kind c (d\<lparr>disable_audio := b\<rparr>) = same_kind c d"
  "same_kind c (d\<lparr>disable_clipboard := b\<rparr>) = same_kind c d"
  "same_kind c (d\<lparr>disable_keyboard := b\<rparr>) = same_kind c d"
  "same_kind c (d\<lparr>enable_file_transfer := b\<rparr>) = same_kind c d"
  "same_kind c (d\<lparr>terminal_persistent := b\<rparr>) = same_kind c d"
  "same_kind c (d\<lparr>show_my_cursor := b\<rparr>) = same_kind c d"
  "same_kind c (d\<lparr>keyboard := b\<rparr>) = same_kind c d"
  "same_kind c (d\<lparr>services_subed := b\<rparr>) = same_kind c d"
  "same_kind c (d\<lparr>options_in_login := x\<rparr>) = same_kind c d"
  "same_kind c (d\<lparr>delayed_read_dir := y\<rparr>) = same_kind c d"
  by (simp_all add: same_kind_def session_of_def)

lemma same_kind_audio [simp]: "same_kind c (fst (sub_audio st)) = same_kind c (fst st)"
  by (simp add: sub_audio_def Let_def)

lemma same_kind_options: "same_kind (fst st) (fst (update_options w m st))"
proof -
  have "\<forall>f \<in> set fs. \<forall>s. same_kind (fst s) (fst (f s)) \<Longrightarrow> same_kind (fst st) (fst (fold (\<lambda>f. f) fs st))"
    for fs :: "(state \<Rightarrow> state) list" and st
    by (rule fold_preserves [where P = "\<lambda>s. same_kind (fst st) (fst s)"]) (auto intro: same_kind_trans)
  then show ?thesis
    unfolding update_options_def
    by this (auto simp: set_by_def update_image_quality_def update_fps_def update_codec_def
        update_cursor_def update_follow_window_def update_audio_def update_file_transfer_def
        update_clipboard_def update_keyboard_def update_privacy_def update_block_input_def
        update_show_my_cursor_def Let_def)
qed

lemma same_kind_services: "same_kind (fst st) (fst (start_services e w s st))"
  by (simp add: start_services_def Let_def try_sub_camera_displays_def try_sub_monitor_services_def
      split: option.split prod.split)

lemma same_kind_answer: "same_kind (fst st) (fst (answer_login e st))"
proof -
  have o: "same_kind (fst st) (fst (case x of Some m \<Rightarrow> update_options w m (upd (\<lambda>c. c\<lparr>options_in_login := None\<rparr>) s)
      | None \<Rightarrow> s))" if "same_kind (fst st) (fst s)" for x w s
    using that same_kind_trans [OF _ same_kind_options] by (simp split: option.split)
  show ?thesis
    unfolding answer_login_def Let_def
    by (auto intro!: same_kind_trans [OF _ same_kind_services] o simp: update_codec_on_login_def)
qed

lemma connect_plain:
  "(\<forall>h p. lr_union (lr (fst st)) \<noteq> LoginPortForward h p) \<Longrightarrow> connect_port_forward_if_needed e st = (True, st)"
  by (auto simp: connect_port_forward_if_needed_def split: login_union.split)

lemma authorize_authorized [simp]: "authorized (fst (authorize st))"
  by (simp add: authorize_def Let_def)

lemma answer_authorized: "authorized (fst (answer_login e (authorize st)))"
  using same_kind_answer [of "authorize st" e] by (simp add: same_kind_def)

lemma send_logon_authorizes:
  assumes "require_2fa (fst st) = None" and "\<forall>h p. lr_union (lr (fst st)) \<noteq> LoginPortForward h p"
  shows "fst (send_logon_response_and_keep_alive e st) \<and> authorized (fst (snd (send_logon_response_and_keep_alive e st)))"
  using assms by (simp add: send_logon_response_and_keep_alive_def connect_plain answer_authorized)

lemma respond_authorizes:
  assumes "require_2fa (fst st) = None" and "\<forall>h p. lr_union (lr (fst st)) \<noteq> LoginPortForward h p"
  shows "\<exists>c h. respond_and_start_cm e st = (True, c, h) \<and> authorized c"
proof -
  obtain c h where "send_logon_response_and_keep_alive e st = (True, c, h)" "authorized c"
    using send_logon_authorizes [OF assms, of e]
    by (cases "send_logon_response_and_keep_alive e st") auto
  then show ?thesis
    using try_start_cm_conn [of True "(c, h)"]
    by (cases "try_start_cm True (c, h)") (simp add: respond_and_start_cm_def)
qed

text \<open>
  C40. A correct one-time code is enough by itself: a peer that has not sent a password at all is let
  in when it sends the code of the second factor.
\<close>

theorem code_alone_admits:
  assumes "require_2fa c = Some totp" and "check_totp e totp code = Some True"
    and "snd (check_failure (tfa_failures h) (conn_ip c) (get_time (cfg_e e) div 60000)) = None"
    and "\<forall>x p. lr_union (lr c) \<noteq> LoginPortForward x p"
  shows "authorized (fst (snd (login_step e (Auth2fa code hwid) (c, h))))"
proof -
  obtain ft where "check_failure (tfa_failures h) (conn_ip c) (get_time (cfg_e e) div 60000) = (ft, None)"
    using assms(3) by (metis prod.collapse)
  then have g: "guard e tfa_failures (c, h) = (ft, True, c, h)" by (simp add: guard_def)
  let ?c = "c\<lparr>require_2fa := None\<rparr>"
  let ?h = "set_session_2fa (now_ms e) (session_key ?c)
      (h\<lparr>tfa_failures := update_failure (tfa_failures h) (conn_ip c) ft True\<rparr>)"
  obtain c' h' where "respond_and_start_cm e (?c, ?h) = (True, c', h')" "authorized c'"
    using respond_authorizes [of "(?c, ?h)" e] assms(4) by auto
  then show ?thesis
    using assms(1,2) by (simp add: on_auth_2fa_def g tfa_failed_def)
qed

definition demo_login_env :: login_env where
  "demo_login_env =
     \<lparr>cfg_e = demo_env, sha256 = (\<lambda>s. CHR ''#'' # s), check_totp = (\<lambda>secret code. Some (code = secret)),
      is_ip_str = (\<lambda>s. s = ''10.0.0.7''), is_domain_port_str = (\<lambda>s. False), now_ms = 50000,
      hostname = Some ''desk'', mac = None, in_privacy_mode = False, is_logon = False,
      is_prelogin = False, is_installed = True, is_win10 = True, main_window_open = True,
      cidr_contains = (\<lambda>x ip. x = ''10.0.0.0/8''), show_ip = (\<lambda>ip. ''10.0.0.8''),
      logon_user_admin = (\<lambda>u p. Some (Some True)), session_user_token = Some True,
      service_user = (\<lambda>i. None), can_connect = (\<lambda>a. True), wait_session_id = (\<lambda>c h. False),
      displays_error = None, camera_exists = True, is_dir = (\<lambda>d. True)\<rparr>"

theorem code_alone_admits_witness:
  "authorized (fst (snd (login_step demo_login_env (Auth2fa ''123456'' [])
     (demo_conn\<lparr>require_2fa := Some ''123456''\<rparr>, demo_host))))"
  by (rule code_alone_admits [where totp = "''123456''"])
    (simp_all add: demo_login_env_def check_failure_def get_failure_def demo_host_def demo_conn_def
      connection_new_def default_login_request_def get_ipv6_prefixes_def)

text \<open>The passwords the host takes: the rotating one-time password and the permanent one, where enabled.\<close>

definition in_use :: "host \<Rightarrow> string \<Rightarrow> bool" where
  "in_use h p =
     (temporary_enabled (h_cfg h) \<and> p = temporary_password h \<or>
      permanent_enabled (h_cfg h) \<and> p = get_permanent_password (h_cfg h))"

lemma validate_password_in_use:
  "in_use h p \<Longrightarrow> proves e c (lr c) p \<Longrightarrow> \<exists>h'. validate_password e (c, h) = (True, c, h')"
  by (auto simp: validate_password_def validate_one_password_iff in_use_def)

lemma password_in_use_logs_in:
  assumes "\<not> authorized (fst st)" and "lr_union l = LoginDefault" and "\<not> in_privacy_mode e"
    and "is_ip_str e (lr_username l)" and "\<not> needs_click e (snd st)" and "require_2fa (fst st) = None"
    and guard_ok: "snd (check_failure (password_failures (snd st)) (conn_ip (fst st)) (get_time (cfg_e e) div 60000)) = None"
    and "in_use (snd st) p" and "proves e (fst st) l p" and "lr_password l \<noteq> []"
  shows "fst (login_step e (LoginRequest l) st) \<and> authorized (fst (snd (login_step e (LoginRequest l) st)))"
proof -
  obtain c h where s: "handle_login_request_without_validation e l st = (c, h)" by fastforce
  note hs = handle_login_request_state [OF s]
  obtain g where g: "h = (snd st)\<lparr>h_cfg := g\<rparr>" "same_settings (h_cfg (snd st)) g" using hs by blast
  let ?c = "c\<lparr>cm_ipc_started := True\<rparr>" and ?h = "retain_sessions (now_ms e) h"
  have sel: "select_session e l (c, h) = Inr (c, h)"
    using assms(2,3) by (simp add: select_session_def Let_def check_privacy_mode_on_def)
  have cred: "login_step e (LoginRequest l) st = check_password e l (?c, h)"
    using assms(1,4,5) hs sel g by (simp add: on_login_request_def s upd_def check_credentials_def needs_click_same)
  obtain r where r: "is_recent_session e False (?c, h) = (r, ?c, ?h)"
    using is_recent_session_state [of e False "(?c, h)"] by (cases "is_recent_session e False (?c, h)") auto
  have ok: "\<exists>c' h'. respond_and_start_cm e (?c, x) = (True, c', h') \<and> authorized c'" for x
    using assms(2,6) hs by (intro respond_authorizes) auto
  show ?thesis
  proof (cases r)
    case True
    then show ?thesis using ok [of ?h] r cred by (auto simp: check_password_def)
  next
    case False
    let ?T = "get_time (cfg_e e) div 60000"
    have "check_failure (password_failures ?h) (conn_ip ?c) ?T
        = check_failure (password_failures (snd st)) (conn_ip (fst st)) ?T"
      using hs g by simp
    then obtain ft where "check_failure (password_failures ?h) (conn_ip ?c) ?T = (ft, None)"
      using guard_ok by (cases "check_failure (password_failures (snd st)) (conn_ip (fst st)) ?T") auto
    then have gd: "guard e password_failures (?c, ?h) = (ft, True, ?c, ?h)" by (simp add: guard_def)
    obtain h2 where v: "validate_password e (?c, ?h) = (True, ?c, h2)"
      using validate_password_in_use [of ?h p e ?c] assms(8,9) hs g
      by (auto simp: same_settings_decide proves_def in_use_def)
    obtain x where x: "password_failed ft True (?c, h2) = (?c, x)" by (simp add: password_failed_def)
    show ?thesis
      using ok [of x] r False cred gd v x assms(10) by (auto simp: check_password_def)
  qed
qed

lemma right_password:
  assumes "\<not> authorized (fst st)" and "lr_union l = LoginDefault" and "\<not> in_privacy_mode e"
    and "is_ip_str e (lr_username l)" and "\<not> needs_click e (snd st)" and "require_2fa (fst st) = None"
    and "snd (check_failure (password_failures (snd st)) (conn_ip (fst st)) (get_time (cfg_e e) div 60000)) = None"
    and "temporary_enabled (h_cfg (snd st))" and "proves e (fst st) l (temporary_password (snd st))"
    and "lr_password l \<noteq> []"
  shows "fst (login_step e (LoginRequest l) st) \<and> authorized (fst (snd (login_step e (LoginRequest l) st)))"
  by (rule password_in_use_logs_in [where p = "temporary_password (snd st)"])
    (use assms in \<open>simp_all add: in_use_def\<close>)

text \<open>
  The right one-time password logs a peer in: whoever asks for a plain session by address and
  answers the challenge with the current temporary password is authorised and kept, when passwords
  are accepted, no second factor is set up and the guesses from its address are not used up.
\<close>

theorem right_password_logs_in:
  assumes "\<not> authorized c" and "lr_union l = LoginDefault" and "\<not> in_privacy_mode e"
    and "is_ip_str e (lr_username l)" and "\<not> needs_click e h" and "require_2fa c = None"
    and "snd (check_failure (password_failures h) (conn_ip c) (get_time (cfg_e e) div 60000)) = None"
    and "temporary_enabled (h_cfg h)" and "temporary_password h \<noteq> []" and "lr_password l \<noteq> []"
    and "lr_password l = sha256 e (sha256 e (temporary_password h @ hash_salt c) @ hash_challenge c)"
  shows "fst (login_step e (LoginRequest l) (c, h)) \<and> authorized (fst (snd (login_step e (LoginRequest l) (c, h))))"
  by (rule right_password) (use assms in \<open>simp_all add: proves_def\<close>)

definition demo_request :: login_request where
  "demo_request = default_login_request\<lparr>lr_username := ''10.0.0.7'', lr_my_id := ''77'',
     lr_password := ''##tmp123saltchallenge''\<rparr>"

definition open_host :: host where
  "open_host = demo_host\<lparr>h_cfg := fresh_cfg demo_env\<rparr>"

lemma open_host_settings:
  "\<not> needs_click demo_login_env open_host" "temporary_enabled (h_cfg open_host)"
  "temporary_password open_host = ''tmp123''" "password_failures open_host = Map.empty"
  by (simp_all add: needs_click_def approve_mode_def has_valid_password_def open_host_def demo_host_def
      temporary_enabled_def verification_method_def get_option_def get_or_def fresh_cfg_def fresh_config2_def Let_def)

lemma demo_login_conn:
  "hash_salt demo_conn = ''salt''" "hash_challenge demo_conn = ''challenge''" "require_2fa demo_conn = None"
  "conn_ip demo_conn = Ip4 (10, 0, 0, 8)" "\<not> authorized demo_conn"
  by (simp_all add: demo_conn_def connection_new_def)

lemma demo_login:
  "fst (login_step demo_login_env (LoginRequest demo_request) (demo_conn, open_host)) \<and>
   authorized (fst (snd (login_step demo_login_env (LoginRequest demo_request) (demo_conn, open_host))))"
  by (rule right_password)
    (use open_host_settings demo_login_conn in \<open>simp_all add: demo_request_def demo_login_env_def proves_def
      default_login_request_def check_failure_def get_failure_def get_ipv6_prefixes_def\<close>)

theorem right_password_logs_in_witness:
  "authorized (fst (snd (login_step demo_login_env (LoginRequest demo_request) (demo_conn, open_host))))"
  by (rule right_password_logs_in [THEN conjunct2])
    (use open_host_settings demo_login_conn in \<open>simp_all add: demo_request_def demo_login_env_def
      default_login_request_def check_failure_def get_failure_def get_ipv6_prefixes_def\<close>)

theorem access_needs_credential_witness:
  "\<exists>ys e x zs. [(demo_login_env, LoginRequest demo_request)] = ys @ (e, x) # zs \<and>
    admits e x (snd (login_run ys (demo_conn, open_host)))"
proof -
  obtain c h where s: "login_step demo_login_env (LoginRequest demo_request) (demo_conn, open_host) = (True, c, h)"
    "authorized c"
    using demo_login by (cases "login_step demo_login_env (LoginRequest demo_request) (demo_conn, open_host)") auto
  show ?thesis
    using access_needs_credential [of "(demo_conn, open_host)" "[(demo_login_env, LoginRequest demo_request)]"]
      s demo_login_conn by (simp del: login_step.simps) blast
qed

section \<open>Refused sessions, trusted devices, forgotten sessions\<close>

text \<open>The permission each kind of session needs.\<close>

definition session_permission :: "login_union \<Rightarrow> string option" where
  "session_permission u =
     (case u of
        LoginFileTransfer _ _ \<Rightarrow> Some ''enable-file-transfer''
      | LoginViewCamera \<Rightarrow> Some ''enable-camera''
      | LoginTerminal _ \<Rightarrow> Some ''enable-terminal''
      | LoginPortForward _ _ \<Rightarrow> Some ''enable-tunnel''
      | LoginDefault \<Rightarrow> None)"

lemma permission_same: "same_settings g g' \<Longrightarrow> permission g' k cp = permission g k cp"
  by (simp add: same_settings_def permission_def is_permission_enabled_locally_def split: option.split)

text \<open>
  A device that was verified with a one-time code and remembered is not asked for a code again
  for ninety days: a later request from it, under the same id, name and platform, has no second
  factor left to pass.
\<close>

theorem verified_device_skips_code:
  fixes d :: trusted_device
  assumes "h_cfg h = add_trusted_device (cfg_e e) d g"
    and "get_trusted_devices (cfg_e e) g = (ds, g')"
    and "length (devices_to_json (cfg_e e) (live (cfg_e e) (filter (\<lambda>x. td_hwid x \<noteq> td_hwid d) ds @ [d]))) \<le> DEVICES_MAX"
    and "td_time d = get_time (cfg_e e)"
    and "td_hwid d = lr_hwid l" "td_id d = lr_my_id l" "td_name d = lr_my_name l" "td_platform d = lr_my_platform l"
    and "lr_hwid l \<noteq> []" and "enable_trusted_devices (h_cfg h)"
    and "get_time (cfg_e e') \<le> get_time (cfg_e e) + 90 * 24 * 60 * 60 * 1000"
  shows "require_2fa (fst (handle_login_request_without_validation e' l (c, h))) = None"
proof -
  let ?ds = "filter (\<lambda>x. td_hwid x \<noteq> td_hwid d) ds @ [d]"
  have a: "add_trusted_device (cfg_e e) d g = set_trusted_devices (cfg_e e) ?ds g'"
    using assms(2) by (simp add: add_trusted_device_def)
  have l: "live (cfg_e e) ?ds = live (cfg_e e) (filter (\<lambda>x. td_hwid x \<noteq> td_hwid d) ds) @ [d]"
    using assms(4) by (simp add: outdate_def)
  have nb: "(1024 * 1024 < length (devices_to_json (cfg_e e) (live (cfg_e e) ?ds))) = False"
    using assms(3) by (simp only: not_less [symmetric] simp_thms mult_1)
  have "trusted_cache (h_cfg h) = (live (cfg_e e) ?ds, True)"
    unfolding assms(1) a by (simp only: set_trusted_devices_def Let_def nb if_False) simp
  then have t: "get_trusted_devices (cfg_e e') (h_cfg h)
      = (live (cfg_e e) (filter (\<lambda>x. td_hwid x \<noteq> td_hwid d) ds) @ [d], h_cfg h)"
    using l by (simp add: get_trusted_devices_def)
  have none: "find (\<lambda>x. td_hwid x = td_hwid d) (filter P (filter (\<lambda>x. td_hwid x \<noteq> td_hwid d) xs) @ [d]) = Some d"
    for P xs by (induction xs) auto
  show ?thesis
    using t none assms(4-11)
    by (auto simp: handle_login_request_without_validation_def Let_def outdate_def split: option.split)
qed

text \<open>
  Ending a session forgets it: when the peer or the local user closes the only remote session
  under a key, the remembered password and code of that key no longer let anybody in.
\<close>

theorem closing_forgets_session:
  assumes "\<not> (\<exists>a \<in> set (authed_conns h). ac_id a \<noteq> conn_id c \<and> ac_session_key a = session_key c \<and> ac_type a = RemoteConn)"
    and "x \<in> {CloseReason, CmClose}"
    and "(lr_my_id l, lr_my_name l, lr_session_id l) = session_key c"
  shows "\<not> fst (login_step e x (c, h)) \<and> remembered e' l (snd (snd (login_step e x (c, h)))) = None"
proof -
  have close: "conn_id (fst (on_close b st)) = conn_id (fst st) \<and> session_key (fst (on_close b st)) = session_key (fst st)
      \<and> snd (on_close b st) = snd st" for b st
    by (simp add: on_close_def Let_def session_key_def)
  have rm: "sessions (check_remove_session (conn_id c) (session_key c) h) (session_key c) = None"
    using assms(1) by (auto simp: check_remove_session_def Let_def)
  have emits: "session_key (emit y c') = session_key c'" for y c' by (simp add: session_key_def)
  show ?thesis
    using assms(2,3) close [of True "(c, h)"] rm
    by (auto simp: Let_def close remembered_def emits) (auto simp: session_key_def upd_def remembered_def)
qed

theorem closing_forgets_session_witness:
  "remembered demo_login_env demo_request (snd (snd (login_step demo_login_env CloseReason
     (demo_conn\<lparr>lr := demo_request\<rparr>,
      update_or_insert_session 0 (''77'', [], 0) (Some ''tmp123'') (Some True) demo_host)))) = None"
  by (rule closing_forgets_session [THEN conjunct2])
    (simp_all add: demo_host_def update_or_insert_session_def session_key_def demo_request_def
      default_login_request_def)

definition pc_device :: trusted_device where
  "pc_device = \<lparr>td_hwid = ''h1'', td_time = 0, td_id = ''77'', td_name = ''pc'', td_platform = ''Linux''\<rparr>"

theorem verified_device_skips_code_witness:
  "require_2fa (fst (handle_login_request_without_validation demo_login_env
     (default_login_request\<lparr>lr_hwid := ''h1'', lr_my_id := ''77'', lr_my_name := ''pc'', lr_my_platform := ''Linux''\<rparr>)
     (demo_conn\<lparr>require_2fa := Some ''123456''\<rparr>,
      demo_host\<lparr>h_cfg := add_trusted_device demo_env pc_device
        ((fresh_cfg demo_env)\<lparr>overwrite_settings := [''enable-trusted-devices'' \<mapsto> ''Y'']\<rparr>)\<rparr>))) = None"
  (is "require_2fa (fst (handle_login_request_without_validation _ ?l (?c, ?h))) = None")
proof -
  have o: "overwrite_settings (h_cfg ?h) = [''enable-trusted-devices'' \<mapsto> ''Y'']"
    by (simp add: frames)
  have "get_option (h_cfg ?h) ''enable-trusted-devices'' = ''Y''"
    by (rule get_option_pinned) (simp only: o, simp)
  then have "enable_trusted_devices (h_cfg ?h)"
    by (simp only: enable_trusted_devices_def option2bool_def) simp
  moreover have "get_trusted_devices demo_env ((fresh_cfg demo_env)\<lparr>overwrite_settings := [''enable-trusted-devices'' \<mapsto> ''Y'']\<rparr>)
      = ([], (fresh_cfg demo_env)\<lparr>overwrite_settings := [''enable-trusted-devices'' \<mapsto> ''Y'']\<rparr>)"
    by (simp add: get_trusted_devices_def fresh_cfg_def fresh_config2_def)
  moreover have "cfg_e demo_login_env = demo_env" by (simp add: demo_login_env_def)
  ultimately show ?thesis
    by (intro verified_device_skips_code [where e = demo_login_env and d = pc_device and ds = "[]"])
      (simp_all add: pc_device_def default_login_request_def, simp_all add: demo_env_def)
qed

end
