(* ===== verification/LoginSessions.thy ===== *)
theory LoginSessions
  imports Login
begin

text \<open>
  What kind of session a peer can get (\<open>src/server/connection.rs\<close>): the permissions that are asked for
  before the login, followed through every sequence of messages before the authorisation. A state is
  \<open>kept\<close> when the connection is only what it may be, and \<open>checked\<close> when, besides, the request that waits
  for its authorisation asks for a tunnel only where tunnels are allowed; every handler but that of
  the answer to a switch of sides keeps a checked state checked, or ends the connection in a kept one.
\<close>

section \<open>What a connection may be\<close>

definition permitted :: "(string \<Rightarrow> bool) \<Rightarrow> conn \<Rightarrow> bool" where
  "permitted P c =
     ((file_transfer c \<noteq> None \<longrightarrow> P ''enable-file-transfer'') \<and> (view_camera c \<longrightarrow> P ''enable-camera'') \<and>
      (terminal c \<longrightarrow> P ''enable-terminal'') \<and> (port_forward_socket c \<longrightarrow> P ''enable-tunnel''))"

definition given :: "state \<Rightarrow> string \<Rightarrow> bool" where
  "given st k = permission (h_cfg (snd st)) k (control_permissions (fst st))"

definition asks_tunnel :: "login_request \<Rightarrow> bool" where
  "asks_tunnel l = (case lr_union l of LoginPortForward x p \<Rightarrow> True | _ \<Rightarrow> False)"

definition kept :: "(string \<Rightarrow> bool) \<Rightarrow> state \<Rightarrow> bool" where
  "kept P st = (given st = P \<and> permitted P (fst st))"

definition checked :: "(string \<Rightarrow> bool) \<Rightarrow> state \<Rightarrow> bool" where
  "checked P st =
     (kept P st \<and> (\<not> authorized (fst st) \<and> asks_tunnel (lr (fst st)) \<longrightarrow> P ''enable-tunnel''))"

lemma permitted_session:
  "session_of c' = session_of c \<Longrightarrow> permitted P c' = permitted P c"
  unfolding permitted_def session_of_def prod.inject by (elim conjE) (simp only: simp_thms)

lemma given_same:
  "session_of (fst st') = session_of (fst st) \<Longrightarrow> same_settings (h_cfg (snd st)) (h_cfg (snd st')) \<Longrightarrow>
     given st' = given st"
  unfolding session_of_def prod.inject
  by (rule ext, elim conjE) (simp only: given_def, rule permission_same)

lemma kept_same:
  "kept P st \<Longrightarrow> session_of (fst st') = session_of (fst st) \<Longrightarrow>
     same_settings (h_cfg (snd st)) (h_cfg (snd st')) \<Longrightarrow> kept P st'"
  using given_same [of st' st] permitted_session [of "fst st'" "fst st"] by (simp add: kept_def)

text \<open>A step that leaves the session, the request and the settings as they are.\<close>

definition still :: "state \<Rightarrow> state \<Rightarrow> bool" where
  "still st st' =
     (session_of (fst st') = session_of (fst st) \<and> lr (fst st') = lr (fst st) \<and>
      (authorized (fst st) \<longrightarrow> authorized (fst st')) \<and> same_settings (h_cfg (snd st)) (h_cfg (snd st')))"

lemma same_settings_trans: "same_settings a b \<Longrightarrow> same_settings b c \<Longrightarrow> same_settings a c"
  by (simp add: same_settings_def)

lemma still_refl [simp]: "still st st"
  by (simp add: still_def)

lemma still_trans: "still a b \<Longrightarrow> still b c \<Longrightarrow> still a c"
  by (auto simp: still_def intro: same_settings_trans)

lemma kept_still: "kept P st \<Longrightarrow> still st st' \<Longrightarrow> kept P st'"
  by (auto simp: still_def intro: kept_same)

lemma checked_still: "checked P st \<Longrightarrow> still st st' \<Longrightarrow> checked P st'"
  by (auto simp: checked_def intro: kept_still) (auto simp: still_def)

lemma still_error [simp]: "still st (send_login_error m st)"
  by (simp add: still_def send_login_error_def session_of_def emit_def)

lemma still_cm [simp]: "still st (try_start_cm b st)"
  by (simp add: still_def try_start_cm_def session_of_def emit_def)

lemma still_host: "h_cfg h = h_cfg (snd st) \<Longrightarrow> still st (fst st, h)"
  by (simp add: still_def)

lemma still_recent: "still st (snd (is_recent_session e t st))"
  by (simp add: still_def)

lemma same_kind_still:
  "same_kind (fst st) (fst st') \<Longrightarrow> h_cfg (snd st') = h_cfg (snd st) \<Longrightarrow> still st st'"
  by (simp add: still_def same_kind_def)

lemma cfg_audio [simp]: "h_cfg (snd (sub_audio st)) = h_cfg (snd st)"
  by (simp add: sub_audio_def Let_def)

lemma cfg_monitor [simp]:
  "h_cfg (snd (try_sub_monitor_services p st)) = h_cfg (snd st)"
  "h_cfg (snd (try_sub_camera_displays x p st)) = h_cfg (snd st)"
  by (simp_all add: try_sub_camera_displays_def try_sub_monitor_services_def Let_def split: prod.split)

lemma cfg_options [simp]: "h_cfg (snd (update_options w m st)) = h_cfg (snd st)"
proof -
  have "\<forall>f \<in> set fs. \<forall>s. h_cfg (snd (f s)) = h_cfg (snd s) \<Longrightarrow> h_cfg (snd (fold (\<lambda>f. f) fs st)) = h_cfg (snd st)"
    for fs :: "(state \<Rightarrow> state) list" and st
    by (rule fold_preserves [where P = "\<lambda>s. h_cfg (snd s) = h_cfg (snd st)"]) auto
  then show ?thesis
    unfolding update_options_def
    by this (auto simp: set_by_def update_image_quality_def update_fps_def update_codec_def
        update_cursor_def update_follow_window_def update_audio_def update_file_transfer_def
        update_clipboard_def update_keyboard_def update_privacy_def update_block_input_def
        update_show_my_cursor_def Let_def)
qed

lemma cfg_start: "h_cfg (snd (start_services e w s st)) = h_cfg (snd st)"
  by (simp add: start_services_def Let_def split: option.split)

lemma cfg_answer [simp]: "h_cfg (snd (answer_login e st)) = h_cfg (snd st)"
  by (simp add: answer_login_def update_codec_on_login_def cfg_start Let_def split: option.split)

lemma still_answer: "still st (answer_login e st)"
  by (rule same_kind_still [OF same_kind_answer cfg_answer])

lemma still_authorize: "still st (authorize st)"
  by (simp add: still_def authorize_def Let_def session_of_def authed_conn_new_def emit_def)

section \<open>The handlers\<close>

lemma checked_connect:
  assumes "checked P st" and "\<not> authorized (fst st)"
  shows "checked P (snd (connect_port_forward_if_needed e st))"
proof (cases "port_forward_socket (fst st) \<or> \<not> asks_tunnel (lr (fst st))")
  case True
  then have "snd (connect_port_forward_if_needed e st) = st"
    by (auto simp: connect_port_forward_if_needed_def asks_tunnel_def split: login_union.splits)
  then show ?thesis using assms(1) by simp
next
  case False
  then obtain x p where l: "lr_union (lr (fst st)) = LoginPortForward x p" and P: "P ''enable-tunnel''"
    using assms by (auto simp: asks_tunnel_def checked_def split: login_union.splits)
  obtain c h where st: "st = (c, h)" by fastforce
  define addr where "addr = fst (normalize_port_forward_target x p)"
  have "checked P (c\<lparr>port_forward_address := addr\<rparr>, h)"
    "checked P (c\<lparr>port_forward_address := addr, port_forward_socket := True\<rparr>, h)"
    using assms(1) P by (auto simp: checked_def kept_def given_def [abs_def] permitted_def st)
  then show ?thesis
    using False l by (auto simp: connect_port_forward_if_needed_def st addr_def Let_def upd_def
        split: prod.split intro: checked_still [OF _ still_error])
qed

lemma checked_send_logon:
  assumes "checked P st"
  shows "checked P (snd (send_logon_response_and_keep_alive e st))"
proof (cases "authorized (fst st)")
  case True
  then show ?thesis using assms by (simp add: send_logon_response_and_keep_alive_def)
next
  case False
  define asked where "asked = (if require_2fa (fst st) \<noteq> None
       then (case is_recent_session e True st of (r, st) \<Rightarrow> (\<not> r \<and> \<not> from_switch (fst st), st))
       else (False, st))"
  obtain ask st1 where a: "asked = (ask, st1)" by (cases asked)
  have "st1 = st \<or> st1 = snd (is_recent_session e True st)"
    using a unfolding asked_def by (cases "is_recent_session e True st") (simp split: if_splits)
  then have s1: "still st st1" and n: "\<not> authorized (fst st1)" using still_recent [of st e True] False by auto
  obtain ok st2 where c: "connect_port_forward_if_needed e st1 = (ok, st2)" by (metis prod.exhaust)
  have s1': "checked P st1" by (rule checked_still [OF assms s1])
  have s2: "checked P st2" using checked_connect [OF s1' n, of e] c by simp
  have d: "checked P (answer_login e (authorize st2))"
    by (rule checked_still [OF s2 still_trans [OF still_authorize still_answer]])
  have "send_logon_response_and_keep_alive e st =
      (if ask then (True, send_login_error REQUIRE_2FA st1)
       else if \<not> ok then (False, st2) else (True, answer_login e (authorize st2)))"
    using False unfolding send_logon_response_and_keep_alive_def asked_def [symmetric] a by (simp only: c Let_def prod.case if_False)
  then show ?thesis using s2 d checked_still [OF s1' still_error] by simp
qed

lemma checked_respond: "checked P st \<Longrightarrow> checked P (snd (respond_and_start_cm e st))"
  using checked_send_logon [of P st e]
  by (auto simp: respond_and_start_cm_def split: prod.splits bool.splits intro: checked_still [OF _ still_cm])

lemma still_failed [simp]: "still st (password_failed ft b st)" "still st (tfa_failed ft b st)"
  by (simp_all add: password_failed_def tfa_failed_def still_def)

lemma still_guard: "guard e sel st = (ft, ok, st') \<Longrightarrow> still st st'"
  using still_error [of st]
  by (auto simp: guard_def still_def session_of_def emit_def send_login_error_def split: prod.splits option.splits)

lemma still_validate: "still st (snd (validate_password e st))"
  by (simp add: validate_password_def still_def update_or_insert_session_def split: prod.split option.split)

lemma checked_check_password:
  assumes "checked P st"
  shows "checked P (snd (check_password e l st))"
proof -
  obtain r st1 where r: "is_recent_session e False st = (r, st1)" by (metis prod.exhaust)
  have s1: "checked P st1" using checked_still [OF assms still_recent [of st e False]] r by simp
  show ?thesis
  proof (cases "r \<or> lr_password l = []")
    case True
    then show ?thesis using r s1
      by (auto simp: check_password_def split: bool.split intro: checked_respond checked_still [OF _ still_cm])
  next
    case False
    obtain ft ok st2 where g: "guard e password_failures st1 = (ft, ok, st2)" by (metis prod_cases3)
    have s2: "checked P st2" by (rule checked_still [OF s1 still_guard [OF g]])
    obtain v st3 where v: "validate_password e st2 = (v, st3)" by (metis prod.exhaust)
    have s3: "checked P st3" using checked_still [OF s2 still_validate [of st2 e]] v by simp
    have "checked P (try_start_cm False (send_login_error ''Wrong Password'' (password_failed ft False st3)))"
      by (rule checked_still [OF s3]) (meson still_cm still_error still_failed still_trans)
    moreover have "checked P (snd (respond_and_start_cm e (password_failed ft True st3)))"
      by (rule checked_respond [OF checked_still [OF s3]]) simp
    ultimately show ?thesis using False r g v s2 by (simp add: check_password_def split: bool.split)
  qed
qed

lemma kept_handle:
  assumes "kept P st"
  shows "kept P (handle_login_request_without_validation e l st)"
proof -
  obtain c h where s: "handle_login_request_without_validation e l st = (c, h)" by fastforce
  have "session_of c = session_of (fst st)"
    using s by (auto simp: handle_login_request_without_validation_def session_of_def Let_def
        split: prod.splits option.splits if_splits)
  moreover have "same_settings (h_cfg (snd st)) (h_cfg h)" using handle_login_request_state [OF s] by auto
  ultimately show ?thesis using kept_same [OF assms, of "(c, h)"] s by simp
qed

lemma session_fill: "session_of (snd (fill_terminal_user_token e u p c)) = session_of c"
  by (simp add: fill_terminal_user_token_def handle_administrator_check_def handle_installed_user_def
      session_of_def split: option.split bool.split)

lemma session_error [simp]: "session_of (fst (send_login_error m st)) = session_of (fst st)"
  by (simp add: send_login_error_def)

lemma kept_error [simp]: "kept P (send_login_error m st) = kept P st"
proof -
  have "given (send_login_error m st) = given st"
    by (rule ext) (simp add: given_def send_login_error_def emit_def)
  then show ?thesis using permitted_session [of "fst (send_login_error m st)" "fst st" P] by (simp add: kept_def)
qed

lemma kept_terminal:
  assumes "kept P st" and "P ''enable-terminal''"
  shows "case terminal_request e l i st of Inl st' \<Rightarrow> kept P st' | Inr st' \<Rightarrow> kept P st'"
proof -
  obtain m c where f: "fill_terminal_user_token e (lr_os_username l) (lr_os_password l)
      (terminal_options i (fst st)) = (m, c)" by fastforce
  let ?t = "(terminal_options i (fst st), snd st)"
  have t: "kept P ?t"
    using assms by (auto simp: kept_def permitted_def given_def [abs_def] terminal_options_def Let_def split: option.split)
  have "kept P (c, snd st)"
    by (rule kept_same [OF t]) (use session_fill [of e _ _ "terminal_options i (fst st)"] f in \<open>simp_all, metis snd_conv\<close>)
  then show ?thesis using assms(1) by (simp add: terminal_request_def f split: option.split)
qed

lemma given_upd: "(\<And>c. control_permissions (f c) = control_permissions c) \<Longrightarrow> given (upd f st) = given st"
  by (rule ext, cases st) (simp add: given_def upd_def)

lemma kept_upd:
  "kept P st \<Longrightarrow> P ''enable-file-transfer'' \<Longrightarrow> kept P (upd (\<lambda>c. c\<lparr>file_transfer := x\<rparr>) st)"
  "kept P st \<Longrightarrow> P ''enable-camera'' \<Longrightarrow> kept P (upd (\<lambda>c. c\<lparr>view_camera := b\<rparr>) st)"
  "kept P st \<Longrightarrow> kept P (upd (\<lambda>c. c\<lparr>port_forward_address := a\<rparr>) st)"
  by (simp_all add: kept_def given_upd permitted_def)

lemma kept_select:
  assumes "kept P st"
  shows "case select_session e l st of
      Inl st' \<Rightarrow> kept P st'
    | Inr st' \<Rightarrow> kept P st' \<and> (asks_tunnel l \<longrightarrow> P ''enable-tunnel'')"
proof -
  have P: "permission (h_cfg (snd st)) k (control_permissions (fst st)) = P k" for k
    using assms by (simp add: kept_def given_def [abs_def] fun_eq_iff)
  show ?thesis
  proof (cases "lr_union l")
    case (LoginTerminal i)
    then show ?thesis
      using kept_terminal [OF assms, of e l i] assms P
      by (cases "terminal_request e l i st") (auto simp: select_session_def Let_def asks_tunnel_def)
  next
    case (LoginFileTransfer x y)
    then show ?thesis using assms kept_upd(1) [OF assms] by (simp add: select_session_def asks_tunnel_def P)
  next
    case LoginViewCamera
    then show ?thesis using assms kept_upd(2) [OF assms] by (simp add: select_session_def asks_tunnel_def P)
  next
    case (LoginPortForward x y)
    then show ?thesis using assms kept_upd(3) [OF assms] by (simp add: select_session_def asks_tunnel_def P)
  next
    case LoginDefault
    then show ?thesis using assms by (simp add: select_session_def asks_tunnel_def check_privacy_mode_on_def)
  qed
qed

lemma kept_checked: "kept P st \<Longrightarrow> asks_tunnel (lr (fst st)) \<longrightarrow> P ''enable-tunnel'' \<Longrightarrow> checked P st"
  by (simp add: checked_def)

lemma checked_kept: "checked P st \<Longrightarrow> kept P st"
  by (simp add: checked_def)

lemma checked_credentials:
  assumes "checked P st"
  shows "checked P (snd (check_credentials e l st))"
proof -
  define by_id where "by_id = (\<not> is_ip_str e (lr_username l) \<and> \<not> is_domain_port_str e (lr_username l))"
  obtain i g where g: "(if by_id then get_id (cfg_e e) (hostname e) (mac e) (h_cfg (snd st)) else ([], h_cfg (snd st)))
      = (i, g)" by (cases "if by_id then get_id (cfg_e e) (hostname e) (mac e) (h_cfg (snd st)) else ([], h_cfg (snd st))")
  have "same_settings (h_cfg (snd st)) g"
    using g same_settings_id [of "h_cfg (snd st)" "cfg_e e" "hostname e" "mac e"] by (auto split: if_splits)
  then have "still st (fst st, (snd st)\<lparr>h_cfg := g\<rparr>)" by (simp add: still_def)
  then have s: "checked P (fst st, (snd st)\<lparr>h_cfg := g\<rparr>)" by (rule checked_still [OF assms])
  note ch = checked_still [OF s still_error] checked_still [OF s still_cm]
    checked_still [OF s still_trans [OF still_cm still_error]] checked_check_password [OF s]
  show ?thesis
    unfolding check_credentials_def Let_def by_id_def [symmetric] g by (simp add: ch)
qed

lemma step_login:
  assumes "kept P st" and "on_login_request e l st = (b, st')"
  shows "kept P st' \<and> (b \<longrightarrow> checked P st')"
proof -
  obtain c h where s: "handle_login_request_without_validation e l st = (c, h)" by fastforce
  have k: "kept P (c, h)" using kept_handle [OF assms(1), of e l] s by simp
  show ?thesis
  proof (cases "authorized c")
    case True
    then show ?thesis using assms(2) k by (auto simp: on_login_request_def s checked_def)
  next
    case False
    show ?thesis
    proof (cases "select_session e l (c, h)")
      case (Inl x)
      then show ?thesis using assms(2) False kept_select [OF k, where e = e and l = l] by (auto simp: on_login_request_def s)
    next
      case (Inr x)
      have "lr (fst x) = l"
        using select_session_state [of "(c, h)" e l] Inr handle_login_request_state [OF s] by (simp add: same_login_def)
      then have "checked P x" using kept_select [OF k, where e = e and l = l] Inr by (intro kept_checked) auto
      then have "checked P (upd (\<lambda>c. c\<lparr>cm_ipc_started := True\<rparr>) x)"
        by (rule checked_still) (simp add: still_def session_of_def upd_def split: prod.split)
      from checked_credentials [OF this, of e l] show ?thesis
        using assms(2) False Inr by (auto simp: on_login_request_def s intro: checked_kept)
    qed
  qed
qed

lemma same_settings_add_device: "same_settings g (add_trusted_device e d g)"
proof -
  obtain ds g' where d: "get_trusted_devices e g = (ds, g')" by (cases "get_trusted_devices e g")
  have "same_settings g' (set_trusted_devices e xs g')" for xs
    by (rule same_settings_fields) (simp_all add: set_trusted_devices_def Let_def stores)
  then show ?thesis
    using same_settings_devices [of g e] d by (auto simp: add_trusted_device_def intro: same_settings_trans)
qed

lemma step_2fa:
  assumes "checked P st"
  shows "checked P (snd (on_auth_2fa e code hwid st))"
proof -
  obtain ft ok st1 where g: "guard e tfa_failures st = (ft, ok, st1)" by (metis prod_cases3)
  have s1: "checked P st1" by (rule checked_still [OF assms still_guard [OF g]])
  define st2 where "st2 = upd (\<lambda>c. c\<lparr>require_2fa := None\<rparr>) (tfa_failed ft True st1)"
  define st3 where "st3 = (fst st2, set_session_2fa (now_ms e) (session_key (fst st2)) (snd st2))"
  have "still st1 st2" by (simp add: st2_def tfa_failed_def still_def session_of_def upd_def)
  moreover have "still st2 st3" by (simp add: st3_def still_def set_session_2fa_def)
  ultimately have s3: "checked P st3" by (blast intro: checked_still [OF s1] still_trans)
  obtain ok2 st4 where r: "respond_and_start_cm e st3 = (ok2, st4)" by (cases "respond_and_start_cm e st3")
  have s4: "checked P st4" using checked_respond [OF s3, of e] r by simp
  have d: "checked P (fst st4, (snd st4)\<lparr>h_cfg := add_trusted_device (cfg_e e) x (h_cfg (snd st4))\<rparr>)" for x
    by (rule checked_still [OF s4]) (simp add: still_def same_settings_add_device)
  have f: "checked P (send_login_error m (tfa_failed ft False st1))" for m
    by (rule checked_still [OF s1 still_trans [OF still_failed(2) still_error]])
  show ?thesis
    using s1 s4 d f r by (simp add: on_auth_2fa_def g Let_def st2_def [symmetric] st3_def [symmetric] split: bool.split option.split)
qed

lemma step_switch:
  assumes "checked P st" and "\<forall>l. lro = Some l \<longrightarrow> asks_tunnel l \<longrightarrow> P ''enable-tunnel''"
  shows "checked P (snd (on_switch_sides e lro uuid st))"
proof (cases lro)
  case None
  then show ?thesis using assms(1) by (simp add: on_switch_sides_def)
next
  case (Some l)
  obtain c h where s: "handle_login_request_without_validation e l st = (c, h)" by fastforce
  obtain u h' where u: "take_switch_sides_uuid (now_ms e) (lr_my_id l) h = (u, h')" by fastforce
  have "kept P (c, h)" using kept_handle [OF checked_kept [OF assms(1)], of e l] s by simp
  moreover have "lr c = l" using handle_login_request_state [OF s] by simp
  ultimately have "checked P (c, h)" using assms(2) Some by (intro kept_checked) auto
  moreover have "h_cfg h' = h_cfg h" using u by (auto simp: take_switch_sides_uuid_def Let_def)
  then have "still (c, h) (c, h')" by (simp add: still_def)
  ultimately have s1: "checked P (c, h')" by (metis checked_still)
  then have "checked P (c\<lparr>from_switch := True\<rparr>, h')"
    by (rule checked_still) (simp add: still_def session_of_def)
  from checked_respond [OF this, of e] have r: "checked P (snd (respond_and_start_cm e (c\<lparr>from_switch := True\<rparr>, h')))" .
  obtain ok2 st4 where r2: "respond_and_start_cm e (c\<lparr>from_switch := True\<rparr>, h') = (ok2, st4)"
    by (cases "respond_and_start_cm e (c\<lparr>from_switch := True\<rparr>, h')")
  have "checked P (upd (\<lambda>c. c\<lparr>cm_ipc_started := True\<rparr>) st4)"
    by (rule checked_still [of P st4]) (use r r2 in \<open>simp_all add: still_def session_of_def upd_def split: prod.split\<close>)
  moreover have "upd (\<lambda>c. c\<lparr>from_switch := True\<rparr>) (c, h') = (c\<lparr>from_switch := True\<rparr>, h')" by (simp add: upd_def)
  ultimately show ?thesis using r r2 s1 by (simp add: on_switch_sides_def Some s u Let_def split: bool.split)
qed

lemma kept_close: "kept P st \<Longrightarrow> kept P (on_close b st)"
  by (cases st) (auto simp: on_close_def Let_def upd_def kept_def permitted_def given_def [abs_def] emit_def)

fun no_tunnel :: "login_event \<Rightarrow> bool" where
  "no_tunnel (SwitchSidesResponse (Some l) uuid) = (\<not> asks_tunnel l)"
| "no_tunnel x = True"

lemma kept_remove: "kept P (c, check_remove_session i k h) = kept P (c, h)"
  by (simp add: kept_def given_def [abs_def] check_remove_session_def Let_def)

lemma step_keeps:
  assumes "checked P st" and "no_tunnel x" and "login_step e x st = (b, st')"
  shows "kept P st' \<and> (b \<longrightarrow> checked P st')"
proof (cases x)
  case (LoginRequest l)
  then show ?thesis using step_login [OF checked_kept [OF assms(1)]] assms(3) by simp
next
  case (Auth2fa code hwid)
  then show ?thesis using step_2fa [OF assms(1), of e code hwid] assms(3) by (simp add: checked_def)
next
  case (SwitchSidesResponse lro uuid)
  have "\<forall>l. lro = Some l \<longrightarrow> asks_tunnel l \<longrightarrow> P ''enable-tunnel''"
    using assms(2) SwitchSidesResponse by auto
  from step_switch [OF assms(1) this, of e uuid] show ?thesis
    using assms(3) SwitchSidesResponse by (simp add: checked_def)
next
  case CmAuthorize
  have "checked P (upd (\<lambda>c. c\<lparr>require_2fa := None\<rparr>) st)"
    by (rule checked_still [OF assms(1)]) (simp add: still_def session_of_def upd_def split: prod.split)
  from checked_send_logon [OF this, of e] show ?thesis
    using assms(3) CmAuthorize by (auto simp: authorize_by_click_def checked_def split: prod.splits bool.splits)
next
  case CloseReason
  then show ?thesis
    using assms(3) kept_close [OF checked_kept [OF assms(1)]] by (auto simp: Let_def kept_remove)
next
  case CmClose
  let ?u = "upd (\<lambda>c. emit CloseByHost (c\<lparr>chat_unanswered := False, file_transferred := False\<rparr>)) st"
  have "still st ?u" by (simp add: still_def session_of_def upd_def emit_def split: prod.split)
  then have "kept P ?u" by (rule kept_still [OF checked_kept [OF assms(1)]])
  then have "kept P (fst ?u, check_remove_session (conn_id (fst ?u)) (session_key (fst ?u)) (snd ?u))"
    by (simp only: kept_remove prod.collapse)
  from kept_close [OF this] show ?thesis using assms(3) CmClose by (auto simp: Let_def)
next
  case (CmErr err)
  then show ?thesis
    using assms(1,3) kept_close [OF checked_kept [OF assms(1)]] by (auto simp: checked_kept split: if_splits)
qed

lemma run_keeps:
  "checked P st \<Longrightarrow> \<forall>(e, x) \<in> set xs. no_tunnel x \<Longrightarrow> kept P (snd (login_run xs st))"
proof (induction xs arbitrary: st)
  case Nil
  then show ?case by (simp add: checked_kept)
next
  case (Cons ex xs)
  obtain e x where ex: "ex = (e, x)" by fastforce
  obtain b st' where s: "login_step e x st = (b, st')" by (cases "login_step e x st")
  have "kept P st' \<and> (b \<longrightarrow> checked P st')" by (rule step_keeps [OF Cons.prems(1) _ s]) (use Cons.prems(2) ex in simp)
  then show ?case using Cons ex s by (cases b) auto
qed

section \<open>Sessions and their permissions\<close>

text \<open>A request for a kind of session that is not permitted is refused before any password is looked at.\<close>

lemma refused_request_asks_no_password:
  assumes "\<not> authorized c" and "session_permission (lr_union l) = Some k"
    and "\<not> permission (h_cfg h) k (control_permissions c)"
  shows "\<not> fst (login_step e (LoginRequest l) (c, h)) \<and>
    \<not> authorized (fst (snd (login_step e (LoginRequest l) (c, h)))) \<and>
    password_failures (snd (snd (login_step e (LoginRequest l) (c, h)))) = password_failures h"
proof -
  obtain c' h' where s: "handle_login_request_without_validation e l (c, h) = (c', h')" by fastforce
  note hs = handle_login_request_state [OF s]
  have p: "\<not> permission (h_cfg h') k (control_permissions c')"
    using hs assms(3) by (auto simp: permission_same)
  have "\<exists>m. select_session e l (c', h') = Inl (send_login_error m (c', h'))"
    using p assms(2) by (auto simp: select_session_def session_permission_def Let_def split: login_union.splits)
  then show ?thesis using assms(1) hs by (auto simp: on_login_request_def s)
qed

text \<open>
  C9. Files, camera, terminal and tunnels each need their own permission: whatever a peer sends over a
  new connection, in any order, and whatever the local user answers, the connection becomes a file
  transfer, a camera session, a terminal or a tunnel only if the permission for it is given to it. Only
  the answer to a switch of sides must not carry a request for a tunnel: its handler takes the request
  over without asking for the permission, whatever the answer proves (\<open>switch_sides_opens_tunnel\<close>).
\<close>

theorem sessions_need_permission:
  assumes "\<not> authorized c" and "lr_union (lr c) = LoginDefault" and "file_transfer c = None"
    and "\<not> view_camera c" and "\<not> terminal c" and "\<not> port_forward_socket c"
    and "\<forall>(e, x) \<in> set xs. no_tunnel x" and "login_run xs (c, h) = (b, c', h')"
  defines "given_here k \<equiv> permission (h_cfg h) k (control_permissions c)"
  shows "(file_transfer c' \<noteq> None \<longrightarrow> given_here ''enable-file-transfer'') \<and>
    (view_camera c' \<longrightarrow> given_here ''enable-camera'') \<and> (terminal c' \<longrightarrow> given_here ''enable-terminal'') \<and>
    (port_forward_socket c' \<longrightarrow> given_here ''enable-tunnel'')"
proof -
  have "checked given_here (c, h)"
    using assms(1-6) by (simp add: checked_def kept_def given_def [abs_def] given_here_def [abs_def] permitted_def asks_tunnel_def)
  from run_keeps [OF this assms(7)] show ?thesis by (simp add: assms(8) kept_def permitted_def)
qed

definition tunnel_request :: login_request where
  "tunnel_request = default_login_request\<lparr>lr_union := LoginPortForward ''RDP'' 0, lr_password := ''guess''\<rparr>"

definition tunnel_refused :: conn where
  "tunnel_refused = demo_conn\<lparr>control_permissions := Some (set_field 0 Tunnel 1)\<rparr>"

lemma tunnel_not_given: "\<not> permission g ''enable-tunnel'' (control_permissions tunnel_refused)"
  using get_set_field [of 0 Tunnel 1 Tunnel] by (simp add: tunnel_refused_def permission_def option_permission_def)

lemma tunnel_refused_new:
  "\<not> authorized tunnel_refused" "lr_union (lr tunnel_refused) = LoginDefault" "file_transfer tunnel_refused = None"
  "\<not> view_camera tunnel_refused" "\<not> terminal tunnel_refused" "\<not> port_forward_socket tunnel_refused"
  "require_2fa tunnel_refused = None"
  by (simp_all add: tunnel_refused_def demo_conn_def connection_new_def default_login_request_def)

theorem sessions_need_permission_witness:
  "\<not> port_forward_socket (fst (snd (login_run [(demo_login_env, LoginRequest tunnel_request),
     (demo_login_env, CmAuthorize)] (tunnel_refused, demo_host))))"
proof -
  obtain b c h where r: "login_run [(demo_login_env, LoginRequest tunnel_request), (demo_login_env, CmAuthorize)]
      (tunnel_refused, demo_host) = (b, c, h)" by (metis prod_cases3)
  show ?thesis
    using sessions_need_permission [OF tunnel_refused_new(1-6) _ r] tunnel_not_given unfolding r by simp
qed

text \<open>
  An answer to a switch of sides leaves its request behind even if its identifier is wrong: when the
  local user then accepts the connection, a tunnel is opened though tunnels are not permitted.
\<close>

lemma switch_sides_opens_tunnel:
  "port_forward_socket (fst (snd (login_run [(demo_login_env, SwitchSidesResponse (Some tunnel_request) ''none''),
     (demo_login_env, CmAuthorize)] (tunnel_refused, demo_host))))"
proof -
  obtain c h where s: "handle_login_request_without_validation demo_login_env tunnel_request (tunnel_refused, demo_host)
      = (c, h)" by fastforce
  note hs = handle_login_request_state [OF s]
  obtain h' where t: "take_switch_sides_uuid (now_ms demo_login_env) (lr_my_id tunnel_request) h = (None, h')"
    using hs by (auto simp: take_switch_sides_uuid_def Let_def demo_host_def)
  have c: "\<not> authorized c" "lr_union (lr c) = LoginPortForward ''RDP'' 0"
    using hs tunnel_refused_new by (simp_all add: tunnel_request_def)
  have sw: "login_step demo_login_env (SwitchSidesResponse (Some tunnel_request) ''none'') (tunnel_refused, demo_host)
      = (True, c, h')" by (simp add: on_switch_sides_def s t)
  have s1: "still a (answer_login e (authorize a))" for a e by (rule still_trans [OF still_authorize still_answer])
  obtain ok c2 h2 where send: "send_logon_response_and_keep_alive demo_login_env (c\<lparr>require_2fa := None\<rparr>, h') = (ok, c2, h2)"
    by (metis prod_cases3)
  have "port_forward_socket c2"
  proof (cases "port_forward_socket c")
    case True
    then show ?thesis
      using send c s1 [of "(c\<lparr>require_2fa := None\<rparr>, h')" demo_login_env]
      by (auto simp: send_logon_response_and_keep_alive_def connect_port_forward_if_needed_def still_def session_of_def)
  next
    case False
    have "can_connect demo_login_env a" for a by (simp add: demo_login_env_def)
    then obtain a where "connect_port_forward_if_needed demo_login_env (c\<lparr>require_2fa := None\<rparr>, h')
        = (True, c\<lparr>require_2fa := None, port_forward_address := a, port_forward_socket := True\<rparr>, h')"
      using False c by (cases "normalize_port_forward_target ''RDP'' 0")
        (auto simp: connect_port_forward_if_needed_def Let_def upd_def)
    then show ?thesis
      using send c s1 [of "(c\<lparr>require_2fa := None, port_forward_address := a, port_forward_socket := True\<rparr>, h')" demo_login_env]
      by (auto simp: send_logon_response_and_keep_alive_def still_def session_of_def)
  qed
  then show ?thesis
    using sw send by (cases ok) (simp_all add: authorize_by_click_def upd_def)
qed

end
