(* ===== verification/FileTree.thy ===== *)
theory FileTree
  imports Text
begin

text \<open>
  Listing and cleaning directories (\<open>libs/hbb_common/src/fs.rs\<close>): \<open>read_dir\<close>,
  \<open>get_recursive_files\<close>, \<open>get_empty_dirs_recursive\<close> and \<open>remove_all_empty_dir\<close> over a tree of
  files, directories and links. The name of an entry that is not valid UTF-8 is the empty string,
  as the code has it; an entry is hidden by the attribute or the dot of the platform. A directory
  carries the error of \<open>read_dir\<close>, if it can not be read; an entry says whether the system gave it and
  its metadata (the code drops those it did not). Times are seconds, 0 where the system has none.
  A path that is given to these functions is a node with its links followed; \<open>LinkNode\<close> is a link
  inside a directory, to a directory or to something else, and devices and sockets in a directory count
  as files.
\<close>

datatype node =
    FileNode (file_size: nat) (node_mtime: nat)
  | DirNode (node_mtime: nat) (dir_error: "string option") (dir_entries: "dir_entry list")
  | LinkNode (node_mtime: nat) (to_dir: bool)
and dir_entry =
  DirEntry (entry_name: string) (entry_stat: bool) (entry_hidden: bool) (entry_node: node)

datatype file_type = TypeFile | TypeDir | TypeFileLink | TypeDirLink

record file_entry =
  fe_name :: string
  fe_type :: file_type
  fe_hidden :: bool
  fe_size :: nat
  fe_modified :: nat

section \<open>Paths\<close>

text \<open>\<open>Path::join\<close> for a separator of the platform.\<close>

definition path_join :: "char \<Rightarrow> string \<Rightarrow> string \<Rightarrow> string" where
  "path_join sep p n =
     (if starts_with n [sep] then n
      else if p = [] then n
      else if ends_with p [sep] then p @ n
      else p @ sep # n)"

section \<open>Reading directories\<close>

fun node_type :: "node \<Rightarrow> file_type" where
  "node_type (FileNode s m) = TypeFile"
| "node_type (DirNode m err es) = TypeDir"
| "node_type (LinkNode m d) = (if d then TypeDirLink else TypeFileLink)"

definition file_entry_of :: "dir_entry \<Rightarrow> file_entry" where
  "file_entry_of x =
     \<lparr>fe_name = entry_name x, fe_type = node_type (entry_node x), fe_hidden = entry_hidden x,
      fe_size = (case entry_node x of FileNode s m \<Rightarrow> s | _ \<Rightarrow> 0),
      fe_modified = node_mtime (entry_node x)\<rparr>"

definition visible :: "bool \<Rightarrow> dir_entry \<Rightarrow> bool" where
  "visible include_hidden x = (entry_name x \<noteq> [] \<and> entry_stat x \<and> (entry_hidden x \<longrightarrow> include_hidden))"

definition read_dir :: "bool \<Rightarrow> dir_entry list \<Rightarrow> file_entry list" where
  "read_dir include_hidden es = map file_entry_of (filter (visible include_hidden) es)"

text \<open>
  \<open>read_dir_recursive\<close>: a directory that can not be read is an error of the call, but the call for a
  subdirectory is asked \<open>if let Ok\<close>, so the error of a subdirectory is dropped with its files.
\<close>

fun recursive_node :: "char \<Rightarrow> bool \<Rightarrow> string \<Rightarrow> node \<Rightarrow> string + file_entry list"
  and recursive_entries :: "char \<Rightarrow> bool \<Rightarrow> string \<Rightarrow> dir_entry list \<Rightarrow> file_entry list" where
  "recursive_node sep h pre (DirNode m err es) =
     (case err of Some msg \<Rightarrow> Inl msg | None \<Rightarrow> Inr (recursive_entries sep h pre es))"
| "recursive_node sep h pre (FileNode s m) =
     Inr [\<lparr>fe_name = [], fe_type = TypeFile, fe_hidden = False, fe_size = s, fe_modified = m\<rparr>]"
| "recursive_node sep h pre (LinkNode m d) = Inl ''Not exists''"
| "recursive_entries sep h pre [] = []"
| "recursive_entries sep h pre (DirEntry n ok hid t # es) =
     (if visible h (DirEntry n ok hid t) then
        (case t of
           FileNode s m \<Rightarrow> [(file_entry_of (DirEntry n ok hid t))\<lparr>fe_name := path_join sep pre n\<rparr>]
         | DirNode m err xs \<Rightarrow>
             (case recursive_node sep h (path_join sep pre n) t of Inr fs \<Rightarrow> fs | Inl _ \<Rightarrow> [])
         | LinkNode m d \<Rightarrow> [])
      else []) @ recursive_entries sep h pre es"

definition get_recursive_files :: "char \<Rightarrow> bool \<Rightarrow> node option \<Rightarrow> string + file_entry list" where
  "get_recursive_files sep include_hidden path =
     (case path of Some t \<Rightarrow> recursive_node sep include_hidden [] t | None \<Rightarrow> Inl ''Not exists'')"

text \<open>The directories without visible entries, each as the path it was reached by.\<close>

fun empty_dirs_node :: "char \<Rightarrow> bool \<Rightarrow> string \<Rightarrow> node \<Rightarrow> string + string list"
  and empty_dirs_entries :: "char \<Rightarrow> bool \<Rightarrow> string \<Rightarrow> dir_entry list \<Rightarrow> string list" where
  "empty_dirs_node sep h path (DirNode m err es) =
     (case err of Some msg \<Rightarrow> Inl msg
      | None \<Rightarrow> Inr (if filter (visible h) es = [] then [path] else empty_dirs_entries sep h path es))"
| "empty_dirs_node sep h path (FileNode s m) = Inr []"
| "empty_dirs_node sep h path (LinkNode m d) = Inl ''Not exists''"
| "empty_dirs_entries sep h path [] = []"
| "empty_dirs_entries sep h path (DirEntry n ok hid t # es) =
     (if visible h (DirEntry n ok hid t) then
        (case t of
           DirNode m err xs \<Rightarrow>
             (case empty_dirs_node sep h (path_join sep path n) t of Inr ds \<Rightarrow> ds | Inl _ \<Rightarrow> [])
         | _ \<Rightarrow> [])
      else []) @ empty_dirs_entries sep h path es"

definition get_empty_dirs_recursive :: "char \<Rightarrow> bool \<Rightarrow> string \<Rightarrow> node option \<Rightarrow> string + string list" where
  "get_empty_dirs_recursive sep include_hidden path t =
     (case t of Some t \<Rightarrow> empty_dirs_node sep include_hidden path t | None \<Rightarrow> Inl ''Not exists'')"

section \<open>Removing empty directories\<close>

text \<open>
  What is left of a directory after \<open>remove_all_empty_dir\<close>, \<open>None\<close> when it is gone: \<open>remove_dir\<close>
  succeeds exactly on an empty directory, and a directory that can not be read is left as it is.
  \<open>rm d\<close> says whether \<open>remove_file\<close> succeeds on a link to a directory (\<open>d\<close>) or to a file. The times of
  the directories that lose an entry are not followed.
\<close>

fun clean_node :: "(bool \<Rightarrow> bool) \<Rightarrow> node \<Rightarrow> node option"
  and clean_entries :: "(bool \<Rightarrow> bool) \<Rightarrow> dir_entry list \<Rightarrow> dir_entry list" where
  "clean_node rm (DirNode m err es) =
     (if err \<noteq> None then Some (DirNode m err es)
      else let es' = clean_entries rm es in if es' = [] then None else Some (DirNode m err es'))"
| "clean_node rm t = Some t"
| "clean_entries rm [] = []"
| "clean_entries rm (DirEntry n ok hid t # es) =
     (let rest = clean_entries rm es in
      if n = [] \<or> \<not> ok then DirEntry n ok hid t # rest
      else
        case t of
          DirNode _ _ _ \<Rightarrow> (case clean_node rm t of Some t' \<Rightarrow> DirEntry n ok hid t' # rest | None \<Rightarrow> rest)
        | LinkNode _ d \<Rightarrow> if rm d then rest else DirEntry n ok hid t # rest
        | FileNode _ _ \<Rightarrow> DirEntry n ok hid t # rest)"

definition remove_all_empty_dir :: "(bool \<Rightarrow> bool) \<Rightarrow> node \<Rightarrow> string + node option" where
  "remove_all_empty_dir rm t =
     (case t of
        DirNode m (Some msg) es \<Rightarrow> Inl msg
      | DirNode m None es \<Rightarrow> Inr (clean_node rm t)
      | _ \<Rightarrow> Inl ''Not a directory'')"

section \<open>What the functions promise\<close>

text \<open>The files below a node with the names on the way to them, following only entries in \<open>P\<close>.\<close>

fun files_of :: "(dir_entry \<Rightarrow> bool) \<Rightarrow> node \<Rightarrow> (string list \<times> nat \<times> nat) list"
  and files_of_entries :: "(dir_entry \<Rightarrow> bool) \<Rightarrow> dir_entry list \<Rightarrow> (string list \<times> nat \<times> nat) list" where
  "files_of P (FileNode s m) = [([], s, m)]"
| "files_of P (LinkNode m d) = []"
| "files_of P (DirNode m err es) = files_of_entries P es"
| "files_of_entries P [] = []"
| "files_of_entries P (DirEntry n ok hid t # es) =
     (if P (DirEntry n ok hid t) then map (\<lambda>(cs, f). (n # cs, f)) (files_of P t) else [])
     @ files_of_entries P es"

text \<open>Every name satisfies \<open>Q\<close>.\<close>

fun names_node :: "(string \<Rightarrow> bool) \<Rightarrow> node \<Rightarrow> bool"
  and names_entries :: "(string \<Rightarrow> bool) \<Rightarrow> dir_entry list \<Rightarrow> bool" where
  "names_node Q (DirNode m err es) = names_entries Q es"
| "names_node Q _ = True"
| "names_entries Q [] = True"
| "names_entries Q (DirEntry n ok hid t # es) = (Q n \<and> names_node Q t \<and> names_entries Q es)"

text \<open>No readable directory is empty and no removable link is left.\<close>

fun tidy_node :: "(bool \<Rightarrow> bool) \<Rightarrow> node \<Rightarrow> bool"
  and tidy_entries :: "(bool \<Rightarrow> bool) \<Rightarrow> dir_entry list \<Rightarrow> bool" where
  "tidy_node rm (DirNode m err es) = (err = None \<longrightarrow> es \<noteq> [] \<and> tidy_entries rm es)"
| "tidy_node rm (LinkNode m d) = (\<not> rm d)"
| "tidy_node rm (FileNode s m) = True"
| "tidy_entries rm [] = True"
| "tidy_entries rm (DirEntry n ok hid t # es) = ((n \<noteq> [] \<and> ok \<longrightarrow> tidy_node rm t) \<and> tidy_entries rm es)"

definition no_sep :: "char \<Rightarrow> string \<Rightarrow> bool" where
  "no_sep sep n = (sep \<notin> set n)"

lemma clean_files:
  "(case clean_node rm t of Some t' \<Rightarrow> files_of P0 t' | None \<Rightarrow> []) = files_of P0 t"
  "files_of_entries P0 (clean_entries rm es) = files_of_entries P0 es"
  if "P0 = (\<lambda>_. True)"
proof (induction rm t and rm es rule: clean_node_clean_entries.induct)
  case (1 rm m err es)
  then show ?case by (auto simp: Let_def)
next
  case (4 rm n ok hid t es)
  show ?case
  proof (cases "n = [] \<or> \<not> ok \<or> (\<forall>m err xs. t \<noteq> DirNode m err xs)")
    case True
    then show ?thesis using 4(1) that by (cases t) (auto simp: Let_def)
  next
    case False
    then obtain m err xs where t: "t = DirNode m err xs" "\<not> (n = [] \<or> \<not> ok)" by auto
    from 4(2) [OF refl t(2) t(1)] 4(1) that show ?thesis
      using t(2) by (auto simp: t(1) Let_def split: option.splits if_splits)
  qed
qed simp_all

lemma clean_tidy:
  "(case clean_node rm t of Some t' \<Rightarrow> (\<exists>m d. t = LinkNode m d) \<or> tidy_node rm t' | None \<Rightarrow> True)"
  "tidy_entries rm (clean_entries rm es)"
proof (induction rm t and rm es rule: clean_node_clean_entries.induct)
  case (1 rm m err es)
  then show ?case by (auto simp: Let_def)
next
  case (4 rm n ok hid t es)
  show ?case
  proof (cases "n = [] \<or> \<not> ok \<or> (\<forall>m err xs. t \<noteq> DirNode m err xs)")
    case True
    then show ?thesis using 4(1) by (cases t) (auto simp: Let_def)
  next
    case False
    then obtain m err xs where t: "t = DirNode m err xs" "\<not> (n = [] \<or> \<not> ok)" by auto
    from 4(2) [OF refl t(2) t(1)] 4(1) show ?thesis
      using t(2) by (auto simp: t(1) Let_def split: option.splits if_splits)
  qed
qed simp_all

text \<open>
  Removing the empty directories under a directory never removes a file: exactly the files that
  were there are left, at their places, and what is left has neither an empty directory nor a
  removable link, but for what lies below directories that can not be read.
\<close>

theorem remove_all_empty_dir_keeps_files:
  "(case remove_all_empty_dir rm t of
      Inr (Some t') \<Rightarrow> files_of (\<lambda>_. True) t' = files_of (\<lambda>_. True) t \<and> tidy_node rm t'
    | Inr None \<Rightarrow> files_of (\<lambda>_. True) t = []
    | Inl err \<Rightarrow> \<forall>m es. t \<noteq> DirNode m None es)"
  using clean_files(1) [OF refl, of rm t] clean_tidy(1) [of t rm]
  by (auto simp: remove_all_empty_dir_def split: option.splits node.splits)

lemma join_with_snoc: "ps \<noteq> [] \<Longrightarrow> join_with c (ps @ [n]) = join_with c ps @ c # n"
  by (induction c ps rule: join_with.induct) auto

lemma ends_with_sep: "ends_with (p @ q) [c] = (if q = [] then ends_with p [c] else List.last q = c)"
  by (cases q rule: rev_cases) (auto simp: ends_with_def)

lemma join_with_last:
  "ps \<noteq> [] \<Longrightarrow> \<forall>p \<in> set ps. no_sep c p \<and> p \<noteq> [] \<Longrightarrow> join_with c ps \<noteq> [] \<and> \<not> ends_with (join_with c ps) [c]"
proof (induction ps rule: rev_induct)
  case (snoc p ps)
  then have "List.last p \<noteq> c" "p \<noteq> []" by (auto simp: no_sep_def)
  then show ?case
    using ends_with_sep [of "join_with c ps @ [c]" p c] ends_with_sep [of "[]" p c]
    by (cases "ps = []") (simp_all add: join_with_snoc)
qed simp

lemma path_join_name:
  assumes "no_sep sep n" and "n \<noteq> []" and "\<forall>p \<in> set ps. no_sep sep p \<and> p \<noteq> []"
  shows "path_join sep (join_with sep ps) n = join_with sep (ps @ [n])"
proof -
  have "\<not> starts_with n [sep]" using assms(1,2) by (cases n) (auto simp: no_sep_def)
  then show ?thesis
    using join_with_last [of ps sep] assms(3)
    by (cases "ps = []") (simp_all add: path_join_def join_with_snoc)
qed

text \<open>What the listing follows: visible entries, and of the directories those that can be read.\<close>

definition listed :: "bool \<Rightarrow> dir_entry \<Rightarrow> bool" where
  "listed h x = (visible h x \<and> (case entry_node x of DirNode m err es \<Rightarrow> err = None | _ \<Rightarrow> True))"

abbreviation named_files :: "file_entry list \<Rightarrow> (string \<times> nat \<times> nat) list" where
  "named_files fs \<equiv> map (\<lambda>e. (fe_name e, fe_size e, fe_modified e)) fs"

lemma recursive_files:
  assumes "\<forall>p \<in> set ps. no_sep sep p \<and> p \<noteq> []"
  shows "(case t of DirNode m None es \<Rightarrow> True | _ \<Rightarrow> False) \<Longrightarrow> names_node (no_sep sep) t \<Longrightarrow>
      map_sum id named_files (recursive_node sep h (join_with sep ps) t)
      = Inr (map (\<lambda>(cs, f). (join_with sep (ps @ cs), f)) (files_of (listed h) t))"
    and "names_entries (no_sep sep) es \<Longrightarrow>
      named_files (recursive_entries sep h (join_with sep ps) es)
      = map (\<lambda>(cs, f). (join_with sep (ps @ cs), f)) (files_of_entries (listed h) es)"
  using assms
proof (induction "listed h" t and "listed h" es arbitrary: ps and ps rule: files_of_files_of_entries.induct)
  case (5 n ok hid t es)
  show ?case
  proof (cases "listed h (DirEntry n ok hid t)")
    case True
    then have v: "visible h (DirEntry n ok hid t)" by (simp add: listed_def)
    then have n: "no_sep sep n" "n \<noteq> []" using 5(3) by (auto simp: visible_def)
    note j = path_join_name [OF n 5(4)]
    have IH: "(case t of DirNode m None es \<Rightarrow> True | _ \<Rightarrow> False) \<Longrightarrow>
        map_sum id named_files (recursive_node sep h (join_with sep (ps @ [n])) t)
        = Inr (map (\<lambda>(cs, f). (join_with sep (ps @ n # cs), f)) (files_of (listed h) t))"
      using 5(1) [OF True, of "ps @ [n]"] 5(3,4) n by auto
    show ?thesis
      using 5(2) [of ps] 5(3,4) True v j IH
      by (cases t) (auto simp: listed_def file_entry_of_def case_prod_unfold comp_def)
  next
    case False
    then have "visible h (DirEntry n ok hid t) \<Longrightarrow> \<exists>m msg xs. t = DirNode m (Some msg) xs"
      by (auto simp: listed_def split: node.splits)
    then show ?thesis using 5(2) [of ps] 5(3,4) False by auto
  qed
qed (auto split: option.splits)

text \<open>
  C38. The list of the files of a directory that can be read has every file below it that visible
  entries and readable directories lead to, exactly once and in order, with its size and time and with
  a name that leads from the directory to it. A directory that can not be read is an error only
  where it is the one that was asked for: below, it is left out with all its files, and nothing says so.
\<close>

theorem recursive_files_complete:
  assumes "names_node (no_sep sep) (DirNode m err es)"
  shows "case err of
      Some msg \<Rightarrow> get_recursive_files sep h (Some (DirNode m err es)) = Inl msg
    | None \<Rightarrow> \<exists>fs. get_recursive_files sep h (Some (DirNode m err es)) = Inr fs \<and>
        named_files fs = map (\<lambda>(cs, f). (join_with sep cs, f)) (files_of (listed h) (DirNode m err es))"
  using recursive_files(2) [of "[]" sep es h] assms
  by (auto simp: get_recursive_files_def split: option.split)

definition demo_tree :: "dir_entry list" where
  "demo_tree =
     [DirEntry ''a'' True False (DirNode 4 None [DirEntry ''x'' True False (FileNode 3 7), DirEntry ''e'' True False (DirNode 5 None [])]),
      DirEntry ''p'' True False (DirNode 6 (Some ''Permission denied'') [DirEntry ''y'' True False (FileNode 2 9)]),
      DirEntry ''b'' True False (FileNode 5 8), DirEntry ''l'' True False (LinkNode 3 False),
      DirEntry ''.h'' True True (FileNode 1 1)]"

theorem recursive_files_complete_witness:
  "\<exists>fs. get_recursive_files CHR ''/'' False (Some (DirNode 1 None demo_tree)) = Inr fs \<and>
    named_files fs = [(''a/x'', 3, 7), (''b'', 5, 8)]"
  using recursive_files_complete [of "CHR ''/''" 1 None demo_tree False]
  by (simp add: demo_tree_def no_sep_def visible_def listed_def)

text \<open>Where every directory can be read, every visible file is in the list.\<close>

fun all_readable :: "node \<Rightarrow> bool" and all_readable_entries :: "dir_entry list \<Rightarrow> bool" where
  "all_readable (DirNode m err es) = (err = None \<and> all_readable_entries es)"
| "all_readable _ = True"
| "all_readable_entries [] = True"
| "all_readable_entries (DirEntry n ok hid t # es) = (all_readable t \<and> all_readable_entries es)"

lemma listed_is_visible:
  "all_readable t \<Longrightarrow> files_of (listed h) t = files_of (visible h) t"
  "all_readable_entries es \<Longrightarrow> files_of_entries (listed h) es = files_of_entries (visible h) es"
proof (induction "visible h" t and "visible h" es rule: files_of_files_of_entries.induct)
  case (5 n ok hid t es)
  then show ?case by (cases t) (auto simp: listed_def)
qed auto

end
