(* ===== verification/FileTransfer.thy ===== *)
theory FileTransfer
  imports FileTree
begin

text \<open>
  The transfer of files (\<open>TransferJob\<close> of \<open>libs/hbb_common/src/fs.rs\<close>): a reading job cuts the
  files of a directory into blocks, a writing job puts the blocks together again. The disk maps
  paths to numbered files, so that an open stream keeps its file when the path is renamed or
  removed; directories are not represented, so \<open>create_dir_all\<close> is left out. What the operating
  system allows, the size of a single read, the clock, compression and the text of a digest are
  fields of an environment. An \<open>i32\<close> is an integer; converted to \<open>usize\<close>, a negative one is
  larger than the length of every list.
\<close>

record fdata =
  f_content :: bytes
  f_mtime :: nat

record disk =
  links :: "string \<rightharpoonup> nat"
  inodes :: "nat \<Rightarrow> fdata"
  next_inode :: nat

record file_digest =
  d_size :: nat
  d_modified :: nat

record fs_env =
  pjoin :: "string \<Rightarrow> string \<Rightarrow> string"
  pfile_name :: "string \<Rightarrow> string"
  can_create :: "string \<Rightarrow> bool"
  can_remove :: "string \<Rightarrow> bool"
  can_rename :: "string \<Rightarrow> string \<Rightarrow> bool"
  can_open :: "string \<Rightarrow> bool"
  can_write :: "nat \<Rightarrow> bool"
  write_lags :: "nat \<Rightarrow> bool"
  clock :: nat
  read_size :: "nat \<Rightarrow> nat \<Rightarrow> nat"
  read_fails :: "nat \<Rightarrow> nat \<Rightarrow> bool"
  compress :: "bytes \<Rightarrow> bytes"
  decompress :: "bytes \<Rightarrow> bytes"
  digest_json :: "file_digest \<Rightarrow> bytes"
  parse_digest :: "bytes \<Rightarrow> file_digest option"

section \<open>The disk\<close>

definition file_at :: "disk \<Rightarrow> string \<Rightarrow> fdata option" where
  "file_at d p = map_option (inodes d) (links d p)"

definition path_exists :: "disk \<Rightarrow> string \<Rightarrow> bool" where
  "path_exists d p = (links d p \<noteq> None)"

definition remove_path :: "fs_env \<Rightarrow> string \<Rightarrow> disk \<Rightarrow> bool \<times> disk" where
  "remove_path e p d =
     (if path_exists d p \<and> can_remove e p then (True, d\<lparr>links := (links d)(p := None)\<rparr>) else (False, d))"

definition rename_path :: "fs_env \<Rightarrow> string \<Rightarrow> string \<Rightarrow> disk \<Rightarrow> disk" where
  "rename_path e a b d =
     (case links d a of
        Some i \<Rightarrow> if can_rename e a b then d\<lparr>links := (links d)(a := None, b \<mapsto> i)\<rparr> else d
      | None \<Rightarrow> d)"

text \<open>\<open>File::create\<close> empties the file that is there or makes a new one.\<close>

definition create_path :: "fs_env \<Rightarrow> string \<Rightarrow> disk \<Rightarrow> (nat \<times> disk) option" where
  "create_path e p d =
     (if can_create e p then
        let i = (case links d p of Some i \<Rightarrow> i | None \<Rightarrow> next_inode d) in
        Some (i, d\<lparr>links := (links d)(p \<mapsto> i),
                   inodes := (inodes d)(i := \<lparr>f_content = [], f_mtime = clock e\<rparr>),
                   next_inode := (if links d p = None then Suc (next_inode d) else next_inode d)\<rparr>)
      else None)"

definition splice :: "bytes \<Rightarrow> nat \<Rightarrow> bytes \<Rightarrow> bytes" where
  "splice c pos bs = take pos (c @ replicate (pos - length c) 0) @ bs @ drop (pos + length bs) c"

text \<open>
  The files of tokio do their writes in the background: when \<open>write_all\<close> returns, the last write can be
  under way. Its bytes are counted here at once; when it is still under way while the time of the file is
  set (\<open>write_lags\<close>, by file), \<open>finish_write\<close> gives the file the time of the write afterwards.
\<close>

definition write_at :: "fs_env \<Rightarrow> nat \<Rightarrow> nat \<Rightarrow> bytes \<Rightarrow> disk \<Rightarrow> disk" where
  "write_at e i pos bs d =
     d\<lparr>inodes := (inodes d)(i := \<lparr>f_content = splice (f_content (inodes d i)) pos bs, f_mtime = clock e\<rparr>)\<rparr>"

definition write_file :: "fs_env \<Rightarrow> string \<Rightarrow> bytes \<Rightarrow> disk \<Rightarrow> disk" where
  "write_file e p bs d = (case create_path e p d of Some (i, d') \<Rightarrow> write_at e i 0 bs d' | None \<Rightarrow> d)"

definition set_file_mtime :: "string \<Rightarrow> nat \<Rightarrow> disk \<Rightarrow> disk" where
  "set_file_mtime p t d =
     (case links d p of
        Some i \<Rightarrow> d\<lparr>inodes := (inodes d)(i := (inodes d i)\<lparr>f_mtime := t\<rparr>)\<rparr>
      | None \<Rightarrow> d)"

section \<open>Jobs\<close>

datatype job_type = Generic | Printer

datatype data_source = FilePath string | MemoryCursor bytes nat

text \<open>A stream is an open file with a position, or bytes in memory with a position.\<close>

datatype data_stream = FileStream nat nat | BufStream bytes nat

record transfer_job =
  job_id :: int
  job_kind :: job_type
  remote :: string
  source :: data_source
  show_hidden :: bool
  is_remote :: bool
  is_last_job :: bool
  is_resume :: bool
  file_num :: int
  files :: "file_entry list"
  job_conn_id :: int
  stream :: "data_stream option"
  total_size :: nat
  finished_size :: nat
  transferred :: nat
  enable_overwrite_detection :: bool
  file_confirmed :: bool
  file_skipped :: bool
  file_is_waiting :: bool
  default_overwrite_strategy :: "bool option"
  digest :: file_digest

datatype transfer_error =
    WrongId | WrongFileNumber | StreamIsNone | NoDigestForBuffer | IoFailed string | NotExists string
  | Skipped | Rejected string

record block =
  b_id :: int
  b_file_num :: int
  b_data :: bytes
  b_compressed :: bool

record file_transfer_digest =
  td_id :: int
  td_file_num :: int
  td_last_modified :: nat
  td_file_size :: nat
  td_is_upload :: bool
  td_is_identical :: bool
  td_transferred_size :: nat
  td_is_resume :: bool

datatype confirm_union = ConfirmSkip bool | ConfirmOffset nat

record send_confirm =
  sc_id :: int
  sc_file_num :: int
  sc_union :: "confirm_union option"

text \<open>The messages about files that one side sends to the other.\<close>

datatype file_msg =
    MsgDigest file_transfer_digest
  | MsgBlock block
  | MsgError int transfer_error int
  | MsgDone int int
  | MsgConfirm send_confirm
  | MsgDir int string "file_entry list"
  | MsgEmptyDirs string "string list"

definition default_job :: transfer_job where
  "default_job =
     \<lparr>job_id = 0, job_kind = Generic, remote = [], source = FilePath [], show_hidden = False,
      is_remote = False, is_last_job = False, is_resume = False, file_num = 0, files = [],
      job_conn_id = 0, stream = None, total_size = 0, finished_size = 0, transferred = 0,
      enable_overwrite_detection = False, file_confirmed = False, file_skipped = False,
      file_is_waiting = False, default_overwrite_strategy = None,
      digest = \<lparr>d_size = 0, d_modified = 0\<rparr>\<rparr>"

definition get_ext :: "string \<Rightarrow> string" where
  "get_ext name = (if CHR ''.'' \<in> set name then rev (takeWhile (\<lambda>c. c \<noteq> CHR ''.'') (rev name)) else [])"

definition is_compressed_file :: "string \<Rightarrow> bool" where
  "is_compressed_file name =
     (get_ext name \<in> set [''xz'', ''gz'', ''zip'', ''7z'', ''rar'', ''bz2'', ''tgz'', ''png'', ''jpg''])"

text \<open>The sum of the sizes wraps at 64 bits in a release build.\<close>

definition sum_sizes :: "file_entry list \<Rightarrow> nat" where
  "sum_sizes fs = sum_list (map fe_size fs) mod 2 ^ 64"

definition new_write ::
  "int \<Rightarrow> job_type \<Rightarrow> string \<Rightarrow> data_source \<Rightarrow> int \<Rightarrow> bool \<Rightarrow> bool \<Rightarrow> file_entry list \<Rightarrow> bool \<Rightarrow> transfer_job" where
  "new_write i k rem src n hid isrem fs od =
     default_job\<lparr>job_id := i, job_kind := k, remote := rem, source := src, file_num := n,
       show_hidden := hid, is_remote := isrem, files := fs, total_size := sum_sizes fs,
       enable_overwrite_detection := od\<rparr>"

text \<open>\<open>tree\<close> gives what is found under a path.\<close>

definition new_read ::
  "char \<Rightarrow> (string \<Rightarrow> node option) \<Rightarrow> int \<Rightarrow> job_type \<Rightarrow> string \<Rightarrow> data_source \<Rightarrow> int \<Rightarrow> bool \<Rightarrow> bool \<Rightarrow> bool
    \<Rightarrow> string + transfer_job" where
  "new_read sep tree i k rem src n hid isrem od =
     (let mk = (\<lambda>fs t. default_job\<lparr>job_id := i, job_kind := k, remote := rem, source := src,
                  file_num := n, show_hidden := hid, is_remote := isrem, files := fs,
                  total_size := t, enable_overwrite_detection := od\<rparr>)
      in case src of
        FilePath p \<Rightarrow>
          (case get_recursive_files sep hid (tree p) of
             Inl err \<Rightarrow> Inl err
           | Inr fs \<Rightarrow> Inr (mk fs (sum_sizes fs)))
      | MemoryCursor c pos \<Rightarrow> Inr (mk [] (length c)))"

definition get_buf_data :: "transfer_job \<Rightarrow> bytes option" where
  "get_buf_data j = (case stream j of Some (BufStream c pos) \<Rightarrow> Some c | _ \<Rightarrow> None)"

text \<open>\<open>file_num as usize\<close> used as an index.\<close>

definition file_index :: "transfer_job \<Rightarrow> int \<Rightarrow> nat option" where
  "file_index j n = (if 0 \<le> n \<and> nat n < length (files j) then Some (nat n) else None)"

definition join_path :: "fs_env \<Rightarrow> string \<Rightarrow> string \<Rightarrow> string" where
  "join_path e p name = (if name = [] then p else pjoin e p name)"

definition download_path :: "string \<Rightarrow> string" where
  "download_path p = p @ ''.download''"

definition digest_path :: "string \<Rightarrow> string" where
  "digest_path p = p @ ''.digest''"

section \<open>Writing\<close>

definition finish_write :: "fs_env \<Rightarrow> data_stream option \<Rightarrow> disk \<Rightarrow> disk" where
  "finish_write e s d =
     (case s of
        Some (FileStream i pos) \<Rightarrow>
          if write_lags e i then d\<lparr>inodes := (inodes d)(i := (inodes d i)\<lparr>f_mtime := clock e\<rparr>)\<rparr> else d
      | _ \<Rightarrow> d)"

text \<open>
  The file that was written under its temporary name gets its own name and time; a write that is still
  under way ends after that, since nothing waits for it before.
\<close>

definition modify_time :: "fs_env \<Rightarrow> transfer_job \<Rightarrow> disk \<Rightarrow> disk" where
  "modify_time e j d =
     (if job_kind j = Printer then d
      else case source j of
        FilePath p \<Rightarrow>
          (case file_index j (file_num j) of
             Some i \<Rightarrow>
               let entry = files j ! i;
                   path = join_path e p (fe_name entry);
                   d = snd (remove_path e (digest_path path) d);
                   d = rename_path e (download_path path) path d
               in finish_write e (stream j) (set_file_mtime path (fe_modified entry) d)
           | None \<Rightarrow> d)
      | MemoryCursor _ _ \<Rightarrow> d)"

definition remove_download_file :: "fs_env \<Rightarrow> transfer_job \<Rightarrow> disk \<Rightarrow> disk" where
  "remove_download_file e j d =
     (if job_kind j = Printer then d
      else case source j of
        FilePath p \<Rightarrow>
          (case file_index j (file_num j) of
             Some i \<Rightarrow>
               let path = join_path e p (fe_name (files j ! i));
                   d = snd (remove_path e (download_path path) d)
               in snd (remove_path e (digest_path path) d)
           | None \<Rightarrow> d)
      | MemoryCursor _ _ \<Rightarrow> d)"

definition set_finished_size_on_resume :: "transfer_job \<Rightarrow> transfer_job" where
  "set_finished_size_on_resume j =
     (if is_resume j \<and> 0 < file_num j
      then j\<lparr>finished_size := sum_sizes (take (nat (file_num j)) (files j))\<rparr> else j)"

text \<open>The branch of \<open>write\<close> that turns to another file.\<close>

definition start_file ::
  "fs_env \<Rightarrow> string \<Rightarrow> int \<Rightarrow> nat \<Rightarrow> transfer_job \<Rightarrow> disk \<Rightarrow> (transfer_error + unit) \<times> transfer_job \<times> disk" where
  "start_file e p n i j d =
     (let d = modify_time e j d;
          j = j\<lparr>file_num := n\<rparr>;
          file_path = join_path e p (fe_name (files j ! i));
          path = (if job_kind j = Printer then p else download_path file_path);
          dp = digest_path file_path
      in if job_kind j \<noteq> Printer \<and> path_exists d dp \<and> \<not> can_remove e dp then (Inl (IoFailed dp), j, d)
         else
           let d = (if job_kind j \<noteq> Printer then snd (remove_path e dp d) else d) in
           case create_path e path d of
             None \<Rightarrow> (Inl (IoFailed path), j, d)
           | Some (ino, d) \<Rightarrow>
               (Inr (), j\<lparr>stream := Some (FileStream ino 0)\<rparr>,
                if job_kind j \<noteq> Printer then write_file e dp (digest_json e (digest j)) d else d))"

definition write_stream ::
  "fs_env \<Rightarrow> bytes \<Rightarrow> transfer_job \<Rightarrow> disk \<Rightarrow> (transfer_error + unit) \<times> transfer_job \<times> disk" where
  "write_stream e bs j d =
     (case stream j of
        None \<Rightarrow> (Inl StreamIsNone, j, d)
      | Some (FileStream i pos) \<Rightarrow>
          if can_write e i then
            (Inr (), j\<lparr>stream := Some (FileStream i (pos + length bs))\<rparr>, write_at e i pos bs d)
          else (Inl (IoFailed []), j, d)
      | Some (BufStream c pos) \<Rightarrow>
          (Inr (), j\<lparr>stream := Some (BufStream (splice c pos bs) (pos + length bs))\<rparr>, d))"

text \<open>The data that a block carries.\<close>

definition block_data :: "fs_env \<Rightarrow> block \<Rightarrow> bytes" where
  "block_data e b = (if b_compressed b then decompress e (b_data b) else b_data b)"

text \<open>The part of \<open>write\<close> that gets the stream for the file of the block.\<close>

definition select_file ::
  "fs_env \<Rightarrow> block \<Rightarrow> transfer_job \<Rightarrow> disk \<Rightarrow> (transfer_error + unit) \<times> transfer_job \<times> disk" where
  "select_file e b j d =
     (case source j of
        FilePath p \<Rightarrow>
          (case file_index j (b_file_num b) of
             None \<Rightarrow> (Inl WrongFileNumber, j, d)
           | Some i \<Rightarrow>
               if b_file_num b \<noteq> file_num j \<or> stream j = None
               then start_file e p (b_file_num b) i j d else (Inr (), j, d))
      | MemoryCursor c pos \<Rightarrow>
          (Inr (), if stream j = None then j\<lparr>stream := Some (BufStream c pos)\<rparr> else j, d))"

definition write_block ::
  "fs_env \<Rightarrow> block \<Rightarrow> transfer_job \<Rightarrow> disk \<Rightarrow> (transfer_error + unit) \<times> transfer_job \<times> disk" where
  "write_block e b j d =
     (if b_id b \<noteq> job_id j then (Inl WrongId, j, d)
      else case select_file e b j d of
        (Inl err, j, d) \<Rightarrow> (Inl err, j, d)
      | (Inr u, j, d) \<Rightarrow>
          (case write_stream e (block_data e b) j d of
             (Inl err, j, d) \<Rightarrow> (Inl err, j, d)
           | (Inr u, j, d) \<Rightarrow>
               (Inr (), j\<lparr>finished_size := finished_size j + length (block_data e b),
                          transferred := transferred j + length (b_data b)\<rparr>, d)))"

section \<open>Reading\<close>

definition open_data_stream ::
  "fs_env \<Rightarrow> disk \<Rightarrow> transfer_job \<Rightarrow> (transfer_error + bool) \<times> transfer_job" where
  "open_data_stream e d j =
     (case source j of
        FilePath p \<Rightarrow>
          (case file_index j (file_num j) of
             None \<Rightarrow> (Inr True, j\<lparr>stream := None\<rparr>)
           | Some i \<Rightarrow>
               if stream j = None then
                 let path = join_path e p (fe_name (files j ! i)) in
                 case links d path of
                   Some ino \<Rightarrow>
                     if can_open e path then
                       (Inr False, j\<lparr>stream := Some (FileStream ino 0), file_confirmed := False,
                                      file_is_waiting := False\<rparr>)
                     else (Inl (IoFailed path), j\<lparr>file_num := file_num j + 1, file_confirmed := False,
                                      file_is_waiting := False\<rparr>)
                 | None \<Rightarrow> (Inl (NotExists path), j\<lparr>file_num := file_num j + 1, file_confirmed := False,
                                      file_is_waiting := False\<rparr>)
               else (Inr False, j))
      | MemoryCursor c pos \<Rightarrow>
          (Inr False, if stream j = None
                      then j\<lparr>source := MemoryCursor [] 0, stream := Some (BufStream c pos)\<rparr> else j))"

text \<open>The time and size of the file that is open.\<close>

definition get_current_digest :: "disk \<Rightarrow> transfer_job \<Rightarrow> transfer_error + nat \<times> nat" where
  "get_current_digest d j =
     (case stream j of
        None \<Rightarrow> Inl StreamIsNone
      | Some (FileStream i pos) \<Rightarrow> Inr (f_mtime (inodes d i), length (f_content (inodes d i)))
      | Some (BufStream c pos) \<Rightarrow> Inl NoDigestForBuffer)"

definition send_current_digest :: "disk \<Rightarrow> transfer_job \<Rightarrow> transfer_error + file_msg list" where
  "send_current_digest d j =
     (case get_current_digest d j of
        Inl err \<Rightarrow> Inl err
      | Inr (t, n) \<Rightarrow>
          Inr [MsgDigest \<lparr>td_id = job_id j, td_file_num = file_num j, td_last_modified = t,
                 td_file_size = n, td_is_upload = False, td_is_identical = False,
                 td_transferred_size = 0, td_is_resume = is_resume j\<rparr>])"

definition asks_first :: "transfer_job \<Rightarrow> bool" where
  "asks_first j =
     (job_kind j = Generic \<and> enable_overwrite_detection j \<and> \<not> file_confirmed j \<and> \<not> file_is_waiting j)"

definition init_data_stream ::
  "fs_env \<Rightarrow> disk \<Rightarrow> transfer_job \<Rightarrow> (transfer_error + file_msg list) \<times> transfer_job" where
  "init_data_stream e d j =
     (case open_data_stream e d j of
        (Inl err, j) \<Rightarrow> (Inl err, j)
      | (Inr True, j) \<Rightarrow> (Inr [], j)
      | (Inr False, j) \<Rightarrow>
          if asks_first j then
            (case send_current_digest d j of
               Inl err \<Rightarrow> (Inl err, j)
             | Inr ms \<Rightarrow> (Inr ms, j\<lparr>file_is_waiting := True\<rparr>))
          else (Inr [], j))"

definition init_data_stream_for_cm ::
  "fs_env \<Rightarrow> disk \<Rightarrow> transfer_job \<Rightarrow> (transfer_error + (nat \<times> nat) option) \<times> transfer_job" where
  "init_data_stream_for_cm e d j =
     (case open_data_stream e d j of
        (Inl err, j) \<Rightarrow> (Inl err, j)
      | (Inr True, j) \<Rightarrow> (Inr None, j)
      | (Inr False, j) \<Rightarrow>
          if asks_first j then
            (case get_current_digest d j of
               Inl err \<Rightarrow> (Inl err, j)
             | Inr x \<Rightarrow> (Inr (Some x), j\<lparr>file_is_waiting := True\<rparr>))
          else (Inr None, j))"

definition BUF_SIZE :: nat where
  "BUF_SIZE = 128 * 1024"

text \<open>
  A single read gives at least one byte and at most what fits and what is there; it gives none only
  at the end or when there is no room.
\<close>

definition os_read :: "fs_env \<Rightarrow> nat \<Rightarrow> nat \<Rightarrow> nat \<Rightarrow> nat \<Rightarrow> nat" where
  "os_read e i pos room avail =
     (if room = 0 \<or> avail = 0 then 0 else max 1 (min (read_size e i pos) (min room avail)))"

lemma os_read_bounds: "os_read e i pos room avail \<le> room" "os_read e i pos room avail \<le> avail"
  "os_read e i pos room avail = 0 \<longleftrightarrow> room = 0 \<or> avail = 0"
  by (auto simp: os_read_def max_def min_def)

text \<open>The loop that fills the buffer from position \<open>pos\<close> of \<open>c\<close>; \<open>None\<close> is a failed read.\<close>

function fill :: "fs_env \<Rightarrow> nat \<Rightarrow> bytes \<Rightarrow> nat \<Rightarrow> bytes \<Rightarrow> bytes option" where
  "fill e i c pos buf =
     (if read_fails e i pos then None
      else
        let n = os_read e i pos (BUF_SIZE - length buf) (length c - pos);
            buf' = buf @ take n (drop pos c)
        in if n = 0 \<or> length buf' = BUF_SIZE then Some buf' else fill e i c (pos + n) buf')"
  by pat_completeness auto
termination
proof (relation "measure (\<lambda>(e, i, c, pos, buf). BUF_SIZE - length buf)")
  fix e i c pos buf n buf'
  assume n: "n = os_read e i pos (BUF_SIZE - length buf) (length c - pos)"
    and b: "buf' = buf @ take n (drop pos c)" and go: "\<not> (n = 0 \<or> length buf' = BUF_SIZE)"
  from n go have "0 < n" "n \<le> BUF_SIZE - length buf" "n \<le> length c - pos"
    using os_read_bounds by (metis bot_nat_0.not_eq_extremum)+
  then show "((e, i, c, pos + n, buf'), e, i, c, pos, buf)
      \<in> measure (\<lambda>(e, i, c, pos, buf). BUF_SIZE - length buf)"
    by (simp add: b)
qed simp

declare fill.simps [simp del]

definition read_name :: "fs_env \<Rightarrow> string \<Rightarrow> transfer_job \<Rightarrow> nat \<Rightarrow> string" where
  "read_name e p j i =
     (if length (files j) = 1 \<and> fe_name (files j ! i) = [] then pfile_name e p else fe_name (files j ! i))"

definition next_file :: "transfer_job \<Rightarrow> transfer_job" where
  "next_file j =
     j\<lparr>file_num := file_num j + 1, stream := None, file_confirmed := False, file_is_waiting := False\<rparr>"

text \<open>What the loop reads from the stream of a job, and the stream after it.\<close>

definition read_stream :: "fs_env \<Rightarrow> disk \<Rightarrow> data_stream \<Rightarrow> (bytes \<times> data_stream) option" where
  "read_stream e d s =
     (case s of
        FileStream i pos \<Rightarrow>
          (case fill e i (f_content (inodes d i)) pos [] of
             None \<Rightarrow> None | Some buf \<Rightarrow> Some (buf, FileStream i (pos + length buf)))
      | BufStream c pos \<Rightarrow>
          let buf = take BUF_SIZE (drop pos c) in Some (buf, BufStream c (pos + length buf)))"

definition is_path :: "data_source \<Rightarrow> bool" where
  "is_path s = (case s of FilePath _ \<Rightarrow> True | MemoryCursor _ _ \<Rightarrow> False)"

definition read_block ::
  "fs_env \<Rightarrow> disk \<Rightarrow> transfer_job \<Rightarrow> (transfer_error + block option) \<times> transfer_job" where
  "read_block e d j =
     (if job_kind j = Generic \<and> enable_overwrite_detection j \<and> \<not> file_confirmed j then (Inr None, j)
      else
        case (case source j of
                FilePath p \<Rightarrow> map_option (read_name e p j) (file_index j (file_num j))
              | MemoryCursor _ _ \<Rightarrow> Some [])
        of None \<Rightarrow> (Inr None, j\<lparr>stream := None\<rparr>)
         | Some name \<Rightarrow>
             (case stream j of
                None \<Rightarrow> (Inl StreamIsNone, j)
              | Some s \<Rightarrow>
                  (case read_stream e d s of
                     None \<Rightarrow> (Inl (IoFailed name), next_file j)
                   | Some (buf, s') \<Rightarrow>
                       if buf = [] \<and> \<not> is_path (source j) then (Inr None, j\<lparr>stream := None\<rparr>)
                       else if buf = [] then
                         (Inr (Some \<lparr>b_id = job_id j, b_file_num = file_num j, b_data = [],
                                     b_compressed = False\<rparr>), next_file j)
                       else
                         let tmp = compress e buf;
                             z = (is_path (source j) \<and> \<not> is_compressed_file name \<and> length tmp < length buf);
                             out = (if z then tmp else buf)
                         in (Inr (Some \<lparr>b_id = job_id j, b_file_num = file_num j, b_data = out,
                                        b_compressed = z\<rparr>),
                             j\<lparr>stream := Some s', finished_size := finished_size j + length buf,
                               transferred := transferred j + length out\<rparr>))))"

section \<open>Confirmation\<close>

definition set_file_confirmed :: "bool \<Rightarrow> transfer_job \<Rightarrow> transfer_job" where
  "set_file_confirmed b j = j\<lparr>file_confirmed := b, file_skipped := False\<rparr>"

definition job_skipped :: "transfer_job \<Rightarrow> bool" where
  "job_skipped j = (file_skipped j \<and> length (files j) = 1)"

definition job_completed :: "transfer_job \<Rightarrow> bool" where
  "job_completed j = (\<not> enable_overwrite_detection j \<or> (\<not> file_confirmed j \<and> \<not> file_is_waiting j))"

definition job_error :: "transfer_job \<Rightarrow> transfer_error option" where
  "job_error j = (if job_skipped j then Some Skipped else None)"

definition set_file_skipped :: "transfer_job \<Rightarrow> transfer_job" where
  "set_file_skipped j =
     (let j = j\<lparr>stream := None\<rparr>;
          j = set_file_confirmed False j;
          j = j\<lparr>file_is_waiting := False\<rparr>
      in j\<lparr>file_num := file_num j + 1, file_skipped := True\<rparr>)"

text \<open>\<open>None\<close> is the panic of \<open>self.files[file_num]\<close>.\<close>

definition set_stream_offset ::
  "fs_env \<Rightarrow> int \<Rightarrow> nat \<Rightarrow> transfer_job \<Rightarrow> disk \<Rightarrow> (transfer_job \<times> disk) option" where
  "set_stream_offset e n off j d =
     (case source j of
        MemoryCursor _ _ \<Rightarrow> Some (j, d)
      | FilePath p \<Rightarrow>
          (case file_index j n of
             None \<Rightarrow> None
           | Some i \<Rightarrow>
               let path = join_path e p (fe_name (files j ! i));
                   seek = (\<lambda>q ok. case links d q of
                           Some ino \<Rightarrow> if ok then
                               j\<lparr>stream := Some (FileStream ino off), transferred := transferred j + off,
                                 finished_size := finished_size j + off\<rparr> else j
                         | None \<Rightarrow> j)
               in if path_exists d (download_path path) \<and> path_exists d (digest_path path)
                  then Some (seek (download_path path) (can_create e (download_path path)), d)
                  else Some (seek path (can_open e path), d)))"

definition confirm ::
  "fs_env \<Rightarrow> send_confirm \<Rightarrow> transfer_job \<Rightarrow> disk \<Rightarrow> (transfer_job \<times> disk) option" where
  "confirm e r j d =
     (if file_num j \<noteq> sc_file_num r then Some (j, d)
      else case sc_union r of
        Some (ConfirmSkip s) \<Rightarrow> Some (if s then set_file_skipped j else set_file_confirmed True j, d)
      | Some (ConfirmOffset off) \<Rightarrow>
          let j = set_file_confirmed True j in
          if 0 < off then set_stream_offset e (sc_file_num r) off j d else Some (j, d)
      | None \<Rightarrow> Some (j, d))"

datatype digest_check = IsSame | NeedConfirm file_transfer_digest | NoSuchFile

definition is_write_need_confirmation ::
  "fs_env \<Rightarrow> disk \<Rightarrow> bool \<Rightarrow> string \<Rightarrow> file_transfer_digest \<Rightarrow> digest_check" where
  "is_write_need_confirmation e d resume path dg =
     (let resumed =
        (if resume then
           case (file_at d (digest_path path), file_at d (download_path path)) of
             (Some df, Some dl) \<Rightarrow>
               (case parse_digest e (f_content df) of
                  Some loc \<Rightarrow>
                    if d_modified loc = td_last_modified dg \<and> d_size loc = td_file_size dg
                      \<and> 0 < length (f_content dl)
                    then Some (length (f_content dl)) else None
                | None \<Rightarrow> None)
           | _ \<Rightarrow> None
         else None)
      in case resumed of
        Some n \<Rightarrow>
          NeedConfirm \<lparr>td_id = td_id dg, td_file_num = td_file_num dg,
            td_last_modified = td_last_modified dg, td_file_size = td_file_size dg,
            td_is_upload = False, td_is_identical = True, td_transferred_size = n, td_is_resume = False\<rparr>
      | None \<Rightarrow>
          (case file_at d path of
             Some f \<Rightarrow>
               NeedConfirm \<lparr>td_id = td_id dg, td_file_num = td_file_num dg,
                 td_last_modified = f_mtime f, td_file_size = length (f_content f),
                 td_is_upload = False,
                 td_is_identical = (td_last_modified dg = f_mtime f \<and> td_file_size dg = length (f_content f)),
                 td_transferred_size = 0, td_is_resume = False\<rparr>
           | None \<Rightarrow> NoSuchFile))"

section \<open>The jobs of a connection\<close>

fun remove_job :: "int \<Rightarrow> transfer_job list \<Rightarrow> transfer_job option \<times> transfer_job list" where
  "remove_job i [] = (None, [])"
| "remove_job i (j # js) =
     (if job_id j = i then (Some j, js) else (case remove_job i js of (r, js') \<Rightarrow> (r, j # js')))"

definition get_job :: "int \<Rightarrow> transfer_job list \<Rightarrow> transfer_job option" where
  "get_job i js = find (\<lambda>j. job_id j = i) js"

text \<open>A change made through the reference that \<open>get_job\<close> returns.\<close>

fun set_job :: "int \<Rightarrow> transfer_job \<Rightarrow> transfer_job list \<Rightarrow> transfer_job list" where
  "set_job i j' [] = []"
| "set_job i j' (j # js) = (if job_id j = i then j' # js else j # set_job i j' js)"

fun init_jobs :: "fs_env \<Rightarrow> disk \<Rightarrow> transfer_job list \<Rightarrow> file_msg list \<times> transfer_job list" where
  "init_jobs e d [] = ([], [])"
| "init_jobs e d (j # js) =
     (case init_jobs e d js of (ms', js') \<Rightarrow>
        if is_last_job j then (ms', j # js')
        else case init_data_stream e d j of
          (Inl err, j') \<Rightarrow> (MsgError (job_id j') err (file_num j') # ms', j' # js')
        | (Inr ms, j') \<Rightarrow> (ms @ ms', j' # js'))"

text \<open>The log entry of a job: the job, whether it is done or cancelled, and the error.\<close>

datatype job_log = JobLog transfer_job bool bool "transfer_error option"

text \<open>The first job that is not a left-over reads; \<open>Some\<close> in the third part says it is finished.\<close>

fun read_first ::
  "fs_env \<Rightarrow> disk \<Rightarrow> transfer_job list \<Rightarrow> file_msg list \<times> job_log option \<times> int list \<times> transfer_job list" where
  "read_first e d [] = ([], None, [], [])"
| "read_first e d (j # js) =
     (if is_last_job j then (case read_first e d js of (ms, l, fin, js') \<Rightarrow> (ms, l, fin, j # js'))
      else case read_block e d j of
        (Inl err, j') \<Rightarrow> ([MsgError (job_id j') err (file_num j')], None, [], j' # js)
      | (Inr (Some b), j') \<Rightarrow> ([MsgBlock b], None, [], j' # js)
      | (Inr None, j') \<Rightarrow>
          if job_completed j' then
            (case job_error j' of
               Some err \<Rightarrow> ([MsgError (job_id j') err (file_num j')], Some (JobLog j' False False (Some err)),
                           [job_id j'], j' # js)
             | None \<Rightarrow> ([MsgDone (job_id j') (file_num j')], Some (JobLog j' True False None),
                        [job_id j'], j' # js))
          else ([], None, [], j' # js))"

definition handle_read_jobs ::
  "fs_env \<Rightarrow> disk \<Rightarrow> transfer_job list \<Rightarrow> file_msg list \<times> job_log option \<times> transfer_job list" where
  "handle_read_jobs e d js =
     (case init_jobs e d js of (ms, js) \<Rightarrow>
      case read_first e d js of (ms', l, fin, js) \<Rightarrow>
        (ms @ ms', l, fold (\<lambda>i js. snd (remove_job i js)) fin js))"

definition fs_rename_file :: "fs_env \<Rightarrow> (string \<Rightarrow> string option) \<Rightarrow> string \<Rightarrow> string \<Rightarrow> disk \<Rightarrow> (transfer_error + unit) \<times> disk" where
  "fs_rename_file e parent path new_name d =
     (if path_exists d path then
        (case parent path of
           None \<Rightarrow> (Inl (NotExists path), d)
         | Some dir \<Rightarrow>
             let new_path = pjoin e dir new_name in
             if can_rename e path new_path then (Inr (), rename_path e path new_path d)
             else (Inl (IoFailed path), d))
      else (Inl (NotExists path), d))"

section \<open>Facts about the disk\<close>

text \<open>Every path has a file of its own.\<close>

definition disk_ok :: "disk \<Rightarrow> bool" where
  "disk_ok d = ((\<forall>p i. links d p = Some i \<longrightarrow> i < next_inode d) \<and>
     (\<forall>p q i. links d p = Some i \<longrightarrow> links d q = Some i \<longrightarrow> p = q))"

lemma disk_okD: "disk_ok d \<Longrightarrow> links d p = Some i \<Longrightarrow> i < next_inode d"
  "disk_ok d \<Longrightarrow> links d p = Some i \<Longrightarrow> links d q = Some i \<Longrightarrow> p = q"
  unfolding disk_ok_def by blast+

lemma ok_remove: "disk_ok d \<Longrightarrow> disk_ok (snd (remove_path e p d))"
  unfolding disk_ok_def remove_path_def by auto

lemma ok_rename: "disk_ok d \<Longrightarrow> disk_ok (rename_path e a b d)"
  unfolding disk_ok_def rename_path_def by (auto split: option.splits)

lemma create_cases:
  assumes "create_path e p d = Some (i, d')"
  shows "can_create e p" and "i = (case links d p of Some i \<Rightarrow> i | None \<Rightarrow> next_inode d)"
    and "links d' = (links d)(p \<mapsto> i)"
    and "inodes d' = (inodes d)(i := \<lparr>f_content = [], f_mtime = clock e\<rparr>)"
    and "next_inode d' = (if links d p = None then Suc (next_inode d) else next_inode d)"
proof -
  show c: "can_create e p" using assms by (cases "can_create e p") (simp_all add: create_path_def)
  show "i = (case links d p of Some i \<Rightarrow> i | None \<Rightarrow> next_inode d)" "links d' = (links d)(p \<mapsto> i)"
    "inodes d' = (inodes d)(i := \<lparr>f_content = [], f_mtime = clock e\<rparr>)"
    "next_inode d' = (if links d p = None then Suc (next_inode d) else next_inode d)"
    using assms c by (cases "links d p"; auto simp: create_path_def Let_def)+
qed

lemma ok_create:
  assumes "disk_ok d" and "create_path e p d = Some (i, d')"
  shows "disk_ok d'"
proof -
  note c = create_cases [OF assms(2)]
  have fresh: "links d q \<noteq> Some (next_inode d)" for q
    using disk_okD(1) [OF assms(1), of q "next_inode d"] by auto
  show ?thesis
  proof (cases "links d p")
    case None
    then show ?thesis using assms(1) fresh unfolding disk_ok_def
      by (auto simp: c(2,3,5) intro: less_SucI)
  next
    case (Some k)
    then have "links d' = links d" "next_inode d' = next_inode d" using c by auto
    then show ?thesis using assms(1) by (simp add: disk_ok_def)
  qed
qed

lemma ok_write_at: "disk_ok d \<Longrightarrow> disk_ok (write_at e i pos bs d)"
  unfolding disk_ok_def write_at_def by auto

lemma ok_write_file: "disk_ok d \<Longrightarrow> disk_ok (write_file e p bs d)"
  unfolding write_file_def by (auto split: option.splits dest: ok_create intro: ok_write_at)

lemma ok_finish: "disk_ok d \<Longrightarrow> disk_ok (finish_write e s d)"
  unfolding disk_ok_def finish_write_def by (auto split: option.splits data_stream.splits)

lemma finish_in_time: "\<forall>i. \<not> write_lags e i \<Longrightarrow> finish_write e s d = d"
  by (simp add: finish_write_def split: option.split data_stream.split)

lemma ok_mtime: "disk_ok d \<Longrightarrow> disk_ok (set_file_mtime p t d)"
  unfolding disk_ok_def set_file_mtime_def by (auto split: option.splits)

lemmas disk_oks = ok_remove ok_rename ok_create ok_write_at ok_write_file ok_mtime

lemma at_remove:
  "file_at (snd (remove_path e p d)) q = (if q = p \<and> can_remove e p then None else file_at d q)"
  by (auto simp: file_at_def remove_path_def path_exists_def)

lemma at_rename:
  "file_at (rename_path e a b d) q =
     (if file_at d a \<noteq> None \<and> can_rename e a b
      then if q = b then file_at d a else if q = a then None else file_at d q
      else file_at d q)"
  by (auto simp: file_at_def rename_path_def split: option.splits)

lemma at_create:
  assumes "disk_ok d" and "create_path e p d = Some (i, d')"
  shows "file_at d' q = (if q = p then Some \<lparr>f_content = [], f_mtime = clock e\<rparr> else file_at d q)"
    and "links d' p = Some i"
proof -
  note c = create_cases [OF assms(2)]
  have "links d q \<noteq> Some i" if "q \<noteq> p"
  proof (cases "links d p")
    case None
    then show ?thesis using c(2) disk_okD(1) [OF assms(1), of q i] by auto
  next
    case (Some k)
    then show ?thesis using c(2) disk_okD(2) [OF assms(1) Some, of q] that by auto
  qed
  then show "file_at d' q = (if q = p then Some \<lparr>f_content = [], f_mtime = clock e\<rparr> else file_at d q)"
    by (cases "links d q") (auto simp: file_at_def c(3,4))
  show "links d' p = Some i" by (simp add: c(3))
qed

lemma at_write_at:
  assumes "disk_ok d" and "links d p = Some i"
  shows "file_at (write_at e i pos bs d) q =
    (if q = p then Some \<lparr>f_content = splice (f_content (inodes d i)) pos bs, f_mtime = clock e\<rparr>
     else file_at d q)"
  using disk_okD(2) [OF assms, of q] assms(2) by (cases "links d q") (auto simp: file_at_def write_at_def)

lemma at_mtime:
  assumes "disk_ok d"
  shows "file_at (set_file_mtime p t d) q =
    (if q = p then map_option (\<lambda>f. f\<lparr>f_mtime := t\<rparr>) (file_at d p) else file_at d q)"
  using disk_okD(2) [OF assms, of p _ q]
  by (cases "links d q") (auto simp: file_at_def set_file_mtime_def split: option.splits)

lemma splice_0: "splice [] 0 bs = bs"
  by (simp add: splice_def)

lemma splice_end: "splice c (length c) bs = c @ bs"
  by (simp add: splice_def)

lemma at_write_file:
  assumes "disk_ok d"
  shows "file_at (write_file e p bs d) q =
    (if q = p \<and> can_create e p then Some \<lparr>f_content = bs, f_mtime = clock e\<rparr> else file_at d q)"
proof (cases "create_path e p d")
  case None
  then show ?thesis by (auto simp: write_file_def create_path_def Let_def split: if_splits)
next
  case (Some x)
  then obtain i d' where x: "create_path e p d = Some (i, d')" by (cases x) auto
  then have c: "can_create e p" by (rule create_cases)
  note at_create [OF assms x]
  moreover have "disk_ok d'" using ok_create [OF assms x] .
  moreover have "f_content (inodes d' i) = []"
    by (simp add: create_cases(4) [OF x])
  ultimately show ?thesis using c at_write_at [of d' p i e 0 bs q]
    by (simp add: write_file_def x splice_0)
qed

lemma links_write_file:
  "q \<noteq> p \<Longrightarrow> links (write_file e p bs d) q = links d q"
  by (auto simp: write_file_def write_at_def create_cases(3) split: option.splits)

section \<open>Reading in pieces\<close>

text \<open>However small the pieces are that the system gives, the loop fills the buffer from the file.\<close>

lemma fill_eq:
  assumes "\<And>q. \<not> read_fails e i q" and "length buf \<le> BUF_SIZE"
  shows "fill e i c pos buf = Some (buf @ take (BUF_SIZE - length buf) (drop pos c))"
  using assms
proof (induction e i c pos buf rule: fill.induct)
  case (1 e i c pos buf)
  define n where "n = os_read e i pos (BUF_SIZE - length buf) (length c - pos)"
  define buf' where "buf' = buf @ take n (drop pos c)"
  have n: "n \<le> BUF_SIZE - length buf" "n \<le> length c - pos" "n = 0 \<longleftrightarrow> length buf = BUF_SIZE \<or> length c \<le> pos"
    using os_read_bounds 1(3) unfolding n_def by (auto)
  then have l: "length buf' = length buf + n" by (simp add: buf'_def)
  have f: "fill e i c pos buf = (if n = 0 \<or> length buf' = BUF_SIZE then Some buf' else fill e i c (pos + n) buf')"
    by (subst fill.simps) (simp add: 1(2) n_def buf'_def Let_def)
  show ?case
  proof (cases "n = 0 \<or> length buf' = BUF_SIZE")
    case True
    then have "n = 0 \<and> (length buf = BUF_SIZE \<or> length c \<le> pos) \<or> n = BUF_SIZE - length buf"
      using n l by auto
    then show ?thesis using True unfolding f by (auto simp: buf'_def)
  next
    case False
    then have "fill e i c (pos + n) buf' = Some (buf' @ take (BUF_SIZE - length buf') (drop (pos + n) c))"
      using 1(1) [OF 1(2) n_def buf'_def False 1(2)] l n by simp
    moreover have "take n (drop pos c) @ take (BUF_SIZE - (length buf + n)) (drop (pos + n) c)
        = take (BUF_SIZE - length buf) (drop pos c)"
    proof -
      have "BUF_SIZE - length buf = n + (BUF_SIZE - (length buf + n))" using n(1) by simp
      then have "take (BUF_SIZE - length buf) (drop pos c) = take (n + (BUF_SIZE - (length buf + n))) (drop pos c)"
        by (rule arg_cong)
      then show ?thesis by (simp add: take_add add.commute)
    qed
    ultimately show ?thesis using False l unfolding f by (simp add: buf'_def)
  qed
qed

end
