(* ===== verification/FileManager.thy ===== *)
theory FileManager
  imports FileTransfer
begin

text \<open>
  The process that touches files for the connections of the host (\<open>handle_fs\<close> and the read jobs of
  \<open>src/ui_cm_interface.rs\<close>): what a peer asks for arrives as an \<open>fs_op\<close>, the answers are
  messages to the peer or results for the connection. What is found under a path (\<open>look\<close>) and
  which directories can be made or removed belong to the environment.
\<close>

record fm_env = fs_env +
  separator :: char
  on_windows :: bool
  look :: "disk \<Rightarrow> string \<Rightarrow> node option"
  path_parent_of :: "string \<Rightarrow> string option"
  can_mkdir :: "string \<Rightarrow> bool"
  can_rmdir :: "string \<Rightarrow> bool"
  home_dir :: string
  max_files_option :: string

definition base :: "fm_env \<Rightarrow> fs_env" where
  "base e = fs_env.truncate e"

record file_manager =
  write_jobs :: "transfer_job list"
  read_jobs :: "transfer_job list"
  fm_disk :: disk

datatype fs_op =
    FsReadEmptyDirs string bool
  | FsReadDir string bool
  | FsRemoveDir string int bool
  | FsRemoveFile string int int
  | FsCreateDir string int
  | FsNewWrite string int int "(string \<times> nat) list" bool nat int
  | FsCancelWrite int
  | FsWriteDone int int
  | FsWriteError int int transfer_error
  | FsWriteBlock block
  | FsCheckDigest int int nat nat bool bool
  | FsSendConfirm send_confirm
  | FsRename int string string
  | FsReadFile string int int bool int bool
  | FsCancelRead int int
  | FsSendConfirmForRead int int bool nat int
  | FsReadAllFiles string int bool int

text \<open>What the process sends back.\<close>

datatype fm_out =
    RawMessage file_msg
  | ReadJobInitResult int int bool int "string + string \<times> file_entry list"
  | FileDigestFromCM int int nat nat bool int
  | FileBlockFromCM block int
  | FileReadDone int int int
  | FileReadError int int transfer_error int
  | AllFilesResult int int string "string + file_entry list"
  | TransferLog job_log
  | DirListing string "file_entry list"

section \<open>Checks of the request\<close>

definition get_max_validated_files :: "string \<Rightarrow> nat" where
  "get_max_validated_files option =
     (let c = (case parse_unsigned usize_max (trim option) of Some n \<Rightarrow> n | None \<Rightarrow> usize_max)
      in if c = 0 then 10000 else c)"

definition check_file_count_limit :: "string \<Rightarrow> nat \<Rightarrow> string + unit" where
  "check_file_count_limit option n =
     (if get_max_validated_files option < n then Inl ''file transfer rejected: too many files'' else Inr ())"

definition is_path_sep :: "char \<Rightarrow> bool" where
  "is_path_sep c = (c = CHR ''/'' \<or> c = CHR 0x5C)"

definition is_ascii_alphabetic :: "char \<Rightarrow> bool" where
  "is_ascii_alphabetic c =
     (let n = (of_char c :: nat) in (65 \<le> n \<and> n \<le> 90) \<or> (97 \<le> n \<and> n \<le> 122))"

definition validate_file_name_no_traversal :: "bool \<Rightarrow> string \<Rightarrow> string + unit" where
  "validate_file_name_no_traversal windows name =
     (if CHR 0x00 \<in> set name then Inl ''file name contains null bytes''
      else if (\<exists>c \<in> set (filter (\<lambda>s. s \<noteq> []) (split_on is_path_sep name)). c = ''..'')
        then Inl ''path traversal detected in file name''
      else if windows \<and> 2 \<le> length name \<and> is_ascii_alphabetic (name ! 0) \<and> name ! 1 = CHR '':''
        then Inl ''absolute path detected in file name''
      else if starts_with name ''/'' \<or> starts_with name [CHR 0x5C]
        then Inl ''absolute path detected in file name''
      else Inr ())"

definition is_single_file_with_empty_name :: "(string \<times> nat) list \<Rightarrow> bool" where
  "is_single_file_with_empty_name fs = (length fs = 1 \<and> fst (hd fs) = [])"

fun validate_names :: "bool \<Rightarrow> (string \<times> nat) list \<Rightarrow> string + unit" where
  "validate_names windows [] = Inr ()"
| "validate_names windows ((name, t) # fs) =
     (if name = [] then Inl ''empty file name in multi-file transfer''
      else case validate_file_name_no_traversal windows name of
        Inl err \<Rightarrow> Inl err
      | Inr u \<Rightarrow> validate_names windows fs)"

definition validate_transfer_file_names :: "bool \<Rightarrow> (string \<times> nat) list \<Rightarrow> string + unit" where
  "validate_transfer_file_names windows fs =
     (if is_single_file_with_empty_name fs then Inr () else validate_names windows fs)"

section \<open>Directories and single files\<close>

definition handle_result :: "transfer_error + unit \<Rightarrow> int \<Rightarrow> int \<Rightarrow> fm_out list" where
  "handle_result r i n =
     [RawMessage (case r of Inl err \<Rightarrow> MsgError i err n | Inr u \<Rightarrow> MsgDone i n)]"

definition fm_read_dir :: "fm_env \<Rightarrow> disk \<Rightarrow> string \<Rightarrow> bool \<Rightarrow> fm_out list" where
  "fm_read_dir e d dir hid =
     (let path = (if dir = [] then home_dir e else dir) in
      case look e d path of
        Some (DirNode m None es) \<Rightarrow> [DirListing path (read_dir hid es)]
      | _ \<Rightarrow> [])"

definition fm_read_empty_dirs :: "fm_env \<Rightarrow> disk \<Rightarrow> string \<Rightarrow> bool \<Rightarrow> fm_out list" where
  "fm_read_empty_dirs e d dir hid =
     (case get_empty_dirs_recursive (separator e) hid dir (look e d dir) of
        Inr ds \<Rightarrow> [RawMessage (MsgEmptyDirs dir ds)]
      | Inl _ \<Rightarrow> [])"

definition fm_remove_file :: "fm_env \<Rightarrow> string \<Rightarrow> int \<Rightarrow> int \<Rightarrow> disk \<Rightarrow> fm_out list \<times> disk" where
  "fm_remove_file e path i n d =
     (case remove_path (base e) path d of
        (gone, d') \<Rightarrow> (handle_result (if gone then Inr () else Inl (IoFailed path)) i n, d'))"

definition fm_create_dir :: "fm_env \<Rightarrow> string \<Rightarrow> int \<Rightarrow> fm_out list" where
  "fm_create_dir e path i =
     handle_result (if can_mkdir e path then Inr () else Inl (IoFailed path)) i 0"

definition fm_rename_file :: "fm_env \<Rightarrow> string \<Rightarrow> string \<Rightarrow> int \<Rightarrow> disk \<Rightarrow> fm_out list \<times> disk" where
  "fm_rename_file e path new_name i d =
     (if new_name = [] then (handle_result (Inl (Rejected ''new file name cannot be empty'')) i 0, d)
      else case validate_file_name_no_traversal (on_windows e) new_name of
        Inl err \<Rightarrow> (handle_result (Inl (Rejected err)) i 0, d)
      | Inr u \<Rightarrow>
          (case fs_rename_file (base e) (path_parent_of e) path new_name d of
             (r, d') \<Rightarrow> (handle_result r i 0, d')))"

text \<open>\<open>remove_all_empty_dir\<close> fails only where the directory can not be read.\<close>

definition fm_remove_dir :: "fm_env \<Rightarrow> disk \<Rightarrow> string \<Rightarrow> int \<Rightarrow> bool \<Rightarrow> fm_out list" where
  "fm_remove_dir e d path i recursive =
     handle_result
       (if (if recursive then (case look e d path of Some (DirNode m None es) \<Rightarrow> True | _ \<Rightarrow> False)
            else can_rmdir e path)
        then Inr () else Inl (IoFailed path)) i 0"

section \<open>Reading jobs\<close>

definition start_read_job ::
  "fm_env \<Rightarrow> string \<Rightarrow> int \<Rightarrow> bool \<Rightarrow> int \<Rightarrow> int \<Rightarrow> bool \<Rightarrow> file_manager \<Rightarrow> fm_out list \<times> file_manager" where
  "start_read_job e path n hid i cid od m =
     (case new_read (separator e) (look e (fm_disk m)) i Generic [] (FilePath path) n hid True od of
        Inl err \<Rightarrow> ([ReadJobInitResult i n hid cid (Inl (''validation failed: '' @ err))], m)
      | Inr job \<Rightarrow>
          (case check_file_count_limit (max_files_option e) (length (files job)) of
             Inl msg \<Rightarrow> ([ReadJobInitResult i n hid cid (Inl msg)], m)
           | Inr u \<Rightarrow>
               ([ReadJobInitResult i n hid cid (Inr (path, files job))],
                m\<lparr>read_jobs := read_jobs m @ [job\<lparr>job_conn_id := cid\<rparr>]\<rparr>)))"

definition init_read_job_for_cm ::
  "fm_env \<Rightarrow> disk \<Rightarrow> int \<Rightarrow> transfer_job \<Rightarrow> (transfer_error + fm_out list) \<times> transfer_job" where
  "init_read_job_for_cm e d cid j =
     (case init_data_stream_for_cm (base e) d j of
        (Inl err, j) \<Rightarrow> (Inl err, j)
      | (Inr (Some (t, n)), j) \<Rightarrow>
          (Inr [FileDigestFromCM (job_id j) (file_num j) t n (is_resume j) cid], j)
      | (Inr None, j) \<Rightarrow> (Inr [], j))"

text \<open>One tick: the jobs, the messages, and the ids of the jobs that are finished.\<close>

fun read_jobs_tick ::
  "fm_env \<Rightarrow> disk \<Rightarrow> int \<Rightarrow> transfer_job list \<Rightarrow> fm_out list \<times> int list \<times> transfer_job list" where
  "read_jobs_tick e d cid [] = ([], [], [])"
| "read_jobs_tick e d cid (j # js) =
     (if is_last_job j then (case read_jobs_tick e d cid js of (ms, fin, js') \<Rightarrow> (ms, fin, j # js'))
      else case init_read_job_for_cm e d cid j of
        (Inl err, j1) \<Rightarrow>
          (case read_jobs_tick e d cid js of
             (ms, fin, js') \<Rightarrow>
               (FileReadError (job_id j1) (file_num j1) err cid # ms, job_id j1 # fin, j1 # js'))
      | (Inr ms, j1) \<Rightarrow>
          (case read_block (base e) d j1 of
             (Inl err, j2) \<Rightarrow>
               (ms @ [FileReadError (job_id j2) (file_num j2) err cid], [job_id j2], j2 # js)
           | (Inr (Some b), j2) \<Rightarrow> (ms @ [FileBlockFromCM b cid], [], j2 # js)
           | (Inr None, j2) \<Rightarrow>
               if job_completed j2 then
                 (ms @ [case job_error j2 of
                          Some err \<Rightarrow> FileReadError (job_id j2) (file_num j2) err cid
                        | None \<Rightarrow> FileReadDone (job_id j2) (file_num j2) cid],
                  [job_id j2], j2 # js)
               else (ms, [], j2 # js)))"

definition handle_read_jobs_tick ::
  "fm_env \<Rightarrow> disk \<Rightarrow> int \<Rightarrow> transfer_job list \<Rightarrow> fm_out list \<times> transfer_job list" where
  "handle_read_jobs_tick e d cid js =
     (case read_jobs_tick e d cid js of
        (ms, fin, js) \<Rightarrow> (ms, fold (\<lambda>i js. snd (remove_job i js)) fin js))"

definition read_all_files :: "fm_env \<Rightarrow> disk \<Rightarrow> string \<Rightarrow> bool \<Rightarrow> int \<Rightarrow> int \<Rightarrow> fm_out list" where
  "read_all_files e d path hid i cid =
     [AllFilesResult i cid path
        (case get_recursive_files (separator e) hid (look e d path) of
           Inl err \<Rightarrow> Inl err
         | Inr fs \<Rightarrow> (case check_file_count_limit (max_files_option e) (length fs) of
                       Inl msg \<Rightarrow> Inl msg | Inr u \<Rightarrow> Inr fs))]"

section \<open>The requests\<close>

definition plain_entry :: "string \<times> nat \<Rightarrow> file_entry" where
  "plain_entry f =
     \<lparr>fe_name = fst f, fe_type = TypeDir, fe_hidden = False, fe_size = 0, fe_modified = snd f\<rparr>"

definition fm_new_write ::
  "fm_env \<Rightarrow> string \<Rightarrow> int \<Rightarrow> int \<Rightarrow> (string \<times> nat) list \<Rightarrow> bool \<Rightarrow> nat \<Rightarrow> int \<Rightarrow> file_manager
    \<Rightarrow> fm_out list \<times> file_manager" where
  "fm_new_write e path i n fs od tot cid m =
     (case validate_transfer_file_names (on_windows e) fs of
        Inl err \<Rightarrow> ([RawMessage (MsgError i (Rejected err) n)], m)
      | Inr u \<Rightarrow>
          let job = new_write i Generic [] (FilePath path) n False False (map plain_entry fs) od
          in ([], m\<lparr>write_jobs := write_jobs m @ [job\<lparr>total_size := tot, job_conn_id := cid\<rparr>]\<rparr>))"

definition fm_write_block :: "fm_env \<Rightarrow> block \<Rightarrow> file_manager \<Rightarrow> fm_out list \<times> file_manager" where
  "fm_write_block e b m =
     (case get_job (b_id b) (write_jobs m) of
        None \<Rightarrow> ([], m)
      | Some j \<Rightarrow>
          (case write_block (base e) b j (fm_disk m) of
             (r, j', d') \<Rightarrow>
               (case r of Inl err \<Rightarrow> [RawMessage (MsgError (b_id b) err (b_file_num b))] | Inr u \<Rightarrow> [],
                m\<lparr>write_jobs := set_job (b_id b) j' (write_jobs m), fm_disk := d'\<rparr>)))"

definition fm_check_digest ::
  "fm_env \<Rightarrow> int \<Rightarrow> int \<Rightarrow> nat \<Rightarrow> nat \<Rightarrow> bool \<Rightarrow> bool \<Rightarrow> file_manager \<Rightarrow> fm_out list \<times> file_manager" where
  "fm_check_digest e i n sz modified upload resume m =
     (case get_job i (write_jobs m) of
        None \<Rightarrow> ([], m)
      | Some j \<Rightarrow>
          (case (source j, file_index j n) of
             (FilePath p, Some k) \<Rightarrow>
               let dg = \<lparr>td_id = i, td_file_num = n, td_last_modified = modified, td_file_size = sz,
                         td_is_upload = False, td_is_identical = False, td_transferred_size = 0,
                         td_is_resume = False\<rparr>;
                   path = join_path (base e) p (fe_name (files j ! k));
                   out = (case is_write_need_confirmation (base e) (fm_disk m) resume path dg of
                            IsSame \<Rightarrow> MsgConfirm \<lparr>sc_id = i, sc_file_num = n, sc_union = Some (ConfirmSkip True)\<rparr>
                          | NeedConfirm dg' \<Rightarrow> MsgDigest (dg'\<lparr>td_is_upload := upload\<rparr>)
                          | NoSuchFile \<Rightarrow> MsgConfirm \<lparr>sc_id = i, sc_file_num = n, sc_union = Some (ConfirmOffset 0)\<rparr>)
               in ([RawMessage out],
                   m\<lparr>write_jobs := set_job i (j\<lparr>digest := \<lparr>d_size = sz, d_modified = modified\<rparr>\<rparr>)
                                     (write_jobs m)\<rparr>)
           | _ \<Rightarrow> ([], m)))"

text \<open>\<open>None\<close> is a panic of the process.\<close>

definition confirm_in ::
  "fm_env \<Rightarrow> send_confirm \<Rightarrow> transfer_job list \<Rightarrow> disk \<Rightarrow> (transfer_job list \<times> disk) option" where
  "confirm_in e r js d =
     (case get_job (sc_id r) js of
        None \<Rightarrow> Some (js, d)
      | Some j \<Rightarrow>
          (case confirm (base e) r j d of
             None \<Rightarrow> None
           | Some (j', d') \<Rightarrow> Some (set_job (sc_id r) j' js, d')))"

fun handle_fs :: "fm_env \<Rightarrow> fs_op \<Rightarrow> file_manager \<Rightarrow> (fm_out list \<times> file_manager) option" where
  "handle_fs e (FsReadEmptyDirs dir hid) m = Some (fm_read_empty_dirs e (fm_disk m) dir hid, m)"
| "handle_fs e (FsReadDir dir hid) m = Some (fm_read_dir e (fm_disk m) dir hid, m)"
| "handle_fs e (FsRemoveDir path i recursive) m = Some (fm_remove_dir e (fm_disk m) path i recursive, m)"
| "handle_fs e (FsRemoveFile path i n) m =
     (case fm_remove_file e path i n (fm_disk m) of (ms, d) \<Rightarrow> Some (ms, m\<lparr>fm_disk := d\<rparr>))"
| "handle_fs e (FsCreateDir path i) m = Some (fm_create_dir e path i, m)"
| "handle_fs e (FsNewWrite path i n fs od tot cid) m = Some (fm_new_write e path i n fs od tot cid m)"
| "handle_fs e (FsCancelWrite i) m =
     (case remove_job i (write_jobs m) of
        (Some j, js) \<Rightarrow>
          Some ([TransferLog (JobLog j False True None)],
                m\<lparr>write_jobs := js, fm_disk := remove_download_file (base e) j (fm_disk m)\<rparr>)
      | (None, js) \<Rightarrow> Some ([], m))"
| "handle_fs e (FsWriteDone i n) m =
     (case remove_job i (write_jobs m) of
        (Some j, js) \<Rightarrow>
          Some ([RawMessage (MsgDone i n), TransferLog (JobLog j True False None)],
                m\<lparr>write_jobs := js, fm_disk := modify_time (base e) j (fm_disk m)\<rparr>)
      | (None, js) \<Rightarrow> Some ([], m))"
| "handle_fs e (FsWriteError i n err) m =
     (case remove_job i (write_jobs m) of
        (Some j, js) \<Rightarrow>
          Some ([TransferLog (JobLog j False False (Some err)),
                 RawMessage (MsgError (job_id j) err n)], m\<lparr>write_jobs := js\<rparr>)
      | (None, js) \<Rightarrow> Some ([], m))"
| "handle_fs e (FsWriteBlock b) m = Some (fm_write_block e b m)"
| "handle_fs e (FsCheckDigest i n sz modified upload resume) m =
     Some (fm_check_digest e i n sz modified upload resume m)"
| "handle_fs e (FsSendConfirm r) m =
     (case confirm_in e r (write_jobs m) (fm_disk m) of
        None \<Rightarrow> None
      | Some (js, d) \<Rightarrow> Some ([], m\<lparr>write_jobs := js, fm_disk := d\<rparr>))"
| "handle_fs e (FsRename i path new_name) m =
     (case fm_rename_file e path new_name i (fm_disk m) of (ms, d) \<Rightarrow> Some (ms, m\<lparr>fm_disk := d\<rparr>))"
| "handle_fs e (FsReadFile path i n hid cid od) m = Some (start_read_job e path n hid i cid od m)"
| "handle_fs e (FsCancelRead i cid) m =
     (case remove_job i (read_jobs m) of
        (Some j, js) \<Rightarrow> Some ([TransferLog (JobLog j False True None)], m\<lparr>read_jobs := js\<rparr>)
      | (None, js) \<Rightarrow> Some ([], m))"
| "handle_fs e (FsSendConfirmForRead i n skip off cid) m =
     (case get_job i (read_jobs m) of
        None \<Rightarrow> Some ([], m)
      | Some j \<Rightarrow>
          (case confirm_in e \<lparr>sc_id = i, sc_file_num = file_num j,
                  sc_union = Some (if skip then ConfirmSkip True else ConfirmOffset off)\<rparr>
                  (read_jobs m) (fm_disk m) of
             None \<Rightarrow> None
           | Some (js, d) \<Rightarrow> Some ([], m\<lparr>read_jobs := js, fm_disk := d\<rparr>)))"
| "handle_fs e (FsReadAllFiles path i hid cid) m = Some (read_all_files e (fm_disk m) path hid i cid, m)"

end
