(* ===== verification/FileClient.thy ===== *)
theory FileClient
  imports FileManager Address
begin

text \<open>
  The viewer's side of file transfer (\<open>src/client/io_loop.rs\<close>): the answers of the host about
  files, the commands of the user interface, and the jobs that read and write the viewer's own
  files. What is sent and what the interface shows are the outputs; \<open>None\<close> is a panic. The viewer's
  environment is that of a file manager for its own machine, with the platform and version of the
  peer.
\<close>

datatype file_action =
    ActAllFiles int string bool
  | ActSend int job_type string int bool
  | ActReceive int string int "file_entry list" nat
  | ActRemoveDir int string bool
  | ActRemoveFile int string int
  | ActCreate int string
  | ActCancel int
  | ActSendConfirm send_confirm
  | ActRename int string string
  | ActReadDir string bool
  | ActReadEmptyDirs string bool

datatype client_out =
    ToPeer file_action
  | ToPeerMsg file_msg
  | JobError int transfer_error int
  | JobDone int int
  | OverrideFileConfirm int int string bool bool
  | UpdateFolderFiles int "file_entry list" string bool bool
  | ConfirmDelete int int string
  | UpdateEmptyDirs string "string list"
  | SelfRemoveFile int string int bool
  | PrintJob "bytes option" "transfer_error option"

record client_env = fm_env +
  peer_is_windows :: bool
  peer_version :: "64 word"
  path_sep :: "bool \<Rightarrow> string"

definition fenv :: "client_env \<Rightarrow> fs_env" where
  "fenv e = fs_env.truncate e"

record remove_job_state =
  rj_files :: "file_entry list"
  rj_path :: string
  rj_sep :: string
  rj_is_remote :: bool
  rj_no_confirm :: bool
  rj_last_update :: int

record file_client =
  cl_read_jobs :: "transfer_job list"
  cl_write_jobs :: "transfer_job list"
  cl_remove_jobs :: "int \<rightharpoonup> remove_job_state"
  cl_disk :: disk

definition can_enable_overwrite_detection :: "64 word \<Rightarrow> bool" where
  "can_enable_overwrite_detection v = (sint (get_version_number ''1.1.10'') \<le> sint v)"

definition is_support_file_transfer_resume_num :: "64 word \<Rightarrow> bool" where
  "is_support_file_transfer_resume_num v = (sint (get_version_number ''1.4.2'') \<le> sint v)"

definition transform_windows_path :: "file_entry list \<Rightarrow> file_entry list" where
  "transform_windows_path fs =
     map (\<lambda>f. f\<lparr>fe_name := map (\<lambda>c. if c = CHR 0x5C then CHR ''/'' else c) (fe_name f)\<rparr>) fs"

text \<open>The names as they are sent to a peer of another platform.\<close>

definition files_for_peer :: "client_env \<Rightarrow> file_entry list \<Rightarrow> file_entry list" where
  "files_for_peer e fs = (if on_windows e \<and> \<not> peer_is_windows e then transform_windows_path fs else fs)"

definition remove_job_new :: "int \<Rightarrow> file_entry list \<Rightarrow> string \<Rightarrow> string \<Rightarrow> bool \<Rightarrow> remove_job_state" where
  "remove_job_new now fs path sep isrem =
     \<lparr>rj_files = fs, rj_path = path, rj_sep = sep, rj_is_remote = isrem, rj_no_confirm = False,
      rj_last_update = now\<rparr>"

text \<open>\<open>file_num as usize\<close>; as an index, a negative one is out of range.\<close>

definition handle_job_status ::
  "int \<Rightarrow> int \<Rightarrow> int \<Rightarrow> transfer_error option \<Rightarrow> file_client \<Rightarrow> client_out list \<times> file_client" where
  "handle_job_status now i n err c =
     (let report = (case err of Some x \<Rightarrow> JobError i x n | None \<Rightarrow> JobDone i n) in
      case cl_remove_jobs c i of
        Some job \<Rightarrow>
          if rj_no_confirm job then
            (let k = n + 1 in
             if 0 \<le> k \<and> nat k < length (rj_files job) then
               let out = SelfRemoveFile i (rj_path job @ rj_sep job @ fe_name (rj_files job ! nat k)) k
                           (rj_is_remote job)
               in if 1000 \<le> now - rj_last_update job
                  then ([out, report], c\<lparr>cl_remove_jobs := (cl_remove_jobs c)(i \<mapsto> job\<lparr>rj_last_update := now\<rparr>)\<rparr>)
                  else ([out], c)
             else ([report], c\<lparr>cl_remove_jobs := (cl_remove_jobs c)(i := None)\<rparr>))
          else ([report], c)
      | None \<Rightarrow> ([report], c))"

section \<open>Answers of the host\<close>

text \<open>The list of the files of a directory that the viewer asked for.\<close>

definition on_dir :: "client_env \<Rightarrow> int \<Rightarrow> string \<Rightarrow> file_entry list \<Rightarrow> file_client \<Rightarrow> client_out list \<times> file_client" where
  "on_dir e i path entries c =
     (let fs = (if \<not> on_windows e \<and> peer_is_windows e then transform_windows_path entries else entries)
      in ([UpdateFolderFiles i fs path False False],
          case get_job i (cl_write_jobs c) of
            Some j \<Rightarrow>
              c\<lparr>cl_write_jobs := set_job i (set_finished_size_on_resume (j\<lparr>files := fs\<rparr>)) (cl_write_jobs c)\<rparr>
          | None \<Rightarrow>
              (case cl_remove_jobs c i of
                 Some r \<Rightarrow> c\<lparr>cl_remove_jobs := (cl_remove_jobs c)(i \<mapsto> r\<lparr>rj_files := fs\<rparr>)\<rparr>
               | None \<Rightarrow> c)))"

definition overwrite_choice :: "transfer_job \<Rightarrow> file_transfer_digest \<Rightarrow> confirm_union option" where
  "overwrite_choice j dg =
     (let resumed = (td_is_identical dg \<and> is_resume j \<and> 0 < td_transferred_size dg);
          strategy = (if resumed then Some True else default_overwrite_strategy j);
          offset = (if resumed then td_transferred_size dg mod 2 ^ 32 else 0)
      in map_option (\<lambda>overwrite. if overwrite then ConfirmOffset offset else ConfirmSkip True) strategy)"

text \<open>The host has a file with the name of one that is uploaded.\<close>

definition on_upload_digest ::
  "client_env \<Rightarrow> file_transfer_digest \<Rightarrow> file_client \<Rightarrow> (client_out list \<times> file_client) option" where
  "on_upload_digest e dg c =
     (case get_job (td_id dg) (cl_read_jobs c) of
        None \<Rightarrow> Some ([], c)
      | Some j \<Rightarrow>
          (case (source j, file_index j (td_file_num dg)) of
             (FilePath p, Some k) \<Rightarrow>
               let path = join_path (fenv e) p (fe_name (files j ! k)) in
               (case overwrite_choice j dg of
                  Some u \<Rightarrow>
                    let r = \<lparr>sc_id = td_id dg, sc_file_num = td_file_num dg, sc_union = Some u\<rparr> in
                    (case confirm (fenv e) r j (cl_disk c) of
                       None \<Rightarrow> None
                     | Some (j', d') \<Rightarrow>
                         Some ([ToPeer (ActSendConfirm r)],
                               c\<lparr>cl_read_jobs := set_job (td_id dg) j' (cl_read_jobs c), cl_disk := d'\<rparr>))
                | None \<Rightarrow>
                    Some ([OverrideFileConfirm (td_id dg) (td_file_num dg) path True (td_is_identical dg)], c))
           | _ \<Rightarrow> Some ([], c)))"

text \<open>The host is about to send a file.\<close>

definition on_download_digest ::
  "client_env \<Rightarrow> file_transfer_digest \<Rightarrow> file_client \<Rightarrow> (client_out list \<times> file_client) option" where
  "on_download_digest e dg c =
     (case get_job (td_id dg) (cl_write_jobs c) of
        None \<Rightarrow> Some ([], c)
      | Some j \<Rightarrow>
          (case (source j, file_index j (td_file_num dg)) of
             (FilePath p, Some k) \<Rightarrow>
               let path = join_path (fenv e) p (fe_name (files j ! k));
                   j = j\<lparr>digest := \<lparr>d_size = td_file_size dg, d_modified = td_last_modified dg\<rparr>\<rparr>;
                   answer = (\<lambda>u.
                     let r = \<lparr>sc_id = td_id dg, sc_file_num = td_file_num dg, sc_union = Some u\<rparr> in
                     case confirm (fenv e) r j (cl_disk c) of
                       None \<Rightarrow> None
                     | Some (j', d') \<Rightarrow>
                         Some ([ToPeer (ActSendConfirm r)],
                               c\<lparr>cl_write_jobs := set_job (td_id dg) j' (cl_write_jobs c), cl_disk := d'\<rparr>))
               in case is_write_need_confirmation (fenv e) (cl_disk c)
                         (is_support_file_transfer_resume_num (peer_version e) \<and> is_resume j) path dg of
                    IsSame \<Rightarrow> answer (ConfirmSkip True)
                  | NeedConfirm dg' \<Rightarrow>
                      (case overwrite_choice j dg' of
                         Some u \<Rightarrow> answer u
                       | None \<Rightarrow>
                           Some ([OverrideFileConfirm (td_id dg') (td_file_num dg') path False (td_is_identical dg')],
                                 c\<lparr>cl_write_jobs := set_job (td_id dg) j (cl_write_jobs c)\<rparr>))
                  | NoSuchFile \<Rightarrow> answer (ConfirmOffset 0)
           | _ \<Rightarrow> Some ([], c)))"

definition on_block :: "client_env \<Rightarrow> block \<Rightarrow> file_client \<Rightarrow> file_client" where
  "on_block e b c =
     (case get_job (b_id b) (cl_write_jobs c) of
        None \<Rightarrow> c
      | Some j \<Rightarrow>
          (case write_block (fenv e) b j (cl_disk c) of
             (r, j', d') \<Rightarrow> c\<lparr>cl_write_jobs := set_job (b_id b) j' (cl_write_jobs c), cl_disk := d'\<rparr>))"

definition on_done :: "client_env \<Rightarrow> int \<Rightarrow> int \<Rightarrow> int \<Rightarrow> file_client \<Rightarrow> client_out list \<times> file_client" where
  "on_done e now i n c =
     (case remove_job i (cl_write_jobs c) of
        (Some j, js) \<Rightarrow>
          let c = c\<lparr>cl_write_jobs := js, cl_disk := modify_time (fenv e) j (cl_disk c)\<rparr> in
          if job_kind j = Printer then ([PrintJob (get_buf_data j) (job_error j)], c)
          else handle_job_status now i n (job_error j) c
      | (None, js) \<Rightarrow> handle_job_status now i n None c)"

definition on_error :: "int \<Rightarrow> int \<Rightarrow> transfer_error \<Rightarrow> int \<Rightarrow> file_client \<Rightarrow> client_out list \<times> file_client" where
  "on_error now i err n c =
     (case remove_job i (cl_write_jobs c) of
        (Some j, js) \<Rightarrow>
          let c = c\<lparr>cl_write_jobs := js\<rparr> in
          if job_kind j = Printer then ([], c) else handle_job_status now i n (Some err) c
      | (None, _) \<Rightarrow>
          (case remove_job i (cl_read_jobs c) of
             (Some j, js) \<Rightarrow>
               let c = c\<lparr>cl_read_jobs := js\<rparr> in
               if job_kind j = Printer then ([], c) else handle_job_status now i n (Some err) c
           | (None, _) \<Rightarrow> handle_job_status now i n (Some err) c))"

fun on_file_response ::
  "client_env \<Rightarrow> int \<Rightarrow> file_msg \<Rightarrow> file_client \<Rightarrow> (client_out list \<times> file_client) option" where
  "on_file_response e now (MsgEmptyDirs path ds) c = Some ([UpdateEmptyDirs path ds], c)"
| "on_file_response e now (MsgDir i path fs) c = Some (on_dir e i path fs c)"
| "on_file_response e now (MsgDigest dg) c =
     (if td_is_upload dg then on_upload_digest e dg c else on_download_digest e dg c)"
| "on_file_response e now (MsgBlock b) c = Some ([], on_block e b c)"
| "on_file_response e now (MsgDone i n) c = Some (on_done e now i n c)"
| "on_file_response e now (MsgError i err n) c = Some (on_error now i err n c)"
| "on_file_response e now (MsgConfirm r) c =
     (case confirm_in (fm_env.truncate e) r (cl_read_jobs c) (cl_disk c) of
        None \<Rightarrow> None
      | Some (js, d) \<Rightarrow> Some ([], c\<lparr>cl_read_jobs := js, cl_disk := d\<rparr>))"

section \<open>Commands of the user interface\<close>

datatype client_cmd =
    SendFiles int job_type string string int bool bool
  | AddJob int job_type string string int bool bool
  | ResumeJob int bool
  | SetNoConfirm int
  | ConfirmDeleteFiles int int
  | SetConfirmOverrideFile int int bool bool bool
  | RemoveDirAll int string bool bool
  | CancelJob int
  | CmdRemoveDir int string
  | CmdRemoveFile int string int bool
  | CmdCreateDir int string bool
  | CmdRenameFile int string string bool

definition send_files ::
  "client_env \<Rightarrow> int \<Rightarrow> int \<Rightarrow> job_type \<Rightarrow> string \<Rightarrow> string \<Rightarrow> int \<Rightarrow> bool \<Rightarrow> bool \<Rightarrow> file_client
    \<Rightarrow> client_out list \<times> file_client" where
  "send_files e now i k path to n hid isrem c =
     (let od = can_enable_overwrite_detection (peer_version e) in
      if isrem then
        let dst = (case k of Generic \<Rightarrow> FilePath to | Printer \<Rightarrow> MemoryCursor [] 0)
        in ([ToPeer (ActSend i k path n hid)],
            c\<lparr>cl_write_jobs := cl_write_jobs c @ [new_write i k path dst n hid isrem [] od]\<rparr>)
      else case new_read (separator e) (look e (cl_disk c)) i k to (FilePath path) n hid isrem od of
        Inl err \<Rightarrow> handle_job_status now i (-1) (Some (Rejected err)) c
      | Inr job \<Rightarrow>
          ([UpdateFolderFiles (job_id job) (files job) path (\<not> isrem) True,
            ToPeer (ActReceive i to n (files_for_peer e (files job)) (total_size job))],
           c\<lparr>cl_read_jobs := cl_read_jobs c @ [job]\<rparr>))"

definition add_job ::
  "client_env \<Rightarrow> int \<Rightarrow> int \<Rightarrow> job_type \<Rightarrow> string \<Rightarrow> string \<Rightarrow> int \<Rightarrow> bool \<Rightarrow> bool \<Rightarrow> file_client
    \<Rightarrow> client_out list \<times> file_client" where
  "add_job e now i k path to n hid isrem c =
     (let od = can_enable_overwrite_detection (peer_version e) in
      if isrem then
        ([], c\<lparr>cl_write_jobs := cl_write_jobs c
                 @ [(new_write i k path (FilePath to) n hid isrem [] od)\<lparr>is_last_job := True\<rparr>]\<rparr>)
      else case new_read (separator e) (look e (cl_disk c)) i k to (FilePath path) n hid isrem od of
        Inl err \<Rightarrow> handle_job_status now i (-1) (Some (Rejected err)) c
      | Inr job \<Rightarrow>
          ([UpdateFolderFiles (job_id job) (files job) path (\<not> isrem) True],
           c\<lparr>cl_read_jobs := cl_read_jobs c @ [job\<lparr>is_last_job := True\<rparr>]\<rparr>))"

definition resume_job :: "client_env \<Rightarrow> int \<Rightarrow> bool \<Rightarrow> file_client \<Rightarrow> client_out list \<times> file_client" where
  "resume_job e i isrem c =
     (if isrem then
        case get_job i (cl_write_jobs c) of
          None \<Rightarrow> ([], c)
        | Some j \<Rightarrow>
            ([ToPeer (ActSend i Generic (remote j) (file_num j) (show_hidden j))],
             c\<lparr>cl_write_jobs := set_job i (j\<lparr>is_last_job := False, is_resume := True\<rparr>) (cl_write_jobs c)\<rparr>)
      else
        case get_job i (cl_read_jobs c) of
          None \<Rightarrow> ([], c)
        | Some j \<Rightarrow>
            (case source j of
               FilePath p \<Rightarrow>
                 let j = set_finished_size_on_resume (j\<lparr>is_last_job := False, is_resume := True\<rparr>)
                 in ([ToPeer (ActReceive i (remote j) (file_num j) (files_for_peer e (files j)) (total_size j))],
                     c\<lparr>cl_read_jobs := set_job i j (cl_read_jobs c)\<rparr>)
             | MemoryCursor _ _ \<Rightarrow> ([], c)))"

definition set_confirm_override_file ::
  "client_env \<Rightarrow> int \<Rightarrow> int \<Rightarrow> bool \<Rightarrow> bool \<Rightarrow> bool \<Rightarrow> file_client \<Rightarrow> (client_out list \<times> file_client) option" where
  "set_confirm_override_file e i n need_override remember is_upload c =
     (let r = \<lparr>sc_id = i, sc_file_num = n,
               sc_union = Some (if need_override then ConfirmOffset 0 else ConfirmSkip True)\<rparr>;
          keep = (\<lambda>j. if remember then j\<lparr>default_overwrite_strategy := Some need_override\<rparr> else j)
      in if is_upload then
           case get_job i (cl_read_jobs c) of
             None \<Rightarrow> Some ([], c)
           | Some j \<Rightarrow>
               (case confirm (fenv e) r (keep j) (cl_disk c) of
                  None \<Rightarrow> None
                | Some (j', d') \<Rightarrow>
                    Some ([], c\<lparr>cl_read_jobs := set_job i j' (cl_read_jobs c), cl_disk := d'\<rparr>))
         else
           case get_job i (cl_write_jobs c) of
             None \<Rightarrow> Some ([], c)
           | Some j \<Rightarrow>
               (case confirm (fenv e) r (keep j) (cl_disk c) of
                  None \<Rightarrow> None
                | Some (j', d') \<Rightarrow>
                    Some ([ToPeer (ActSendConfirm r)],
                          c\<lparr>cl_write_jobs := set_job i j' (cl_write_jobs c), cl_disk := d'\<rparr>)))"

definition remove_dir_all :: "client_env \<Rightarrow> int \<Rightarrow> int \<Rightarrow> string \<Rightarrow> bool \<Rightarrow> bool \<Rightarrow> file_client \<Rightarrow> client_out list \<times> file_client" where
  "remove_dir_all e now i path isrem hid c =
     (let sep = path_sep e isrem in
      if isrem then
        ([ToPeer (ActAllFiles i path hid)],
         c\<lparr>cl_remove_jobs := (cl_remove_jobs c)(i \<mapsto> remove_job_new now [] path sep isrem)\<rparr>)
      else case get_recursive_files (separator e) hid (look e (cl_disk c) path) of
        Inr fs \<Rightarrow>
          ([UpdateFolderFiles i fs path (\<not> isrem) False],
           c\<lparr>cl_remove_jobs := (cl_remove_jobs c)(i \<mapsto> remove_job_new now fs path sep isrem)\<rparr>)
      | Inl err \<Rightarrow> handle_job_status now i (-1) (Some (Rejected err)) c)"

definition cancel_job :: "client_env \<Rightarrow> int \<Rightarrow> file_client \<Rightarrow> client_out list \<times> file_client" where
  "cancel_job e i c =
     ([ToPeer (ActCancel i)],
      let c = (case remove_job i (cl_write_jobs c) of
                 (Some j, js) \<Rightarrow>
                   c\<lparr>cl_write_jobs := js, cl_disk := remove_download_file (fenv e) j (cl_disk c)\<rparr>
               | (None, _) \<Rightarrow> c)
      in c\<lparr>cl_read_jobs := snd (remove_job i (cl_read_jobs c)),
           cl_remove_jobs := (cl_remove_jobs c)(i := None)\<rparr>)"

fun handle_file_cmd ::
  "client_env \<Rightarrow> int \<Rightarrow> client_cmd \<Rightarrow> file_client \<Rightarrow> (client_out list \<times> file_client) option" where
  "handle_file_cmd e now (SendFiles i k path to n hid isrem) c = Some (send_files e now i k path to n hid isrem c)"
| "handle_file_cmd e now (AddJob i k path to n hid isrem) c = Some (add_job e now i k path to n hid isrem c)"
| "handle_file_cmd e now (ResumeJob i isrem) c = Some (resume_job e i isrem c)"
| "handle_file_cmd e now (SetNoConfirm i) c =
     Some ([], case cl_remove_jobs c i of
                 Some j \<Rightarrow> c\<lparr>cl_remove_jobs := (cl_remove_jobs c)(i \<mapsto> j\<lparr>rj_no_confirm := True\<rparr>)\<rparr>
               | None \<Rightarrow> c)"
| "handle_file_cmd e now (ConfirmDeleteFiles i n) c =
     Some (case cl_remove_jobs c i of
             Some j \<Rightarrow> if 0 \<le> n \<and> nat n < length (rj_files j)
                       then [ConfirmDelete i n (fe_name (rj_files j ! nat n))] else []
           | None \<Rightarrow> [], c)"
| "handle_file_cmd e now (SetConfirmOverrideFile i n ov rem up) c = set_confirm_override_file e i n ov rem up c"
| "handle_file_cmd e now (RemoveDirAll i path isrem hid) c = Some (remove_dir_all e now i path isrem hid c)"
| "handle_file_cmd e now (CancelJob i) c = Some (cancel_job e i c)"
| "handle_file_cmd e now (CmdRemoveDir i path) c = Some ([ToPeer (ActRemoveDir i path True)], c)"
| "handle_file_cmd e now (CmdRemoveFile i path n isrem) c =
     Some (if isrem then ([ToPeer (ActRemoveFile i path n)], c)
           else case remove_path (fenv e) path (cl_disk c) of
             (gone, d) \<Rightarrow>
               handle_job_status now i n (if gone then None else Some (IoFailed path)) (c\<lparr>cl_disk := d\<rparr>))"
| "handle_file_cmd e now (CmdCreateDir i path isrem) c =
     Some (if isrem then ([ToPeer (ActCreate i path)], c)
           else handle_job_status now i (-1) (if can_mkdir e path then None else Some (IoFailed path)) c)"
| "handle_file_cmd e now (CmdRenameFile i path new_name isrem) c =
     Some (if isrem then ([ToPeer (ActRename i path new_name)], c)
           else case fs_rename_file (fenv e) (path_parent_of e) path new_name (cl_disk c) of
             (r, d) \<Rightarrow>
               handle_job_status now i (-1) (case r of Inl err \<Rightarrow> Some err | Inr u \<Rightarrow> None) (c\<lparr>cl_disk := d\<rparr>))"

text \<open>The timer reads from the jobs.\<close>

definition client_tick :: "client_env \<Rightarrow> file_client \<Rightarrow> client_out list \<times> file_client" where
  "client_tick e c =
     (case handle_read_jobs (fenv e) (cl_disk c) (cl_read_jobs c) of
        (ms, l, js) \<Rightarrow> (map ToPeerMsg ms, c\<lparr>cl_read_jobs := js\<rparr>))"

end
