(* ===== verification/FileSession.thy ===== *)
theory FileSession
  imports FileClient
begin

text \<open>
  A whole upload: the viewer's reading job, the connection that hands its messages to the process
  for files, and that process' writing job, turn by turn, with the question about every file and
  its answer.
\<close>

section \<open>The writing side\<close>

text \<open>The paths of the files, their temporary names and the names of their digests do not clash.\<close>

definition apart :: "string list \<Rightarrow> bool" where
  "apart ps = (distinct ps \<and> (\<forall>p \<in> set ps. \<forall>q \<in> set ps. p \<noteq> download_path q \<and> p \<noteq> digest_path q))"

definition managed :: "string list \<Rightarrow> string set" where
  "managed ps = set ps \<union> download_path ` set ps \<union> digest_path ` set ps"

text \<open>What the environment must allow for nothing to fail; and every write ends in time.\<close>

definition permits :: "fs_env \<Rightarrow> bool" where
  "permits e = ((\<forall>p. can_create e p \<and> can_remove e p \<and> can_open e p) \<and> (\<forall>a b. can_rename e a b) \<and>
     (\<forall>i. can_write e i \<and> \<not> write_lags e i) \<and> (\<forall>i q. \<not> read_fails e i q))"

lemma download_not_digest: "download_path p \<noteq> digest_path q"
  by (auto simp: download_path_def digest_path_def append_eq_append_conv2)

lemma temporary_names: "download_path p \<noteq> p" "digest_path p \<noteq> p"
  "download_path p = download_path q \<longleftrightarrow> p = q" "digest_path p = digest_path q \<longleftrightarrow> p = q"
  by (auto simp: download_path_def digest_path_def)

text \<open>Files before the \<open>k\<close>-th are complete, later ones and everything else are as in \<open>d0\<close>.\<close>

definition files_upto :: "string list \<Rightarrow> fdata list \<Rightarrow> disk \<Rightarrow> nat \<Rightarrow> disk \<Rightarrow> bool" where
  "files_upto ps cs d0 k d =
     (disk_ok d \<and>
      (\<forall>i < k. file_at d (ps ! i) = Some (cs ! i) \<and> file_at d (download_path (ps ! i)) = None
                \<and> file_at d (digest_path (ps ! i)) = None) \<and>
      (\<forall>i. k < i \<longrightarrow> i < length ps \<longrightarrow> file_at d (ps ! i) = file_at d0 (ps ! i)) \<and>
      (\<forall>p. p \<notin> managed ps \<longrightarrow> file_at d p = file_at d0 p))"

lemma apartD:
  assumes "apart ps" and "i < length ps" and "j < length ps"
  shows "ps ! i \<noteq> download_path (ps ! j)" "ps ! i \<noteq> digest_path (ps ! j)"
    "ps ! i = ps ! j \<longleftrightarrow> i = j"
  using assms by (auto simp: apart_def nth_eq_iff_index_eq)

lemma upto_local:
  assumes "files_upto ps cs d0 k d" and "disk_ok d'" and "apart ps" and "k < length ps"
    and same: "\<And>p. p \<noteq> ps ! k \<Longrightarrow> p \<noteq> download_path (ps ! k) \<Longrightarrow> p \<noteq> digest_path (ps ! k)
      \<Longrightarrow> file_at d' p = file_at d p"
  shows "files_upto ps cs d0 k d'"
proof -
  have "file_at d' (ps ! i) = file_at d (ps ! i)" if "i \<noteq> k" "i < length ps" for i
    using apartD [OF assms(3) that(2) assms(4)] that by (intro same) auto
  moreover have "file_at d' (download_path (ps ! i)) = file_at d (download_path (ps ! i))"
    "file_at d' (digest_path (ps ! i)) = file_at d (digest_path (ps ! i))" if "i \<noteq> k" "i < length ps" for i
    using apartD [OF assms(3,4) that(2)] apartD(3) [OF assms(3) that(2) assms(4)] that
    by (auto intro!: same simp: temporary_names download_not_digest download_not_digest [symmetric])
  moreover have "file_at d' p = file_at d p" if "p \<notin> managed ps" for p
    using that nth_mem [OF assms(4)] by (intro same) (auto simp: managed_def)
  ultimately show ?thesis using assms(1,2,4) by (auto simp: files_upto_def)
qed

text \<open>A writing job for the files with these paths.\<close>

definition writes_to :: "fs_env \<Rightarrow> int \<Rightarrow> string list \<Rightarrow> fdata list \<Rightarrow> transfer_job \<Rightarrow> bool" where
  "writes_to e i ps cs w =
     (job_kind w = Generic \<and> job_id w = i \<and> length ps = length (files w) \<and> length cs = length (files w) \<and>
      (\<exists>q. source w = FilePath q \<and> (\<forall>k < length (files w). ps ! k = join_path e q (fe_name (files w ! k)))) \<and>
      (\<forall>k < length (files w). fe_modified (files w ! k) = f_mtime (cs ! k)))"

definition receiving ::
  "string list \<Rightarrow> fdata list \<Rightarrow> disk \<Rightarrow> nat \<Rightarrow> bytes \<Rightarrow> transfer_job \<Rightarrow> disk \<Rightarrow> bool" where
  "receiving ps cs d0 k r w d =
     (file_num w = int k \<and> k < length ps \<and> files_upto ps cs d0 k d \<and>
      (\<exists>i. stream w = Some (FileStream i (length r)) \<and> links d (download_path (ps ! k)) = Some i
            \<and> f_content (inodes d i) = r))"

lemma file_index_nat: "k < length (files j) \<Longrightarrow> file_index j (int k) = Some k"
  by (simp add: file_index_def)

lemma ok_modify_time: "disk_ok d \<Longrightarrow> disk_ok (modify_time e w d)"
  by (auto simp: modify_time_def Let_def intro!: ok_finish ok_mtime ok_rename ok_remove split: data_source.splits option.splits)

lemma modify_time_eq:
  assumes "writes_to e i ps cs w" and "permits e" and "file_num w = int k" and "k < length ps" and "disk_ok d"
  shows "file_at (modify_time e w d) p =
    (if p = digest_path (ps ! k) then None
     else if p = ps ! k then
       map_option (\<lambda>f. f\<lparr>f_mtime := f_mtime (cs ! k)\<rparr>)
         (case file_at d (download_path p) of Some f \<Rightarrow> Some f | None \<Rightarrow> file_at d p)
     else if p = download_path (ps ! k) then None
     else file_at d p)"
proof -
  obtain q where q: "source w = FilePath q" "ps ! k = join_path e q (fe_name (files w ! k))"
    and w: "job_kind w = Generic" "k < length (files w)" "fe_modified (files w ! k) = f_mtime (cs ! k)"
    using assms(1,4) by (auto simp: writes_to_def)
  define d1 where "d1 = snd (remove_path e (digest_path (ps ! k)) d)"
  define d2 where "d2 = rename_path e (download_path (ps ! k)) (ps ! k) d1"
  have m: "modify_time e w d = set_file_mtime (ps ! k) (f_mtime (cs ! k)) d2"
    using w q assms(2,3) by (simp add: modify_time_def file_index_nat Let_def d1_def d2_def finish_in_time permits_def)
  have ok: "disk_ok d2" unfolding d2_def d1_def by (rule ok_rename, rule ok_remove, rule assms(5))
  have 1: "file_at d1 r = (if r = digest_path (ps ! k) then None else file_at d r)" for r
    using assms(2) by (simp add: d1_def at_remove permits_def)
  have 2: "file_at d2 r = (if file_at d (download_path (ps ! k)) \<noteq> None
      then if r = ps ! k then file_at d (download_path (ps ! k))
        else if r = download_path (ps ! k) then None else file_at d1 r
      else file_at d1 r)" for r
    using assms(2) by (simp add: d2_def at_rename permits_def 1 download_not_digest)
  note n = temporary_names(1,2) temporary_names(1,2) [symmetric] download_not_digest
    download_not_digest [symmetric]
  show ?thesis
  proof (cases "p = digest_path (ps ! k)")
    case True
    then show ?thesis by (simp add: m at_mtime [OF ok] 2 1 n)
  next
    case nd: False
    show ?thesis
    proof (cases "p = ps ! k")
      case True
      then show ?thesis by (simp add: m at_mtime [OF ok] 2 1 n split: option.splits)
    next
      case False
      then show ?thesis using nd by (simp add: m at_mtime [OF ok] 2 1 n)
    qed
  qed
qed

lemma upto_start:
  assumes "disk_ok d0"
  shows "files_upto ps cs d0 0 d0"
  using assms by (simp add: files_upto_def)

lemma upto_fresh:
  assumes "writes_to e i ps cs w" and "permits e" and "apart ps" and "file_num w = 0" and "0 < length ps"
    and "disk_ok d0"
  shows "files_upto ps cs d0 0 (modify_time e w d0)"
proof (rule upto_local [OF upto_start [OF assms(6)] ok_modify_time [OF assms(6)] assms(3,5)])
  fix p
  assume "p \<noteq> ps ! 0" "p \<noteq> download_path (ps ! 0)" "p \<noteq> digest_path (ps ! 0)"
  then show "file_at (modify_time e w d0) p = file_at d0 p"
    using modify_time_eq [OF assms(1,2) _ assms(5,6)] assms(4) by simp
qed

lemma upto_finish:
  assumes "writes_to e i ps cs w" and "permits e" and "apart ps"
    and "receiving ps cs d0 k (f_content (cs ! k)) w d"
  shows "files_upto ps cs d0 (Suc k) (modify_time e w d)"
proof -
  have k: "file_num w = int k" "k < length ps" and u: "files_upto ps cs d0 k d"
    and dl: "map_option f_content (file_at d (download_path (ps ! k))) = Some (f_content (cs ! k))"
    using assms(4) by (auto simp: receiving_def file_at_def)
  have ok: "disk_ok d" using u by (simp add: files_upto_def)
  note m = modify_time_eq [OF assms(1,2) k ok]
  note n = temporary_names(1,2) temporary_names(1,2) [symmetric] download_not_digest
    download_not_digest [symmetric]
  have u': "files_upto ps cs d0 k (modify_time e w d)"
    by (rule upto_local [OF u ok_modify_time [OF ok] assms(3) k(2)]) (simp add: m)
  have "file_at (modify_time e w d) (ps ! k) = Some (cs ! k)"
    using dl by (cases "cs ! k") (auto simp: m n split: option.splits)
  moreover have "file_at (modify_time e w d) (download_path (ps ! k)) = None"
    "file_at (modify_time e w d) (digest_path (ps ! k)) = None"
    by (simp_all add: m n)
  ultimately show ?thesis using u' by (auto simp: files_upto_def less_Suc_eq)
qed

lemma start_file_receives:
  assumes "writes_to e i ps cs w" and "source w = FilePath q" and "permits e" and "apart ps"
    and "files_upto ps cs d0 k (modify_time e w d)" and "k < length ps"
  shows "\<exists>w' d'. start_file e q (int k) k w d = (Inr (), w', d') \<and> receiving ps cs d0 k [] w' d'
    \<and> writes_to e i ps cs w' \<and> source w' = source w \<and> files w' = files w"
proof -
  have p: "ps ! k = join_path e q (fe_name (files w ! k))" and g: "job_kind w = Generic"
    using assms(1,2,6) by (auto simp: writes_to_def)
  have perm: "can_remove e x" "can_create e x" for x using assms(3) by (auto simp: permits_def)
  define d1 where "d1 = modify_time e w d"
  define d2 where "d2 = snd (remove_path e (digest_path (ps ! k)) d1)"
  have ok2: "disk_ok d2" using assms(5) by (auto simp: d2_def d1_def files_upto_def intro: ok_remove)
  obtain ino d3 where c: "create_path e (download_path (ps ! k)) d2 = Some (ino, d3)"
    using perm(2) by (auto simp: create_path_def Let_def)
  note c3 = at_create [OF ok2 c]
  have ok3: "disk_ok d3" by (rule ok_create [OF ok2 c])
  define d4 where "d4 = write_file e (digest_path (ps ! k)) (digest_json e (digest w)) d3"
  have s: "start_file e q (int k) k w d
      = (Inr (), w\<lparr>file_num := int k, stream := Some (FileStream ino 0)\<rparr>, d4)"
    using g perm by (simp add: start_file_def Let_def p [symmetric] d1_def [symmetric] d2_def [symmetric] c d4_def)
  have ok4: "disk_ok d4" unfolding d4_def by (rule ok_write_file [OF ok3])
  have at4: "file_at d4 x = file_at d1 x"
    if "x \<noteq> ps ! k" "x \<noteq> download_path (ps ! k)" "x \<noteq> digest_path (ps ! k)" for x
    using that by (simp add: d4_def at_write_file [OF ok3] c3(1) d2_def at_remove)
  have u: "files_upto ps cs d0 k d4"
    by (rule upto_local [OF assms(5) ok4 assms(4,6)]) (simp add: at4 d1_def)
  have l4: "links d4 (download_path (ps ! k)) = Some ino"
    unfolding d4_def using c3(2) by (simp add: links_write_file download_not_digest)
  moreover have "file_at d4 (download_path (ps ! k)) = Some \<lparr>f_content = [], f_mtime = clock e\<rparr>"
    by (simp add: d4_def at_write_file [OF ok3] c3(1) download_not_digest)
  ultimately have "f_content (inodes d4 ino) = []" by (simp add: file_at_def)
  then show ?thesis
    using s u l4 assms(1,6) by (simp add: receiving_def writes_to_def)
qed

lemma write_stream_receives:
  assumes "writes_to e i ps cs w" and "permits e" and "apart ps" and "receiving ps cs d0 k r w d"
  shows "\<exists>w' d'. write_stream e bs w d = (Inr (), w', d') \<and> receiving ps cs d0 k (r @ bs) w' d'
    \<and> writes_to e i ps cs w' \<and> source w' = source w \<and> files w' = files w"
proof -
  obtain ino where s: "stream w = Some (FileStream ino (length r))" "links d (download_path (ps ! k)) = Some ino"
    "f_content (inodes d ino) = r" and k: "file_num w = int k" "k < length ps" and u: "files_upto ps cs d0 k d"
    using assms(4) by (auto simp: receiving_def)
  have ok: "disk_ok d" using u by (simp add: files_upto_def)
  define d' where "d' = write_at e ino (length r) bs d"
  have w: "write_stream e bs w d = (Inr (), w\<lparr>stream := Some (FileStream ino (length r + length bs))\<rparr>, d')"
    using assms(2) s by (simp add: write_stream_def d'_def permits_def)
  have ok': "disk_ok d'" unfolding d'_def by (rule ok_write_at [OF ok])
  have "files_upto ps cs d0 k d'"
    by (rule upto_local [OF u ok' assms(3) k(2)]) (simp add: d'_def at_write_at [OF ok s(2)])
  moreover have "links d' (download_path (ps ! k)) = Some ino" "f_content (inodes d' ino) = r @ bs"
    using s splice_end [of r bs] by (simp_all add: d'_def write_at_def)
  ultimately show ?thesis using w k assms(1) by (auto simp: receiving_def writes_to_def)
qed

lemma counters [simp]:
  "receiving ps cs d0 k r (w\<lparr>finished_size := x, transferred := y\<rparr>) d = receiving ps cs d0 k r w d"
  "writes_to e i ps cs (w\<lparr>finished_size := x, transferred := y\<rparr>) = writes_to e i ps cs w"
  by (simp_all add: receiving_def writes_to_def)

lemma write_block_first:
  assumes "writes_to e i ps cs w" and "permits e" and "apart ps"
    and "files_upto ps cs d0 k (modify_time e w d)" and "k < length ps"
    and "b_id b = i" and "b_file_num b = int k" and "file_num w \<noteq> int k \<or> stream w = None"
  shows "\<exists>w' d'. write_block e b w d = (Inr (), w', d') \<and> receiving ps cs d0 k (block_data e b) w' d'
    \<and> writes_to e i ps cs w'"
proof -
  obtain q where q: "source w = FilePath q" and k: "file_index w (int k) = Some k" and i: "job_id w = i"
    using assms(1,5) by (auto simp: writes_to_def file_index_nat)
  obtain w1 d1 where 1: "start_file e q (int k) k w d = (Inr (), w1, d1)"
    "receiving ps cs d0 k [] w1 d1" "writes_to e i ps cs w1"
    using start_file_receives [OF assms(1) q assms(2-5)] by auto
  obtain w2 d2 where 2: "write_stream e (block_data e b) w1 d1 = (Inr (), w2, d2)"
    "receiving ps cs d0 k (block_data e b) w2 d2" "writes_to e i ps cs w2"
    using write_stream_receives [OF 1(3) assms(2,3) 1(2), of "block_data e b"] by auto
  show ?thesis
    using assms(6-8) i q k 1(1) 2 by (auto simp: write_block_def select_file_def)
qed

lemma write_block_next:
  assumes "writes_to e i ps cs w" and "permits e" and "apart ps" and "receiving ps cs d0 k r w d"
    and "b_id b = i" and "b_file_num b = int k"
  shows "\<exists>w' d'. write_block e b w d = (Inr (), w', d') \<and> receiving ps cs d0 k (r @ block_data e b) w' d'
    \<and> writes_to e i ps cs w'"
proof -
  obtain q where q: "source w = FilePath q" and k: "file_index w (int k) = Some k" and i: "job_id w = i"
    and n: "file_num w = int k" "stream w \<noteq> None"
    using assms(1,4) by (auto simp: writes_to_def file_index_nat receiving_def)
  obtain w2 d2 where 2: "write_stream e (block_data e b) w d = (Inr (), w2, d2)"
    "receiving ps cs d0 k (r @ block_data e b) w2 d2" "writes_to e i ps cs w2"
    using write_stream_receives [OF assms(1-4), of "block_data e b"] by auto
  show ?thesis
    using assms(5,6) i q k n 2 by (auto simp: write_block_def select_file_def)
qed

section \<open>The reading side\<close>

text \<open>A job of the viewer that reads these files for an upload.\<close>

definition reads_from :: "int \<Rightarrow> string \<Rightarrow> file_entry list \<Rightarrow> nat \<Rightarrow> transfer_job \<Rightarrow> bool" where
  "reads_from i p fs k j =
     (job_kind j = Generic \<and> job_id j = i \<and> source j = FilePath p \<and> files j = fs \<and> file_num j = int k \<and>
      \<not> is_last_job j \<and> \<not> is_resume j \<and> enable_overwrite_detection j \<and> \<not> file_skipped j)"

definition idle :: "transfer_job \<Rightarrow> bool" where
  "idle j = (stream j = None \<and> \<not> file_confirmed j \<and> \<not> file_is_waiting j)"

definition asked :: "nat \<Rightarrow> transfer_job \<Rightarrow> bool" where
  "asked ino j = (stream j = Some (FileStream ino 0) \<and> \<not> file_confirmed j \<and> file_is_waiting j)"

definition confirmed_at :: "nat \<Rightarrow> nat \<Rightarrow> transfer_job \<Rightarrow> bool" where
  "confirmed_at ino pos j = (stream j = Some (FileStream ino pos) \<and> file_confirmed j)"

definition digest_of :: "int \<Rightarrow> nat \<Rightarrow> fdata \<Rightarrow> file_transfer_digest" where
  "digest_of i k f =
     \<lparr>td_id = i, td_file_num = int k, td_last_modified = f_mtime f, td_file_size = length (f_content f),
      td_is_upload = False, td_is_identical = False, td_transferred_size = 0, td_is_resume = False\<rparr>"

lemma tick_idle:
  assumes "reads_from i p fs k j" and "idle j" and "permits e" and "k < length fs"
    and "links d (join_path e p (fe_name (fs ! k))) = Some ino"
  shows "\<exists>j'. handle_read_jobs e d [j] = ([MsgDigest (digest_of i k (inodes d ino))], None, [j'])
    \<and> reads_from i p fs k j' \<and> asked ino j'"
proof -
  have o: "open_data_stream e d j = (Inr False, j\<lparr>stream := Some (FileStream ino 0), file_confirmed := False,
      file_is_waiting := False\<rparr>)"
    using assms by (simp add: open_data_stream_def reads_from_def idle_def file_index_def permits_def Let_def)
  show ?thesis using assms
    by (simp add: handle_read_jobs_def init_data_stream_def o asks_first_def send_current_digest_def
      get_current_digest_def reads_from_def idle_def asked_def digest_of_def read_block_def job_completed_def)
qed

lemma tick_end_of_jobs:
  assumes "reads_from i p fs (length fs) j" and "idle j"
  shows "handle_read_jobs e d [j] = ([MsgDone i (int (length fs))], Some (JobLog (j\<lparr>stream := None\<rparr>) True False None), [])"
  using assms
  by (simp add: handle_read_jobs_def init_data_stream_def open_data_stream_def reads_from_def idle_def
      file_index_def read_block_def job_completed_def job_error_def job_skipped_def)

lemma read_stream_file:
  assumes "permits e"
  shows "read_stream e d (FileStream ino pos) =
    Some (take BUF_SIZE (drop pos (f_content (inodes d ino))),
      FileStream ino (pos + length (take BUF_SIZE (drop pos (f_content (inodes d ino))))))"
  using assms fill_eq [of e ino "[]" "f_content (inodes d ino)" pos]
  by (simp add: read_stream_def permits_def)

lemma init_confirmed:
  assumes "reads_from i p fs k j" and "confirmed_at ino pos j" and "k < length fs"
  shows "init_data_stream e d j = (Inr [], j)"
  using assms by (simp add: init_data_stream_def open_data_stream_def reads_from_def confirmed_at_def
    file_index_def asks_first_def)

lemma tick_block:
  assumes "reads_from i p fs k j" and "confirmed_at ino pos j" and "permits e" and "k < length fs"
    and "pos < length (f_content (inodes d ino))" and "\<And>bs. decompress e' (compress e bs) = bs"
  shows "\<exists>b j'. handle_read_jobs e d [j] = ([MsgBlock b], None, [j'])
    \<and> b_id b = i \<and> b_file_num b = int k \<and> block_data e' b = take BUF_SIZE (drop pos (f_content (inodes d ino)))
    \<and> reads_from i p fs k j' \<and> confirmed_at ino (pos + length (block_data e' b)) j'"
proof -
  define buf where "buf = take BUF_SIZE (drop pos (f_content (inodes d ino)))"
  define s' where "s' = FileStream ino (pos + length buf)"
  define z where "z = (\<not> is_compressed_file (read_name e p j k) \<and> length (compress e buf) < length buf)"
  define b where "b = \<lparr>b_id = i, b_file_num = int k, b_data = if z then compress e buf else buf, b_compressed = z\<rparr>"
  have ne: "buf \<noteq> []" using assms(5) by (simp add: buf_def BUF_SIZE_def)
  have n: "file_num j = int k" "job_kind j = Generic" "source j = FilePath p" "job_id j = i" "file_confirmed j"
    "file_index j (int k) = Some k" "stream j = Some (FileStream ino pos)" "\<not> is_last_job j"
    using assms(1,2,4) by (auto simp: reads_from_def confirmed_at_def file_index_def)
  have r: "read_block e d j = (Inr (Some b), j\<lparr>stream := Some s', finished_size := finished_size j + length buf,
      transferred := transferred j + length (b_data b)\<rparr>)"
    using ne by (simp add: read_block_def n read_stream_file [OF assms(3)] buf_def [symmetric] s'_def [symmetric]
      is_path_def Let_def b_def z_def)
  have bi: "b_id b = i" "b_file_num b = int k" by (simp_all add: b_def)
  have d: "block_data e' b = buf" by (simp add: block_data_def b_def assms(6))
  show ?thesis
    using n init_confirmed [OF assms(1,2,4)] assms(1)
    by (intro exI [of _ b] exI [of _ "j\<lparr>stream := Some s', finished_size := finished_size j + length buf,
        transferred := transferred j + length (b_data b)\<rparr>"])
       (simp add: handle_read_jobs_def r d buf_def [symmetric] bi s'_def reads_from_def confirmed_at_def)
qed

lemma tick_end_of_file:
  assumes "reads_from i p fs k j" and "confirmed_at ino pos j" and "permits e" and "k < length fs"
    and "length (f_content (inodes d ino)) \<le> pos"
  shows "\<exists>b j'. handle_read_jobs e d [j] = ([MsgBlock b], None, [j'])
    \<and> b_id b = i \<and> b_file_num b = int k \<and> block_data e' b = [] \<and> reads_from i p fs (Suc k) j' \<and> idle j'"
proof -
  have n: "file_num j = int k" "job_kind j = Generic" "source j = FilePath p" "job_id j = i" "file_confirmed j"
    "file_index j (int k) = Some k" "stream j = Some (FileStream ino pos)" "\<not> is_last_job j"
    using assms(1,2,4) by (auto simp: reads_from_def confirmed_at_def file_index_def)
  have r: "read_block e d j = (Inr (Some \<lparr>b_id = i, b_file_num = int k, b_data = [], b_compressed = False\<rparr>), next_file j)"
    using assms(5) by (simp add: read_block_def n read_stream_file [OF assms(3)] is_path_def)
  show ?thesis
    using n init_confirmed [OF assms(1,2,4)] assms(1)
    by (auto simp: handle_read_jobs_def r block_data_def reads_from_def idle_def next_file_def)
qed

section \<open>The two sides together\<close>

text \<open>What the connection makes of an answer about files, and of a confirmation without a job of its own.\<close>

fun forward_response :: "file_msg \<Rightarrow> fs_op option" where
  "forward_response (MsgBlock b) = Some (FsWriteBlock b)"
| "forward_response (MsgDone i n) = Some (FsWriteDone i n)"
| "forward_response (MsgDigest dg) =
     Some (FsCheckDigest (td_id dg) (td_file_num dg) (td_file_size dg) (td_last_modified dg) True (td_is_resume dg))"
| "forward_response (MsgError i err n) = Some (FsWriteError i n err)"
| "forward_response _ = None"

fun forward_upload :: "client_out \<Rightarrow> fs_op option" where
  "forward_upload (ToPeerMsg m) = forward_response m"
| "forward_upload (ToPeer (ActSendConfirm r)) = Some (FsSendConfirm r)"
| "forward_upload _ = None"

fun raw_message :: "fm_out \<Rightarrow> file_msg option" where
  "raw_message (RawMessage m) = Some m"
| "raw_message _ = None"

fun host_all :: "fm_env \<Rightarrow> client_out list \<Rightarrow> file_manager \<Rightarrow> (file_msg list \<times> file_manager) option" where
  "host_all e [] m = Some ([], m)"
| "host_all e (x # xs) m =
     (case forward_upload x of
        None \<Rightarrow> host_all e xs m
      | Some r \<Rightarrow>
          (case handle_fs e r m of
             None \<Rightarrow> None
           | Some (ms, m) \<Rightarrow>
               map_option (\<lambda>(ms', m'). (List.map_filter raw_message ms @ ms', m')) (host_all e xs m)))"

fun client_all :: "client_env \<Rightarrow> int \<Rightarrow> file_msg list \<Rightarrow> file_client \<Rightarrow> (client_out list \<times> file_client) option" where
  "client_all e now [] c = Some ([], c)"
| "client_all e now (x # xs) c =
     (case on_file_response e now x c of
        None \<Rightarrow> None
      | Some (out, c) \<Rightarrow> map_option (\<lambda>(out', c'). (out @ out', c')) (client_all e now xs c))"

text \<open>A turn: the timer of the viewer, its messages at the host, the answers, and the viewer's replies.\<close>

definition upload_turn ::
  "client_env \<Rightarrow> fm_env \<Rightarrow> int \<Rightarrow> file_client \<times> file_manager \<Rightarrow> (file_client \<times> file_manager) option" where
  "upload_turn ec eh now s =
     (case s of (c, m) \<Rightarrow>
      case client_tick ec c of (out, c) \<Rightarrow>
      case host_all eh out m of None \<Rightarrow> None | Some (ms, m) \<Rightarrow>
      case client_all ec now ms c of None \<Rightarrow> None | Some (out, c) \<Rightarrow>
      case host_all eh out m of None \<Rightarrow> None | Some (ms, m) \<Rightarrow> Some (c, m))"

fun upload_turns ::
  "client_env \<Rightarrow> fm_env \<Rightarrow> int \<Rightarrow> nat \<Rightarrow> file_client \<times> file_manager \<Rightarrow> (file_client \<times> file_manager) option" where
  "upload_turns ec eh now 0 s = Some s"
| "upload_turns ec eh now (Suc n) s =
     (case upload_turn ec eh now s of None \<Rightarrow> None | Some s' \<Rightarrow> upload_turns ec eh now n s')"

lemma upload_turns_add:
  "upload_turns ec eh now (a + b) s
    = (case upload_turns ec eh now a s of None \<Rightarrow> None | Some s' \<Rightarrow> upload_turns ec eh now b s')"
  by (induction a arbitrary: s) (auto split: option.splits)

text \<open>What must hold for an upload to be possible.\<close>

definition upload_possible ::
  "client_env \<Rightarrow> fm_env \<Rightarrow> string \<Rightarrow> file_entry list \<Rightarrow> string list \<Rightarrow> fdata list \<Rightarrow> disk \<Rightarrow> bool" where
  "upload_possible ec eh p fs ps cs dc =
     (permits (fenv ec) \<and> permits (base eh) \<and>
      (\<forall>bs. decompress (base eh) (compress (fenv ec) bs) = bs) \<and>
      apart ps \<and> length ps = length fs \<and> length cs = length fs \<and>
      (\<forall>k < length fs. file_at dc (join_path (fenv ec) p (fe_name (fs ! k))) = Some (cs ! k)))"

text \<open>The state between two files.\<close>

definition between ::
  "fm_env \<Rightarrow> int \<Rightarrow> string list \<Rightarrow> fdata list \<Rightarrow> disk \<Rightarrow> nat \<Rightarrow> transfer_job \<Rightarrow> disk \<Rightarrow> bool" where
  "between eh i ps cs d0 k w d =
     (writes_to (base eh) i ps cs w \<and> files_upto ps cs d0 k (modify_time (base eh) w d) \<and>
      (file_num w \<noteq> int k \<or> stream w = None) \<and> (k < length ps \<longrightarrow> file_at d (ps ! k) = None))"

lemma set_get_job [simp]: "job_id j = i \<Longrightarrow> get_job i [j] = Some j" "job_id j = i \<Longrightarrow> set_job i j' [j] = [j']"
  by (simp_all add: get_job_def)

lemma between_digest [simp]:
  "between eh i ps cs d0 k (w\<lparr>digest := x\<rparr>) d = between eh i ps cs d0 k w d"
proof -
  have "modify_time e (w\<lparr>digest := x\<rparr>) d = modify_time e w d" for e
    by (cases "source w") (simp_all add: modify_time_def file_index_def Let_def cong: option.case_cong)
  then show ?thesis by (simp add: between_def writes_to_def)
qed

lemma turn_asks:
  assumes "upload_possible ec eh p fs ps cs (cl_disk c)" and "k < length fs"
    and "cl_read_jobs c = [j]" "reads_from i p fs k j" "idle j"
    and "write_jobs m = [w]" "between eh i ps cs d0 k w (fm_disk m)"
  shows "\<exists>j' x ino. upload_turn ec eh now (c, m)
      = Some (c\<lparr>cl_read_jobs := [j']\<rparr>, m\<lparr>write_jobs := [w\<lparr>digest := x\<rparr>]\<rparr>)
    \<and> reads_from i p fs k j' \<and> confirmed_at ino 0 j' \<and> f_content (inodes (cl_disk c) ino) = f_content (cs ! k)"
proof -
  obtain ino where ino: "links (cl_disk c) (join_path (fenv ec) p (fe_name (fs ! k))) = Some ino"
    "inodes (cl_disk c) ino = cs ! k"
    using assms(1,2) by (auto simp: upload_possible_def file_at_def)
  obtain j1 where t: "handle_read_jobs (fenv ec) (cl_disk c) [j] = ([MsgDigest (digest_of i k (cs ! k))], None, [j1])"
    and j1: "reads_from i p fs k j1" "asked ino j1"
    using tick_idle [OF assms(4,5) _ assms(2) ino(1)] assms(1) ino(2) by (auto simp: upload_possible_def)
  have kp: "k < length ps" using assms(1,2) by (simp add: upload_possible_def)
  obtain q where q: "source w = FilePath q" "ps ! k = join_path (base eh) q (fe_name (files w ! k))"
    and w: "job_id w = i" "file_index w (int k) = Some k"
    using assms(7) kp by (auto simp: between_def writes_to_def file_index_nat)
  have no: "file_at (fm_disk m) (ps ! k) = None" using assms(7) kp by (simp add: between_def)
  define x where "x = \<lparr>d_size = length (f_content (cs ! k)), d_modified = f_mtime (cs ! k)\<rparr>"
  define r where "r = \<lparr>sc_id = i, sc_file_num = int k, sc_union = Some (ConfirmOffset 0)\<rparr>"
  have h: "fm_check_digest eh i (int k) (length (f_content (cs ! k))) (f_mtime (cs ! k)) True False m
      = ([RawMessage (MsgConfirm r)], m\<lparr>write_jobs := [w\<lparr>digest := x\<rparr>]\<rparr>)"
    using w q no assms(6)
    by (simp add: fm_check_digest_def is_write_need_confirmation_def Let_def x_def r_def)
  have cf: "confirm_in (fm_env.truncate ec) r [j1] (cl_disk c) = Some ([set_file_confirmed True j1], cl_disk c)"
    using j1(1) by (simp add: confirm_in_def r_def confirm_def reads_from_def)
  show ?thesis
    using t h cf assms(3) j1
    by (intro exI [of _ "set_file_confirmed True j1"] exI [of _ x] exI [of _ ino])
       (simp add: upload_turn_def client_tick_def digest_of_def map_filter_simps reads_from_def
         confirmed_at_def asked_def set_file_confirmed_def ino(2))
qed

lemma turn_block:
  assumes "upload_possible ec eh p fs ps cs (cl_disk c)" and "k < length fs"
    and "cl_read_jobs c = [j]" "reads_from i p fs k j" "confirmed_at ino pos j"
    and "f_content (inodes (cl_disk c) ino) = f_content (cs ! k)" "pos < length (f_content (cs ! k))"
    and "write_jobs m = [w]"
    and "pos = 0 \<and> between eh i ps cs d0 k w (fm_disk m)
      \<or> writes_to (base eh) i ps cs w \<and> receiving ps cs d0 k (take pos (f_content (cs ! k))) w (fm_disk m)"
  shows "\<exists>j' w' d'. upload_turn ec eh now (c, m)
      = Some (c\<lparr>cl_read_jobs := [j']\<rparr>, m\<lparr>write_jobs := [w'], fm_disk := d'\<rparr>)
    \<and> reads_from i p fs k j' \<and> confirmed_at ino (min (pos + BUF_SIZE) (length (f_content (cs ! k)))) j'
    \<and> writes_to (base eh) i ps cs w' \<and> receiving ps cs d0 k (take (pos + BUF_SIZE) (f_content (cs ! k))) w' d'"
proof -
  have perm: "permits (fenv ec)" "permits (base eh)" "apart ps" "k < length ps"
    and z: "\<And>bs. decompress (base eh) (compress (fenv ec) bs) = bs"
    using assms(1,2) by (auto simp: upload_possible_def)
  obtain b j' where t: "handle_read_jobs (fenv ec) (cl_disk c) [j] = ([MsgBlock b], None, [j'])"
    "b_id b = i" "b_file_num b = int k"
    "block_data (base eh) b = take BUF_SIZE (drop pos (f_content (cs ! k)))"
    "reads_from i p fs k j'" "confirmed_at ino (pos + length (block_data (base eh) b)) j'"
    using tick_block [OF assms(4,5) perm(1) assms(2), of "cl_disk c" "base eh"] assms(6,7) z by auto
  have new: "take (pos + BUF_SIZE) (f_content (cs ! k)) = take pos (f_content (cs ! k)) @ block_data (base eh) b"
    by (simp add: t(4) take_add)
  have len: "pos + length (block_data (base eh) b) = min (pos + BUF_SIZE) (length (f_content (cs ! k)))"
    using assms(7) by (simp add: t(4))
  have "\<exists>w' d'. write_block (base eh) b w (fm_disk m) = (Inr (), w', d')
      \<and> receiving ps cs d0 k (take (pos + BUF_SIZE) (f_content (cs ! k))) w' d' \<and> writes_to (base eh) i ps cs w'"
    using assms(9)
  proof (elim disjE conjE)
    assume "pos = 0" "between eh i ps cs d0 k w (fm_disk m)"
    then show ?thesis
      using write_block_first [OF _ perm(2,3) _ perm(4) t(2,3)] new by (auto simp: between_def)
  next
    assume "writes_to (base eh) i ps cs w" "receiving ps cs d0 k (take pos (f_content (cs ! k))) w (fm_disk m)"
    then show ?thesis using write_block_next [OF _ perm(2,3) _ t(2,3)] new by auto
  qed
  then obtain w' d' where w: "write_block (base eh) b w (fm_disk m) = (Inr (), w', d')"
    "receiving ps cs d0 k (take (pos + BUF_SIZE) (f_content (cs ! k))) w' d'" "writes_to (base eh) i ps cs w'"
    by auto
  have "job_id w = i" using assms(9) by (auto simp: between_def writes_to_def)
  then have "fm_write_block eh b m = ([], m\<lparr>write_jobs := [w'], fm_disk := d'\<rparr>)"
    using t(2) w(1) assms(8) by (simp add: fm_write_block_def)
  then show ?thesis
    using t w assms(3) len
    by (intro exI [of _ j'] exI [of _ w'] exI [of _ d'])
       (simp add: upload_turn_def client_tick_def map_filter_simps)
qed


lemma turn_ends_file:
  assumes "upload_possible ec eh p fs ps cs (cl_disk c)" and "k < length fs"
    and "\<forall>k < length ps. file_at d0 (ps ! k) = None"
    and "cl_read_jobs c = [j]" "reads_from i p fs k j" "confirmed_at ino (length (f_content (cs ! k))) j"
    and "f_content (inodes (cl_disk c) ino) = f_content (cs ! k)"
    and "write_jobs m = [w]"
    and "f_content (cs ! k) = [] \<and> between eh i ps cs d0 k w (fm_disk m)
      \<or> writes_to (base eh) i ps cs w \<and> receiving ps cs d0 k (f_content (cs ! k)) w (fm_disk m)"
  shows "\<exists>j' w' d'. upload_turn ec eh now (c, m)
      = Some (c\<lparr>cl_read_jobs := [j']\<rparr>, m\<lparr>write_jobs := [w'], fm_disk := d'\<rparr>)
    \<and> reads_from i p fs (Suc k) j' \<and> idle j' \<and> between eh i ps cs d0 (Suc k) w' d'"
proof -
  have perm: "permits (fenv ec)" "permits (base eh)" "apart ps" "k < length ps"
    using assms(1,2) by (auto simp: upload_possible_def)
  obtain b j' where t: "handle_read_jobs (fenv ec) (cl_disk c) [j] = ([MsgBlock b], None, [j'])"
    "b_id b = i" "b_file_num b = int k" "block_data (base eh) b = []"
    "reads_from i p fs (Suc k) j'" "idle j'"
    using tick_end_of_file [OF assms(5,6) perm(1) assms(2), of "cl_disk c" "base eh"] assms(7) by auto
  have "\<exists>w' d'. write_block (base eh) b w (fm_disk m) = (Inr (), w', d')
      \<and> receiving ps cs d0 k (f_content (cs ! k)) w' d' \<and> writes_to (base eh) i ps cs w'"
    using assms(9)
  proof (elim disjE conjE)
    assume "f_content (cs ! k) = []" "between eh i ps cs d0 k w (fm_disk m)"
    then show ?thesis
      using write_block_first [OF _ perm(2,3) _ perm(4) t(2,3)] t(4) by (auto simp: between_def)
  next
    assume "writes_to (base eh) i ps cs w" "receiving ps cs d0 k (f_content (cs ! k)) w (fm_disk m)"
    then show ?thesis using write_block_next [OF _ perm(2,3) _ t(2,3)] t(4) by auto
  qed
  then obtain w' d' where w: "write_block (base eh) b w (fm_disk m) = (Inr (), w', d')"
    "receiving ps cs d0 k (f_content (cs ! k)) w' d'" "writes_to (base eh) i ps cs w'"
    by auto
  have "files_upto ps cs d0 (Suc k) (modify_time (base eh) w' d')" by (rule upto_finish [OF w(3) perm(2,3) w(2)])
  moreover have "Suc k < length ps \<longrightarrow> file_at d' (ps ! Suc k) = None" "file_num w' = int k"
    using w(2) assms(3) by (auto simp: receiving_def files_upto_def)
  ultimately have "between eh i ps cs d0 (Suc k) w' d'" using w(3) by (simp add: between_def)
  moreover have "job_id w = i" using assms(9) by (auto simp: between_def writes_to_def)
  then have "fm_write_block eh b m = ([], m\<lparr>write_jobs := [w'], fm_disk := d'\<rparr>)"
    using t(2) w(1) assms(8) by (simp add: fm_write_block_def)
  ultimately show ?thesis
    using t assms(4)
    by (intro exI [of _ j'] exI [of _ w'] exI [of _ d'])
       (simp add: upload_turn_def client_tick_def map_filter_simps)
qed

text \<open>The states of an upload as a whole: between two files, and within one.\<close>

definition resting ::
  "fm_env \<Rightarrow> int \<Rightarrow> string \<Rightarrow> file_entry list \<Rightarrow> string list \<Rightarrow> fdata list \<Rightarrow> disk \<Rightarrow> disk \<Rightarrow> nat
    \<Rightarrow> file_client \<times> file_manager \<Rightarrow> bool" where
  "resting eh i p fs ps cs d0 dc k s =
     (cl_disk (fst s) = dc \<and> cl_write_jobs (fst s) = [] \<and>
      (\<exists>j w. cl_read_jobs (fst s) = [j] \<and> reads_from i p fs k j \<and> idle j \<and>
             write_jobs (snd s) = [w] \<and> between eh i ps cs d0 k w (fm_disk (snd s))))"

definition sending ::
  "fm_env \<Rightarrow> int \<Rightarrow> string \<Rightarrow> file_entry list \<Rightarrow> string list \<Rightarrow> fdata list \<Rightarrow> disk \<Rightarrow> disk \<Rightarrow> nat \<Rightarrow> nat
    \<Rightarrow> file_client \<times> file_manager \<Rightarrow> bool" where
  "sending eh i p fs ps cs d0 dc k pos s =
     (cl_disk (fst s) = dc \<and> cl_write_jobs (fst s) = [] \<and>
      (\<exists>j w ino. cl_read_jobs (fst s) = [j] \<and> reads_from i p fs k j \<and> confirmed_at ino pos j \<and>
             f_content (inodes dc ino) = f_content (cs ! k) \<and> write_jobs (snd s) = [w] \<and>
             (pos = 0 \<and> between eh i ps cs d0 k w (fm_disk (snd s))
              \<or> writes_to (base eh) i ps cs w \<and>
                receiving ps cs d0 k (take pos (f_content (cs ! k))) w (fm_disk (snd s)))))"

lemma resting_turn:
  assumes "upload_possible ec eh p fs ps cs dc" and "k < length fs" and "resting eh i p fs ps cs d0 dc k s"
  shows "\<exists>s'. upload_turn ec eh now s = Some s' \<and> sending eh i p fs ps cs d0 dc k 0 s'"
proof -
  obtain c m where s: "s = (c, m)" by (cases s)
  obtain j w where st: "cl_disk c = dc" "cl_write_jobs c = []" "cl_read_jobs c = [j]" "reads_from i p fs k j" "idle j"
    "write_jobs m = [w]" "between eh i ps cs d0 k w (fm_disk m)"
    using assms(3) by (auto simp: resting_def s)
  obtain j' x ino where t: "upload_turn ec eh now (c, m)
      = Some (c\<lparr>cl_read_jobs := [j']\<rparr>, m\<lparr>write_jobs := [w\<lparr>digest := x\<rparr>]\<rparr>)"
    "reads_from i p fs k j'" "confirmed_at ino 0 j'" "f_content (inodes (cl_disk c) ino) = f_content (cs ! k)"
    using turn_asks [of ec eh p fs ps cs c k j i m w d0 now] assms(1,2) st by auto
  show ?thesis using t st by (auto simp: s sending_def)
qed

lemma sending_turn:
  assumes "upload_possible ec eh p fs ps cs dc" and "k < length fs"
    and "sending eh i p fs ps cs d0 dc k pos s" and "pos < length (f_content (cs ! k))"
  shows "\<exists>s'. upload_turn ec eh now s = Some s' \<and>
    sending eh i p fs ps cs d0 dc k (min (pos + BUF_SIZE) (length (f_content (cs ! k)))) s'"
proof -
  obtain c m where s: "s = (c, m)" by (cases s)
  obtain j w ino where st: "cl_disk c = dc" "cl_write_jobs c = []" "cl_read_jobs c = [j]" "reads_from i p fs k j"
    "confirmed_at ino pos j" "f_content (inodes (cl_disk c) ino) = f_content (cs ! k)" "write_jobs m = [w]"
    "pos = 0 \<and> between eh i ps cs d0 k w (fm_disk m) \<or> writes_to (base eh) i ps cs w \<and>
       receiving ps cs d0 k (take pos (f_content (cs ! k))) w (fm_disk m)"
    using assms(3) by (auto simp: sending_def s)
  have cut: "take (pos + BUF_SIZE) (f_content (cs ! k))
      = take (min (pos + BUF_SIZE) (length (f_content (cs ! k)))) (f_content (cs ! k))"
    by (simp add: min_def)
  show ?thesis
    using turn_block [of ec eh p fs ps cs c k j i ino pos m w d0 now] assms(1,2,4) st
    by (auto simp: s sending_def cut)
qed

lemma sent_turn:
  assumes "upload_possible ec eh p fs ps cs dc" and "k < length fs" and "\<forall>k < length ps. file_at d0 (ps ! k) = None"
    and "sending eh i p fs ps cs d0 dc k (length (f_content (cs ! k))) s"
  shows "\<exists>s'. upload_turn ec eh now s = Some s' \<and> resting eh i p fs ps cs d0 dc (Suc k) s'"
proof -
  obtain c m where s: "s = (c, m)" by (cases s)
  obtain j w ino where st: "cl_disk c = dc" "cl_write_jobs c = []" "cl_read_jobs c = [j]" "reads_from i p fs k j"
    "confirmed_at ino (length (f_content (cs ! k))) j" "f_content (inodes (cl_disk c) ino) = f_content (cs ! k)"
    "write_jobs m = [w]"
    "f_content (cs ! k) = [] \<and> between eh i ps cs d0 k w (fm_disk m) \<or> writes_to (base eh) i ps cs w \<and>
       receiving ps cs d0 k (f_content (cs ! k)) w (fm_disk m)"
    using assms(4) by (auto simp: sending_def s)
  show ?thesis
    using turn_ends_file [of ec eh p fs ps cs c k d0 j i ino m w now] assms(1-3) st
    by (auto simp: s resting_def)
qed

lemma no_forward_status:
  "handle_job_status now i n err c = (out, c') \<Longrightarrow> host_all e out m = Some ([], m) \<and> cl_read_jobs c' = cl_read_jobs c"
  by (auto simp: handle_job_status_def Let_def split: if_splits option.splits)

lemma last_turn:
  assumes "upload_possible ec eh p fs ps cs dc" and "resting eh i p fs ps cs d0 dc (length fs) s"
  shows "\<exists>c m. upload_turn ec eh now s = Some (c, m) \<and> cl_read_jobs c = [] \<and> write_jobs m = [] \<and>
    files_upto ps cs d0 (length fs) (fm_disk m)"
proof -
  obtain c m where s: "s = (c, m)" by (cases s)
  obtain j w where st: "cl_disk c = dc" "cl_write_jobs c = []" "cl_read_jobs c = [j]" "reads_from i p fs (length fs) j"
    "idle j" "write_jobs m = [w]" "between eh i ps cs d0 (length fs) w (fm_disk m)"
    using assms(2) by (auto simp: resting_def s)
  define c1 where "c1 = c\<lparr>cl_read_jobs := []\<rparr>"
  obtain out c2 where h: "handle_job_status now i (int (length fs)) None c1 = (out, c2)" by fastforce
  have w: "job_id w = i" "files_upto ps cs d0 (length fs) (modify_time (base eh) w (fm_disk m))"
    using st(7) by (auto simp: between_def writes_to_def)
  define m1 where "m1 = m\<lparr>write_jobs := [], fm_disk := modify_time (base eh) w (fm_disk m)\<rparr>"
  have "upload_turn ec eh now (c, m) = Some (c2, m1)"
    using tick_end_of_jobs [OF st(4,5)] no_forward_status [OF h] st(2,3,6) w(1) h
    by (simp add: upload_turn_def client_tick_def map_filter_simps c1_def m1_def on_done_def)
  then show ?thesis
    using no_forward_status [OF h, of eh m] w(2) by (auto simp: s c1_def m1_def)
qed

text \<open>The number of blocks with data of a file, and the turns for all files and the end.\<close>

definition blocks :: "nat \<Rightarrow> nat" where
  "blocks n = (n + BUF_SIZE - 1) div BUF_SIZE"

definition turns_for :: "fdata list \<Rightarrow> nat" where
  "turns_for cs = sum_list (map (\<lambda>f. 2 + blocks (length (f_content f))) cs) + 1"

lemma blocks_0 [simp]: "blocks 0 = 0"
  by (simp add: blocks_def BUF_SIZE_def)

lemma blocks_pos: "0 < n \<Longrightarrow> blocks n = Suc ((n - 1) div BUF_SIZE)"
proof -
  assume "0 < n"
  then have "n + BUF_SIZE - 1 = (n - 1) + BUF_SIZE" by simp
  then show ?thesis unfolding blocks_def by (simp only: div_add_self2) (simp add: BUF_SIZE_def)
qed

lemma blocks_more: "0 < n \<Longrightarrow> blocks n = Suc (blocks (n - BUF_SIZE))"
proof (cases "n \<le> BUF_SIZE")
  case True
  moreover assume "0 < n"
  ultimately show ?thesis by (simp add: blocks_pos)
next
  case False
  then have "n - 1 = (n - BUF_SIZE - 1) + BUF_SIZE" "0 < n" "0 < n - BUF_SIZE" by auto
  moreover have "((n - BUF_SIZE - 1) + BUF_SIZE) div BUF_SIZE = Suc ((n - BUF_SIZE - 1) div BUF_SIZE)"
    by (simp add: BUF_SIZE_def)
  ultimately show ?thesis by (simp only: blocks_pos)
qed

lemma upload_turns_end:
  "upload_turns ec eh now n s = Some s1 \<Longrightarrow> upload_turn ec eh now s1 = Some s2
    \<Longrightarrow> upload_turns ec eh now (Suc n) s = Some s2"
  unfolding Suc_eq_plus1 upload_turns_add by simp

lemma sending_turns:
  assumes "upload_possible ec eh p fs ps cs dc" and "k < length fs"
    and "sending eh i p fs ps cs d0 dc k pos s" and "pos \<le> length (f_content (cs ! k))"
  shows "\<exists>s'. upload_turns ec eh now (blocks (length (f_content (cs ! k)) - pos)) s = Some s' \<and>
    sending eh i p fs ps cs d0 dc k (length (f_content (cs ! k))) s'"
  using assms(3,4)
proof (induction "length (f_content (cs ! k)) - pos" arbitrary: pos s rule: less_induct)
  case less
  define L where "L = length (f_content (cs ! k))"
  show ?case
  proof (cases "pos = L")
    case True
    then show ?thesis using less(2) by (simp add: L_def)
  next
    case False
    then have lt: "pos < L" using less(3) by (simp add: L_def)
    obtain s1 where s1: "upload_turn ec eh now s = Some s1"
      "sending eh i p fs ps cs d0 dc k (min (pos + BUF_SIZE) L) s1"
      using sending_turn [OF assms(1,2) less(2)] lt unfolding L_def by blast
    have "L - min (pos + BUF_SIZE) L < L - pos" using lt by (simp add: BUF_SIZE_def)
    then obtain s2 where s2: "upload_turns ec eh now (blocks (L - min (pos + BUF_SIZE) L)) s1 = Some s2"
      "sending eh i p fs ps cs d0 dc k L s2"
      using less(1) [of "min (pos + BUF_SIZE) L" s1] s1(2) unfolding L_def by auto
    have "blocks (L - pos) = Suc (blocks (L - min (pos + BUF_SIZE) L))"
      using lt blocks_more [of "L - pos"] by (simp add: min_def)
    then show ?thesis using s1(1) s2 by (simp add: L_def)
  qed
qed

lemma file_turns:
  assumes "upload_possible ec eh p fs ps cs dc" and "k < length fs" and "\<forall>k < length ps. file_at d0 (ps ! k) = None"
    and "resting eh i p fs ps cs d0 dc k s"
  shows "\<exists>s'. upload_turns ec eh now (2 + blocks (length (f_content (cs ! k)))) s = Some s'
    \<and> resting eh i p fs ps cs d0 dc (Suc k) s'"
proof -
  obtain s1 where s1: "upload_turn ec eh now s = Some s1" "sending eh i p fs ps cs d0 dc k 0 s1"
    using resting_turn [OF assms(1,2,4)] by blast
  obtain s2 where s2: "upload_turns ec eh now (blocks (length (f_content (cs ! k)))) s1 = Some s2"
    "sending eh i p fs ps cs d0 dc k (length (f_content (cs ! k))) s2"
    using sending_turns [OF assms(1,2) s1(2), of now] by auto
  obtain s3 where s3: "upload_turn ec eh now s2 = Some s3" "resting eh i p fs ps cs d0 dc (Suc k) s3"
    using sent_turn [OF assms(1-3) s2(2)] by blast
  have "upload_turns ec eh now (Suc (blocks (length (f_content (cs ! k))))) s1 = Some s3"
    by (rule upload_turns_end [OF s2(1) s3(1)])
  then show ?thesis using s1(1) s3(2) by simp
qed

lemma files_turns:
  assumes "upload_possible ec eh p fs ps cs dc" and "\<forall>k < length ps. file_at d0 (ps ! k) = None"
    and "resting eh i p fs ps cs d0 dc 0 s" and "k \<le> length fs"
  shows "\<exists>s'. upload_turns ec eh now (sum_list (map (\<lambda>f. 2 + blocks (length (f_content f))) (take k cs))) s = Some s'
    \<and> resting eh i p fs ps cs d0 dc k s'"
  using assms(4)
proof (induction k)
  case 0
  then show ?case using assms(3) by simp
next
  case (Suc k)
  then obtain s1 where s1: "upload_turns ec eh now (sum_list (map (\<lambda>f. 2 + blocks (length (f_content f))) (take k cs))) s = Some s1"
    "resting eh i p fs ps cs d0 dc k s1" by auto
  have k: "k < length cs" "k < length fs" using Suc(2) assms(1) by (auto simp: upload_possible_def)
  obtain s2 where s2: "upload_turns ec eh now (2 + blocks (length (f_content (cs ! k)))) s1 = Some s2"
    "resting eh i p fs ps cs d0 dc (Suc k) s2"
    using file_turns [OF assms(1) k(2) assms(2) s1(2)] by blast
  have "sum_list (map (\<lambda>f. 2 + blocks (length (f_content f))) (take (Suc k) cs))
      = sum_list (map (\<lambda>f. 2 + blocks (length (f_content f))) (take k cs)) + (2 + blocks (length (f_content (cs ! k))))"
    using k(1) by (simp add: take_Suc_conv_app_nth)
  then show ?case using s1(1) s2 by (simp only: upload_turns_add) simp
qed

lemma upload_runs:
  assumes "upload_possible ec eh p fs ps cs dc" and "\<forall>k < length ps. file_at d0 (ps ! k) = None"
    and "resting eh i p fs ps cs d0 dc 0 s"
  shows "\<exists>c m. upload_turns ec eh now (turns_for cs) s = Some (c, m) \<and> cl_read_jobs c = [] \<and> write_jobs m = []
    \<and> files_upto ps cs d0 (length fs) (fm_disk m)"
proof -
  obtain s1 where s1: "upload_turns ec eh now (sum_list (map (\<lambda>f. 2 + blocks (length (f_content f))) cs)) s = Some s1"
    "resting eh i p fs ps cs d0 dc (length fs) s1"
    using files_turns [OF assms, of "length fs" now] assms(1) by (fastforce simp: upload_possible_def)
  obtain c m where "upload_turn ec eh now s1 = Some (c, m)" "cl_read_jobs c = []" "write_jobs m = []"
    "files_upto ps cs d0 (length fs) (fm_disk m)"
    using last_turn [OF assms(1) s1(2)] by blast
  then show ?thesis using upload_turns_end [OF s1(1)] by (simp add: turns_for_def)
qed

section \<open>From the command to the files\<close>

text \<open>The connection turns the request to receive files into a writing job.\<close>

fun receive_op :: "bool \<Rightarrow> int \<Rightarrow> client_out \<Rightarrow> fs_op option" where
  "receive_op od cid (ToPeer (ActReceive i path n fs t)) =
     Some (FsNewWrite path i n (map (\<lambda>f. (fe_name f, fe_modified f)) fs) od t cid)"
| "receive_op od cid _ = None"

text \<open>The user sends the files of a directory, and the host opens its job for them.\<close>

definition open_upload ::
  "client_env \<Rightarrow> fm_env \<Rightarrow> int \<Rightarrow> bool \<Rightarrow> int \<Rightarrow> int \<Rightarrow> string \<Rightarrow> string \<Rightarrow> bool
    \<Rightarrow> file_client \<times> file_manager \<Rightarrow> (file_client \<times> file_manager) option" where
  "open_upload ec eh now od cid i path to hid s =
     (case send_files ec now i Generic path to 0 hid False (fst s) of
        (out, c) \<Rightarrow>
          (case List.map_filter (receive_op od cid) out of
             [r] \<Rightarrow> map_option (\<lambda>(ms, m). (c, m)) (handle_fs eh r (snd s))
           | _ \<Rightarrow> None))"

lemma open_upload_rests:
  assumes "get_recursive_files (separator ec) hid (look ec (cl_disk c) path) = Inr fs"
    and "ps = map (\<lambda>f. join_path (base eh) to (fe_name f)) (files_for_peer ec fs)"
    and "upload_possible ec eh path fs ps cs (cl_disk c)"
    and "map fe_modified fs = map f_mtime cs"
    and "validate_transfer_file_names (on_windows eh)
      (map (\<lambda>f. (fe_name f, fe_modified f)) (files_for_peer ec fs)) = Inr ()"
    and "can_enable_overwrite_detection (peer_version ec)"
    and "cl_read_jobs c = []" "cl_write_jobs c = []" "write_jobs m = []" and "disk_ok (fm_disk m)"
    and "\<forall>k < length ps. file_at (fm_disk m) (ps ! k) = None"
  shows "\<exists>s. open_upload ec eh now od cid i path to hid (c, m) = Some s \<and>
    resting eh i path fs ps cs (fm_disk m) (cl_disk c) 0 s"
proof -
  define fs' where "fs' = files_for_peer ec fs"
  define names where "names = map (\<lambda>f. (fe_name f, fe_modified f)) fs'"
  have modified: "map fe_modified fs' = map fe_modified fs"
    by (simp add: fs'_def files_for_peer_def transform_windows_path_def comp_def)
  then have len: "length fs' = length fs" by (metis length_map)
  define j where "j = default_job\<lparr>job_id := i, job_kind := Generic, remote := to, source := FilePath path,
      file_num := 0, show_hidden := hid, is_remote := False, files := fs, total_size := sum_sizes fs,
      enable_overwrite_detection := True\<rparr>"
  define w where "w = (new_write i Generic [] (FilePath to) 0 False False (map plain_entry names) od)
      \<lparr>total_size := sum_sizes fs, job_conn_id := cid\<rparr>"
  have nr: "new_read (separator ec) (look ec (cl_disk c)) i Generic to (FilePath path) 0 hid False True = Inr j"
    using assms(1) by (simp add: new_read_def j_def)
  have jf: "job_id j = i" "files j = fs" "total_size j = sum_sizes fs" by (simp_all add: j_def)
  have start: "open_upload ec eh now od cid i path to hid (c, m)
      = Some (c\<lparr>cl_read_jobs := [j]\<rparr>, m\<lparr>write_jobs := [w]\<rparr>)"
    using assms(5-7,9) nr by (simp add: open_upload_def send_files_def Let_def jf map_filter_simps fm_new_write_def
      fs'_def [symmetric] names_def [symmetric] w_def)
  have wf: "job_kind w = Generic" "job_id w = i" "source w = FilePath to" "files w = map plain_entry names"
    "file_num w = 0" "stream w = None"
    by (simp_all add: w_def new_write_def default_job_def)
  have lens: "length ps = length fs" "length cs = length fs" using assms(3) by (auto simp: upload_possible_def)
  have "fe_modified (fs' ! k) = f_mtime (cs ! k)" if "k < length fs" for k
    using modified assms(4) that len lens by (metis length_map nth_map)
  then have wt: "writes_to (base eh) i ps cs w"
    using lens len assms(2) by (auto simp: writes_to_def wf names_def plain_entry_def fs'_def [symmetric])
  have "files_upto ps cs (fm_disk m) 0 (modify_time (base eh) w (fm_disk m))"
  proof (cases "ps = []")
    case True
    then have "modify_time (base eh) w (fm_disk m) = fm_disk m"
      using lens len by (simp add: modify_time_def wf names_def file_index_def)
    then show ?thesis using upto_start [OF assms(10)] by simp
  next
    case False
    then show ?thesis
      using upto_fresh [OF wt _ _ wf(5) _ assms(10)] assms(3) by (simp add: upload_possible_def)
  qed
  then have "between eh i ps cs (fm_disk m) 0 w (fm_disk m)" using wt wf assms(11) by (simp add: between_def)
  moreover have "reads_from i path fs 0 j" "idle j" by (simp_all add: j_def reads_from_def idle_def default_job_def)
  ultimately show ?thesis using start assms(8) by (simp add: resting_def)
qed

text \<open>
  C30. A directory that a user uploads to a place where none of its files exists arrives, with no other
  transfer under way and a host that compares files (version 1.1.10 or later). The systems
  of both ends allow every call and end each write before the time of its file is set (\<open>permits\<close>), the
  viewer's files have the content and the listed times of \<open>cs\<close>, the host accepts the names that are sent, and no file's
  place at the host is the place of another or of another's \<open>.download\<close> or \<open>.digest\<close> (\<open>apart\<close>;
  \<open>temporary_name_clash\<close> shows a file lost where they meet). Then, whatever the sizes of the system's
  reads and whatever half-finished files an earlier transfer left behind, after one question, one turn for
  every 128 KiB and one closing turn per file, and one turn at the end, both jobs are gone, every file is
  at the host with its content and time, no temporary file is left, and no other path of the host has
  changed.
\<close>

theorem upload_delivers:
  assumes "get_recursive_files (separator ec) hid (look ec (cl_disk c) path) = Inr fs"
    and "ps = map (\<lambda>f. join_path (base eh) to (fe_name f)) (files_for_peer ec fs)"
    and "upload_possible ec eh path fs ps cs (cl_disk c)"
    and "map fe_modified fs = map f_mtime cs"
    and "validate_transfer_file_names (on_windows eh)
      (map (\<lambda>f. (fe_name f, fe_modified f)) (files_for_peer ec fs)) = Inr ()"
    and "can_enable_overwrite_detection (peer_version ec)"
    and "cl_read_jobs c = []" "cl_write_jobs c = []" "write_jobs m = []" and "disk_ok (fm_disk m)"
    and "\<forall>k < length ps. file_at (fm_disk m) (ps ! k) = None"
  shows "\<exists>s c' m'. open_upload ec eh now od cid i path to hid (c, m) = Some s \<and>
    upload_turns ec eh now (turns_for cs) s = Some (c', m') \<and> cl_read_jobs c' = [] \<and> write_jobs m' = [] \<and>
    (\<forall>k < length fs. file_at (fm_disk m') (ps ! k) = Some (cs ! k) \<and>
       file_at (fm_disk m') (download_path (ps ! k)) = None \<and> file_at (fm_disk m') (digest_path (ps ! k)) = None) \<and>
    (\<forall>p. p \<notin> managed ps \<longrightarrow> file_at (fm_disk m') p = file_at (fm_disk m) p)"
proof -
  obtain s where s: "open_upload ec eh now od cid i path to hid (c, m) = Some s"
    "resting eh i path fs ps cs (fm_disk m) (cl_disk c) 0 s"
    using open_upload_rests [OF assms] by blast
  obtain c' m' where r: "upload_turns ec eh now (turns_for cs) s = Some (c', m')" "cl_read_jobs c' = []"
    "write_jobs m' = []" "files_upto ps cs (fm_disk m) (length fs) (fm_disk m')"
    using upload_runs [OF assms(3,11) s(2), of now] by blast
  show ?thesis
    by (rule exI [of _ s], rule exI [of _ c'], rule exI [of _ m'])
       (use s(1) r in \<open>simp add: files_upto_def\<close>)
qed

text \<open>A viewer with two files, and a host where an earlier attempt left a temporary file.\<close>

definition viewer_env :: client_env where
  "viewer_env =
     \<lparr>pjoin = path_join CHR ''/'', pfile_name = (\<lambda>p. p), can_create = (\<lambda>_. True), can_remove = (\<lambda>_. True),
      can_rename = (\<lambda>_ _. True), can_open = (\<lambda>_. True), can_write = (\<lambda>_. True), write_lags = (\<lambda>_. False), clock = 99,
      read_size = (\<lambda>_ _. 2), read_fails = (\<lambda>_ _. False), compress = (\<lambda>bs. bs), decompress = (\<lambda>bs. bs),
      digest_json = (\<lambda>_. []), parse_digest = (\<lambda>_. None), separator = CHR ''/'', on_windows = False,
      look = (\<lambda>d p. if p = ''/d'' then Some (DirNode 5 None
         [DirEntry ''a'' True False (FileNode 3 7),
          DirEntry ''b'' True False (DirNode 6 None [DirEntry ''c'' True False (FileNode 0 8)])])
         else None),
      path_parent_of = (\<lambda>_. None), can_mkdir = (\<lambda>_. True), can_rmdir = (\<lambda>_. True), home_dir = ''/'',
      max_files_option = [], peer_is_windows = False, peer_version = 1004020,
      path_sep = (\<lambda>_. ''/'')\<rparr>"

definition demo_client :: file_client where
  "demo_client =
     \<lparr>cl_read_jobs = [], cl_write_jobs = [], cl_remove_jobs = Map.empty,
      cl_disk = \<lparr>links = [''/d/a'' \<mapsto> 0, ''/d/b/c'' \<mapsto> 1],
                 inodes = (\<lambda>i. if i = 0 then \<lparr>f_content = [1, 2, 3], f_mtime = 7\<rparr> else \<lparr>f_content = [], f_mtime = 8\<rparr>),
                 next_inode = 2\<rparr>\<rparr>"

definition demo_receiver :: file_manager where
  "demo_receiver =
     \<lparr>write_jobs = [], read_jobs = [],
      fm_disk = \<lparr>links = [''/h/a.download'' \<mapsto> 0], inodes = (\<lambda>_. \<lparr>f_content = [9], f_mtime = 1\<rparr>), next_inode = 1\<rparr>\<rparr>"

lemma version_1_1_10: "get_version_number ''1.1.10'' = 1001100"
  by (simp add: get_version_number_def version_parts_def i64_of_def parse_i64_def parse_unsigned_def
    is_digit_def digits_val_def digit_val_def)

theorem upload_delivers_witness:
  "\<exists>s c' m'. open_upload viewer_env (fm_env.truncate viewer_env) 0 True 1 5 ''/d'' ''/h'' False (demo_client, demo_receiver) = Some s \<and>
    upload_turns viewer_env (fm_env.truncate viewer_env) 0
      (turns_for [\<lparr>f_content = [1, 2, 3], f_mtime = 7\<rparr>, \<lparr>f_content = [], f_mtime = 8\<rparr>]) s = Some (c', m') \<and>
    file_at (fm_disk m') ''/h/a'' = Some \<lparr>f_content = [1, 2, 3], f_mtime = 7\<rparr> \<and>
    file_at (fm_disk m') ''/h/b/c'' = Some \<lparr>f_content = [], f_mtime = 8\<rparr> \<and>
    file_at (fm_disk m') ''/h/a.download'' = None"
proof -
  define fs where "fs = [\<lparr>fe_name = ''a'', fe_type = TypeFile, fe_hidden = False, fe_size = 3, fe_modified = 7\<rparr>,
    \<lparr>fe_name = ''b/c'', fe_type = TypeFile, fe_hidden = False, fe_size = 0, fe_modified = 8\<rparr>]"
  define ps where "ps = [''/h/a'', ''/h/b/c'']"
  define cs where "cs = [\<lparr>f_content = [1, 2, 3 :: u8], f_mtime = 7\<rparr>, \<lparr>f_content = [], f_mtime = 8\<rparr>]"
  have fs: "get_recursive_files (separator viewer_env) False (look viewer_env (cl_disk demo_client) ''/d'') = Inr fs"
    by (simp add: viewer_env_def get_recursive_files_def visible_def file_entry_of_def path_join_def ends_with_def fs_def)
  have peer: "files_for_peer viewer_env fs = fs" by (simp add: files_for_peer_def viewer_env_def)
  have env: "fenv viewer_env = base (fm_env.truncate viewer_env)" "permits (fenv viewer_env)"
    "decompress (fenv viewer_env) (compress (fenv viewer_env) bs) = bs"
    "join_path (fenv viewer_env) p n = (if n = [] then p else path_join CHR ''/'' p n)" for bs p n
    by (simp_all add: fenv_def base_def viewer_env_def fs_env.truncate_def fm_env.truncate_def permits_def join_path_def)
  have ps: "ps = map (\<lambda>f. join_path (base (fm_env.truncate viewer_env)) ''/h'' (fe_name f)) (files_for_peer viewer_env fs)"
    unfolding peer by (simp add: env(1) [symmetric] env(4) path_join_def ends_with_def fs_def ps_def)
  have "apart ps" by (simp add: apart_def ps_def download_path_def digest_path_def)
  then have possible: "upload_possible viewer_env (fm_env.truncate viewer_env) ''/d'' fs ps cs (cl_disk demo_client)"
    by (simp add: upload_possible_def env(1) [symmetric] env(2-4) fs_def ps_def cs_def path_join_def ends_with_def demo_client_def
      file_at_def All_less_Suc)
  have names: "validate_transfer_file_names (on_windows (fm_env.truncate viewer_env))
      (map (\<lambda>f. (fe_name f, fe_modified f)) (files_for_peer viewer_env fs)) = Inr ()"
    unfolding peer by (simp add: fs_def validate_transfer_file_names_def is_single_file_with_empty_name_def
      validate_file_name_no_traversal_def fm_env.truncate_def viewer_env_def is_path_sep_def)
  have ok: "disk_ok (fm_disk demo_receiver)" by (simp add: demo_receiver_def disk_ok_def)
  have no: "\<forall>k < length ps. file_at (fm_disk demo_receiver) (ps ! k) = None"
    by (simp add: ps_def demo_receiver_def file_at_def All_less_Suc)
  have v: "can_enable_overwrite_detection (peer_version viewer_env)"
    by (simp add: viewer_env_def can_enable_overwrite_detection_def version_1_1_10)
  show ?thesis
    using upload_delivers [OF fs ps possible _ names v _ _ _ ok no, of 0 True 1 5]
    by (simp add: demo_client_def demo_receiver_def fs_def ps_def cs_def All_less_Suc download_path_def) blast
qed

end
