(* ===== verification/FileSafety.thy ===== *)
theory FileSafety
  imports FileSession
begin

text \<open>
  Where transferred files can end up, and what happens when a transfer is cancelled, fails, resumes
  or is driven by a peer that does not follow the protocol.
\<close>

section \<open>Names\<close>

text \<open>
  A path taken apart at the separators of every platform, with \<open>.\<close> and \<open>..\<close> resolved as the
  operating system does when it walks it.
\<close>

definition walk :: "string list \<Rightarrow> string \<Rightarrow> string list" where
  "walk st c = (if c = [] \<or> c = ''.'' then st else if c = ''..'' then butlast st else st @ [c])"

definition resolve :: "string \<Rightarrow> string list" where
  "resolve p = foldl walk [] (split_on is_path_sep p)"

text \<open>\<open>Path::join\<close> of both platforms: an absolute path, or one with a drive, replaces the first.\<close>

definition has_drive :: "string \<Rightarrow> bool" where
  "has_drive n = (2 \<le> length n \<and> is_ascii_alphabetic (n ! 0) \<and> n ! 1 = CHR '':'')"

definition os_join :: "bool \<Rightarrow> char \<Rightarrow> string \<Rightarrow> string \<Rightarrow> string" where
  "os_join windows sep p n =
     (if windows \<and> (has_drive n \<or> starts_with n ''/'' \<or> starts_with n [CHR 0x5C]) then n
      else path_join sep p n)"

definition proper_name :: "bool \<Rightarrow> string \<Rightarrow> bool" where
  "proper_name windows n =
     (CHR 0x00 \<notin> set n \<and> ''..'' \<notin> set (split_on is_path_sep n) \<and> \<not> (windows \<and> has_drive n) \<and>
      \<not> starts_with n ''/'' \<and> \<not> starts_with n [CHR 0x5C])"

lemma validate_name: "validate_file_name_no_traversal windows n = Inr () \<longleftrightarrow> proper_name windows n"
  by (auto simp: validate_file_name_no_traversal_def proper_name_def has_drive_def)

lemma validate_names: "validate_names windows fs = Inr () \<longleftrightarrow> (\<forall>(n, t) \<in> set fs. n \<noteq> [] \<and> proper_name windows n)"
proof (induction windows fs rule: validate_names.induct)
  case (2 windows name t fs)
  then show ?case
    using validate_name [of windows name]
    by (cases "validate_file_name_no_traversal windows name") auto
qed simp

lemma split_on_append:
  assumes "P c"
  shows "split_on P (p @ c # q) = split_on P p @ split_on P q"
proof (induction p)
  case Nil
  then show ?case using assms by simp
next
  case (Cons x p)
  then show ?case by (cases "split_on P p") (simp_all split: list.splits)
qed

lemma walk_proper: "''..'' \<notin> set cs \<Longrightarrow> \<exists>xs. foldl walk st cs = st @ xs"
proof (induction cs arbitrary: st)
  case (Cons c cs)
  then obtain xs where xs: "foldl walk (walk st c) cs = walk st c @ xs" by auto
  then have "foldl walk st (c # cs) = walk st c @ xs" by simp
  moreover have "walk st c = st \<or> walk st c = st @ [c]" using Cons.prems by (auto simp: walk_def)
  ultimately show ?case by auto
qed simp

lemma resolve_join:
  assumes "proper_name windows n" and "is_path_sep sep"
  shows "\<exists>xs. resolve (os_join windows sep p n) = resolve p @ xs"
proof -
  have dots: "''..'' \<notin> set (split_on is_path_sep n)" using assms(1) by (simp add: proper_name_def)
  have "sep = CHR ''/'' \<or> sep = CHR 0x5C" using assms(2) by (simp add: is_path_sep_def)
  then have "\<not> starts_with n [sep]" using assms(1) by (auto simp: proper_name_def)
  then have j: "os_join windows sep p n = (if p = [] then n else if ends_with p [sep] then p @ n else p @ sep # n)"
    using assms(1) by (auto simp: os_join_def path_join_def proper_name_def)
  consider "p = []" | p' where "p = p' @ [sep]" | "p \<noteq> []" "\<not> ends_with p [sep]"
  proof -
    assume 1: "p = [] \<Longrightarrow> thesis" and 2: "\<And>p'. p = p' @ [sep] \<Longrightarrow> thesis"
      and 3: "p \<noteq> [] \<Longrightarrow> \<not> ends_with p [sep] \<Longrightarrow> thesis"
    show thesis
    proof (cases p rule: rev_cases)
      case (snoc q x)
      then show ?thesis using 2 3 by (cases "x = sep") (auto simp: ends_with_def)
    qed (rule 1)
  qed
  then show ?thesis
  proof cases
    case 1
    then show ?thesis using j by (simp add: resolve_def walk_def)
  next
    case 2
    then have "os_join windows sep p n = p' @ sep # n" using j by (simp add: ends_with_def)
    then have "resolve (os_join windows sep p n) = foldl walk (foldl walk [] (split_on is_path_sep p')) (split_on is_path_sep n)"
      using assms(2) by (simp add: resolve_def split_on_append)
    moreover have "resolve p = foldl walk [] (split_on is_path_sep p')"
      using assms(2) by (simp add: 2 resolve_def split_on_append walk_def)
    ultimately show ?thesis using walk_proper [OF dots] by metis
  next
    case 3
    then have "resolve (os_join windows sep p n) = foldl walk (resolve p) (split_on is_path_sep n)"
      using j assms(2) by (simp add: resolve_def split_on_append)
    then show ?thesis using walk_proper [OF dots] by metis
  qed
qed

text \<open>
  C31. The host writes only below the directory a transfer names: whatever list of names a peer
  sends, either the request is answered with an error and nothing changes, or the path of every
  file, with all dots resolved and with the separators, drives and absolute paths of either
  platform, is that of the transfer or lies below it.
\<close>

theorem written_paths_stay_inside:
  assumes "fm_new_write e path i n fs od tot cid m = (out, m')" and "is_path_sep sep"
    and "pjoin e = os_join (on_windows e) sep"
  shows "(\<exists>err. out = [RawMessage (MsgError i (Rejected err) n)]) \<and> m' = m \<or>
    (\<exists>j. write_jobs m' = write_jobs m @ [j] \<and> source j = FilePath path \<and>
      (\<forall>f \<in> set (files j). \<exists>xs. resolve (join_path (base e) path (fe_name f)) = resolve path @ xs))"
proof (cases "validate_transfer_file_names (on_windows e) fs")
  case (Inl err)
  then show ?thesis using assms(1) by (auto simp: fm_new_write_def)
next
  case (Inr u)
  define j where "j = (new_write i Generic [] (FilePath path) n False False (map plain_entry fs) od)
      \<lparr>total_size := tot, job_conn_id := cid\<rparr>"
  have j: "write_jobs m' = write_jobs m @ [j]"
    using assms(1) Inr by (auto simp: fm_new_write_def j_def Let_def)
  have "\<exists>xs. resolve (join_path (base e) path (fe_name f)) = resolve path @ xs" if "f \<in> set (map plain_entry fs)" for f
  proof (cases "fe_name f = []")
    case True
    then show ?thesis by (simp add: join_path_def)
  next
    case False
    then have "\<not> is_single_file_with_empty_name fs"
      using that by (cases fs) (auto simp: is_single_file_with_empty_name_def plain_entry_def)
    then have "validate_names (on_windows e) fs = Inr ()"
      using Inr by (simp add: validate_transfer_file_names_def)
    then have "proper_name (on_windows e) (fe_name f)"
      using that by (auto simp: validate_names plain_entry_def)
    then show ?thesis
      using resolve_join [OF _ assms(2)] False assms(3)
      by (simp add: join_path_def base_def fs_env.truncate_def)
  qed
  moreover have "source j = FilePath path" "files j = map plain_entry fs"
    by (simp_all add: j_def new_write_def default_job_def)
  ultimately show ?thesis using j by auto
qed

text \<open>A request with a step up among its names is refused, and one with good names is not.\<close>

definition demo_fm :: fm_env where
  "demo_fm = (fm_env.truncate viewer_env)\<lparr>pjoin := os_join False CHR ''/''\<rparr>"

theorem written_paths_stay_inside_witness:
  "\<exists>j. write_jobs (snd (fm_new_write demo_fm ''/h'' 1 0 [(''a'', 7), (''b/c'', 8)] True 3 5 demo_receiver)) = [j] \<and>
    (\<forall>f \<in> set (files j). \<exists>xs. resolve (join_path (base demo_fm) ''/h'' (fe_name f)) = resolve ''/h'' @ xs)"
proof -
  have v: "validate_transfer_file_names (on_windows demo_fm) [(''a'', 7), (''b/c'', 8)] = Inr ()"
    by (simp add: validate_transfer_file_names_def is_single_file_with_empty_name_def
      validate_file_name_no_traversal_def is_path_sep_def demo_fm_def viewer_env_def fm_env.truncate_def)
  have p: "pjoin demo_fm = os_join (on_windows demo_fm) CHR ''/''"
    by (simp add: demo_fm_def viewer_env_def fm_env.truncate_def)
  obtain out m' where r: "fm_new_write demo_fm ''/h'' 1 0 [(''a'', 7), (''b/c'', 8)] True 3 5 demo_receiver = (out, m')"
    by fastforce
  then have "out = []" by (simp add: fm_new_write_def v Let_def)
  moreover have "write_jobs demo_receiver = []" by (simp add: demo_receiver_def)
  ultimately show ?thesis
    using written_paths_stay_inside [OF r _ p] by (auto simp add: r is_path_sep_def)
qed

lemma dots_are_refused:
  "fst (fm_new_write demo_fm ''/h'' 1 0 [(''a'', 7), (''b/../../c'', 8)] True 3 5 demo_receiver)
    = [RawMessage (MsgError 1 (Rejected ''path traversal detected in file name'') 0)]"
  by (simp add: fm_new_write_def validate_transfer_file_names_def is_single_file_with_empty_name_def
      validate_file_name_no_traversal_def is_path_sep_def demo_fm_def viewer_env_def fm_env.truncate_def)

text \<open>
  C32. The viewer does not check the names a host sends: in a download the list of files comes from
  the host, and a file goes wherever its name leads, also out of the directory the user chose (a
  name with steps up is such a name) and over a file that is there, when the host just sends the
  list, one block and the end.
\<close>

theorem download_follows_any_name:
  assumes "permits (fenv e)" and "disk_ok (cl_disk c)"
    and "cl_write_jobs c = [new_write i Generic rem (FilePath to) 0 hid True [] od]"
    and "b_id b = i" and "b_file_num b = 0" and "name \<noteq> []" and "on_windows e = peer_is_windows e"
  shows "\<exists>c1 c2 c3 o1 o2 o3.
    on_file_response e now (MsgDir i path [\<lparr>fe_name = name, fe_type = TypeFile, fe_hidden = False,
      fe_size = 0, fe_modified = t\<rparr>]) c = Some (o1, c1) \<and>
    on_file_response e now (MsgBlock b) c1 = Some (o2, c2) \<and>
    on_file_response e now (MsgDone i 0) c2 = Some (o3, c3) \<and>
    file_at (cl_disk c3) (pjoin (fenv e) to name) = Some \<lparr>f_content = block_data (fenv e) b, f_mtime = t\<rparr>"
proof -
  define f where "f = \<lparr>fe_name = name, fe_type = TypeFile, fe_hidden = False, fe_size = 0, fe_modified = t\<rparr>"
  define w where "w = (new_write i Generic rem (FilePath to) 0 hid True [] od)\<lparr>files := [f]\<rparr>"
  define p where "p = pjoin (fenv e) to name"
  define cs where "cs = [\<lparr>f_content = block_data (fenv e) b, f_mtime = t\<rparr>]"
  have w: "job_id w = i" "job_kind w = Generic" "source w = FilePath to" "files w = [f]" "file_num w = 0"
    "stream w = None" "\<not> is_resume w"
    by (simp_all add: w_def new_write_def default_job_def)
  have wt: "writes_to (fenv e) i [p] cs w"
    using assms(6) by (simp add: writes_to_def w cs_def p_def f_def join_path_def)
  have ap: "apart [p]" by (auto simp: apart_def download_path_def digest_path_def)
  have d1: "on_dir e i path [f] c = ([UpdateFolderFiles i [f] path False False], c\<lparr>cl_write_jobs := [w]\<rparr>)"
    using assms(3,7) w by (simp add: on_dir_def Let_def new_write_def default_job_def w_def
      set_finished_size_on_resume_def)
  have "files_upto [p] cs (cl_disk c) 0 (modify_time (fenv e) w (cl_disk c))"
    by (rule upto_fresh [OF wt assms(1) ap w(5) _ assms(2)]) simp
  then obtain w' d' where b: "write_block (fenv e) b w (cl_disk c) = (Inr (), w', d')"
    "receiving [p] cs (cl_disk c) 0 (block_data (fenv e) b) w' d'" "writes_to (fenv e) i [p] cs w'"
    using write_block_first [OF wt assms(1) ap _ _ assms(4)] assms(5) w(6) by fastforce
  have w': "job_id w' = i" "job_kind w' = Generic" using b(3) by (auto simp: writes_to_def)
  define c2 where "c2 = c\<lparr>cl_write_jobs := [w'], cl_disk := d'\<rparr>"
  have r2: "on_block e b (c\<lparr>cl_write_jobs := [w]\<rparr>) = c2"
    using b(1) assms(4) w(1) by (simp add: on_block_def c2_def)
  have up: "files_upto [p] cs (cl_disk c) (Suc 0) (modify_time (fenv e) w' d')"
    using upto_finish [OF b(3) assms(1) ap] b(2) by (simp add: cs_def)
  obtain o3 c3 where r3: "on_done e now i 0 c2 = (o3, c3)" by fastforce
  then have "cl_disk c3 = modify_time (fenv e) w' d'"
    using w' by (auto simp: on_done_def c2_def handle_job_status_def Let_def split: if_splits option.splits)
  then have "file_at (cl_disk c3) p = Some \<lparr>f_content = block_data (fenv e) b, f_mtime = t\<rparr>"
    using up by (simp add: files_upto_def cs_def)
  then show ?thesis using d1 r2 r3 by (simp add: f_def p_def)
qed


theorem download_follows_any_name_witness:
  "\<exists>c1 c2 c3 o1 o2 o3.
    on_file_response viewer_env 0 (MsgDir 1 ''/x'' [\<lparr>fe_name = ''../../y'', fe_type = TypeFile, fe_hidden = False,
      fe_size = 0, fe_modified = 4\<rparr>])
      (demo_client\<lparr>cl_write_jobs := [new_write 1 Generic ''/x'' (FilePath ''/d'') 0 False True [] True]\<rparr>)
      = Some (o1, c1) \<and>
    on_file_response viewer_env 0 (MsgBlock \<lparr>b_id = 1, b_file_num = 0, b_data = [6], b_compressed = False\<rparr>) c1
      = Some (o2, c2) \<and>
    on_file_response viewer_env 0 (MsgDone 1 0) c2 = Some (o3, c3) \<and>
    file_at (cl_disk c3) ''/d/../../y'' = Some \<lparr>f_content = [6], f_mtime = 4\<rparr>"
proof -
  have env: "permits (fenv viewer_env)" "on_windows viewer_env = peer_is_windows viewer_env"
    "pjoin (fenv viewer_env) = path_join CHR ''/''"
    by (simp_all add: fenv_def viewer_env_def fs_env.truncate_def permits_def)
  have disk: "disk_ok (cl_disk (demo_client\<lparr>cl_write_jobs := [new_write 1 Generic ''/x'' (FilePath ''/d'') 0 False True [] True]\<rparr>))"
    by (simp add: demo_client_def disk_ok_def)
  show ?thesis
    using download_follows_any_name [OF env(1) disk, of 1 "''/x''" "''/d''" False True
        "\<lparr>b_id = 1, b_file_num = 0, b_data = [6], b_compressed = False\<rparr>" "''../../y''" 0 "''/x''" 4] env(2)
    by (simp add: env(3) path_join_def ends_with_def block_data_def)
qed

section \<open>Transfers that go wrong\<close>

fun run_ops :: "fm_env \<Rightarrow> fs_op list \<Rightarrow> file_manager \<Rightarrow> file_manager option" where
  "run_ops e [] m = Some m"
| "run_ops e (r # rs) m = (case handle_fs e r m of None \<Rightarrow> None | Some (out, m) \<Rightarrow> run_ops e rs m)"

definition demo_block :: "int \<Rightarrow> bytes \<Rightarrow> fs_op" where
  "demo_block n bs = FsWriteBlock \<lparr>b_id = 1, b_file_num = n, b_data = bs, b_compressed = False\<rparr>"

definition host_with :: "(string \<rightharpoonup> nat) \<Rightarrow> (nat \<Rightarrow> bytes) \<Rightarrow> nat \<Rightarrow> file_manager" where
  "host_with l c n =
     \<lparr>write_jobs = [], read_jobs = [],
      fm_disk = \<lparr>links = l, inodes = (\<lambda>i. \<lparr>f_content = c i, f_mtime = 1\<rparr>), next_inode = n\<rparr>\<rparr>"

lemma demo_fm_simps:
  "on_windows demo_fm = False" "max_files_option demo_fm = []"
  "pjoin demo_fm = os_join False CHR ''/''" "can_create demo_fm p" "can_remove demo_fm p" "can_open demo_fm p"
  "can_rename demo_fm p q" "can_write demo_fm i" "decompress demo_fm bs = bs" "clock demo_fm = 99" "\<not> write_lags demo_fm i"
  "digest_json demo_fm dg = []"
  by (simp_all add: demo_fm_def base_def viewer_env_def fm_env.truncate_def)

lemmas run_simps = fm_new_write_def fm_write_block_def validate_transfer_file_names_def
  is_single_file_with_empty_name_def validate_file_name_no_traversal_def is_path_sep_def new_write_def
  default_job_def get_job_def write_block_def select_file_def start_file_def write_stream_def block_data_def
  modify_time_def remove_download_file_def file_index_def join_path_def os_join_def path_join_def has_drive_def
  ends_with_def remove_path_def rename_path_def create_path_def write_file_def write_at_def splice_def
  set_file_mtime_def finish_write_def path_exists_def file_at_def download_path_def digest_path_def demo_fm_simps
  base_def fs_env.truncate_def demo_block_def host_with_def plain_entry_def Let_def

text \<open>
  The first block of a new transfer gives the temporary file that an interrupted transfer left
  behind its final name, over the good file that is there; when the transfer is then cancelled, the
  good file is gone and the half one stays.
\<close>

lemma cancelled_transfer_loses_file:
  "map_option (\<lambda>m. map_option f_content (file_at (fm_disk m) ''/h/a''))
     (run_ops demo_fm [FsNewWrite ''/h'' 1 0 [(''a'', 7)] True 4 5, demo_block 0 [5], FsCancelWrite 1]
       (host_with [''/h/a'' \<mapsto> 0, ''/h/a.download'' \<mapsto> 1] (\<lambda>i. if i = 0 then [1, 2, 3, 4] else [9]) 2))
   = Some (Some [9])"
  by (simp add: run_simps)

text \<open>
  When the next file can not be created, the job already counts as being at that file while its
  stream is still that of the file before, so the blocks that follow are appended to a file that was
  complete.
\<close>

lemma failed_create_spoils_previous:
  "map_option (\<lambda>m. map_option f_content (file_at (fm_disk m) ''/h/a''))
     (run_ops (demo_fm\<lparr>can_create := (\<lambda>p. p \<noteq> ''/h/b.download'')\<rparr>)
       [FsNewWrite ''/h'' 1 0 [(''a'', 7), (''b'', 7)] True 4 5, demo_block 0 [1, 2], demo_block 1 [3],
        demo_block 1 [4]]
       (host_with Map.empty (\<lambda>i. []) 0))
   = Some (Some [1, 2, 4])"
  by (simp add: run_simps)

text \<open>
  A half-finished file is resumed only when it is the one the writing job is at. For a later file
  the host announces how much of it is there, and the viewer sends the rest, but the host's job
  ignores the confirmation because it is still at the file before, and creates the file anew from
  the rest alone.
\<close>

lemma late_resume_loses_start:
  fixes e m0
  defines "e \<equiv> demo_fm\<lparr>parse_digest := (\<lambda>_. Some \<lparr>d_size = 4, d_modified = 7\<rparr>)\<rparr>"
    and "m0 \<equiv> host_with [''/h/b.download'' \<mapsto> 0, ''/h/b.digest'' \<mapsto> 1] (\<lambda>i. if i = 0 then [1, 2] else []) 2"
  shows
    "map_option (\<lambda>m. map td_transferred_size (case fm_check_digest e 1 1 4 7 True True m of
         ([RawMessage (MsgDigest dg)], _) \<Rightarrow> [dg] | _ \<Rightarrow> []))
       (run_ops e [FsNewWrite ''/h'' 1 0 [(''a'', 7), (''b'', 7)] True 4 5, demo_block 0 [9]] m0) = Some [2]"
    "map_option (\<lambda>m. map_option f_content (file_at (fm_disk m) ''/h/b''))
       (run_ops e [FsNewWrite ''/h'' 1 0 [(''a'', 7), (''b'', 7)] True 4 5, demo_block 0 [9],
          FsCheckDigest 1 1 4 7 True True,
          FsSendConfirm \<lparr>sc_id = 1, sc_file_num = 1, sc_union = Some (ConfirmOffset 2)\<rparr>,
          demo_block 1 [3, 4], FsWriteDone 1 1] m0) = Some (Some [3, 4])"
  by (simp_all add: e_def m0_def run_simps fm_check_digest_def is_write_need_confirmation_def
    confirm_in_def confirm_def)

text \<open>A temporary name can be the name of another file of the same directory, which is then lost.\<close>

lemma temporary_name_clash:
  "map_option (\<lambda>m. (map_option f_content (file_at (fm_disk m) ''/h/a''),
                    map_option f_content (file_at (fm_disk m) ''/h/a.download'')))
     (run_ops demo_fm [FsNewWrite ''/h'' 1 0 [(''a.download'', 7), (''a'', 7)] True 4 5,
        demo_block 0 [1, 2], demo_block 1 [3], FsWriteDone 1 1] (host_with Map.empty (\<lambda>i. []) 0))
   = Some (Some [3], None)"
  by (simp add: run_simps)

text \<open>
  The time of a file is set before the last write of the file is waited for: where that write is late,
  the file has its content and the time of the transfer, and the next comparison takes it for another.
\<close>

lemma late_write_changes_time:
  "map_option (\<lambda>m. file_at (fm_disk m) ''/h/a'')
     (run_ops (demo_fm\<lparr>write_lags := \<lambda>i. True\<rparr>) [FsNewWrite ''/h'' 1 0 [(''a'', 7)] True 4 5,
        demo_block 0 [1, 2], FsWriteDone 1 0] (host_with Map.empty (\<lambda>i. []) 0))
   = Some (Some \<lparr>f_content = [1, 2], f_mtime = 99\<rparr>)"
  "map_option (\<lambda>m. file_at (fm_disk m) ''/h/a'')
     (run_ops demo_fm [FsNewWrite ''/h'' 1 0 [(''a'', 7)] True 4 5,
        demo_block 0 [1, 2], FsWriteDone 1 0] (host_with Map.empty (\<lambda>i. []) 0))
   = Some (Some \<lparr>f_content = [1, 2], f_mtime = 7\<rparr>)"
  by (simp_all add: run_simps)

lemma get_job_append: "get_job i js = None \<Longrightarrow> get_job i (js @ [j]) = get_job i [j]"
  unfolding get_job_def by (induction js) (auto split: if_splits)

text \<open>
  C33. A peer can stop the process that handles files: the number of the first file of a transfer is
  the peer's and is not compared with the list, and a confirmation with an offset for that number
  makes the process look up a file that is not there.
\<close>

theorem out_of_range_confirmation_panics:
  assumes "get_job i (write_jobs m) = None" and "validate_transfer_file_names (on_windows e) fs = Inr ()"
    and "int (length fs) \<le> n" and "0 < off"
  shows "\<exists>m'. handle_fs e (FsNewWrite path i n fs od tot cid) m = Some ([], m') \<and>
    handle_fs e (FsSendConfirm \<lparr>sc_id = i, sc_file_num = n, sc_union = Some (ConfirmOffset off)\<rparr>) m' = None"
proof -
  define j where "j = (new_write i Generic [] (FilePath path) n False False (map plain_entry fs) od)
      \<lparr>total_size := tot, job_conn_id := cid\<rparr>"
  have j: "job_id j = i" "file_num j = n" "source j = FilePath path" "files j = map plain_entry fs"
    by (simp_all add: j_def new_write_def default_job_def)
  have "get_job i (write_jobs m @ [j]) = Some j"
    using assms(1) j(1) by (simp add: get_job_append)
  moreover have "fm_new_write e path i n fs od tot cid m = ([], m\<lparr>write_jobs := write_jobs m @ [j]\<rparr>)"
    using assms(2) by (simp add: fm_new_write_def Let_def j_def)
  ultimately show ?thesis
    using assms(3,4) j
    by (auto simp: confirm_in_def confirm_def Let_def set_stream_offset_def set_file_confirmed_def file_index_def)
qed

theorem out_of_range_confirmation_panics_witness:
  "\<exists>m'. handle_fs demo_fm (FsNewWrite ''/h'' 1 3 [(''a'', 7)] True 4 5) demo_receiver = Some ([], m') \<and>
    handle_fs demo_fm (FsSendConfirm \<lparr>sc_id = 1, sc_file_num = 3, sc_union = Some (ConfirmOffset 1)\<rparr>) m' = None"
  by (rule out_of_range_confirmation_panics) (simp_all add: run_simps demo_receiver_def)

end
