(* ===== verification/FileRemoveLog.thy ===== *)
theory FileRemoveLog
  imports Text
begin

text \<open>
  The log of what a peer removed (\<open>FileRemoveLogControl\<close> of \<open>src/server/connection.rs\<close>): removals
  are collected and written when none came for a second, with the entries that another entry covers
  left out. Paths are compared by their components, as \<open>std::path\<close> does; \<open>comps\<close> is the function
  of the platform that takes a path apart.
\<close>

datatype path_component = Prefix string | RootDir | CurDir | ParentDir | Normal string

text \<open>\<open>Path::parent\<close>: without the last component, which must not be a prefix or the root.\<close>

definition path_parent :: "path_component list \<Rightarrow> path_component list option" where
  "path_parent cs =
     (if cs = [] then None
      else case List.last cs of
        Prefix _ \<Rightarrow> None
      | RootDir \<Rightarrow> None
      | _ \<Rightarrow> Some (butlast cs))"

record remove_file =
  rf_id :: int
  rf_path :: string

record remove_dir =
  rd_id :: int
  rd_path :: string

record remove_log =
  log_conn_id :: int
  instant :: int
  removed_files :: "remove_file list"
  removed_dirs :: "remove_dir list"

text \<open>A line of the log: the ids of the request and of the connection, the path and whether it is a
  directory.\<close>

datatype action_log = ActionLog int int string bool

definition remove_log_new :: "int \<Rightarrow> int \<Rightarrow> remove_log" where
  "remove_log_new c now = \<lparr>log_conn_id = c, instant = now, removed_files = [], removed_dirs = []\<rparr>"

definition direct_child :: "(string \<Rightarrow> path_component list) \<Rightarrow> string \<Rightarrow> string \<Rightarrow> bool" where
  "direct_child comps parent child = (path_parent (comps child) = Some (comps parent))"

text \<open>Both operations also return the line for the single removal; the session that calls them drops it.\<close>

definition on_remove_file :: "int \<Rightarrow> remove_file \<Rightarrow> remove_log \<Rightarrow> action_log option \<times> remove_log" where
  "on_remove_file now f r =
     (Some (ActionLog (rf_id f) (log_conn_id r) (rf_path f) False),
      r\<lparr>instant := now, removed_files := removed_files r @ [f]\<rparr>)"

definition on_remove_dir ::
  "(string \<Rightarrow> path_component list) \<Rightarrow> int \<Rightarrow> remove_dir \<Rightarrow> remove_log \<Rightarrow> action_log option \<times> remove_log" where
  "on_remove_dir comps now d r =
     (Some (ActionLog (rd_id d) (log_conn_id r) (rd_path d) True),
      let r = r\<lparr>instant := now\<rparr>;
          r = r\<lparr>removed_files := filter (\<lambda>f. \<not> direct_child comps (rf_path f) (rd_path d)) (removed_files r)\<rparr>;
          r = r\<lparr>removed_dirs := filter (\<lambda>x. \<not> direct_child comps (rd_path d) (rd_path x)) (removed_dirs r)\<rparr>
      in if \<not> (\<exists>x \<in> set (removed_dirs r). direct_child comps (rd_path x) (rd_path d))
         then r\<lparr>removed_dirs := removed_dirs r @ [d]\<rparr> else r)"

definition remove_log_timer :: "int \<Rightarrow> remove_log \<Rightarrow> action_log list \<times> remove_log" where
  "remove_log_timer now r =
     (if now - instant r < 1000 then ([], r)
      else (map (\<lambda>f. ActionLog (rf_id f) (log_conn_id r) (rf_path f) False) (removed_files r) @
            map (\<lambda>d. ActionLog (rd_id d) (log_conn_id r) (rd_path d) True) (removed_dirs r),
            r\<lparr>removed_files := [], removed_dirs := []\<rparr>))"

section \<open>Nothing that was removed is missing\<close>

datatype removal = RemovedFile remove_file | RemovedDir remove_dir

fun removal_step :: "(string \<Rightarrow> path_component list) \<Rightarrow> int \<times> removal \<Rightarrow> remove_log \<Rightarrow> remove_log" where
  "removal_step comps (now, RemovedFile f) r = snd (on_remove_file now f r)"
| "removal_step comps (now, RemovedDir d) r = snd (on_remove_dir comps now d r)"

text \<open>A path is covered by a directory of the log that it is or lies in.\<close>

definition covered :: "(string \<Rightarrow> path_component list) \<Rightarrow> string \<Rightarrow> remove_log \<Rightarrow> bool" where
  "covered comps p r = (\<exists>d \<in> set (removed_dirs r). prefix (comps (rd_path d)) (comps p))"

lemma direct_child_prefix:
  assumes "direct_child comps p c"
  shows "prefix (comps p) (comps c)" and "length (comps c) = length (comps p) + 1"
proof -
  have "comps c \<noteq> []" "comps p = butlast (comps c)"
    using assms by (auto simp: direct_child_def path_parent_def split: if_splits path_component.splits)
  then show "prefix (comps p) (comps c)" "length (comps c) = length (comps p) + 1"
    by (auto simp: prefixeq_butlast)
qed

lemma covered_on_remove_dir:
  assumes "covered comps p r"
  shows "covered comps p (snd (on_remove_dir comps now d r))"
proof -
  obtain x where x: "x \<in> set (removed_dirs r)" "prefix (comps (rd_path x)) (comps p)"
    using assms by (auto simp: covered_def)
  show ?thesis
  proof (cases "direct_child comps (rd_path d) (rd_path x)")
    case False
    then show ?thesis using x by (auto simp: covered_def on_remove_dir_def Let_def)
  next
    case True
    then have dx: "prefix (comps (rd_path d)) (comps p)"
      using direct_child_prefix x(2) prefix_order.order_trans by blast
    show ?thesis
    proof (cases "\<exists>y \<in> set (removed_dirs r). \<not> direct_child comps (rd_path d) (rd_path y)
        \<and> direct_child comps (rd_path y) (rd_path d)")
      case True
      then show ?thesis
        using dx direct_child_prefix(1) prefix_order.order_trans
        by (auto simp: covered_def on_remove_dir_def Let_def) blast
    next
      case False
      then show ?thesis using dx by (auto simp: covered_def on_remove_dir_def Let_def)
    qed
  qed
qed

lemma covered_itself: "covered comps (rd_path d) (snd (on_remove_dir comps now d r))"
  using direct_child_prefix(1)
  by (fastforce simp: covered_def on_remove_dir_def Let_def)

lemma covered_step: "covered comps p r \<Longrightarrow> covered comps p (removal_step comps x r)"
proof (cases "(comps, x, r)" rule: removal_step.cases)
  case (1 c now f s)
  then show "covered comps p r \<Longrightarrow> ?thesis" by (simp add: covered_def on_remove_file_def)
next
  case (2 c now d s)
  then show "covered comps p r \<Longrightarrow> ?thesis" by (simp add: covered_on_remove_dir)
qed

lemma covered_steps: "covered comps p r \<Longrightarrow> covered comps p (fold (removal_step comps) xs r)"
  by (induction xs arbitrary: r) (auto intro: covered_step)

text \<open>
  Whatever a peer removes, every directory it removed is in the next lines of the log, by itself
  or by a directory it lies in, and the log is written as soon as one second passes without a
  removal.
\<close>

theorem removed_dirs_are_logged:
  assumes "(t, RemovedDir d) \<in> set xs" and "instant (fold (removal_step comps) xs r) + 1000 \<le> now"
  shows "\<exists>i c p. ActionLog i c p True \<in> set (fst (remove_log_timer now (fold (removal_step comps) xs r)))
    \<and> prefix (comps p) (comps (rd_path d))"
proof -
  obtain ys zs where xs: "xs = ys @ (t, RemovedDir d) # zs" using assms(1) by (meson split_list)
  have "covered comps (rd_path d) (fold (removal_step comps) xs r)"
    using covered_steps covered_itself by (simp add: xs)
  then obtain x where "x \<in> set (removed_dirs (fold (removal_step comps) xs r))"
    "prefix (comps (rd_path x)) (comps (rd_path d))"
    by (auto simp: covered_def)
  then show ?thesis
    using assms(2) by (intro exI [of _ "rd_id x"] exI [of _ "log_conn_id (fold (removal_step comps) xs r)"] exI [of _ "rd_path x"]) (auto simp: remove_log_timer_def)
qed

text \<open>Components of the paths of a Unix-like system without dots.\<close>

definition slash_components :: "string \<Rightarrow> path_component list" where
  "slash_components p =
     (if starts_with p ''/'' then [RootDir] else []) @
     map Normal (filter (\<lambda>c. c \<noteq> []) (split_on ((=) CHR ''/'') p))"

theorem removed_dirs_are_logged_witness:
  "\<exists>i c p. ActionLog i c p True \<in> set (fst (remove_log_timer 2000
       (fold (removal_step slash_components)
          [(0, RemovedDir \<lparr>rd_id = 1, rd_path = ''/a/b''\<rparr>), (5, RemovedDir \<lparr>rd_id = 2, rd_path = ''/a''\<rparr>)]
          (remove_log_new 9 0))))
     \<and> prefix (slash_components p) (slash_components ''/a/b'')"
  using removed_dirs_are_logged [of 0 "\<lparr>rd_id = 1, rd_path = ''/a/b''\<rparr>"
      "[(0, RemovedDir \<lparr>rd_id = 1, rd_path = ''/a/b''\<rparr>), (5, RemovedDir \<lparr>rd_id = 2, rd_path = ''/a''\<rparr>)]"
      slash_components "remove_log_new 9 0" 2000]
  by (simp add: on_remove_dir_def Let_def remove_log_new_def)

text \<open>
  The files of a removed directory are meant to be covered by it as well, but the test has its
  arguments the other way round: a file is dropped only when the directory lies in the file.
\<close>

lemma files_are_never_covered:
  assumes "f \<in> set (removed_files r)" and "direct_child comps (rd_path d) (rf_path f)"
  shows "f \<in> set (removed_files (snd (on_remove_dir comps now d r)))"
proof -
  have "\<not> direct_child comps (rf_path f) (rd_path d)"
  proof
    assume "direct_child comps (rf_path f) (rd_path d)"
    from direct_child_prefix(2) [OF this] direct_child_prefix(2) [OF assms(2)] show False by simp
  qed
  then show ?thesis using assms(1) by (simp add: on_remove_dir_def Let_def)
qed

end
