(* ===== verification/SessionMessages.thy ===== *)
theory SessionMessages
  imports Login FileSafety FileRemoveLog
begin

text \<open>
  What a peer can do once it is authorised (\<open>Connection::on_message\<close> of
  \<open>src/server/connection.rs\<close>, the branch behind \<open>self.authorized\<close>, for a desktop host), the
  answers of the process that handles files, and the timers of the connection. What leaves the
  connection is a list of outputs: input for the input thread, requests for the file process,
  messages for the peer, calls of the platform. The clipboard of files and the plugins are left out.
\<close>

section \<open>Messages and outputs\<close>

record mouse_event =
  mask :: int
  mouse_x :: int
  mouse_y :: int

datatype key_union = ControlKey string | KeyChr nat | KeyUnicode nat | KeySeq string | KeyOther

datatype keyboard_mode = ModeLegacy | ModeMap | ModeTranslate | ModeAuto

record key_event =
  key_union_of :: key_union
  mode :: keyboard_mode
  press :: bool
  down :: bool

datatype misc =
    SwitchDisplay nat nat nat
  | CaptureDisplays "nat list" "nat list" "nat list"
  | ToggleVirtualDisplay int bool
  | TogglePrivacyMode bool string
  | ChatMessage string
  | MiscOption option_message
  | RefreshVideo bool
  | RefreshVideoDisplay nat
  | VideoReceived
  | RestartRemoteDevice
  | ElevationDirect
  | ElevationLogon string string
  | AudioFormat nat nat
  | SwitchSidesRequest string
  | ChangeResolution nat nat
  | ChangeDisplayResolution nat nat nat
  | AutoAdjustFps nat
  | ClientRecordStatus bool
  | SelectedSid nat
  | MessageQuery nat

datatype peer_msg =
    MouseEvent mouse_event
  | PointerDeviceEvent string
  | KeyEvent key_event
  | ClipboardMsg string
  | MultiClipboards "string list"
  | FileAction file_action
  | FileResponse file_msg
  | Misc misc
  | AudioFrame bytes
  | VoiceCallRequest bool int
  | VoiceCallResponse
  | ScreenshotRequest nat string
  | TerminalAction string

datatype sess_out =
    InputMouse mouse_event bool bool
  | InputPointer string
  | InputKey key_event bool
  | SetClipboard "string list"
  | SendFs fs_op
  | SendPeer file_msg
  | CmVoiceCallIncoming
  | CmChat string
  | CmFileLog string int string bool
  | CmRename string string
  | CmTransferLog job_log
  | FileAudit bool string
  | Reboot
  | SetResolution nat nat nat
  | StartPortableService "(string \<times> string) option"
  | ElevationResponse string
  | PlugInMonitor int
  | PlugOutMonitor int
  | VirtualDisplayBox string
  | DisplayChanged nat
  | TurnOnPrivacy string
  | TurnOffPrivacy string
  | FrameFetched
  | StartAudioThread
  | AudioToThread bytes
  | RunSwitchSides string
  | QosAutoFps nat
  | QosRecord bool
  | ConnectUserSession nat
  | Screenshot nat string
  | ToTerminal string

section \<open>State\<close>

record sess =
  base_state :: state
  display_idx :: nat
  multi_ui_session :: bool
  cm_read_job_ids :: "int set"
  sess_read_jobs :: "transfer_job list"
  printer_data :: "(int \<times> string \<times> bytes) list"
  pressed_modifiers :: "string set"
  auto_disconnect_timer :: "(int \<times> nat) option"
  file_remove_log :: remove_log
  audio_thread :: bool
  click_time :: int
  mouse_move_time :: int

record sess_env =
  se_login :: login_env
  se_fm :: fm_env
  se_disk :: disk
  se_windows :: bool
  se_linux :: bool
  se_now :: int
  primary_display :: nat
  service_names :: "string list"
  display_count :: "nat option"
  display_info :: "video_source \<Rightarrow> nat \<Rightarrow> bool"
  own_virtual_display :: "nat \<Rightarrow> bool"
  keycode_modifier :: "nat \<Rightarrow> string option"
  virtual_display_supported :: bool
  plug_result :: "int \<Rightarrow> string option"
  portable_running :: bool
  portable_result :: "string option"
  share_rdp :: bool
  own_sid :: "nat option"
  session_ids :: "nat list"
  is_uuid :: "string \<Rightarrow> bool"
  path_comps :: "string \<Rightarrow> path_component list"

definition se_conn :: "sess \<Rightarrow> conn" where
  "se_conn s = fst (base_state s)"

definition on_base :: "(state \<Rightarrow> state) \<Rightarrow> sess \<Rightarrow> sess" where
  "on_base f s = s\<lparr>base_state := f (base_state s)\<rparr>"

definition on_server :: "(string server \<Rightarrow> string server) \<Rightarrow> sess \<Rightarrow> sess" where
  "on_server f s =
     on_base (\<lambda>st. (fst st, (snd st)\<lparr>h_server := f (h_server (snd st))\<rparr>)) s"

definition update_auto_disconnect_timer :: "sess_env \<Rightarrow> sess \<Rightarrow> sess" where
  "update_auto_disconnect_timer e s =
     s\<lparr>auto_disconnect_timer := map_option (\<lambda>(t, m). (se_now e, m)) (auto_disconnect_timer s)\<rparr>"

definition get_auto_disconnect_timer :: "int \<Rightarrow> cfg \<Rightarrow> (int \<times> nat) option" where
  "get_auto_disconnect_timer now g =
     (if get_option g ''allow-auto-disconnect'' = ''Y'' then
        let minute = (case parse_unsigned usize_max (get_option g ''auto-disconnect-timeout'') of
                        Some n \<Rightarrow> n | None \<Rightarrow> 10)
        in Some (now, if minute = 0 then 10 else minute)
      else None)"

definition sess_video_source :: "conn \<Rightarrow> video_source" where
  "sess_video_source c = (if view_camera c then Camera_source else Monitor)"

section \<open>Input\<close>

definition is_left_up :: "mouse_event \<Rightarrow> bool" where
  "is_left_up m = (mask m div 8 = 1 \<and> mask m mod 8 = 2)"

definition is_enter :: "key_event \<Rightarrow> bool" where
  "is_enter k = (key_union_of k = ControlKey ''Return'' \<or> key_union_of k = ControlKey ''NumpadEnter'')"

definition is_modifier :: "key_event \<Rightarrow> bool" where
  "is_modifier k =
     (case key_union_of k of
        ControlKey n \<Rightarrow> n \<in> set [''Alt'', ''Shift'', ''Control'', ''Meta'', ''RAlt'', ''RShift'', ''RControl'', ''RWin'']
      | _ \<Rightarrow> False)"

definition on_mouse :: "sess_env \<Rightarrow> mouse_event \<Rightarrow> sess \<Rightarrow> sess_out list \<times> sess" where
  "on_mouse e m s =
     (if is_authed_view_camera_conn (se_conn s) then ([], s)
      else if peer_keyboard_enabled (se_conn s) then
        ([InputMouse m True (show_my_cursor (se_conn s))],
         update_auto_disconnect_timer e
           (if is_left_up m then s\<lparr>click_time := se_now e\<rparr> else s\<lparr>mouse_move_time := se_now e\<rparr>))
      else if show_my_cursor (se_conn s) then
        ([InputMouse m False True], update_auto_disconnect_timer e s)
      else ([], update_auto_disconnect_timer e s))"

definition on_pointer :: "sess_env \<Rightarrow> string \<Rightarrow> sess \<Rightarrow> sess_out list \<times> sess" where
  "on_pointer e p s =
     (if is_authed_view_camera_conn (se_conn s) then ([], s)
      else if peer_keyboard_enabled (se_conn s) then
        ([InputPointer p], update_auto_disconnect_timer e (s\<lparr>mouse_move_time := se_now e\<rparr>))
      else ([], update_auto_disconnect_timer e s))"

text \<open>The modifier key that an event is about, in the two modes that send key codes.\<close>

definition event_modifier :: "sess_env \<Rightarrow> key_event \<Rightarrow> string option" where
  "event_modifier e k =
     (case mode k of
        ModeMap \<Rightarrow> keycode_modifier e (case key_union_of k of KeyChr c \<Rightarrow> c | _ \<Rightarrow> 0)
      | ModeTranslate \<Rightarrow> (case key_union_of k of KeyChr c \<Rightarrow> keycode_modifier e (c mod 65536) | _ \<Rightarrow> None)
      | _ \<Rightarrow> None)"

definition on_key :: "sess_env \<Rightarrow> key_event \<Rightarrow> sess \<Rightarrow> sess_out list \<times> sess" where
  "on_key e k s =
     (if is_authed_view_camera_conn (se_conn s) then ([], s)
      else if \<not> peer_keyboard_enabled (se_conn s) then ([], update_auto_disconnect_timer e s)
      else
        let s = (if is_enter k then s\<lparr>click_time := se_now e\<rparr> else s);
            s = s\<lparr>mouse_move_time := se_now e\<rparr>;
            key = event_modifier e k;
            is_press = (if se_linux e then (press k \<or> down k) \<and> \<not> (is_modifier k \<or> key \<noteq> None) else press k);
            s = (case key of
                   Some x \<Rightarrow> s\<lparr>pressed_modifiers := (if is_press then insert x (pressed_modifiers s)
                                                     else pressed_modifiers s - {x})\<rparr>
                 | None \<Rightarrow> s);
            unicode = (case key_union_of k of KeyUnicode _ \<Rightarrow> True | KeySeq _ \<Rightarrow> True | _ \<Rightarrow> False)
        in ([InputKey k (is_press \<and> \<not> unicode)], update_auto_disconnect_timer e s))"

text \<open>When the connection is dropped, the modifiers noted by \<open>on_key\<close> are released.\<close>

definition release_pressed_modifiers :: "sess \<Rightarrow> string set \<times> sess" where
  "release_pressed_modifiers s = (pressed_modifiers s, s\<lparr>pressed_modifiers := {}\<rparr>)"

section \<open>Files\<close>

definition process_new_read_job :: "transfer_job \<Rightarrow> string \<Rightarrow> sess \<Rightarrow> sess_out list \<times> sess" where
  "process_new_read_job job path s =
     ([SendPeer (MsgDir (job_id job) path (files job)),
       FileAudit True (if job_kind job = Printer then ''Remote print'' else path)],
      s\<lparr>sess_read_jobs := sess_read_jobs s @ [job\<lparr>is_remote := True, job_conn_id := conn_id (se_conn s)\<rparr>]\<rparr>)"

definition create_and_start_read_job ::
  "sess_env \<Rightarrow> int \<Rightarrow> job_type \<Rightarrow> data_source \<Rightarrow> int \<Rightarrow> bool \<Rightarrow> bool \<Rightarrow> string \<Rightarrow> bool \<Rightarrow> sess
    \<Rightarrow> sess_out list \<times> sess" where
  "create_and_start_read_job e i k src n hid od path check_limit s =
     (case new_read (separator (se_fm e)) (look (se_fm e) (se_disk e)) i k [] src n hid False od of
        Inl err \<Rightarrow> ([SendPeer (MsgError i (Rejected err) 0)], s)
      | Inr job \<Rightarrow>
          (case (if check_limit then check_file_count_limit (max_files_option (se_fm e)) (length (files job))
                 else Inr ()) of
             Inl msg \<Rightarrow> ([SendPeer (MsgError i (Rejected msg) (-1))], s)
           | Inr u \<Rightarrow> process_new_read_job job path s))"

text \<open>\<open>crate::common::need_fs_cm_send_files\<close>: on Windows the file process reads for the server.\<close>

definition need_fs_cm_send_files :: "sess_env \<Rightarrow> bool" where
  "need_fs_cm_send_files e = se_windows e"

definition one_way_job :: "file_action \<Rightarrow> int option" where
  "one_way_job a =
     (case a of
        ActSend i k path n hid \<Rightarrow> Some i
      | ActRemoveFile i path n \<Rightarrow> Some i
      | ActRename i path new_name \<Rightarrow> Some i
      | ActCreate i path \<Rightarrow> Some i
      | ActRemoveDir i path recursive \<Rightarrow> Some i
      | _ \<Rightarrow> None)"

definition overwrite_detection :: "sess \<Rightarrow> bool" where
  "overwrite_detection s =
     can_enable_overwrite_detection (get_version_number (lr_version (lr (se_conn s))))"

definition mark_transferred :: "sess \<Rightarrow> sess" where
  "mark_transferred s = on_base (upd (\<lambda>c. c\<lparr>file_transferred := True\<rparr>)) s"

definition on_send :: "sess_env \<Rightarrow> int \<Rightarrow> job_type \<Rightarrow> string \<Rightarrow> int \<Rightarrow> bool \<Rightarrow> sess \<Rightarrow> sess_out list \<times> sess" where
  "on_send e i k path n hid s =
     (case k of
        Generic \<Rightarrow>
          if need_fs_cm_send_files e then
            ([SendFs (FsReadFile path i n hid (conn_id (se_conn s)) (overwrite_detection s))],
             mark_transferred (s\<lparr>cm_read_job_ids := insert i (cm_read_job_ids s)\<rparr>))
          else
            (case create_and_start_read_job e i k (FilePath path) n hid (overwrite_detection s) path True s of
               (out, s) \<Rightarrow> (out, mark_transferred s))
      | Printer \<Rightarrow>
          (case find (\<lambda>(t, p, bs). p = path) (printer_data s) of
             Some (t, p, bs) \<Rightarrow>
               (case create_and_start_read_job e i k (MemoryCursor bs 0) n hid True path False
                       (s\<lparr>printer_data := remove1 (t, p, bs) (printer_data s)\<rparr>) of
                  (out, s) \<Rightarrow> (out, mark_transferred s))
           | None \<Rightarrow> ([], s)))"

definition on_cancel :: "int \<Rightarrow> sess \<Rightarrow> sess_out list \<times> sess" where
  "on_cancel i s =
     (case remove_job i (sess_read_jobs s) of (r, js) \<Rightarrow>
        ([SendFs (FsCancelWrite i), SendFs (FsCancelRead i (conn_id (se_conn s)))] @
         (case r of Some j \<Rightarrow> [CmTransferLog (JobLog j False True None)] | None \<Rightarrow> []),
         s\<lparr>cm_read_job_ids := cm_read_job_ids s - {i}, sess_read_jobs := js\<rparr>))"

text \<open>\<open>None\<close> is a panic, in \<open>set_stream_offset\<close>.\<close>

definition on_send_confirm :: "sess_env \<Rightarrow> send_confirm \<Rightarrow> sess \<Rightarrow> (sess_out list \<times> sess) option" where
  "on_send_confirm e r s =
     (case get_job (sc_id r) (sess_read_jobs s) of
        Some j \<Rightarrow>
          (case confirm (base (se_fm e)) r j (se_disk e) of
             None \<Rightarrow> None
           | Some (j', d') \<Rightarrow> Some ([], s\<lparr>sess_read_jobs := set_job (sc_id r) j' (sess_read_jobs s)\<rparr>))
      | None \<Rightarrow>
          Some ([SendFs
            (if sc_id r \<in> cm_read_job_ids s then
               FsSendConfirmForRead (sc_id r) (sc_file_num r)
                 (case sc_union r of Some (ConfirmSkip b) \<Rightarrow> b | _ \<Rightarrow> False)
                 (case sc_union r of Some (ConfirmOffset n) \<Rightarrow> n | _ \<Rightarrow> 0) (conn_id (se_conn s))
             else FsSendConfirm r)], s))"

fun do_file_action :: "sess_env \<Rightarrow> file_action \<Rightarrow> sess \<Rightarrow> (sess_out list \<times> sess) option" where
  "do_file_action e (ActReadEmptyDirs path hid) s = Some ([SendFs (FsReadEmptyDirs path hid)], s)"
| "do_file_action e (ActReadDir path hid) s = Some ([SendFs (FsReadDir path hid)], s)"
| "do_file_action e (ActAllFiles i path hid) s =
     Some (if need_fs_cm_send_files e then [SendFs (FsReadAllFiles path i hid (conn_id (se_conn s)))]
           else case get_recursive_files (separator (se_fm e)) hid (look (se_fm e) (se_disk e) path) of
             Inl err \<Rightarrow> [SendPeer (MsgError i (Rejected err) (-1))]
           | Inr fs \<Rightarrow>
               (case check_file_count_limit (max_files_option (se_fm e)) (length fs) of
                  Inl msg \<Rightarrow> [SendPeer (MsgError i (Rejected msg) (-1))]
                | Inr u \<Rightarrow> [SendPeer (MsgDir i path fs)]), s)"
| "do_file_action e (ActSend i k path n hid) s = Some (on_send e i k path n hid s)"
| "do_file_action e (ActReceive i path n fs t) s =
     Some ([SendFs (FsNewWrite path i n (map (\<lambda>f. (fe_name f, fe_modified f)) fs) (overwrite_detection s) t
              (conn_id (se_conn s))), FileAudit False path], mark_transferred s)"
| "do_file_action e (ActRemoveDir i path recursive) s =
     Some ([SendFs (FsRemoveDir path i recursive)],
           s\<lparr>file_remove_log := snd (on_remove_dir (path_comps e) (se_now e)
               \<lparr>rd_id = i, rd_path = path\<rparr> (file_remove_log s))\<rparr>)"
| "do_file_action e (ActRemoveFile i path n) s =
     Some ([SendFs (FsRemoveFile path i n)],
           s\<lparr>file_remove_log := snd (on_remove_file (se_now e) \<lparr>rf_id = i, rf_path = path\<rparr> (file_remove_log s))\<rparr>)"
| "do_file_action e (ActCreate i path) s =
     Some ([SendFs (FsCreateDir path i), CmFileLog ''create_dir'' i path True], s)"
| "do_file_action e (ActCancel i) s = Some (on_cancel i s)"
| "do_file_action e (ActSendConfirm r) s = on_send_confirm e r s"
| "do_file_action e (ActRename i path new_name) s =
     Some ([SendFs (FsRename i path new_name), CmRename path new_name], s)"

definition is_print_job :: "file_action \<Rightarrow> bool" where
  "is_print_job a = (case a of ActSend i k path n hid \<Rightarrow> k = Printer | _ \<Rightarrow> False)"

definition on_file_action :: "sess_env \<Rightarrow> file_action \<Rightarrow> sess \<Rightarrow> (sess_out list \<times> sess) option" where
  "on_file_action e a s =
     (if file_transfer (se_conn s) = None \<and> \<not> is_print_job a then Some ([], s)
      else if delayed_read_dir (se_conn s) \<noteq> None then
        Some ([], case a of
                    ActReadDir path hid \<Rightarrow> on_base (upd (\<lambda>c. c\<lparr>delayed_read_dir := Some (path, hid)\<rparr>)) s
                  | _ \<Rightarrow> s)
      else if get_builtin_option (h_cfg (snd (base_state s))) ''one-way-file-transfer'' = ''Y''
              \<and> one_way_job a \<noteq> None then
        Some ([SendPeer (MsgError (the (one_way_job a)) (Rejected ''one-way-file-transfer-tip'') 0)], s)
      else do_file_action e a s)"

definition on_response :: "file_msg \<Rightarrow> sess_out list" where
  "on_response m = (case forward_response m of Some r \<Rightarrow> [SendFs r] | None \<Rightarrow> [])"

section \<open>Displays\<close>

definition refresh_video_display :: "nat option \<Rightarrow> sess \<Rightarrow> sess" where
  "refresh_video_display d s =
     on_server (set_video_service_opt (map_option (\<lambda>d. (sess_video_source (se_conn s), d)) d) ''refresh'' ''1'') s"

definition add_missing :: "video_source \<Rightarrow> nat \<Rightarrow> string server \<Rightarrow> string server" where
  "add_missing src d srv =
     (if \<not> server_contains (get_service_name src d) srv
      then add_service (service_new (get_service_name src d) True) srv else srv)"

definition is_support_multi_ui_session :: "string \<Rightarrow> bool" where
  "is_support_multi_ui_session v = (sint (get_version_number ''1.2.4'') \<le> sint (get_version_number v))"

definition switch_display_to :: "sess_env \<Rightarrow> nat \<Rightarrow> sess \<Rightarrow> sess" where
  "switch_display_to e d s =
     (let c = se_conn s;
          new_name = get_service_name (sess_video_source c) d;
          old_name = get_service_name (sess_video_source c) (display_idx s);
          s = on_server (\<lambda>srv.
            let srv = (if d \<noteq> primary_display e then add_missing (sess_video_source c) d srv else srv);
                srv = (if \<not> is_support_multi_ui_session (lr_version (lr c))
                       then subscribe old_name (conn_id c) False srv else srv)
            in subscribe new_name (conn_id c) True srv) s
      in s\<lparr>display_idx := d\<rparr>)"

text \<open>The display must be one of those the system lists, and the peer must hold the keyboard.\<close>

definition change_resolution :: "sess_env \<Rightarrow> nat option \<Rightarrow> nat \<Rightarrow> nat \<Rightarrow> sess \<Rightarrow> sess_out list" where
  "change_resolution e d w h s =
     (if keyboard (se_conn s) then
        case display_count e of
          Some n \<Rightarrow>
            let idx = (case d of Some i \<Rightarrow> i | None \<Rightarrow> display_idx s)
            in if idx < n then [SetResolution idx w h] else []
        | None \<Rightarrow> []
      else [])"

definition handle_switch_display :: "sess_env \<Rightarrow> nat \<Rightarrow> nat \<Rightarrow> nat \<Rightarrow> sess \<Rightarrow> sess_out list \<times> sess" where
  "handle_switch_display e d w h s =
     (if display_idx s \<noteq> d then
        let s = switch_display_to e d s
        in ((if w \<noteq> 0 \<and> h \<noteq> 0 then change_resolution e None w h s else []) @
            (if display_info e (sess_video_source (se_conn s)) (display_idx s) then [DisplayChanged (display_idx s)] else []),
            s)
      else ([], s))"

definition sess_capture_displays :: "sess_env \<Rightarrow> nat list \<Rightarrow> nat list \<Rightarrow> nat list \<Rightarrow> sess \<Rightarrow> sess" where
  "sess_capture_displays e adds subs sets s =
     (let c = se_conn s;
          src = sess_video_source c;
          keys = service_names e @ map (get_service_name src) (adds @ sets);
          s = on_server (\<lambda>srv.
            let srv = fold (add_missing src) (adds @ sets) srv
            in if adds \<noteq> [] then capture_displays keys (conn_id c) src adds True False srv
               else if subs \<noteq> [] then capture_displays keys (conn_id c) src subs False True srv
               else capture_displays keys (conn_id c) src sets True True srv) s;
          s = s\<lparr>multi_ui_session :=
            1 < get_subbed_displays_count (remdups keys) (conn_id c) (h_server (snd (base_state s)))\<rparr>
      in if follow_remote_window c
         then on_server (subscribe NAME_WINDOW_FOCUS (conn_id c) (\<not> multi_ui_session s)) s
         else s)"

definition toggle_virtual_display :: "sess_env \<Rightarrow> int \<Rightarrow> bool \<Rightarrow> sess_out list" where
  "toggle_virtual_display e d on =
     (if on then
        if \<not> virtual_display_supported e then [VirtualDisplayBox ''idd_not_support_under_win10_2004_tip'']
        else PlugInMonitor d #
          (case plug_result e d of
             Some err \<Rightarrow> [VirtualDisplayBox (''Failed to plug in virtual display: '' @ err)] | None \<Rightarrow> [])
      else PlugOutMonitor d #
        (case plug_result e d of
           Some err \<Rightarrow> [VirtualDisplayBox (''Failed to plug out virtual displays: '' @ err)] | None \<Rightarrow> []))"

definition handle_elevation_request ::
  "sess_env \<Rightarrow> (string \<times> string) option \<Rightarrow> sess \<Rightarrow> sess_out list \<times> sess" where
  "handle_elevation_request e para s =
     ((if \<not> keyboard (se_conn s) then [ElevationResponse ''No permission'']
       else if \<not> is_installed (se_login e) \<and> \<not> portable_running e then
         [StartPortableService para,
          ElevationResponse (case portable_result e of Some err \<Rightarrow> err | None \<Rightarrow> [])]
       else [ElevationResponse ''No need to elevate'']),
      update_auto_disconnect_timer e s)"

section \<open>The other messages\<close>

definition on_selected_sid :: "sess_env \<Rightarrow> nat \<Rightarrow> sess \<Rightarrow> bool \<times> sess_out list \<times> sess" where
  "on_selected_sid e sid s =
     (case own_sid e of
        None \<Rightarrow> (True, [], s)
      | Some own \<Rightarrow>
          if is_installed (se_login e) \<and> share_rdp e
             \<and> non_port_forward_conn_count (snd (base_state s)) = 1 \<and> 1 < length (session_ids e)
             \<and> own \<noteq> sid \<and> sid \<in> set (session_ids e)
          then (False, [ConnectUserSession sid], s)
          else
            let c = se_conn s in
            if file_transfer c \<noteq> None then
              (case delayed_read_dir c of
                 Some (dir, hid) \<Rightarrow>
                   (True, [SendFs (FsReadDir dir hid)], on_base (upd (\<lambda>c. c\<lparr>delayed_read_dir := None\<rparr>)) s)
               | None \<Rightarrow> (True, [], s))
            else if view_camera c then
              (True, [], on_base (try_sub_camera_displays (camera_exists (se_login e)) (primary_display e)) s)
            else if \<not> terminal c then (True, [], on_base (try_sub_monitor_services (primary_display e)) s)
            else (True, [], s))"

definition keeps :: "sess_out list \<times> sess \<Rightarrow> bool \<times> sess_out list \<times> sess" where
  "keeps r = (True, r)"

fun on_misc :: "sess_env \<Rightarrow> misc \<Rightarrow> sess \<Rightarrow> bool \<times> sess_out list \<times> sess" where
  "on_misc e (SwitchDisplay d w h) s = keeps (handle_switch_display e d w h s)"
| "on_misc e (CaptureDisplays adds subs sets) s = keeps ([], sess_capture_displays e adds subs sets s)"
| "on_misc e (ToggleVirtualDisplay d on) s =
     keeps (if se_windows e then toggle_virtual_display e d on else [], s)"
| "on_misc e (TogglePrivacyMode on impl) s = keeps ([if on then TurnOnPrivacy impl else TurnOffPrivacy impl], s)"
| "on_misc e (ChatMessage text) s =
     keeps ([CmChat text], update_auto_disconnect_timer e (on_base (upd (\<lambda>c. c\<lparr>chat_unanswered := True\<rparr>)) s))"
| "on_misc e (MiscOption o') s = keeps ([], on_base (update_options (is_win10 (se_login e)) o') s)"
| "on_misc e (RefreshVideo r) s =
     keeps ([], update_auto_disconnect_timer e (if r then refresh_video_display None s else s))"
| "on_misc e (RefreshVideoDisplay d) s =
     keeps ([], update_auto_disconnect_timer e (refresh_video_display (Some d) s))"
| "on_misc e VideoReceived s = keeps ([FrameFetched], s)"
| "on_misc e RestartRemoteDevice s = keeps (if restart (se_conn s) then [Reboot] else [], s)"
| "on_misc e ElevationDirect s = (if se_windows e then keeps (handle_elevation_request e None s) else keeps ([], s))"
| "on_misc e (ElevationLogon u p) s =
     (if se_windows e then keeps (handle_elevation_request e (Some (u, p)) s) else keeps ([], s))"
| "on_misc e (AudioFormat rate channels) s =
     keeps (if disable_audio (se_conn s) then ([], s) else ([StartAudioThread], s\<lparr>audio_thread := True\<rparr>))"
| "on_misc e (SwitchSidesRequest uuid) s =
     (if is_uuid e uuid then (False, [RunSwitchSides uuid], on_base (on_close False) s) else keeps ([], s))"
| "on_misc e (ChangeResolution w h) s = keeps (change_resolution e None w h s, s)"
| "on_misc e (ChangeDisplayResolution d w h) s = keeps (change_resolution e (Some d) w h s, s)"
| "on_misc e (AutoAdjustFps fps) s = keeps ([QosAutoFps fps], s)"
| "on_misc e (ClientRecordStatus b) s = keeps ([QosRecord b], s)"
| "on_misc e (SelectedSid sid) s = (if se_windows e then on_selected_sid e sid s else keeps ([], s))"
| "on_misc e (MessageQuery d) s =
     keeps (if display_info e (sess_video_source (se_conn s)) d then [DisplayChanged d] else [], s)"

text \<open>\<open>None\<close> is a panic; the first part of a result is \<open>false\<close> when the connection ends.\<close>

definition on_voice_request :: "int \<Rightarrow> bool \<Rightarrow> int \<Rightarrow> sess \<Rightarrow> sess_out list \<times> sess" where
  "on_voice_request now connect ts s =
     (if connect then
        ([CmVoiceCallIncoming],
         on_base (upd (\<lambda>c. c\<lparr>voice_call_request := Some (if ts = 0 then now else ts)\<rparr>)) s)
      else ([], on_base close_voice_call s))"

fun session_msg :: "sess_env \<Rightarrow> peer_msg \<Rightarrow> sess \<Rightarrow> (bool \<times> sess_out list \<times> sess) option" where
  "session_msg e (MouseEvent m) s = Some (keeps (on_mouse e m s))"
| "session_msg e (PointerDeviceEvent p) s = Some (keeps (on_pointer e p s))"
| "session_msg e (KeyEvent k) s = Some (keeps (on_key e k s))"
| "session_msg e (ClipboardMsg cb) s = Some (keeps (if clipboard (se_conn s) then [SetClipboard [cb]] else [], s))"
| "session_msg e (MultiClipboards cbs) s = Some (keeps (if clipboard (se_conn s) then [SetClipboard cbs] else [], s))"
| "session_msg e (FileAction a) s = map_option keeps (on_file_action e a s)"
| "session_msg e (FileResponse m) s = Some (keeps (on_response m, s))"
| "session_msg e (Misc m) s = Some (on_misc e m s)"
| "session_msg e (AudioFrame f) s =
     Some (keeps (if \<not> disable_audio (se_conn s) \<and> audio_thread s then [AudioToThread f] else [], s))"
| "session_msg e (VoiceCallRequest connect ts) s = Some (keeps (on_voice_request (se_now e) connect ts s))"
| "session_msg e VoiceCallResponse s = Some (keeps ([], s))"
| "session_msg e (ScreenshotRequest d sid) s =
     Some (keeps ([Screenshot d sid], refresh_video_display (Some d) s))"
| "session_msg e (TerminalAction a) s =
     Some (keeps (if terminal_has_token (se_conn s) \<noteq> None then [ToTerminal a] else [], s))"

definition on_session_msg :: "sess_env \<Rightarrow> peer_msg \<Rightarrow> sess \<Rightarrow> (bool \<times> sess_out list \<times> sess) option" where
  "on_session_msg e m s =
     (if \<not> authorized (se_conn s) \<or> port_forward_socket (se_conn s) then Some (True, [], s)
      else session_msg e m s)"

section \<open>Answers of the file process\<close>

fun on_cm_file :: "fm_out \<Rightarrow> sess \<Rightarrow> sess_out list \<times> sess" where
  "on_cm_file (ReadJobInitResult i n hid cid r) s =
     (if cid \<noteq> conn_id (se_conn s) \<or> i \<notin> cm_read_job_ids s then ([], s)
      else case r of
        Inl err \<Rightarrow> ([SendPeer (MsgError i (Rejected err) 0)], s\<lparr>cm_read_job_ids := cm_read_job_ids s - {i}\<rparr>)
      | Inr (path, fs) \<Rightarrow> ([SendPeer (MsgDir i path fs), FileAudit True path], mark_transferred s))"
| "on_cm_file (FileBlockFromCM b cid) s =
     (if cid \<noteq> conn_id (se_conn s) \<or> b_id b \<notin> cm_read_job_ids s then ([], s)
      else ([SendPeer (MsgBlock b)], s))"
| "on_cm_file (FileReadDone i n cid) s =
     (if cid \<noteq> conn_id (se_conn s) \<or> i \<notin> cm_read_job_ids s then ([], s)
      else ([SendPeer (MsgDone i n)], s\<lparr>cm_read_job_ids := cm_read_job_ids s - {i}\<rparr>))"
| "on_cm_file (FileReadError i n err cid) s =
     (if cid \<noteq> conn_id (se_conn s) \<or> i \<notin> cm_read_job_ids s then ([], s)
      else ([SendPeer (MsgError i err n)], s\<lparr>cm_read_job_ids := cm_read_job_ids s - {i}\<rparr>))"
| "on_cm_file (FileDigestFromCM i n t sz resume cid) s =
     (if cid \<noteq> conn_id (se_conn s) \<or> i \<notin> cm_read_job_ids s then ([], s)
      else ([SendPeer (MsgDigest \<lparr>td_id = i, td_file_num = n, td_last_modified = t, td_file_size = sz,
               td_is_upload = False, td_is_identical = False, td_transferred_size = 0,
               td_is_resume = resume\<rparr>)], s))"
| "on_cm_file (AllFilesResult i cid path r) s =
     (if cid \<noteq> conn_id (se_conn s) then ([], s)
      else ([SendPeer (case r of Inl err \<Rightarrow> MsgError i (Rejected err) (-1) | Inr fs \<Rightarrow> MsgDir i path fs)], s))"
| "on_cm_file (RawMessage m) s = ([SendPeer m], s)"
| "on_cm_file (TransferLog l) s = ([], s)"
| "on_cm_file (DirListing path fs) s = ([SendPeer (MsgDir 0 path fs)], s)"

section \<open>Timers and the end\<close>

definition file_tick :: "sess_env \<Rightarrow> sess \<Rightarrow> sess_out list \<times> sess" where
  "file_tick e s =
     (case handle_read_jobs (base (se_fm e)) (se_disk e) (sess_read_jobs s) of
        (ms, l, js) \<Rightarrow>
          (map SendPeer ms @ (case l of Some x \<Rightarrow> [CmTransferLog x] | None \<Rightarrow> []), s\<lparr>sess_read_jobs := js\<rparr>))"

definition second_tick :: "sess_env \<Rightarrow> sess \<Rightarrow> bool \<times> sess_out list \<times> sess" where
  "second_tick e s =
     (case auto_disconnect_timer s of
        Some (t, minutes) \<Rightarrow>
          if int (minutes * 60) < (se_now e - t) div 1000 then
            let s = on_base (\<lambda>st. on_close True
                      (upd (emit CloseByHost) (fst st,
                         check_remove_session (conn_id (fst st)) (session_key (fst st)) (snd st)))) s
            in (False, [], s)
          else
            (case remove_log_timer (se_now e) (file_remove_log s) of (ls, r) \<Rightarrow>
               (True, map (\<lambda>l. case l of ActionLog i c p d \<Rightarrow> CmFileLog ''remove'' i p d) ls, s\<lparr>file_remove_log := r\<rparr>))
      | None \<Rightarrow>
          (case remove_log_timer (se_now e) (file_remove_log s) of (ls, r) \<Rightarrow>
             (True, map (\<lambda>l. case l of ActionLog i c p d \<Rightarrow> CmFileLog ''remove'' i p d) ls, s\<lparr>file_remove_log := r\<rparr>)))"

section \<open>What the permissions guard\<close>

text \<open>Requests that only continue a transfer that was opened before.\<close>

definition continues_transfer :: "fs_op \<Rightarrow> bool" where
  "continues_transfer r =
     (case r of FsWriteBlock _ \<Rightarrow> True | FsWriteDone _ _ \<Rightarrow> True | FsWriteError _ _ _ \<Rightarrow> True
      | FsCheckDigest _ _ _ _ _ _ \<Rightarrow> True | _ \<Rightarrow> False)"

text \<open>What a session must hold for an output.\<close>

fun allowed :: "conn \<Rightarrow> sess_out \<Rightarrow> bool" where
  "allowed c (InputMouse m simulate show) =
     (\<not> is_authed_view_camera_conn c \<and> (if simulate then peer_keyboard_enabled c else show_my_cursor c))"
| "allowed c (InputPointer p) = (\<not> is_authed_view_camera_conn c \<and> peer_keyboard_enabled c)"
| "allowed c (InputKey k pr) = (\<not> is_authed_view_camera_conn c \<and> peer_keyboard_enabled c)"
| "allowed c (SetClipboard cbs) = clipboard c"
| "allowed c (SendFs r) = (file_transfer c \<noteq> None \<or> continues_transfer r)"
| "allowed c Reboot = restart c"
| "allowed c (SetResolution d w h) = keyboard c"
| "allowed c (StartPortableService p) = keyboard c"
| "allowed c (ToTerminal a) = (terminal_has_token c \<noteq> None)"
| "allowed c (CmFileLog k i p d) = (file_transfer c \<noteq> None)"
| "allowed c (CmRename p n) = (file_transfer c \<noteq> None)"
| "allowed c x = True"

lemma allowed_input:
  "on_mouse e m s = (out, s') \<Longrightarrow> x \<in> set out \<Longrightarrow> allowed (se_conn s) x"
  "on_pointer e p s = (out, s') \<Longrightarrow> x \<in> set out \<Longrightarrow> allowed (se_conn s) x"
  "on_key e k s = (out, s') \<Longrightarrow> x \<in> set out \<Longrightarrow> allowed (se_conn s) x"
  by (auto simp: on_mouse_def on_pointer_def on_key_def Let_def split: if_splits)

lemma peer_always [simp]: "allowed c (SendPeer m)" "allowed c (FileAudit b p)" "allowed c (CmTransferLog l)"
  by simp_all

lemma read_job_out:
  assumes "create_and_start_read_job e i k src n hid od path li s = (out, s')" and "x \<in> set out"
  shows "allowed c x"
  using assms by (auto simp: create_and_start_read_job_def process_new_read_job_def split: sum.splits if_splits)

lemma on_send_out:
  assumes "on_send e i k path n hid s = (out, s')" and "x \<in> set out"
    and "file_transfer (se_conn s) \<noteq> None \<or> k = Printer"
  shows "allowed (se_conn s) x"
  using assms
  by (auto simp: on_send_def split: job_type.splits if_splits option.splits prod.splits dest: read_job_out)

lemma allowed_file_action:
  assumes "on_file_action e a s = Some (out, s')" and "x \<in> set out"
  shows "allowed (se_conn s) x"
proof -
  consider "out = []" | "\<exists>m. out = [SendPeer m]"
    | "do_file_action e a s = Some (out, s')" "file_transfer (se_conn s) \<noteq> None \<or> is_print_job a"
    using assms(1) by (auto simp: on_file_action_def split: if_splits)
  then show ?thesis
  proof cases
    case 3
    then show ?thesis
    proof (cases a)
      case (ActSend i k path n hid)
      then show ?thesis using 3 on_send_out assms(2) by (auto simp: is_print_job_def)
    qed (use 3 assms(2) in \<open>auto simp: is_print_job_def on_cancel_def on_send_confirm_def
           split: if_splits sum.splits option.splits prod.splits\<close>)
  qed (use assms(2) in auto)
qed

lemma allowed_resolution: "x \<in> set (change_resolution e d w h s) \<Longrightarrow> allowed (se_conn s) x"
  by (cases "display_count e"; cases "keyboard (se_conn s)") (auto simp: change_resolution_def Let_def)

lemma switch_display_conn [simp]: "se_conn (switch_display_to e d s) = se_conn s"
  by (simp add: switch_display_to_def Let_def on_server_def on_base_def se_conn_def)

lemma allowed_misc:
  assumes "on_misc e m s = (keep, out, s')" and "x \<in> set out"
  shows "allowed (se_conn s) x"
proof (cases m)
  case (SwitchDisplay d w h)
  then show ?thesis
    using assms allowed_resolution [of x e None w h "switch_display_to e d s"]
    by (auto simp: keeps_def handle_switch_display_def Let_def split: if_splits)
qed (use assms in \<open>auto simp: keeps_def toggle_virtual_display_def handle_elevation_request_def
       on_selected_sid_def Let_def split: if_splits option.splits dest: allowed_resolution\<close>)

text \<open>
  C29. Nothing a peer sends goes further than its session may: input reaches the input thread only
  while the peer holds the keyboard and never from a camera session, the clipboard is written only
  with the clipboard permission, the machine is restarted only with that permission, the resolution
  is changed and the program elevated only with the keyboard, terminals get commands only after a
  terminal login, and the file process gets requests only from a file-transfer session, or to go on
  with a transfer; and a connection that is not authorised causes nothing at all.
\<close>

theorem outputs_are_permitted:
  assumes "on_session_msg e m s = Some (keep, out, s')" and "x \<in> set out"
  shows "authorized (se_conn s) \<and> allowed (se_conn s) x"
proof -
  have a: "authorized (se_conn s)" and r: "session_msg e m s = Some (keep, out, s')"
    using assms by (auto simp: on_session_msg_def split: if_splits)
  have "allowed (se_conn s) x"
  proof (cases m)
    case (FileAction act)
    then show ?thesis using r assms(2) allowed_file_action by (auto simp: keeps_def)
  next
    case (FileResponse fm)
    then show ?thesis using r assms(2)
      by (cases fm) (auto simp: keeps_def on_response_def continues_transfer_def)
  next
    case (Misc mi)
    then show ?thesis using r assms(2) allowed_misc by auto
  qed (use r assms(2) allowed_input in \<open>auto simp: keeps_def on_voice_request_def split: if_splits\<close>)
  then show ?thesis using a by simp
qed

definition demo_sess_env :: sess_env where
  "demo_sess_env = \<lparr>se_login = demo_login_env, se_fm = demo_fm,
     se_disk = \<lparr>links = Map.empty, inodes = (\<lambda>n. \<lparr>f_content = [], f_mtime = 0\<rparr>), next_inode = 0\<rparr>,
     se_windows = True, se_linux = False, se_now = 9000, primary_display = 0,
     service_names = session_names, display_count = Some 2, display_info = (\<lambda>src d. d < 2),
     own_virtual_display = (\<lambda>d. False), keycode_modifier = (\<lambda>c. None),
     virtual_display_supported = True, plug_result = (\<lambda>d. None), portable_running = False,
     portable_result = None, share_rdp = False, own_sid = Some 1, session_ids = [1],
     is_uuid = (\<lambda>s. length s = 36), path_comps = (\<lambda>s. [])\<rparr>"

definition demo_sess :: sess where
  "demo_sess = \<lparr>base_state = (demo_conn\<lparr>authorized := True\<rparr>, demo_host), display_idx = 0,
     multi_ui_session = False, cm_read_job_ids = {}, sess_read_jobs = [], printer_data = [],
     pressed_modifiers = {}, auto_disconnect_timer = None,
     file_remove_log = \<lparr>log_conn_id = 7, instant = 0, removed_files = [], removed_dirs = []\<rparr>,
     audio_thread = False, click_time = 0, mouse_move_time = 0\<rparr>"

definition demo_key :: key_event where
  "demo_key = \<lparr>key_union_of = ControlKey ''Return'', mode = ModeLegacy, press = True, down = False\<rparr>"

definition file_sess :: sess where
  "file_sess = demo_sess\<lparr>base_state := (demo_conn\<lparr>authorized := True, authed_conn_id := Some FileTransferConn,
     file_transfer := Some (''/h'', False)\<rparr>, demo_host)\<rparr>"

lemma demo_conn_kind:
  "authed_conn_id demo_conn = None" "\<not> port_forward_socket demo_conn" "file_transfer demo_conn = None"
  "delayed_read_dir demo_conn = None" "\<not> view_camera demo_conn"
  by (simp_all add: demo_conn_def connection_new_def)

theorem outputs_are_permitted_witness:
  "\<exists>keep out s' b. on_session_msg demo_sess_env (KeyEvent demo_key) demo_sess = Some (keep, out, s') \<and>
     InputKey demo_key b \<in> set out \<and> authorized (se_conn demo_sess) \<and> allowed (se_conn demo_sess) (InputKey demo_key b)"
proof -
  obtain out s' where r: "on_key demo_sess_env demo_key demo_sess = (out, s')" by fastforce
  then have "\<exists>b. InputKey demo_key b \<in> set out"
    using demo_conn_flags demo_conn_kind
    by (auto simp: on_key_def se_conn_def demo_sess_def is_authed_view_camera_conn_def
        peer_keyboard_enabled_def Let_def)
  then obtain b where b: "InputKey demo_key b \<in> set out" by blast
  have "on_session_msg demo_sess_env (KeyEvent demo_key) demo_sess = Some (True, out, s')"
    using demo_conn_kind by (simp add: on_session_msg_def r keeps_def) (simp add: se_conn_def demo_sess_def)
  then show ?thesis using outputs_are_permitted b by blast
qed

section \<open>Limits of a session\<close>

text \<open>Requests that read files out of the host or change what is there.\<close>

definition takes_files :: "fs_op \<Rightarrow> bool" where
  "takes_files r =
     (case r of FsReadFile _ _ _ _ _ _ \<Rightarrow> True | FsRemoveFile _ _ _ \<Rightarrow> True | FsRename _ _ _ \<Rightarrow> True
      | FsCreateDir _ _ \<Rightarrow> True | FsRemoveDir _ _ _ \<Rightarrow> True | _ \<Rightarrow> False)"

lemma action_takes_files:
  assumes "do_file_action e a s = Some (out, s')" and "SendFs r \<in> set out" and "takes_files r"
  shows "one_way_job a \<noteq> None"
proof (cases a)
  case (ActSendConfirm x)
  then show ?thesis using assms
    by (auto simp: takes_files_def on_send_confirm_def split: if_splits option.splits prod.splits)
next
  case (ActSend i k path n hid)
  then show ?thesis by (simp add: one_way_job_def)
qed (use assms in \<open>auto simp: one_way_job_def takes_files_def on_cancel_def split: if_splits sum.splits option.splits prod.splits\<close>)

lemma selected_sid_reads:
  "on_selected_sid e sid s = (keep, out, s') \<Longrightarrow> SendFs r \<in> set out \<Longrightarrow> \<exists>p h. r = FsReadDir p h"
  by (auto simp: on_selected_sid_def Let_def split: option.splits if_splits)

lemma resolution_no_fs: "SendFs r \<notin> set (change_resolution e d w h s)"
  by (cases "display_count e"; cases "keyboard (se_conn s)") (auto simp: change_resolution_def Let_def)

lemma misc_takes_no_files:
  assumes "on_misc e m s = (keep, out, s')" and "SendFs r \<in> set out"
  shows "\<not> takes_files r"
proof (cases m)
  case (SelectedSid sid)
  then show ?thesis using assms selected_sid_reads
    by (force simp: keeps_def takes_files_def split: if_splits)
qed (use assms resolution_no_fs in \<open>auto simp: keeps_def toggle_virtual_display_def handle_elevation_request_def
       handle_switch_display_def Let_def split: if_splits option.splits\<close>)

text \<open>
  C34. When the host allows files to come in only, no message of any session makes the file process
  read a file out, remove or rename one, or make or remove a directory.
\<close>

theorem one_way_mode_protects_files:
  assumes "get_builtin_option (h_cfg (snd (base_state s))) ''one-way-file-transfer'' = ''Y''"
    and "on_session_msg e m s = Some (keep, out, s')"
  shows "set out \<inter> SendFs ` {r. takes_files r} = {}"
proof (rule ccontr)
  assume "set out \<inter> SendFs ` {r. takes_files r} \<noteq> {}"
  then obtain r where o: "SendFs r \<in> set out" and t: "takes_files r" by blast
  have r: "session_msg e m s = Some (keep, out, s')"
    using assms(2) o by (auto simp: on_session_msg_def split: if_splits)
  show False
  proof (cases m)
    case (FileAction a)
    then have "on_file_action e a s = Some (out, s')" using r by (auto simp: keeps_def)
    then consider "SendFs r \<notin> set out" | "do_file_action e a s = Some (out, s')" "one_way_job a = None"
      using assms(1) by (auto simp: on_file_action_def split: if_splits)
    then show False using action_takes_files [of e a s out s' r] o t by cases auto
  next
    case (FileResponse fm)
    then show False using r o t
      by (cases fm) (auto simp: keeps_def on_response_def takes_files_def)
  next
    case (Misc mi)
    then show False using r o t misc_takes_no_files by auto
  qed (use r o in \<open>auto simp: keeps_def on_mouse_def on_pointer_def on_key_def Let_def on_voice_request_def split: if_splits\<close>)
qed

definition one_way_sess :: sess where
  "one_way_sess = on_base (\<lambda>(c, h). (c, h\<lparr>h_cfg := (h_cfg h)\<lparr>builtin_settings := [''one-way-file-transfer'' \<mapsto> ''Y'']\<rparr>\<rparr>)) file_sess"

lemma one_way_sess_conn:
  "se_conn one_way_sess = demo_conn\<lparr>authorized := True, authed_conn_id := Some FileTransferConn,
     file_transfer := Some (''/h'', False)\<rparr>"
  "get_builtin_option (h_cfg (snd (base_state one_way_sess))) ''one-way-file-transfer'' = ''Y''"
  by (simp_all add: one_way_sess_def file_sess_def se_conn_def on_base_def demo_sess_def get_builtin_option_def)

theorem one_way_mode_protects_files_witness:
  "\<exists>keep out s'. on_session_msg demo_sess_env (FileAction (ActRemoveFile 3 ''/h/a'' 0)) one_way_sess
      = Some (keep, out, s') \<and> out \<noteq> [] \<and> set out \<inter> SendFs ` {r. takes_files r} = {}"
proof -
  have "on_session_msg demo_sess_env (FileAction (ActRemoveFile 3 ''/h/a'' 0)) one_way_sess
      = Some (True, [SendPeer (MsgError 3 (Rejected ''one-way-file-transfer-tip'') 0)], one_way_sess)"
    using demo_conn_kind
    by (simp add: on_session_msg_def on_file_action_def one_way_sess_conn one_way_job_def keeps_def)
  then show ?thesis using one_way_mode_protects_files [OF one_way_sess_conn(2)] by blast
qed

lemma server_inv_missing: "server_inv srv \<Longrightarrow> server_inv (add_missing src d srv)"
  by (simp add: add_missing_def server_inv_add service_inv_new)

lemma server_inv_all_missing: "server_inv srv \<Longrightarrow> server_inv (fold (add_missing src) ds srv)"
  by (induction ds arbitrary: srv) (simp_all add: server_inv_missing)

lemma added_exists: "services (add_missing src d srv) (get_service_name src d) \<noteq> None"
  by (simp add: add_missing_def server_contains_def add_service_def service_new_def)

text \<open>
  C35. The kind of a session does not bind what it watches: a session that was opened for files, and
  was never a remote session, gets the pictures of any monitor it asks for.
\<close>

theorem file_session_can_watch_screen:
  assumes "authorized (se_conn s)" and "file_transfer (se_conn s) \<noteq> None" and "\<not> view_camera (se_conn s)"
    and "\<not> port_forward_socket (se_conn s)" and "server_inv (h_server (snd (base_state s)))"
  shows "\<exists>s'. on_session_msg e (Misc (CaptureDisplays [] [] [d])) s = Some (True, [], s') \<and>
    subscribed (h_server (snd (base_state s'))) (get_service_name Monitor d) (conn_id (se_conn s))"
proof -
  define srv where "srv = h_server (snd (base_state s))"
  define name where "name = get_service_name Monitor d"
  define c where "c = conn_id (se_conn s)"
  have src: "sess_video_source (se_conn s) = Monitor" using assms(3) by (simp add: sess_video_source_def)
  have inv: "server_inv (add_missing Monitor d srv)" using assms(5) by (simp add: srv_def server_inv_missing)
  have vid: "is_video_service_name name" "name \<noteq> NAME_WINDOW_FOCUS"
    by (simp_all add: name_def get_service_name_def is_video_service_name_def)
  define t where "t = capture_displays (service_names e @ [name]) c Monitor [d] True True (add_missing Monitor d srv)"
  note f = capture_fold [OF inv, where names = "[get_service_name Monitor d]" and conn = c and incl = True
      and excl = True and keys = "service_names e @ [name]" and k = name and j = c]
  have "subscribed t name c"
    using f
      added_exists [of Monitor d srv] vid(1)
    by (simp add: t_def capture_displays_def name_def Let_def)
  moreover have "server_inv t"
    using f
    by (simp add: t_def capture_displays_def name_def Let_def)
  ultimately have k: "subscribed (subscribe NAME_WINDOW_FOCUS c w t) name c" for w
    using vid(2) by (simp add: subscribed_subscribe)
  have "on_session_msg e (Misc (CaptureDisplays [] [] [d])) s = Some (True, [], sess_capture_displays e [] [] [d] s)"
    using assms(1,4) by (simp add: on_session_msg_def keeps_def)
  moreover have "subscribed (h_server (snd (base_state (sess_capture_displays e [] [] [d] s)))) name c"
    using k \<open>subscribed t name c\<close>
    by (simp add: sess_capture_displays_def Let_def src on_server_def on_base_def t_def srv_def name_def c_def)
  ultimately show ?thesis by (simp add: name_def c_def)
qed

theorem file_session_can_watch_screen_witness:
  "\<exists>s'. on_session_msg demo_sess_env (Misc (CaptureDisplays [] [] [1])) file_sess = Some (True, [], s') \<and>
    subscribed (h_server (snd (base_state s'))) (get_service_name Monitor 1) 7"
  using file_session_can_watch_screen [of file_sess demo_sess_env 1] demo_conn_kind demo_conn_flags
    demo_services(1) [of demo_conn]
  by (simp add: file_sess_def demo_sess_def se_conn_def has_services_def)

text \<open>
  A download that was cancelled is over for the peer: whatever the file process still sends for
  it, the connection drops.
\<close>

theorem cancelled_download_is_silent:
  assumes "on_cancel i s = (out, s')" and "a \<in> {FileBlockFromCM b cid, FileReadDone (b_id b) n cid,
      FileReadError (b_id b) n err cid, ReadJobInitResult (b_id b) n hid cid r,
      FileDigestFromCM (b_id b) n t sz resume cid}"
    and "b_id b = i"
  shows "on_cm_file a s' = ([], s')"
  using assms by (auto simp: on_cancel_def split: prod.splits)

theorem cancelled_download_is_silent_witness:
  "\<exists>out s'. on_cancel 3 (file_sess\<lparr>cm_read_job_ids := {3, 4}\<rparr>) = (out, s') \<and>
    on_cm_file (FileReadDone 3 0 7) s' = ([], s')"
proof -
  obtain out s' where c: "on_cancel 3 (file_sess\<lparr>cm_read_job_ids := {3, 4}\<rparr>) = (out, s')" by fastforce
  show ?thesis
    using c cancelled_download_is_silent [OF c, of "FileReadDone 3 0 7"
        "\<lparr>b_id = 3, b_file_num = 0, b_data = [], b_compressed = False\<rparr>" 7 0] by auto
qed

text \<open>
  On Linux \<open>on_key\<close> never notes a modifier: a press is only recognised for other keys, so the release
  at the end of a connection has nothing to release.
\<close>

lemma linux_notes_no_modifier:
  "se_linux e \<Longrightarrow> pressed_modifiers (snd (on_key e k s)) \<subseteq> pressed_modifiers s"
  by (auto simp: on_key_def update_auto_disconnect_timer_def Let_def split: option.splits if_splits)

end
