(* ===== verification/VntBridge.thy ===== *)
theory VntBridge
  imports Address "HOL-Library.Multiset"
begin

text \<open>
  The bridge between the Flutter application and the VNT core (\<open>src/rust/src/api/vnt_api.rs\<close>):
  how the settings of the user become a configuration of the core, how the network is started with
  the fallback from QUIC to TCP, what the running interface answers, and the tunnel of iOS. The
  text forms of server addresses, port mappings and certificate modes are those of the core
  (\<open>vendor/vnt-core-2.0.0/src\<close>). The core itself, JSON, the \<open>ipnet\<close> crate and the
  hasher of iOS device ids are parameters.
\<close>

section \<open>Text forms of the core\<close>

datatype protocol_type = Quic | TlsTcp | Wss | Dynamic

record protocol_address =
  protocol :: protocol_type
  address :: string

definition parse_server :: "string \<Rightarrow> string + protocol_type \<times> string" where
  "parse_server val =
     (let v = to_lower (trim val) in
      case strip_prefix ''quic://'' v of Some s \<Rightarrow> Inr (Quic, s)
      | None \<Rightarrow> (case strip_prefix ''tcp://'' v of Some s \<Rightarrow> Inr (TlsTcp, s)
      | None \<Rightarrow> (case strip_prefix ''wss://'' v of Some s \<Rightarrow> Inr (Wss, s)
      | None \<Rightarrow> (case strip_prefix ''dynamic://'' v of Some s \<Rightarrow> Inr (Dynamic, s)
      | None \<Rightarrow> if contains_str v ''://'' then Inl (''Unknown protocol in server address: '' @ v)
                else Inr (TlsTcp, v)))))"

definition protocol_prefix :: "protocol_type \<Rightarrow> string" where
  "protocol_prefix p =
     (case p of Quic \<Rightarrow> ''quic://'' | TlsTcp \<Rightarrow> ''tcp://'' | Wss \<Rightarrow> ''wss://'' | Dynamic \<Rightarrow> ''dynamic://'')"

definition show_address :: "protocol_address \<Rightarrow> string" where
  "show_address a = protocol_prefix (protocol a) @ address a"

text \<open>\<open>str::split_once\<close>, \<open>rsplit_once\<close> and \<open>splitn(3, '-')\<close>.\<close>

fun split_once :: "string \<Rightarrow> string \<Rightarrow> (string \<times> string) option" where
  "split_once p [] = (if p = [] then Some ([], []) else None)"
| "split_once p (c # s) =
     (if starts_with (c # s) p then Some ([], drop (length p) (c # s))
      else map_option (\<lambda>(a, b). (c # a, b)) (split_once p s))"

definition rsplit_once :: "char \<Rightarrow> string \<Rightarrow> (string \<times> string) option" where
  "rsplit_once c s = map_option (\<lambda>(a, b). (rev b, rev a)) (split_once [c] (rev s))"

datatype ip_protocol = Tcp | Udp

record port_mapping =
  pm_protocol :: ip_protocol
  src_addr :: socket_addr
  virtual_target_ip :: ipv4
  dst_host :: string
  dst_port :: u16

definition str_to_protocol :: "string \<Rightarrow> ip_protocol option" where
  "str_to_protocol s =
     (if to_lower s = ''tcp'' then Some Tcp else if to_lower s = ''udp'' then Some Udp else None)"

text \<open>\<open>u16::from_str\<close>, which takes a leading plus sign.\<close>

definition parse_u16 :: "string \<Rightarrow> u16 option" where
  "parse_u16 s = map_option of_nat (parse_unsigned 65535 s)"

text \<open>The parser of socket addresses of the standard library is given for IPv6.\<close>

definition parse_socket :: "(string \<Rightarrow> socket_addr option) \<Rightarrow> string \<Rightarrow> socket_addr option" where
  "parse_socket v6 s =
     (case parse_socket_v4 s of Some (ip, p) \<Rightarrow> Some (V4 ip p) | None \<Rightarrow> v6 s)"

datatype mapping_error = MissingScheme | UnknownProtocol string | InvalidSrc string | MissingTarget
  | InvalidTarget string | MissingDestination | MissingDstPort | InvalidDstPort string | ZeroDstPort

definition parse_port_mapping :: "(string \<Rightarrow> socket_addr option) \<Rightarrow> string \<Rightarrow> mapping_error + port_mapping" where
  "parse_port_mapping v6 s =
     (case split_once ''://'' s of
        None \<Rightarrow> Inl MissingScheme
      | Some (proto, rest) \<Rightarrow>
          (case str_to_protocol proto of
             None \<Rightarrow> Inl (UnknownProtocol proto)
           | Some p \<Rightarrow>
               (case split_once ''-'' rest of
                  None \<Rightarrow> (case parse_socket v6 rest of None \<Rightarrow> Inl (InvalidSrc rest) | Some a \<Rightarrow> Inl MissingTarget)
                | Some (src, rest2) \<Rightarrow>
                    (case parse_socket v6 src of
                       None \<Rightarrow> Inl (InvalidSrc src)
                     | Some a \<Rightarrow>
                         (case split_once ''-'' rest2 of
                            None \<Rightarrow> (case parse_ipv4 rest2 of
                                       None \<Rightarrow> Inl (InvalidTarget rest2) | Some ip \<Rightarrow> Inl MissingDestination)
                          | Some (target, dst) \<Rightarrow>
                              (case parse_ipv4 target of
                                 None \<Rightarrow> Inl (InvalidTarget target)
                               | Some ip \<Rightarrow>
                                   (case rsplit_once CHR '':'' dst of
                                      None \<Rightarrow> Inl MissingDstPort
                                    | Some (h, port) \<Rightarrow>
                                        (case parse_u16 port of
                                           None \<Rightarrow> Inl (InvalidDstPort port)
                                         | Some n \<Rightarrow>
                                             if n = 0 then Inl ZeroDstPort
                                             else Inr \<lparr>pm_protocol = p, src_addr = a, virtual_target_ip = ip,
                                                    dst_host = h, dst_port = n\<rparr>)))))))
        )"

datatype cert_mode = SkipVerification | VerifyFingerprint bytes | Standard

definition hex_val :: "char \<Rightarrow> nat option" where
  "hex_val c =
     (let n = (of_char c :: nat) in
      if 48 \<le> n \<and> n \<le> 57 then Some (n - 48)
      else if 97 \<le> n \<and> n \<le> 102 then Some (n - 87)
      else if 65 \<le> n \<and> n \<le> 70 then Some (n - 55) else None)"

text \<open>\<open>hex::decode\<close>: an even number of hexadecimal digits.\<close>

fun hex_decode :: "string \<Rightarrow> bytes option" where
  "hex_decode [] = Some []"
| "hex_decode [c] = None"
| "hex_decode (a # b # s) =
     (case (hex_val a, hex_val b, hex_decode s) of
        (Some x, Some y, Some bs) \<Rightarrow> Some (of_nat (16 * x + y) # bs)
      | _ \<Rightarrow> None)"

datatype cert_error = InvalidHex | FingerprintLength nat | UnknownCertMode string

definition parse_cert_mode :: "string \<Rightarrow> cert_error + cert_mode" where
  "parse_cert_mode value =
     (let v = to_lower (trim value) in
      if v = ''skip'' then Inr SkipVerification
      else if v = ''standard'' then Inr Standard
      else case strip_prefix ''finger:'' v of
        Some h \<Rightarrow>
          (case hex_decode h of
             None \<Rightarrow> Inl InvalidHex
           | Some bs \<Rightarrow>
               if length bs \<noteq> 32 then Inl (FingerprintLength (length bs)) else Inr (VerifyFingerprint bs))
      | None \<Rightarrow> Inl (UnknownCertMode value))"

section \<open>Addresses of servers\<close>

definition normalize_server_address_legacy :: "string \<Rightarrow> string" where
  "normalize_server_address_legacy raw =
     (let addr = trim raw; lower = to_lower addr in
      case strip_prefix ''txt:'' lower of
        Some v \<Rightarrow> ''dynamic://'' @ v
      | None \<Rightarrow>
          if starts_with lower ''udp://'' then ''quic://'' @ drop 6 addr
          else if starts_with lower ''ws://'' then ''wss://'' @ drop 5 addr
          else if contains_str addr ''://'' then addr
          else ''quic://'' @ addr)"

datatype bridge_error = NoServerAddress | InvalidServerAddress string string | BadPayload string
  | BadCertMode cert_error | BadMask u32 | BadInNet | BadInTarget | BadOutNet
  | BadPortMapping mapping_error | BadIp | NoDeviceId | NoRuntime | StartFailed string

text \<open>\<open>collect\<close> into a \<open>Result\<close>: the first error ends it.\<close>

fun try_map :: "('a \<Rightarrow> 'e + 'b) \<Rightarrow> 'a list \<Rightarrow> 'e + 'b list" where
  "try_map f [] = Inr []"
| "try_map f (x # xs) =
     (case f x of Inl e \<Rightarrow> Inl e
      | Inr y \<Rightarrow> (case try_map f xs of Inl e \<Rightarrow> Inl e | Inr ys \<Rightarrow> Inr (y # ys)))"

definition is_separator :: "char \<Rightarrow> bool" where
  "is_separator c = (c \<in> {CHR 0x0A, CHR 0x0D, CHR '','', CHR '';''})"

definition server_parts :: "string \<Rightarrow> string list" where
  "server_parts raw =
     filter (\<lambda>p. p \<noteq> []) (map trim (split_on is_separator raw))"

definition parse_part :: "string \<Rightarrow> bridge_error + protocol_address" where
  "parse_part part =
     (case parse_server (normalize_server_address_legacy part) of
        Inl err \<Rightarrow> Inl (InvalidServerAddress part err)
      | Inr (p, a) \<Rightarrow> Inr \<lparr>protocol = p, address = a\<rparr>)"

definition parse_server_addresses :: "string \<Rightarrow> bridge_error + protocol_address list" where
  "parse_server_addresses raw =
     (case try_map parse_part (server_parts raw) of
        Inl err \<Rightarrow> Inl err
      | Inr as \<Rightarrow> if as = [] then Inl NoServerAddress else Inr as)"

section \<open>Masks\<close>

definition count_ones :: "u32 \<Rightarrow> nat" where
  "count_ones m = length (filter (bit m) [0..<32])"

definition prefix_from_mask :: "u32 \<Rightarrow> bridge_error + u8" where
  "prefix_from_mask m =
     (let prefix = count_ones m;
          rebuilt = (if prefix = 0 then 0 else push_bit (32 - prefix) (- 1))
      in if rebuilt \<noteq> m then Inl (BadMask m) else Inr (of_nat prefix))"

text \<open>The difference and the width of the shift wrap, as in a release build.\<close>

definition prefix_to_netmask :: "u8 \<Rightarrow> u32" where
  "prefix_to_netmask p = (if p = 0 then 0 else push_bit (unat (32 - p) mod 32) (- 1))"

section \<open>The configuration\<close>

record bridge_options =
  bo_cert_mode :: "string option"
  bo_rtx :: bool
  bo_fec :: bool
  bo_no_tun :: bool
  allow_mapping :: bool
  bo_udp_stun :: "string list"
  bo_tcp_stun :: "string list"
  bo_tunnel_port :: "u16 option"

record vnt_config =
  token :: string
  device_id :: string
  vc_name :: string
  server_address_str :: string
  stun_server :: "string list"
  in_ips :: "(u32 \<times> u32 \<times> string) list"
  out_ips :: "(u32 \<times> u32) list"
  vc_password :: "string option"
  vc_mtu :: "u32 option"
  vc_ip :: "string option"
  no_proxy :: bool
  cipher_model :: string
  device_name :: "string option"
  use_channel_type :: string
  port_mapping_list :: "string list"
  compressor :: string

type_synonym ipv4_net = "u32 \<times> u8"

record core_config =
  server_addr :: "protocol_address list"
  cc_cert_mode :: cert_mode
  network_code :: string
  cc_device_id :: string
  cc_device_name :: string
  tun_name :: "string option"
  cc_ip :: "ipv4 option"
  cc_password :: "string option"
  no_punch :: bool
  compress :: bool
  rtx :: bool
  fec :: bool
  cc_input :: "(ipv4_net \<times> ipv4) list"
  cc_output :: "ipv4_net list"
  no_nat :: bool
  no_tun :: bool
  mtu :: "u16 option"
  port_mapping :: "port_mapping list"
  allow_port_mapping :: bool
  udp_stun :: "string list"
  tcp_stun :: "string list"
  tunnel_port :: "u16 option"

record network_addr =
  na_ip :: ipv4
  prefix_len :: u8
  gateway :: ipv4
  broadcast :: ipv4

datatype register_response = RegisterSuccess network_addr | RegisterFailed string

text \<open>The world outside; the functions of the core take the number of the attempt.\<close>

record bridge_env =
  bridge_json :: "string \<Rightarrow> string + bridge_options"
  socket_v6 :: "string \<Rightarrow> socket_addr option"
  net_new :: "u32 \<Rightarrow> u8 \<Rightarrow> ipv4_net option"
  own_device_id :: "string option"
  runtime_ok :: bool
  create_task :: "nat \<Rightarrow> string option"
  create_network :: "nat \<Rightarrow> core_config \<Rightarrow> string option"
  register :: "nat \<Rightarrow> core_config \<Rightarrow> string + register_response"
  start_tun :: "nat \<Rightarrow> string option"
  set_tun_ip :: "nat \<Rightarrow> network_addr \<Rightarrow> string option"

definition default_options :: bridge_options where
  "default_options = \<lparr>bo_cert_mode = None, bo_rtx = False, bo_fec = False, bo_no_tun = False,
     allow_mapping = False, bo_udp_stun = [], bo_tcp_stun = [], bo_tunnel_port = None\<rparr>"

definition decode_bridge_options :: "bridge_env \<Rightarrow> string \<Rightarrow> bridge_error + bridge_options" where
  "decode_bridge_options e payload =
     (case strip_prefix ''__vnt_bridge_json__='' payload of
        Some raw \<Rightarrow> (case bridge_json e raw of Inl err \<Rightarrow> Inl (BadPayload err) | Inr o' \<Rightarrow> Inr o')
      | None \<Rightarrow>
          (case strip_prefix ''__vnt_bridge_cert_mode__='' payload of
             Some rest \<Rightarrow>
               Inr (default_options\<lparr>bo_cert_mode := Some
                 (case split_once '';;__vnt_bridge_cipher_model__='' rest of
                    Some (m, c) \<Rightarrow> trim m | None \<Rightarrow> trim rest)\<rparr>)
           | None \<Rightarrow> Inr (default_options\<lparr>bo_cert_mode := Some ''skip''\<rparr>)))"

definition decode_cert_mode :: "string \<Rightarrow> bridge_error + cert_mode" where
  "decode_cert_mode payload =
     (case parse_cert_mode (trim payload) of Inl err \<Rightarrow> Inl (BadCertMode err) | Inr m \<Rightarrow> Inr m)"

definition normalize_stun_servers :: "string list \<Rightarrow> nat \<Rightarrow> string list" where
  "normalize_stun_servers entries port =
     filter (\<lambda>s. s \<noteq> []) (map (\<lambda>entry.
       let t = trim entry in
       if t = [] then t else if CHR '':'' \<in> set t then t else t @ '':'' @ dec port) entries)"

definition trimmed :: "string option \<Rightarrow> string option" where
  "trimmed s = (case s of Some v \<Rightarrow> if trim v = [] then None else Some (trim v) | None \<Rightarrow> None)"

definition or_else :: "'e + 'a \<Rightarrow> ('a \<Rightarrow> 'e + 'b) \<Rightarrow> 'e + 'b" where
  "or_else r f = (case r of Inl e \<Rightarrow> Inl e | Inr x \<Rightarrow> f x)"

definition net_of :: "bridge_env \<Rightarrow> bridge_error \<Rightarrow> u32 \<Rightarrow> u32 \<Rightarrow> bridge_error + ipv4_net" where
  "net_of e err dest m =
     or_else (prefix_from_mask m) (\<lambda>p. case net_new e dest p of Some n \<Rightarrow> Inr n | None \<Rightarrow> Inl err)"

definition input_of :: "bridge_env \<Rightarrow> u32 \<times> u32 \<times> string \<Rightarrow> bridge_error + ipv4_net \<times> ipv4" where
  "input_of e = (\<lambda>(dest, m, ip).
     or_else (net_of e BadInNet dest m) (\<lambda>n.
       case parse_ipv4 ip of Some t \<Rightarrow> Inr (n, t) | None \<Rightarrow> Inl BadInTarget))"

definition ip_of :: "string option \<Rightarrow> bridge_error + ipv4 option" where
  "ip_of s =
     (case s of
        Some v \<Rightarrow>
          if trim v = [] then Inr None
          else (case parse_ipv4 (trim v) of Some ip \<Rightarrow> Inr (Some ip) | None \<Rightarrow> Inl BadIp)
      | None \<Rightarrow> Inr None)"

definition device_of :: "bridge_env \<Rightarrow> string \<Rightarrow> bridge_error + string" where
  "device_of e v =
     (if trim v = [] then (case own_device_id e of Some d \<Rightarrow> Inr d | None \<Rightarrow> Inl NoDeviceId)
      else Inr (trim v))"

definition convert_to_core_config ::
  "bridge_env \<Rightarrow> vnt_config \<Rightarrow> bridge_error + core_config \<times> string list" where
  "convert_to_core_config e c =
     or_else (parse_server_addresses (server_address_str c)) (\<lambda>servers.
     or_else (decode_bridge_options e (cipher_model c)) (\<lambda>opts.
     or_else (decode_cert_mode (case bo_cert_mode opts of Some m \<Rightarrow> m | None \<Rightarrow> ''skip'')) (\<lambda>cert.
     or_else (try_map (input_of e) (in_ips c)) (\<lambda>ins.
     or_else (try_map (\<lambda>(dest, m). net_of e BadOutNet dest m) (out_ips c)) (\<lambda>outs.
     or_else (try_map (\<lambda>v. case parse_port_mapping (socket_v6 e) v of
                Inl err \<Rightarrow> Inl (BadPortMapping err) | Inr m \<Rightarrow> Inr m) (port_mapping_list c)) (\<lambda>maps.
     or_else (ip_of (vc_ip c)) (\<lambda>ip.
     or_else (device_of e (device_id c)) (\<lambda>dev.
       let udp = normalize_stun_servers (if bo_udp_stun opts = [] then stun_server c else bo_udp_stun opts) 3478;
           tcp = normalize_stun_servers (if bo_tcp_stun opts = [] then udp else bo_tcp_stun opts) 443
       in Inr (\<lparr>server_addr = servers, cc_cert_mode = cert, network_code = trim (token c),
            cc_device_id = dev, cc_device_name = trim (vc_name c), tun_name = trimmed (device_name c),
            cc_ip = ip, cc_password = trimmed (vc_password c),
            no_punch = (to_lower (trim (use_channel_type c)) = ''relay''),
            compress = (to_lower (trim (compressor c)) \<noteq> ''none''),
            rtx = bo_rtx opts, fec = bo_fec opts, cc_input = ins, cc_output = outs, no_nat = no_proxy c,
            no_tun = bo_no_tun opts, mtu = map_option (\<lambda>v. of_nat (min (unat v) 65535)) (vc_mtu c),
            port_mapping = maps, allow_port_mapping = allow_mapping opts, udp_stun = udp, tcp_stun = tcp,
            tunnel_port = bo_tunnel_port opts\<rparr>, map show_address servers)))))))))"

section \<open>Starting the network\<close>

text \<open>Messages of the program, as UTF-8 bytes.\<close>

definition utf8 :: "nat list \<Rightarrow> string" where
  "utf8 = map char_of"

definition msg_create :: string where
  "msg_create = utf8 [229, 136, 155, 229, 187, 186] @ '' VNT 2.0 ''
     @ utf8 [231, 189, 145, 231, 187, 156, 229, 174, 158, 228, 190, 139, 229, 164, 177, 232, 180, 165]"

definition msg_register :: string where
  "msg_register = utf8 [230, 179, 168, 229, 134, 140, 229, 136, 176] @ '' VNTS 2.0 ''
     @ utf8 [230, 156, 141, 229, 138, 161, 231, 171, 175, 229, 164, 177, 232, 180, 165]"

definition msg_start_tun :: string where
  "msg_start_tun = utf8 [229, 144, 175, 229, 138, 168, 232, 153, 154, 230, 139, 159, 231, 189, 145, 229,
     141, 161, 229, 164, 177, 232, 180, 165]"

definition msg_set_ip :: string where
  "msg_set_ip = utf8 [232, 174, 190, 231, 189, 174, 232, 153, 154, 230, 139, 159, 231, 189, 145, 229, 141,
     161] @ '' IP '' @ utf8 [229, 164, 177, 232, 180, 165]"

definition msg_start :: string where
  "msg_start = utf8 [229, 144, 175, 229, 138, 168] @ '' VNT ''
     @ utf8 [231, 189, 145, 231, 187, 156, 229, 164, 177, 232, 180, 165]"

text \<open>\<open>anyhow\<close>: the text of an error is its contexts and its cause, separated by a colon.\<close>

definition with_context :: "string \<Rightarrow> string \<Rightarrow> string" where
  "with_context ctx err = ctx @ '': '' @ err"

definition start_network :: "bridge_env \<Rightarrow> nat \<Rightarrow> core_config \<Rightarrow> string + network_addr" where
  "start_network e i c =
     (case create_network e i c of Some err \<Rightarrow> Inl (with_context msg_create err)
      | None \<Rightarrow>
          (case register e i c of Inl err \<Rightarrow> Inl (with_context msg_register err)
           | Inr (RegisterFailed err) \<Rightarrow> Inl (with_context msg_register err)
           | Inr (RegisterSuccess a) \<Rightarrow>
               if no_tun c then Inr a
               else (case start_tun e i of Some err \<Rightarrow> Inl (with_context msg_start_tun err)
                     | None \<Rightarrow>
                         (case set_tun_ip e i a of Some err \<Rightarrow> Inl (with_context msg_set_ip err)
                          | None \<Rightarrow> Inr a))))"

definition tcp_fallback_config_for_quic :: "core_config \<Rightarrow> core_config option" where
  "tcp_fallback_config_for_quic c =
     (case server_addr c of
        [a] \<Rightarrow> if protocol a \<noteq> Quic then None else Some (c\<lparr>server_addr := [a\<lparr>protocol := TlsTcp\<rparr>]\<rparr>)
      | _ \<Rightarrow> None)"

definition attempts_supports_tcp_fallback :: "core_config \<Rightarrow> bool" where
  "attempts_supports_tcp_fallback c = (tcp_fallback_config_for_quic c \<noteq> None)"

definition is_transport_retryable_error :: "string \<Rightarrow> bool" where
  "is_transport_retryable_error err =
     (let m = to_lower err in
      contains_str m ''timeout'' \<or> contains_str m ''deadline has elapsed''
      \<or> contains_str m ''failed to establish quic'' \<or> contains_str m ''connection refused'')"

datatype error_type = TokenError | Disconnect | AddressExhausted | IpAlreadyExists | InvalidIp
  | LocalIpExists | FailedToCreateDevice | Warn | Unknown

definition error_info_from_error :: "string \<Rightarrow> error_type \<times> string" where
  "error_info_from_error err =
     (let l = to_lower err in
      (if contains_str l ''network_code'' \<or> contains_str l ''token'' then TokenError
       else if contains_str l ''ip already exists'' then IpAlreadyExists
       else if contains_str l ''invalid ip'' then InvalidIp
       else if contains_str l ''failed to create device'' \<or> contains_str l msg_start_tun then FailedToCreateDevice
       else if contains_str l ''disconnect'' then Disconnect
       else Unknown, err))"

definition octets :: "u32 \<Rightarrow> ipv4" where
  "octets m = (ucast (drop_bit 24 m), ucast (drop_bit 16 m), ucast (drop_bit 8 m), ucast m)"

definition netmask_text :: "u8 \<Rightarrow> string" where
  "netmask_text p = show_ipv4 (octets (prefix_to_netmask p))"

datatype bridge_event =
    ConnectEvent nat string
  | ErrorEvent error_type string
  | HandshakeEvent string
  | RegisterEvent string string string
  | SuccessEvent

definition register_info :: "network_addr \<Rightarrow> bridge_event" where
  "register_info a = RegisterEvent (show_ipv4 (na_ip a)) (netmask_text (prefix_len a)) (show_ipv4 (gateway a))"

text \<open>
  The loop over the attempts: the events of the later attempts, and the outcome, the configuration
  that runs with the address of the network, or the last error.
\<close>

fun run_attempts :: "bridge_env \<Rightarrow> bool \<Rightarrow> nat \<Rightarrow> nat \<Rightarrow> core_config list \<Rightarrow> string option
    \<Rightarrow> bridge_event list \<times> (string option + core_config \<times> network_addr)" where
  "run_attempts e allowed targets i [] err = ([], Inl err)"
| "run_attempts e allowed targets i (c # cs) err =
     (case create_task e i of
        Some err \<Rightarrow> ([], Inl (Some err))
      | None \<Rightarrow>
          let ev = (if 0 < i then
                      (case server_addr c of a # as \<Rightarrow> [ConnectEvent (targets + i) (show_address a)] | [] \<Rightarrow> [])
                    else [])
          in (case start_network e i c of
                Inr a \<Rightarrow> (ev, Inr (c, a))
              | Inl err \<Rightarrow>
                  if i = 0 \<and> allowed \<and> is_transport_retryable_error err then
                    (case run_attempts e allowed targets (Suc i) cs (Some err) of (evs, r) \<Rightarrow> (ev @ evs, r))
                  else (ev, Inl (Some err))))"

definition CORE_VERSION :: string where
  "CORE_VERSION = ''2.0.0''"

definition connect_events :: "string list \<Rightarrow> bridge_event list" where
  "connect_events targets = map (\<lambda>(i, a). ConnectEvent (Suc i) a) (enumerate 0 targets)"

definition attempts_of :: "core_config \<Rightarrow> core_config list" where
  "attempts_of c = c # (case tcp_fallback_config_for_quic c of Some f \<Rightarrow> [f] | None \<Rightarrow> [])"

record vnt_api =
  running :: core_config
  has_manager :: bool
  stopped :: bool

text \<open>
  \<open>VntApi::new\<close> with its events in the order it gives them out. Each is handed to the application by
  a task of its own (\<open>spawn_dart_future\<close>), so they can arrive in another order.
\<close>

definition vnt_api_new :: "bridge_env \<Rightarrow> vnt_config \<Rightarrow> bridge_event list \<times> (bridge_error + vnt_api)" where
  "vnt_api_new e v =
     (case convert_to_core_config e v of
        Inl err \<Rightarrow> ([], Inl err)
      | Inr (c, targets) \<Rightarrow>
          if \<not> runtime_ok e then ([], Inl NoRuntime)
          else
            (case run_attempts e (attempts_supports_tcp_fallback c) (length targets) 0 (attempts_of c) None of
               (evs, Inl last_error) \<Rightarrow>
                 let err = (case last_error of Some x \<Rightarrow> x | None \<Rightarrow> msg_start);
                     info = error_info_from_error err
                 in (connect_events targets @ evs @ [ErrorEvent (fst info) (snd info)], Inl (StartFailed err))
             | (evs, Inr (run, a)) \<Rightarrow>
                 (connect_events targets @ evs @ [HandshakeEvent CORE_VERSION, register_info a, SuccessEvent],
                  Inr \<lparr>running = run, has_manager = True, stopped = False\<rparr>)))"

section \<open>The running interface\<close>

record core_view =
  client_ips :: "(ipv4 \<times> bool) list"
  is_direct :: "ipv4 \<Rightarrow> bool"
  get_rtt :: "ipv4 \<Rightarrow> u32 option"
  server_nodes :: "(string \<times> bool) list"
  traffic :: "(ipv4 \<times> u64 \<times> u64) list"
  traffic_info :: "ipv4 \<Rightarrow> (u64 \<times> u64) option"
  core_network :: "network_addr option"
  network_of :: "network_addr \<Rightarrow> ipv4"

record rust_route =
  route_protocol :: string
  route_addr :: string
  metric :: nat
  rt :: nat

record device_info =
  cd_virtual_ip :: string
  cd_netmask :: string
  cd_gateway :: string
  cd_network :: string
  broadcast_ip :: string
  connect_server :: string
  cd_status :: string

definition no_device :: device_info where
  "no_device = \<lparr>cd_virtual_ip = [], cd_netmask = [], cd_gateway = [], cd_network = [], broadcast_ip = [],
     connect_server = [], cd_status = []\<rparr>"

definition api_stop :: "vnt_api \<Rightarrow> vnt_api" where
  "api_stop a = (if stopped a then a else a\<lparr>stopped := True, has_manager := False\<rparr>)"

definition device_list :: "core_view \<Rightarrow> vnt_api \<Rightarrow> (string \<times> string) list" where
  "device_list v a =
     (if stopped a then []
      else map (\<lambda>(ip, online). (show_ipv4 ip, if online then ''Online'' else ''Offline'')) (client_ips v))"

text \<open>The connected server, else the first one.\<close>

definition best_server :: "(string \<times> bool) list \<Rightarrow> string option" where
  "best_server ns =
     (case find snd ns of Some (a, c) \<Rightarrow> Some a
      | None \<Rightarrow> (case ns of (a, c) # rest \<Rightarrow> Some a | [] \<Rightarrow> None))"

definition build_route_from_api :: "core_view \<Rightarrow> ipv4 \<Rightarrow> rust_route" where
  "build_route_from_api v ip =
     \<lparr>route_protocol = (if is_direct v ip then ''P2P'' else ''Relay''),
      route_addr = (case best_server (server_nodes v) of Some a \<Rightarrow> a | None \<Rightarrow> show_ipv4 ip),
      metric = (if is_direct v ip then 1 else 2),
      rt = (case get_rtt v ip of Some n \<Rightarrow> unat n | None \<Rightarrow> 0)\<rparr>"

definition route_list :: "core_view \<Rightarrow> vnt_api \<Rightarrow> (string \<times> rust_route list) list" where
  "route_list v a =
     (if stopped a then []
      else map (\<lambda>(ip, online). (show_ipv4 ip, [build_route_from_api v ip])) (client_ips v))"

definition api_route :: "core_view \<Rightarrow> vnt_api \<Rightarrow> string \<Rightarrow> rust_route option" where
  "api_route v a s =
     (if stopped a then None else map_option (build_route_from_api v) (parse_ipv4 s))"

definition current_device_from_api :: "core_view \<Rightarrow> device_info" where
  "current_device_from_api v =
     (case core_network v of
        None \<Rightarrow> no_device
      | Some n \<Rightarrow>
          \<lparr>cd_virtual_ip = show_ipv4 (na_ip n), cd_netmask = netmask_text (prefix_len n),
           cd_gateway = show_ipv4 (gateway n), cd_network = show_ipv4 (network_of v n),
           broadcast_ip = show_ipv4 (broadcast n),
           connect_server = (case best_server (server_nodes v) of Some a \<Rightarrow> a | None \<Rightarrow> []),
           cd_status = (if \<exists>x \<in> set (server_nodes v). snd x then ''Online'' else ''Connecting'')\<rparr>)"

definition current_device :: "core_view \<Rightarrow> vnt_api \<Rightarrow> device_info" where
  "current_device v a = (if stopped a then no_device else current_device_from_api v)"

definition total_traffic :: "core_view \<Rightarrow> bool \<Rightarrow> u64" where
  "total_traffic v upstream =
     (if server_nodes v = [] then 0
      else sum_list (map (\<lambda>(ip, tx, rx). if upstream then tx else rx) (traffic v)))"

definition convert :: "u64 \<Rightarrow> string" where
  "convert num =
     (let n = unat num;
          gigabytes = n div 1073741824; r1 = n mod 1073741824;
          megabytes = r1 div 1048576; r2 = r1 mod 1048576;
          kilobytes = r2 div 1024; r3 = r2 mod 1024
      in (if 0 < gigabytes then dec gigabytes @ '' GB '' else [])
         @ (if 0 < megabytes then dec megabytes @ '' MB '' else [])
         @ (if 0 < kilobytes then dec kilobytes @ '' KB '' else [])
         @ (if 0 < r3 then dec r3 @ '' bytes'' else []))"

definition up_stream :: "core_view \<Rightarrow> vnt_api \<Rightarrow> string" where
  "up_stream v a = convert (total_traffic v True)"

definition down_stream :: "core_view \<Rightarrow> vnt_api \<Rightarrow> string" where
  "down_stream v a = convert (total_traffic v False)"

definition stream_all :: "core_view \<Rightarrow> vnt_api \<Rightarrow> (string \<times> u64 \<times> u64) list" where
  "stream_all v a = (if stopped a then [] else map (\<lambda>(ip, tx, rx). (show_ipv4 ip, tx, rx)) (traffic v))"

definition stream_line :: "core_view \<Rightarrow> vnt_api \<Rightarrow> (u64 \<times> u64 \<Rightarrow> u64) \<Rightarrow> string \<Rightarrow> u64 list" where
  "stream_line v a f s =
     (if stopped a then []
      else case parse_ipv4 s of None \<Rightarrow> []
      | Some ip \<Rightarrow> (case traffic_info v ip of Some t \<Rightarrow> [f t] | None \<Rightarrow> []))"

definition stream_total :: "core_view \<Rightarrow> vnt_api \<Rightarrow> (u64 \<times> u64 \<Rightarrow> u64) \<Rightarrow> string \<Rightarrow> string" where
  "stream_total v a f s =
     (if stopped a then []
      else case parse_ipv4 s of None \<Rightarrow> []
      | Some ip \<Rightarrow> (case traffic_info v ip of Some t \<Rightarrow> convert (f t) | None \<Rightarrow> []))"

section \<open>The tunnel of iOS\<close>

datatype c_string = NullPointer | NotUtf8 | CText string

definition read_c_string :: "c_string \<Rightarrow> string option" where
  "read_c_string p =
     (case p of CText s \<Rightarrow> if trim s = [] then None else Some (trim s) | _ \<Rightarrow> None)"

fun hex_digits :: "nat \<Rightarrow> nat \<Rightarrow> string" where
  "hex_digits 0 n = []"
| "hex_digits (Suc k) n = hex_digits k (n div 16) @ [''0123456789abcdef'' ! (n mod 16)]"

definition stable_ios_device_id :: "(string \<Rightarrow> string \<Rightarrow> u64) \<Rightarrow> string \<Rightarrow> string \<Rightarrow> string" where
  "stable_ios_device_id h server name = ''ios-'' @ hex_digits 16 (unat (h server name))"

definition build_ios_vnt_config ::
  "(string \<Rightarrow> string \<Rightarrow> u64) \<Rightarrow> string \<Rightarrow> string \<Rightarrow> string \<Rightarrow> u32 option \<Rightarrow> vnt_config" where
  "build_ios_vnt_config h server tok name m =
     (let n = (if trim name = [] then ''iOS Device'' else trim name) in
      \<lparr>token = tok, device_id = stable_ios_device_id h server n, vc_name = n, server_address_str = server,
       stun_server = [], in_ips = [], out_ips = [], vc_password = None, vc_mtu = m, vc_ip = None,
       no_proxy = False, cipher_model = [], device_name = None, use_channel_type = [],
       port_mapping_list = [], compressor = ''none''\<rparr>)"

definition create_tunnel_instance ::
  "bridge_env \<Rightarrow> (string \<Rightarrow> string \<Rightarrow> u64) \<Rightarrow> (int \<Rightarrow> string option) \<Rightarrow> int \<Rightarrow> string \<Rightarrow> string \<Rightarrow> string
    \<Rightarrow> u32 option \<Rightarrow> core_config option" where
  "create_tunnel_instance e h start_fd fd server tok name m =
     (case convert_to_core_config e (build_ios_vnt_config h server tok name m) of
        Inl err \<Rightarrow> None
      | Inr (c, targets) \<Rightarrow>
          if \<not> runtime_ok e \<or> create_task e 0 \<noteq> None \<or> create_network e 0 c \<noteq> None then None
          else (case register e 0 c of
                  Inr (RegisterSuccess a) \<Rightarrow> if \<not> no_tun c \<and> start_fd fd \<noteq> None then None else Some c
                | _ \<Rightarrow> None))"

text \<open>The slot keeps the running instance; an old one is dropped before the new one is made.\<close>

definition vnt_ios_start_tunnel ::
  "bridge_env \<Rightarrow> (string \<Rightarrow> string \<Rightarrow> u64) \<Rightarrow> (int \<Rightarrow> string option) \<Rightarrow> int \<Rightarrow> c_string \<Rightarrow> c_string \<Rightarrow> c_string
    \<Rightarrow> int \<Rightarrow> core_config option \<Rightarrow> int \<times> core_config option" where
  "vnt_ios_start_tunnel e h start_fd fd server tok name m slot =
     (if fd < 0 then (-10, slot)
      else case (read_c_string server, read_c_string tok, read_c_string name) of
        (Some s, Some t, Some n) \<Rightarrow>
          (case create_tunnel_instance e h start_fd fd s t n (if 0 < m then Some (of_int m) else None) of
             None \<Rightarrow> (-10, None)
           | Some c \<Rightarrow> (0, Some c))
      | _ \<Rightarrow> (-10, slot))"

definition vnt_ios_stop_tunnel :: "core_config option \<Rightarrow> core_config option" where
  "vnt_ios_stop_tunnel slot = None"

definition vnt_ios_get_status :: "(core_config \<Rightarrow> bool) \<Rightarrow> core_config option \<Rightarrow> int" where
  "vnt_ios_get_status up slot =
     (case slot of None \<Rightarrow> -1 | Some c \<Rightarrow> if up c then 1 else 0)"

section \<open>Masks and prefixes\<close>

lemma bit_ones: "bit (NOT (mask j) :: u32) n \<longleftrightarrow> j \<le> n \<and> n < 32"
  by (auto simp: bit_not_iff bit_mask_iff)

lemma no_ones [simp]: "(NOT (mask 32) :: u32) = 0"
  by (rule bit_eqI) (auto simp: bit_ones)

lemma count_netmask: "k \<le> 32 \<Longrightarrow> count_ones (push_bit (32 - k) (- 1)) = k"
proof -
  assume k: "k \<le> 32"
  have "filter (bit (push_bit (32 - k) (- 1) :: u32)) [0..<32] = filter (\<lambda>n. 32 - k \<le> n) [0..<32]"
    by (rule filter_cong) (auto simp: bit_ones)
  also have "\<dots> = filter (\<lambda>n. 32 - k \<le> n) ([0..<32 - k] @ [32 - k..<32])"
    using upt_add_eq_append [of 0 "32 - k" k] k by simp
  also have "\<dots> = [32 - k..<32]"
    by (simp add: filter_id_conv)
  finally show ?thesis using k by (simp add: count_ones_def)
qed

lemma count_ones_le: "count_ones m \<le> 32"
proof -
  have "count_ones m \<le> length [0..<32]" unfolding count_ones_def by (rule length_filter_le)
  then show ?thesis by simp
qed

lemma netmask_eq:
  assumes "k \<le> 32"
  shows "prefix_to_netmask (of_nat k) = push_bit (32 - k) (- 1)"
proof (cases "k = 0")
  case True
  then show ?thesis by (simp add: prefix_to_netmask_def)
next
  case False
  have u: "unat (of_nat k :: u8) = k" using assms by (simp add: unat_of_nat take_bit_eq_mod)
  have "(of_nat k :: u8) \<le> 32" using u assms by (simp add: word_le_nat_alt)
  then have "unat ((32 :: u8) - of_nat k) = 32 - k" using u by (simp add: unat_sub)
  moreover have "(of_nat k :: u8) \<noteq> 0" using u False by (metis unat_0)
  ultimately show ?thesis using False by (simp add: prefix_to_netmask_def)
qed

text \<open>
  A mask is read as a prefix exactly when it is the netmask of that prefix, which is at most 32;
  every other mask, one with a hole in it, is an error.
\<close>

theorem masks_and_prefixes:
  "(prefix_from_mask m = Inr p \<longleftrightarrow> p \<le> 32 \<and> prefix_to_netmask p = m) \<and>
   ((\<exists>q. prefix_from_mask m = Inr q) \<longleftrightarrow> prefix_from_mask m \<noteq> Inl (BadMask m))"
proof -
  define k where "k = count_ones m"
  have k: "k \<le> 32" unfolding k_def by (rule count_ones_le)
  have u: "unat (of_nat k :: u8) = k" using k by (simp add: unat_of_nat take_bit_eq_mod)
  have le: "(of_nat k :: u8) \<le> 32" using u k by (simp add: word_le_nat_alt)
  have r: "prefix_from_mask m = (if prefix_to_netmask (of_nat k) = m then Inr (of_nat k) else Inl (BadMask m))"
  proof (cases "k = 0")
    case True
    then show ?thesis by (simp add: prefix_from_mask_def prefix_to_netmask_def flip: k_def)
  next
    case False
    then show ?thesis using netmask_eq [OF k] by (simp add: prefix_from_mask_def flip: k_def)
  qed
  have q: "p = of_nat k" if "p \<le> 32" "prefix_to_netmask p = m" for p
  proof -
    have "unat p \<le> 32" using that(1) by (simp add: word_le_nat_alt)
    then have "count_ones (prefix_to_netmask p) = unat p"
      using count_netmask [of "unat p"] netmask_eq [of "unat p"] by simp
    then show ?thesis using that(2) by (simp add: k_def)
  qed
  show ?thesis using q [of p] le by (cases "prefix_to_netmask (of_nat k) = m") (auto simp: r)
qed

section \<open>Addresses\<close>

lemma lower_char_code: "of_char (lower_char c) =
    (if 65 \<le> (of_char c :: nat) \<and> (of_char c :: nat) \<le> 90 then of_char c + 32 else of_char c :: nat)"
  by (simp add: lower_char_def)

lemma lower_char_idem [simp]: "lower_char (lower_char c) = lower_char c"
  using lower_char_code [of c] by (auto simp: lower_char_def)

lemma to_lower_idem [simp]: "to_lower (to_lower s) = to_lower s"
  by (simp add: to_lower_def o_def)

lemma to_lower_append: "to_lower (a @ b) = to_lower a @ to_lower b"
  by (simp add: to_lower_def)

lemma lower_char_fixed: "(of_char c :: nat) < 65 \<or> 90 < (of_char c :: nat) \<Longrightarrow> lower_char c = c"
  by (auto simp: lower_char_def)

text \<open>White space is the same in lower case.\<close>

lemma ws_byte_lower:
  assumes "(n :: nat) < 65 \<or> 122 < n"
  shows "of_char (lower_char c) = n \<longleftrightarrow> of_char c = n"
  using assms by (auto simp: lower_char_code)

lemma take_lower:
  assumes "list_all (\<lambda>n. n < 65 \<or> 122 < n) (w :: nat list)"
  shows "take (length w) (map of_char (to_lower s)) = w \<longleftrightarrow> take (length w) (map of_char s) = w"
  using assms
proof (induction w arbitrary: s)
  case (Cons n w)
  then show ?case by (cases s) (auto simp: to_lower_def ws_byte_lower)
qed simp

lemma ws_codes_bytes: "w \<in> set ws_codes \<Longrightarrow> list_all (\<lambda>n. n < 65 \<or> 122 < n) w"
  by (auto simp: ws_codes_def)

lemma ws_lower [simp]: "ws_first (to_lower s) = ws_first s" "ws_last (to_lower s) = ws_last s"
proof -
  have "find (\<lambda>w. take (length w) (map of_char (to_lower s)) = w) ws_codes =
      find (\<lambda>w. take (length w) (map of_char s) = w) ws_codes"
    by (rule find_cong) (auto simp: take_lower ws_codes_bytes)
  then show "ws_first (to_lower s) = ws_first s" by (simp add: ws_first_def)
  have "find (\<lambda>w. take (length w) (map of_char (to_lower s)) = rev w) ws_codes =
      find (\<lambda>w. take (length w) (map of_char s) = rev w) ws_codes"
  proof (rule find_cong [OF refl])
    fix w assume "w \<in> set ws_codes"
    then have "list_all (\<lambda>n. n < 65 \<or> 122 < n) (rev w)" by (simp add: ws_codes_bytes)
    from take_lower [OF this, of s]
    show "(take (length w) (map of_char (to_lower s)) = rev w) = (take (length w) (map of_char s) = rev w)" by simp
  qed
  then show "ws_last (to_lower s) = ws_last s" by (simp add: ws_last_def)
qed

lemma drop_ws_lower:
  assumes "\<And>s. f (to_lower s) = f s"
  shows "drop_ws f (to_lower s) = to_lower (drop_ws f s)"
  using assms
proof (induction f s rule: drop_ws.induct)
  case (1 f s)
  have d: "drop n (to_lower s) = to_lower (drop n s)" for n by (simp add: to_lower_def drop_map)
  have e: "to_lower s = [] \<longleftrightarrow> s = []" by (simp add: to_lower_def)
  show ?case
    using 1 by (subst (1 2) drop_ws.simps) (simp add: d e)
qed

lemma trim_lower: "trim (to_lower s) = to_lower (trim s)"
proof -
  have r: "rev (to_lower s) = to_lower (rev s)" for s by (simp add: to_lower_def rev_map)
  show ?thesis by (simp add: trim_def drop_ws_lower r)
qed

lemma drop_ws_done: "drop_ws f s = [] \<or> f (drop_ws f s) = 0"
proof (induction f s rule: drop_ws.induct)
  case (1 f s)
  then show ?case by (subst (1 2) drop_ws.simps) (auto simp: drop_ws.simps [of f s])
qed

lemma drop_ws_fixed: "f s = 0 \<Longrightarrow> drop_ws f s = s"
  by (simp add: drop_ws.simps)

lemma ws_codes_nonempty: "w \<in> set ws_codes \<Longrightarrow> w \<noteq> []"
  by (auto simp: ws_codes_def)

lemma ws_first_0: "ws_first s = 0 \<longleftrightarrow> (\<forall>w \<in> set ws_codes. take (length w) (map of_char s) \<noteq> w)"
proof (cases "find (\<lambda>w. take (length w) (map of_char s) = w) ws_codes")
  case None
  then show ?thesis by (simp add: ws_first_def) (simp add: find_None_iff)
next
  case (Some w)
  then have "w \<in> set ws_codes" "take (length w) (map of_char s) = w"
    by (auto simp: find_Some_iff in_set_conv_nth)
  then show ?thesis using Some ws_codes_nonempty by (auto simp: ws_first_def)
qed

lemma ws_first_prefix: "ws_first (u @ v) = 0 \<Longrightarrow> ws_first u = 0"
proof -
  have "take (length w) (map of_char (u @ v)) = w" if "take (length w) (map of_char u) = w" for w :: "nat list"
  proof -
    have "length w \<le> length u" using that by (metis length_map length_take min.cobounded1 min.commute)
    then show ?thesis using that by simp
  qed
  then show "ws_first (u @ v) = 0 \<Longrightarrow> ws_first u = 0" unfolding ws_first_0 by blast
qed

lemma trim_idem [simp]: "trim (trim s) = trim s"
proof -
  define a where "a = drop_ws ws_first s"
  define b where "b = rev (drop_ws ws_last (rev a))"
  have t: "trim s = b" by (simp add: trim_def a_def b_def)
  obtain u where u: "rev a = u @ drop_ws ws_last (rev a)" using drop_ws_suffix by blast
  then have "rev (rev a) = rev (u @ drop_ws ws_last (rev a))" by (rule arg_cong)
  then have ab: "a = b @ rev u" by (simp add: b_def)
  have "ws_first b = 0 \<or> b = []"
    using drop_ws_done [of ws_first s] ws_first_prefix [of b "rev u"] ab by (auto simp flip: a_def)
  then have f: "drop_ws ws_first b = b" by (auto simp: drop_ws.simps [of _ "[]"] intro: drop_ws_fixed)
  have "drop_ws ws_last (rev b) = rev b"
    using drop_ws_done [of ws_last "rev a"] by (auto simp: b_def drop_ws.simps [of _ "[]"] intro: drop_ws_fixed)
  then show ?thesis unfolding t by (simp add: trim_def f)
qed

lemma split_join_on:
  assumes "xs \<noteq> []" and "\<forall>x\<in>set xs. \<forall>d\<in>set x. \<not> P d" and "P c"
  shows "split_on P (join_with c xs) = xs"
  using assms
proof (induction c xs rule: join_with.induct)
  case (2 c x)
  then show ?case by (simp add: split_on_none)
next
  case (3 c x y xs)
  then show ?case using split_on_cons [of x P c "join_with c (y # xs)"] by auto
qed simp


lemma separator_lower [simp]: "is_separator (lower_char c) = is_separator c"
proof -
  have "inj (of_char :: char \<Rightarrow> nat)" by (rule injI) simp
  then have "is_separator c \<longleftrightarrow> (of_char c :: nat) \<in> of_char ` {CHR 0x0A, CHR 0x0D, CHR '','', CHR '';''}" for c
    unfolding is_separator_def by (rule inj_image_mem_iff [symmetric])
  then have s: "is_separator c \<longleftrightarrow> (of_char c :: nat) \<in> {10, 13, 44, 59}" for c by simp
  show ?thesis unfolding s lower_char_code by auto
qed

lemma separators_of_prefix: "\<forall>c \<in> set (protocol_prefix p). \<not> is_separator c"
  by (cases p) (simp_all add: protocol_prefix_def is_separator_def)

text \<open>What an address must look like to be read back as it is.\<close>

definition canonical :: "protocol_address \<Rightarrow> bool" where
  "canonical a \<longleftrightarrow> trim (show_address a) = show_address a \<and> to_lower (show_address a) = show_address a \<and>
     (\<forall>c \<in> set (address a). \<not> is_separator c)"

lemma parse_server_shown:
  assumes "parse_server v = Inr (p, s)" and "contains_str (to_lower (trim v)) ''://''"
  shows "protocol_prefix p @ s = to_lower (trim v)"
proof -
  define w where "w = to_lower (trim v)"
  have s: "strip_prefix q w = Some r \<Longrightarrow> w = q @ r" for q r
    by (auto simp: strip_prefix_def starts_with_iff split: if_splits)
  show ?thesis
    using assms unfolding parse_server_def protocol_prefix_def
    by (auto simp: Let_def simp flip: w_def split: option.splits if_splits dest!: s)
qed

lemma set_to_lower: "c \<in> set (to_lower s) \<Longrightarrow> \<exists>d \<in> set s. c = lower_char d"
  by (auto simp: to_lower_def)

lemma normalized_has_scheme: "\<exists>a b. normalize_server_address_legacy raw = a @ ''://'' @ b"
proof -
  have q: "\<exists>a b. x @ ''://'' @ r = a @ ''://'' @ b" for x r :: string by blast
  have "contains_str s ''://'' \<Longrightarrow> \<exists>a b. s = a @ ''://'' @ b" for s by (simp add: contains_str_iff)
  then show ?thesis
    using q [of "''dynamic''"] q [of "''quic''"] q [of "''wss''"]
    by (simp add: normalize_server_address_legacy_def Let_def split: option.split)
qed

definition ws_byte :: "char \<Rightarrow> bool" where
  "ws_byte c = ((of_char c :: nat) \<le> 32 \<or> 128 \<le> (of_char c :: nat))"

lemma ws_code_byte: "w \<in> set ws_codes \<Longrightarrow> n \<in> set w \<Longrightarrow> n \<le> 32 \<or> 128 \<le> n"
  by (auto simp: ws_codes_def)

lemma ws_first_bytes: "c \<in> set (take (ws_first s) s) \<Longrightarrow> ws_byte c"
proof (cases "find (\<lambda>w. take (length w) (map of_char s) = w) ws_codes")
  case (Some w)
  assume c: "c \<in> set (take (ws_first s) s)"
  have w: "w \<in> set ws_codes" "take (length w) (map of_char s) = w"
    using Some by (auto simp: find_Some_iff in_set_conv_nth)
  have "of_char c \<in> set (map of_char (take (length w) s) :: nat list)"
    using c Some by (auto simp: ws_first_def)
  then have "of_char c \<in> set w" using w(2) by (simp only: take_map)
  then show ?thesis using w(1) ws_code_byte [of w "of_char c"] by (auto simp: ws_byte_def)
qed (simp add: ws_first_def)

lemma ws_last_bytes: "c \<in> set (take (ws_last s) s) \<Longrightarrow> ws_byte c"
proof (cases "find (\<lambda>w. take (length w) (map of_char s) = rev w) ws_codes")
  case (Some w)
  assume c: "c \<in> set (take (ws_last s) s)"
  have w: "w \<in> set ws_codes" "take (length w) (map of_char s) = rev w"
    using Some by (auto simp: find_Some_iff in_set_conv_nth)
  have "of_char c \<in> set (map of_char (take (length w) s) :: nat list)"
    using c Some by (auto simp: ws_last_def)
  then have "of_char c \<in> set w" using w(2) by (simp only: take_map set_rev)
  then show ?thesis using w(1) ws_code_byte [of w "of_char c"] by (auto simp: ws_byte_def)
qed (simp add: ws_last_def)

lemma drop_ws_bytes:
  assumes "\<And>s c. c \<in> set (take (f s) s) \<Longrightarrow> ws_byte c"
  shows "\<exists>t. s = t @ drop_ws f s \<and> (\<forall>c \<in> set t. ws_byte c)"
  using assms
proof (induction f s rule: drop_ws.induct)
  case (1 f s)
  show ?case
  proof (cases "s = [] \<or> f s = 0")
    case True
    then show ?thesis by (simp add: drop_ws.simps [of f s])
  next
    case False
    then obtain t where "drop (f s) s = t @ drop_ws f (drop (f s) s)" "\<forall>c \<in> set t. ws_byte c"
      using 1 by metis
    then have "s = (take (f s) s @ t) @ drop_ws f (drop (f s) s)" by (metis append.assoc append_take_drop_id)
    moreover have "\<forall>c \<in> set (take (f s) s @ t). ws_byte c"
      using "1.prems" \<open>\<forall>c \<in> set t. ws_byte c\<close> by auto
    ultimately show ?thesis using False by (metis drop_ws.simps)
  qed
qed

lemma drop_ws_keeps:
  assumes "\<And>s c. c \<in> set (take (f s) s) \<Longrightarrow> ws_byte c" and "\<not> ws_byte (hd m)" and "m \<noteq> []"
  shows "\<exists>x. drop_ws f (a @ m @ b) = x @ m @ b"
proof -
  obtain t where t: "a @ m @ b = t @ drop_ws f (a @ m @ b)" "\<forall>c \<in> set t. ws_byte c"
    using drop_ws_bytes [of f] assms(1) by metis
  then obtain us where us: "a = t @ us \<and> us @ m @ b = drop_ws f (a @ m @ b)
      \<or> a @ us = t \<and> m @ b = us @ drop_ws f (a @ m @ b)"
    using append_eq_append_conv2 [of a "m @ b" t "drop_ws f (a @ m @ b)"] by blast
  have "us = []" if h: "a @ us = t" "m @ b = us @ drop_ws f (a @ m @ b)"
  proof (rule ccontr)
    assume "us \<noteq> []"
    then have "hd us = hd m" using h(2) assms(3) by (metis hd_append2)
    then show False using h(1) t(2) assms(2) \<open>us \<noteq> []\<close> by (metis Un_iff hd_in_set set_append)
  qed
  then show ?thesis using us by (metis append_Nil)
qed

lemma scheme_kept:
  assumes "v = a @ ''://'' @ b"
  shows "contains_str (to_lower (trim v)) ''://''"
proof -
  obtain x where x: "drop_ws ws_first v = x @ ''://'' @ b"
    using drop_ws_keeps [of ws_first "''://''" a b] ws_first_bytes unfolding assms by (auto simp: ws_byte_def)
  have "rev (drop_ws ws_first v) = rev b @ ''//:'' @ rev x" by (simp add: x)
  then obtain y where "drop_ws ws_last (rev (drop_ws ws_first v)) = y @ ''//:'' @ rev x"
    using drop_ws_keeps [of ws_last "''//:''" "rev b" "rev x"] ws_last_bytes by (auto simp: ws_byte_def)
  then have "trim v = x @ ''://'' @ rev y" by (simp add: trim_def)
  then have "to_lower (trim v) = to_lower x @ ''://'' @ to_lower (rev y)"
    by (simp add: to_lower_def lower_char_def)
  then show ?thesis unfolding contains_str_iff by blast
qed

lemma normalized_chars:
  assumes "c \<in> set (normalize_server_address_legacy raw)" and "is_separator c"
  shows "\<exists>d \<in> set raw. is_separator d"
proof -
  have d: "x \<in> set (drop n (trim raw)) \<Longrightarrow> x \<in> set raw" for x n using set_trim set_drop_subset by fast
  have "x \<in> set raw \<and> is_separator x \<or> \<not> is_separator c" if "c = lower_char x" "x \<in> set (trim raw)" for x
    using that set_trim by auto
  then have l: "c \<in> set (drop n (to_lower (trim raw))) \<Longrightarrow> \<exists>d \<in> set raw. is_separator d" for n
    using assms(2) set_to_lower set_drop_subset by fast
  show ?thesis
    using assms d [of c] d [of c 0] l
    by (auto simp: normalize_server_address_legacy_def Let_def is_separator_def strip_prefix_def split: if_splits)
qed

lemma parsed_canonical:
  assumes "part = trim part" and "\<forall>c \<in> set part. \<not> is_separator c"
    and "parse_server (normalize_server_address_legacy part) = Inr (p, s)"
  shows "canonical \<lparr>protocol = p, address = s\<rparr>"
proof -
  define v where "v = normalize_server_address_legacy part"
  obtain a b where ab: "v = a @ ''://'' @ b" using normalized_has_scheme unfolding v_def by blast
  have sh: "protocol_prefix p @ s = to_lower (trim v)"
    using parse_server_shown [OF _ scheme_kept [OF ab]] assms(3) by (simp add: v_def)
  have "\<forall>c \<in> set (to_lower (trim v)). \<not> is_separator c"
  proof
    fix c assume "c \<in> set (to_lower (trim v))"
    then obtain d where d: "d \<in> set v" "c = lower_char d" using set_to_lower set_trim by blast
    then show "\<not> is_separator c" using normalized_chars [of d part] assms(2) by (auto simp: v_def)
  qed
  then have "\<forall>c \<in> set s. \<not> is_separator c" by (simp flip: sh)
  then show ?thesis by (simp add: canonical_def show_address_def sh trim_lower)
qed

lemma canonical_parse:
  assumes "canonical a"
  shows "parse_server (normalize_server_address_legacy (show_address a)) = Inr (protocol a, address a)"
proof -
  define w where "w = show_address a"
  have w: "trim w = w" "to_lower w = w" using assms by (simp_all add: canonical_def w_def)
  have e: "w = protocol_prefix (protocol a) @ address a" by (simp add: w_def show_address_def)
  have "contains_str w ''://''"
    unfolding e contains_str_iff by (cases "protocol a") (auto simp: protocol_prefix_def intro: exI [of _ "''quic''"]
      exI [of _ "''tcp''"] exI [of _ "''wss''"] exI [of _ "''dynamic''"])
  moreover have "strip_prefix ''txt:'' w = None" "\<not> starts_with w ''udp://''" "\<not> starts_with w ''ws://''"
    unfolding e by (cases "protocol a"; simp add: protocol_prefix_def strip_prefix_def)+
  ultimately have n: "normalize_server_address_legacy w = w"
    by (simp add: normalize_server_address_legacy_def w Let_def)
  have "parse_server w = Inr (protocol a, address a)"
    unfolding parse_server_def w Let_def unfolding e
    by (cases "protocol a") (simp_all add: protocol_prefix_def strip_prefix_def)
  then show ?thesis using n by (simp flip: w_def)
qed


lemma try_map_Inr: "try_map f xs = Inr ys \<Longrightarrow> length ys = length xs \<and> (\<forall>i < length xs. f (xs ! i) = Inr (ys ! i))"
proof (induction xs arbitrary: ys)
  case (Cons x xs)
  then show ?case by (auto split: sum.splits simp: less_Suc_eq_0_disj)
qed simp

lemma try_map_back: "(\<And>x. x \<in> set xs \<Longrightarrow> f (g x) = Inr x) \<Longrightarrow> try_map f (map g xs) = Inr xs"
  by (induction xs) auto

lemma server_part:
  assumes "part \<in> set (server_parts raw)"
  shows "trim part = part" and "\<forall>c \<in> set part. \<not> is_separator c"
proof -
  obtain x where x: "x \<in> set (split_on is_separator raw)" "part = trim x"
    using assms by (auto simp: server_parts_def)
  then show "trim part = part" by simp
  show "\<forall>c \<in> set part. \<not> is_separator c"
    using split_on_pieces [OF x(1)] set_trim [of x] x(2) by auto
qed

lemma canonical_text:
  assumes "canonical a"
  shows "\<forall>c \<in> set (show_address a). \<not> is_separator c" and "trim (show_address a) = show_address a"
    and "show_address a \<noteq> []"
proof -
  show "\<forall>c \<in> set (show_address a). \<not> is_separator c"
    using assms separators_of_prefix [of "protocol a"] by (auto simp: canonical_def show_address_def)
  show "trim (show_address a) = show_address a" using assms by (simp add: canonical_def)
  show "show_address a \<noteq> []" by (cases "protocol a") (simp_all add: show_address_def protocol_prefix_def)
qed

lemma parse_part_canonical:
  assumes "part \<in> set (server_parts raw)" and "parse_part part = Inr a"
  shows "canonical a"
proof -
  obtain p s where "parse_server (normalize_server_address_legacy part) = Inr (p, s)"
      "a = \<lparr>protocol = p, address = s\<rparr>"
    using assms(2) by (auto simp: parse_part_def split: sum.splits)
  then show ?thesis using parsed_canonical server_part [OF assms(1)] by metis
qed

text \<open>
  C37. The addresses that are reported to the user while connecting are those the program connects to:
  the servers of a list, written out and separated by commas, are read back as the same servers.
\<close>

theorem server_list_roundtrip:
  assumes "parse_server_addresses raw = Inr as"
  shows "parse_server_addresses (join_with CHR '','' (map show_address as)) = Inr as \<and> as \<noteq> []"
proof -
  have r: "try_map parse_part (server_parts raw) = Inr as" and ne: "as \<noteq> []"
    using assms by (auto simp: parse_server_addresses_def split: sum.splits if_splits)
  have can: "canonical a" if a: "a \<in> set as" for a
  proof -
    obtain i where "i < length as" "a = as ! i" using a by (metis in_set_conv_nth)
    then show ?thesis
      using try_map_Inr [OF r] parse_part_canonical [of "server_parts raw ! i" raw a] by auto
  qed
  have "split_on is_separator (join_with CHR '','' (map show_address as)) = map show_address as"
    using can canonical_text(1) ne by (intro split_join_on) (auto simp: is_separator_def)
  moreover have "map trim (map show_address as) = map show_address as"
    using can canonical_text(2) by (simp add: map_idI)
  moreover have "filter (\<lambda>p. p \<noteq> []) (map show_address as) = map show_address as"
    using can canonical_text(3) by (intro filter_True) auto
  ultimately have parts: "server_parts (join_with CHR '','' (map show_address as)) = map show_address as"
    by (simp only: server_parts_def)
  have "parse_part (show_address a) = Inr a" if "a \<in> set as" for a
    using canonical_parse [OF can [OF that]] by (simp add: parse_part_def)
  then have "try_map parse_part (map show_address as) = Inr as" by (rule try_map_back)
  then show ?thesis using ne by (simp add: parse_server_addresses_def parts)
qed

lemmas eval_text = trim_plain plain_char_def to_lower_def lower_char_def char_of_def bit_iff_odd

lemma demo_servers: "parse_server_addresses ''a:1;UDP://B:2'' =
    Inr [\<lparr>protocol = Quic, address = ''a:1''\<rparr>, \<lparr>protocol = Quic, address = ''b:2''\<rparr>]"
proof -
  have "split_on is_separator ''a:1;UDP://B:2'' = [''a:1'', ''UDP://B:2'']" by (simp add: is_separator_def)
  then have "server_parts ''a:1;UDP://B:2'' = [''a:1'', ''UDP://B:2'']"
    by (simp add: server_parts_def eval_text)
  moreover have "normalize_server_address_legacy ''a:1'' = ''quic://a:1''"
    "normalize_server_address_legacy ''UDP://B:2'' = ''quic://B:2''"
    by (simp_all add: normalize_server_address_legacy_def eval_text strip_prefix_def)
  moreover have "parse_server ''quic://a:1'' = Inr (Quic, ''a:1'')" "parse_server ''quic://B:2'' = Inr (Quic, ''b:2'')"
    by (simp_all add: parse_server_def eval_text strip_prefix_def)
  ultimately show ?thesis by (simp add: parse_server_addresses_def parse_part_def)
qed

theorem server_list_roundtrip_witness:
  "\<exists>as. parse_server_addresses ''a:1;UDP://B:2'' = Inr as \<and> length as = 2 \<and>
    parse_server_addresses (join_with CHR '','' (map show_address as)) = Inr as"
proof -
  note demo_servers
  then show ?thesis using server_list_roundtrip by fastforce
qed

section \<open>How a start ends\<close>

lemma attempts_of_fallback:
  "tcp_fallback_config_for_quic c = Some f \<Longrightarrow>
    \<exists>s. server_addr c = [s] \<and> protocol s = Quic \<and> f = c\<lparr>server_addr := [s\<lparr>protocol := TlsTcp\<rparr>]\<rparr>"
  by (auto simp: tcp_fallback_config_for_quic_def split: list.splits if_splits)

lemma run_one:
  assumes "run_attempts e allowed n (Suc i) [f] (Some err) = (evs, r)"
  shows "(\<forall>x \<in> set evs. \<exists>k a. x = ConnectEvent k a) \<and>
    (case r of Inr (run, a) \<Rightarrow> run = f \<and> start_network e (Suc i) f = Inr a | Inl x \<Rightarrow> \<exists>m. x = Some m)"
  using assms by (auto simp: Let_def split: option.splits sum.splits list.splits)

lemma run_all:
  assumes "run_attempts e (attempts_supports_tcp_fallback c) n 0 (attempts_of c) None = (evs, r)"
  shows "(\<forall>x \<in> set evs. \<exists>k a. x = ConnectEvent k a) \<and>
    (case r of
       Inr (run, a) \<Rightarrow> run = c \<and> start_network e 0 c = Inr a \<or>
         (\<exists>err. tcp_fallback_config_for_quic c = Some run \<and> start_network e 0 c = Inl err \<and>
            is_transport_retryable_error err \<and> start_network e 1 run = Inr a)
     | Inl x \<Rightarrow> \<exists>m. x = Some m)"
proof (cases "create_task e 0")
  case None
  note t = this
  show ?thesis
  proof (cases "start_network e 0 c")
    case (Inl err)
    show ?thesis
    proof (cases "tcp_fallback_config_for_quic c")
      case None
      then show ?thesis using assms t Inl by (auto simp: attempts_of_def attempts_supports_tcp_fallback_def)
    next
      case (Some f)
      show ?thesis
      proof (cases "is_transport_retryable_error err")
        case True
        obtain evs' r' where r': "run_attempts e True n (Suc 0) [f] (Some err) = (evs', r')" by fastforce
        then have "evs = evs'" "r = r'"
          using assms t Inl Some True by (auto simp: attempts_of_def attempts_supports_tcp_fallback_def)
        then show ?thesis using run_one [OF r'] Inl Some True by (auto split: sum.splits)
      next
        case False
        then show ?thesis using assms t Inl Some by (auto simp: attempts_of_def attempts_supports_tcp_fallback_def)
      qed
    qed
  next
    case (Inr a)
    then show ?thesis using assms t by (auto simp: attempts_of_def)
  qed
next
  case (Some m)
  then show ?thesis using assms by (auto simp: attempts_of_def)
qed

fun is_report :: "bridge_event \<Rightarrow> bool" where
  "is_report (ErrorEvent k m) = True"
| "is_report SuccessEvent = True"
| "is_report _ = False"

lemma filter_one: "mset ds = mset evs \<Longrightarrow> filter P evs = [x] \<Longrightarrow> filter P ds = [x]"
  by (metis mset_filter mset_single_iff_right)

text \<open>
  C36. A start is reported once or not at all. If the settings can not be converted or there is no
  runtime, the call returns that error and nothing reaches the application. Otherwise exactly one
  report does, in whatever order its events arrive: the success, and the network runs, or one error,
  and the call returns the error of the start. What runs is the configuration of the user, or, if that
  names one QUIC server and the attempt over QUIC failed in transport, the same configuration with
  only the transport changed to TCP with TLS.
\<close>

theorem start_is_reported:
  assumes "vnt_api_new e v = (evs, r)" and "mset arrived = mset evs"
  shows "case convert_to_core_config e v of
      Inl err \<Rightarrow> r = Inl err \<and> arrived = []
    | Inr (c, targets) \<Rightarrow>
        if \<not> runtime_ok e then r = Inl NoRuntime \<and> arrived = []
        else (case r of
            Inr a \<Rightarrow> filter is_report arrived = [SuccessEvent] \<and> \<not> stopped a \<and>
              (running a = c \<or> (\<exists>s err. server_addr c = [s] \<and> protocol s = Quic \<and>
                 start_network e 0 c = Inl err \<and> is_transport_retryable_error err \<and>
                 running a = c\<lparr>server_addr := [s\<lparr>protocol := TlsTcp\<rparr>]\<rparr>))
          | Inl err \<Rightarrow> \<exists>k m. filter is_report arrived = [ErrorEvent k m] \<and> err = StartFailed m)"
proof (cases "convert_to_core_config e v")
  case (Inr x)
  obtain c targets where conv: "convert_to_core_config e v = Inr (c, targets)" using Inr by (cases x) simp
  show ?thesis
  proof (cases "runtime_ok e")
    case rt: True
    obtain evs' r' where run: "run_attempts e (attempts_supports_tcp_fallback c) (length targets) 0 (attempts_of c) None
        = (evs', r')" by fastforce
    note all = run_all [OF run]
    have quiet: "filter is_report (connect_events targets) = []" "filter is_report evs' = []"
      using all by (auto simp: connect_events_def filter_empty_conv)
    show ?thesis
    proof (cases r')
      case (Inl x)
      then obtain m where "x = Some m" using all by auto
      then show ?thesis
        using assms(1) filter_one [OF assms(2)] run Inl quiet conv rt
        by (auto simp: vnt_api_new_def Let_def error_info_from_error_def)
    next
      case (Inr p)
      obtain rn a where p: "p = (rn, a)" by fastforce
      then show ?thesis
        using assms(1) filter_one [OF assms(2)] run Inr quiet all conv rt
        by (auto simp: vnt_api_new_def register_info_def dest!: attempts_of_fallback)
    qed
  qed (use assms conv in \<open>simp add: vnt_api_new_def\<close>)
qed (use assms in \<open>simp add: vnt_api_new_def\<close>)

definition demo_bridge :: bridge_env where
  "demo_bridge = \<lparr>bridge_json = (\<lambda>s. Inl s), socket_v6 = (\<lambda>s. None), net_new = (\<lambda>a p. Some (a, p)),
     own_device_id = Some ''dev'', runtime_ok = True, create_task = (\<lambda>i. None),
     create_network = (\<lambda>i c. if i = 0 then Some ''Connection refused'' else None),
     register = (\<lambda>i c. Inr (RegisterSuccess \<lparr>na_ip = (10, 26, 0, 2), prefix_len = 24,
        gateway = (10, 26, 0, 1), broadcast = (10, 26, 0, 255)\<rparr>)),
     start_tun = (\<lambda>i. None), set_tun_ip = (\<lambda>i a. None)\<rparr>"

definition demo_vnt :: vnt_config where
  "demo_vnt = \<lparr>token = ''net'', device_id = ''d1'', vc_name = ''pc'', server_address_str = ''a:1'',
     stun_server = [], in_ips = [], out_ips = [], vc_password = None, vc_mtu = None, vc_ip = None,
     no_proxy = False, cipher_model = [], device_name = None, use_channel_type = ''all'',
     port_mapping_list = [], compressor = ''none''\<rparr>"

definition demo_core :: core_config where
  "demo_core = \<lparr>server_addr = [\<lparr>protocol = Quic, address = ''a:1''\<rparr>], cc_cert_mode = SkipVerification,
     network_code = ''net'', cc_device_id = ''d1'', cc_device_name = ''pc'', tun_name = None, cc_ip = None,
     cc_password = None, no_punch = False, compress = False, rtx = False, fec = False, cc_input = [],
     cc_output = [], no_nat = False, no_tun = False, mtu = None, port_mapping = [],
     allow_port_mapping = False, udp_stun = [], tcp_stun = [], tunnel_port = None\<rparr>"

lemma or_else_Inr [simp]: "or_else (Inr x) f = f x"
  by (simp add: or_else_def)

lemma or_else_weak: "r = r' \<Longrightarrow> or_else r f = or_else r' f"
  by simp

lemma demo_converted: "convert_to_core_config demo_bridge demo_vnt = Inr (demo_core, [''quic://a:1''])"
proof -
  have s: "parse_server_addresses ''a:1'' = Inr [\<lparr>protocol = Quic, address = ''a:1''\<rparr>]"
    by (simp add: parse_server_addresses_def parse_part_def server_parts_def is_separator_def eval_text
        normalize_server_address_legacy_def parse_server_def strip_prefix_def)
  have c: "decode_cert_mode ''skip'' = Inr SkipVerification"
    by (simp add: decode_cert_mode_def parse_cert_mode_def eval_text)
  have o': "decode_bridge_options demo_bridge [] = Inr (default_options\<lparr>bo_cert_mode := Some ''skip''\<rparr>)"
    by (simp add: decode_bridge_options_def strip_prefix_def)
  have t: "trim ''net'' = ''net''" "trim ''d1'' = ''d1''" "trim ''pc'' = ''pc''" "trim ''all'' = ''all''" "trim ''none'' = ''none''"
    by (simp_all add: trim_plain plain_char_def)
  have l: "to_lower ''all'' \<noteq> ''relay''" "to_lower ''none'' = ''none''" by (simp_all add: eval_text)
  show ?thesis
    by (simp add: convert_to_core_config_def demo_vnt_def s c o' t l demo_core_def ip_of_def device_of_def trimmed_def
        normalize_stun_servers_def show_address_def protocol_prefix_def default_options_def cong: or_else_weak)
qed

theorem start_is_reported_witness:
  "\<exists>evs a. vnt_api_new demo_bridge demo_vnt = (evs, Inr a) \<and> filter is_report (rev evs) = [SuccessEvent] \<and>
    map protocol (server_addr (running a)) = [TlsTcp]"
proof -
  have s: "start_network demo_bridge 0 demo_core = Inl (with_context msg_create ''Connection refused'')"
    by (simp add: start_network_def demo_bridge_def)
  have t: "is_transport_retryable_error (with_context msg_create ''Connection refused'')"
  proof -
    have "to_lower (with_context msg_create ''Connection refused'') =
        to_lower (msg_create @ '': '') @ ''connection refused'' @ []"
    proof -
      have "to_lower ''Connection refused'' = ''connection refused''" by (simp add: eval_text)
      then show ?thesis using to_lower_append [of "msg_create @ '': ''" "''Connection refused''"]
        by (simp add: with_context_def)
    qed
    then have "contains_str (to_lower (with_context msg_create ''Connection refused'')) ''connection refused''"
      unfolding contains_str_iff by blast
    then show ?thesis by (simp add: is_transport_retryable_error_def Let_def)
  qed
  define f where "f = demo_core\<lparr>server_addr := [\<lparr>protocol = TlsTcp, address = ''a:1''\<rparr>]\<rparr>"
  have f: "tcp_fallback_config_for_quic demo_core = Some f"
    by (simp add: tcp_fallback_config_for_quic_def f_def demo_core_def)
  obtain a where n: "start_network demo_bridge 1 f = Inr a"
    by (simp add: start_network_def demo_bridge_def)
  have c: "create_task demo_bridge i = None" for i by (simp add: demo_bridge_def)
  have rt: "runtime_ok demo_bridge" by (simp add: demo_bridge_def)
  obtain evs where run: "run_attempts demo_bridge True 1 0 [demo_core, f] None = (evs, Inr (f, a))"
    using s t n c by (simp add: Let_def)
  have at: "attempts_of demo_core = [demo_core, f]" "attempts_supports_tcp_fallback demo_core"
    using f by (simp_all add: attempts_of_def attempts_supports_tcp_fallback_def)
  have "run_attempts demo_bridge True (length [''quic://a:1'']) 0 [demo_core, f] None = (evs, Inr (f, a))"
    using run by (simp only: list.size One_nat_def plus_nat.add_0 add_Suc_right add_0_right)
  then obtain evs' where r: "vnt_api_new demo_bridge demo_vnt =
      (evs', Inr \<lparr>running = f, has_manager = True, stopped = False\<rparr>)"
    by (simp add: vnt_api_new_def demo_converted rt at del: run_attempts.simps list.size)
  show ?thesis using start_is_reported [OF r, of "rev evs'"] r rt by (simp add: demo_converted f_def)
qed

text \<open>
  A mistake in the settings ends the start before anything is reported, and after a stop every query
  answers with nothing, but the totals of the traffic still ask the core.
\<close>

lemma bad_settings_are_not_reported:
  "convert_to_core_config e v = Inl err \<Longrightarrow> vnt_api_new e v = ([], Inl err)"
  by (simp add: vnt_api_new_def)

lemma stopped_interface_is_empty:
  "device_list w (api_stop a) = []" "route_list w (api_stop a) = []" "api_route w (api_stop a) s = None"
  "current_device w (api_stop a) = no_device" "stream_all w (api_stop a) = []"
  "stream_line w (api_stop a) f s = []" "stream_total w (api_stop a) f s = []"
  "up_stream w (api_stop a) = up_stream w a" "\<not> has_manager (api_stop a) \<or> stopped a"
  by (simp_all add: api_stop_def device_list_def route_list_def api_route_def current_device_def
      stream_all_def stream_line_def stream_total_def up_stream_def)

text \<open>A new tunnel of iOS that can not be made leaves no tunnel: the old one is gone by then.\<close>

lemma failed_ios_start_drops_tunnel:
  assumes "0 \<le> fd" and "read_c_string sv = Some s" and "read_c_string tk = Some t" and "read_c_string nm = Some n"
    and "parse_server_addresses s = Inl err"
  shows "vnt_ios_start_tunnel e h f fd sv tk nm m slot = (-10, None)"
  using assms by (simp add: vnt_ios_start_tunnel_def create_tunnel_instance_def convert_to_core_config_def
      or_else_def build_ios_vnt_config_def Let_def)

end
