(* ===== verification/PeerStore.thy ===== *)
theory PeerStore
  imports Config
begin

text \<open>
  The file the viewer keeps for every host it connects to (\<open>PeerConfig\<close> of
  \<open>libs/hbb_common/src/config.rs\<close>): its values for a new host, which come from the defaults of
  the user, and how it is stored, with the password and the operating-system login encrypted.
  Window sizes, port forwards and transfer jobs are left out; numbers with a fraction among the
  defaults are printed by a parameter.
\<close>

section \<open>Defaults of the user\<close>

text \<open>
  \<open>get_num_string\<close> for \<open>f64\<close>: \<open>show_f64 v lo hi\<close> is the number \<open>v\<close> parses to, printed,
  if it lies between the two limits.
\<close>

definition get_float_string :: "(string \<Rightarrow> nat \<Rightarrow> nat \<Rightarrow> string option) \<Rightarrow> cfg \<Rightarrow> string \<Rightarrow> nat \<Rightarrow> nat \<Rightarrow> nat \<Rightarrow> string" where
  "get_float_string show_f64 g k d lo hi =
     (case get_after g k of
        Some v \<Rightarrow> (case show_f64 v lo hi of Some s \<Rightarrow> s | None \<Rightarrow> dec d)
      | None \<Rightarrow> dec d)"

definition user_default_get :: "(string \<Rightarrow> nat \<Rightarrow> nat \<Rightarrow> string option) \<Rightarrow> cfg \<Rightarrow> string \<Rightarrow> string" where
  "user_default_get show_f64 g k =
     (if k = ''view_style'' then get_string g k ''original'' [''adaptive'']
      else if k = ''scroll_style'' then get_string g k ''scrollauto'' [''scrolledge'', ''scrollbar'']
      else if k = ''image_quality'' then get_string g k ''balanced'' [''best'', ''low'', ''custom'']
      else if k = ''codec-preference'' then get_string g k ''auto'' [''vp8'', ''vp9'', ''av1'', ''h264'', ''h265'']
      else if k = ''custom_image_quality'' then get_float_string show_f64 g k 50 10 4095
      else if k = ''custom-fps'' then get_float_string show_f64 g k 30 5 120
      else if k = ''enable-file-copy-paste'' then get_string g k ''Y'' [[], ''N'']
      else if k = ''edge-scroll-edge-thickness'' then get_num_string g k 100 20 150
      else if k = ''trackpad-speed'' then get_num_string g k 100 10 1000
      else unwrap_or_default (get_after g k))"

section \<open>The record\<close>

record peer_info_serde =
  i_username :: string
  i_hostname :: string
  i_platform :: string

record peer_config =
  p_password :: string
  p_view_style :: string
  p_scroll_style :: string
  p_edge_thickness :: int
  p_image_quality :: string
  p_custom_image_quality :: "int list"
  p_show_remote_cursor :: bool
  p_lock_after_session_end :: bool
  p_terminal_persistent :: bool
  p_privacy_mode :: bool
  p_allow_swap_key :: bool
  p_direct_failures :: int
  p_disable_audio :: bool
  p_disable_clipboard :: bool
  p_enable_file_copy_paste :: bool
  p_show_quality_monitor :: bool
  p_follow_remote_cursor :: bool
  p_follow_remote_window :: bool
  p_keyboard_mode :: string
  p_view_only :: bool
  p_show_my_cursor :: bool
  p_sync_init_clipboard :: bool
  p_reverse_mouse_wheel :: string
  p_individual_windows :: string
  p_all_my_displays :: string
  p_trackpad_speed :: int
  p_custom_resolutions :: "string \<rightharpoonup> int \<times> int"
  p_options :: options
  p_ui_flutter :: options
  p_info :: peer_info_serde

text \<open>
  What the defaults are read from: the configuration, the printer of numbers with a fraction and
  their integer part.
\<close>

record default_env =
  d_cfg :: cfg
  show_f64 :: "string \<Rightarrow> nat \<Rightarrow> nat \<Rightarrow> string option"
  trunc_f64 :: "string \<Rightarrow> int option"

definition user_default_read :: "default_env \<Rightarrow> string \<Rightarrow> string" where
  "user_default_read e k = user_default_get (show_f64 e) (d_cfg e) k"

definition default_custom_image_quality :: "default_env \<Rightarrow> int list" where
  "default_custom_image_quality e =
     [case trunc_f64 e (user_default_read e ''custom_image_quality'') of Some n \<Rightarrow> n | None \<Rightarrow> 50]"

definition default_number :: "default_env \<Rightarrow> string \<Rightarrow> int" where
  "default_number e k =
     (case parse_i32 (user_default_read e k) of Some n \<Rightarrow> n | None \<Rightarrow> 100)"

definition default_peer_options :: "default_env \<Rightarrow> options" where
  "default_peer_options e = (\<lambda>k.
     if k \<in> set [''codec-preference'', ''custom-fps'', ''zoom-cursor'', ''i444'', ''swap-left-right-mouse'',
         ''collapse_toolbar'']
     then Some (user_default_read e k) else None)"

definition default_flag :: "default_env \<Rightarrow> string \<Rightarrow> bool" where
  "default_flag e k = (user_default_read e k = ''Y'')"

definition default_peer :: "default_env \<Rightarrow> peer_config" where
  "default_peer e = \<lparr>p_password = [],
     p_view_style = user_default_read e ''view_style'',
     p_scroll_style = user_default_read e ''scroll_style'',
     p_edge_thickness = default_number e ''edge-scroll-edge-thickness'',
     p_image_quality = user_default_read e ''image_quality'',
     p_custom_image_quality = default_custom_image_quality e,
     p_show_remote_cursor = default_flag e ''show_remote_cursor'',
     p_lock_after_session_end = default_flag e ''lock_after_session_end'',
     p_terminal_persistent = default_flag e ''terminal-persistent'',
     p_privacy_mode = default_flag e ''privacy_mode'',
     p_allow_swap_key = default_flag e ''allow_swap_key'',
     p_direct_failures = 0,
     p_disable_audio = default_flag e ''disable_audio'',
     p_disable_clipboard = default_flag e ''disable_clipboard'',
     p_enable_file_copy_paste = default_flag e ''enable-file-copy-paste'',
     p_show_quality_monitor = default_flag e ''show_quality_monitor'',
     p_follow_remote_cursor = default_flag e ''follow_remote_cursor'',
     p_follow_remote_window = default_flag e ''follow_remote_window'',
     p_keyboard_mode = [],
     p_view_only = default_flag e ''view_only'',
     p_show_my_cursor = default_flag e ''show_my_cursor'',
     p_sync_init_clipboard = default_flag e ''sync-init-clipboard'',
     p_reverse_mouse_wheel = user_default_read e ''reverse_mouse_wheel'',
     p_individual_windows = user_default_read e ''displays_as_individual_windows'',
     p_all_my_displays = user_default_read e ''use_all_my_displays_for_the_remote_session'',
     p_trackpad_speed = default_number e ''trackpad-speed'',
     p_custom_resolutions = Map.empty,
     p_options = default_peer_options e,
     p_ui_flutter = Map.empty,
     p_info = \<lparr>i_username = [], i_hostname = [], i_platform = []\<rparr>\<rparr>"

section \<open>Files\<close>

text \<open>The stem of the file of a host; an id with a character that paths forbid is encoded.\<close>

definition peer_path :: "secret_fns \<Rightarrow> string \<Rightarrow> string" where
  "peer_path f i =
     (if \<exists>c \<in> set i. c \<in> set [CHR ''<'', CHR ''>'', CHR '':'', CHR ''/'', CHR 0x5C, CHR ''|'', CHR ''?'', CHR ''*'']
      then ''base64_'' @ b64_encode f i else i)"

definition secret_options :: "string list" where
  "secret_options = [''rdp_password'', ''os-username'', ''os-password'']"

definition map_secrets :: "(string \<Rightarrow> string) \<Rightarrow> options \<Rightarrow> options" where
  "map_secrets f m = (\<lambda>k. if k \<in> set secret_options then map_option f (m k) else m k)"

definition peer_image :: "cfg_env \<Rightarrow> peer_config \<Rightarrow> peer_config" where
  "peer_image e c =
     c\<lparr>p_password := encrypt_vec_or_original (fns e) (mach e) (p_password c) PASSWORD_ENC_VERSION ENCRYPT_MAX_LEN,
       p_options := map_secrets (\<lambda>v. encrypt_str_or_original (fns e) (mach e) v PASSWORD_ENC_VERSION ENCRYPT_MAX_LEN)
         (p_options c)\<rparr>"

type_synonym peer_files = "string \<rightharpoonup> peer_config"

definition store_peer :: "cfg_env \<Rightarrow> string \<Rightarrow> peer_config \<Rightarrow> peer_files \<Rightarrow> peer_files" where
  "store_peer e i c files = files(peer_path (fns e) i \<mapsto> peer_image e c)"

definition or_default :: "string \<Rightarrow> string \<Rightarrow> string" where
  "or_default s d = (if s = [] then d else s)"

text \<open>Reading the text back: empty strings and numbers out of range become the defaults.\<close>

definition deserialize_peer :: "default_env \<Rightarrow> peer_config \<Rightarrow> peer_config" where
  "deserialize_peer e c =
     c\<lparr>p_view_style := or_default (p_view_style c) (user_default_read e ''view_style''),
       p_scroll_style := or_default (p_scroll_style c) (user_default_read e ''scroll_style''),
       p_edge_thickness := (if 20 \<le> p_edge_thickness c \<and> p_edge_thickness c \<le> 150 then p_edge_thickness c
          else default_number e ''edge-scroll-edge-thickness''),
       p_image_quality := or_default (p_image_quality c) (user_default_read e ''image_quality''),
       p_custom_image_quality :=
         (case p_custom_image_quality c of
            [q] \<Rightarrow> if 10 \<le> q \<and> q \<le> 4095 then [q] else default_custom_image_quality e
          | _ \<Rightarrow> default_custom_image_quality e),
       p_reverse_mouse_wheel := or_default (p_reverse_mouse_wheel c) (user_default_read e ''reverse_mouse_wheel''),
       p_individual_windows := or_default (p_individual_windows c)
         (user_default_read e ''displays_as_individual_windows''),
       p_all_my_displays := or_default (p_all_my_displays c)
         (user_default_read e ''use_all_my_displays_for_the_remote_session''),
       p_trackpad_speed := (if 10 \<le> p_trackpad_speed c \<and> p_trackpad_speed c \<le> 1000 then p_trackpad_speed c
          else default_number e ''trackpad-speed'')\<rparr>"

text \<open>
  \<open>PeerConfig::load\<close>: the configuration, and the files, since values that were stored in the open
  are stored again.
\<close>

definition load_peer :: "cfg_env \<Rightarrow> default_env \<Rightarrow> string \<Rightarrow> peer_files \<Rightarrow> peer_config \<times> peer_files" where
  "load_peer e de i files =
     (case files (peer_path (fns e) i) of
        None \<Rightarrow> (default_peer de, files)
      | Some raw \<Rightarrow>
          let c = deserialize_peer de raw;
              dec_str = (\<lambda>v. decrypt_str_or_original (fns e) (mach e) v PASSWORD_ENC_VERSION);
              pw = decrypt_vec_or_original (fns e) (mach e) (p_password c) PASSWORD_ENC_VERSION;
              store = (snd (snd pw) \<or> (\<exists>k \<in> set secret_options.
                 case p_options c k of Some v \<Rightarrow> snd (snd (dec_str v)) | None \<Rightarrow> False));
              c = c\<lparr>p_password := fst pw, p_options := map_secrets (\<lambda>v. fst (dec_str v)) (p_options c)\<rparr>
          in (c, if store then store_peer e i c files else files))"

section \<open>A stored peer is read back\<close>

lemma parse_i32_show [simp]: "0 \<le> n \<Longrightarrow> n \<le> 2147483647 \<Longrightarrow> parse_i32 (show_int n) = Some n"
  by (simp add: parse_i32_def show_int_def)

text \<open>Values that the file can hold.\<close>

definition storable_secret :: "cfg_env \<Rightarrow> string \<Rightarrow> bool" where
  "storable_secret e v \<longleftrightarrow> \<not> is_encrypted (fns e) v \<and> char_count v \<le> ENCRYPT_MAX_LEN \<and> valid_utf8 v"

definition storable_peer :: "cfg_env \<Rightarrow> default_env \<Rightarrow> peer_config \<Rightarrow> bool" where
  "storable_peer e de c \<longleftrightarrow> deserialize_peer de c = c \<and> \<not> is_encrypted (fns e) (p_password c) \<and>
     length (p_password c) \<le> ENCRYPT_MAX_LEN \<and>
     (\<forall>k \<in> set secret_options. case p_options c k of Some v \<Rightarrow> storable_secret e v | None \<Rightarrow> True)"

lemma deserialize_image: "deserialize_peer de (peer_image e c) = peer_image e (deserialize_peer de c)"
  by (simp add: deserialize_peer_def peer_image_def)

lemma decrypt_vec_empty: "decrypt_vec_or_original f m (encrypt_vec_or_original f m [] v n) v = ([], False, False)"
  by (simp add: encrypt_vec_or_original_def decrypt_vec_or_original_def is_encrypted_def encrypt_bytes_def decrypt_bytes_def)

lemma password_roundtrip:
  assumes "secret_fns_ok (fns e)" and "\<not> is_encrypted (fns e) v" and "length v \<le> ENCRYPT_MAX_LEN"
  shows "\<exists>b. decrypt_vec_or_original (fns e) m (encrypt_vec_or_original (fns e) m v ''00'' 128) ''00'' = (v, b, False)"
  using assms stored_vec_roundtrip [OF assms(1)] decrypt_vec_empty by (cases "v = []") auto

lemma options_roundtrip:
  assumes "secret_fns_ok f" and "\<forall>k \<in> set secret_options. case m k of Some v \<Rightarrow>
      \<not> is_encrypted f v \<and> char_count v \<le> 128 \<and> valid_utf8 v | None \<Rightarrow> True"
  shows "map_secrets (\<lambda>v. fst (decrypt_str_or_original f x v ''00''))
      (map_secrets (\<lambda>v. encrypt_str_or_original f x v ''00'' 128) m) = m"
    and "\<forall>k \<in> set secret_options. case map_secrets (\<lambda>v. encrypt_str_or_original f x v ''00'' 128) m k of
      Some v \<Rightarrow> \<not> snd (snd (decrypt_str_or_original f x v ''00'')) | None \<Rightarrow> True"
proof -
  have d: "decrypt_str_or_original f x (encrypt_str_or_original f x v ''00'' 128) ''00'' = (v, v \<noteq> [], False)"
    if "k \<in> set secret_options" "m k = Some v" for k v
    using assms that by (intro decrypt_encrypt_str) auto
  show "map_secrets (\<lambda>v. fst (decrypt_str_or_original f x v ''00''))
      (map_secrets (\<lambda>v. encrypt_str_or_original f x v ''00'' 128) m) = m"
  proof (rule ext)
    fix k
    show "map_secrets (\<lambda>v. fst (decrypt_str_or_original f x v ''00''))
        (map_secrets (\<lambda>v. encrypt_str_or_original f x v ''00'' 128) m) k = m k"
      using d [of k] by (cases "m k") (simp_all add: map_secrets_def)
  qed
  show "\<forall>k \<in> set secret_options. case map_secrets (\<lambda>v. encrypt_str_or_original f x v ''00'' 128) m k of
      Some v \<Rightarrow> \<not> snd (snd (decrypt_str_or_original f x v ''00'')) | None \<Rightarrow> True"
    using d by (auto simp: map_secrets_def split: option.splits)
qed

lemma peer_survives_restart:
  assumes "secret_fns_ok (fns e)" and "storable_peer e de c"
  shows "load_peer e de i (store_peer e i c files) = (c, store_peer e i c files)"
proof -
  define im where "im = peer_image e c"
  have im: "deserialize_peer de im = im"
    using assms(2) by (simp add: im_def deserialize_image storable_peer_def)
  obtain b where pw: "decrypt_vec_or_original (fns e) (mach e) (p_password im) ''00'' = (p_password c, b, False)"
    using password_roundtrip [OF assms(1), of "p_password c" "mach e"] assms(2)
    by (auto simp: im_def peer_image_def storable_peer_def)
  have po: "p_options im = map_secrets (\<lambda>v. encrypt_str_or_original (fns e) (mach e) v ''00'' 128) (p_options c)"
    by (simp add: im_def peer_image_def)
  have ok: "\<forall>k \<in> set secret_options. case p_options c k of Some v \<Rightarrow>
      \<not> is_encrypted (fns e) v \<and> char_count v \<le> 128 \<and> valid_utf8 v | None \<Rightarrow> True"
    using assms(2) unfolding storable_peer_def storable_secret_def by blast
  note opt = options_roundtrip [OF assms(1) ok, of "mach e"]
  have ns: "\<not> (\<exists>k \<in> set secret_options. case p_options im k of
      Some v \<Rightarrow> snd (snd (decrypt_str_or_original (fns e) (mach e) v ''00'')) | None \<Rightarrow> False)"
    using opt(2) by (auto simp: po split: option.splits)
  have "im\<lparr>p_password := p_password c, p_options := p_options c\<rparr> = c"
    by (simp add: im_def peer_image_def)
  then show ?thesis
    using opt(1) ns
    by (simp add: load_peer_def store_peer_def im pw po Let_def flip: im_def)
qed

end
