(* ===== verification/ClientLogin.thy ===== *)
theory ClientLogin
  imports Login PeerStore
begin

text \<open>
  The viewer's side of a login (\<open>LoginConfigHandler\<close>, \<open>handle_hash\<close>,
  \<open>handle_login_from_ui\<close> and \<open>handle_login_error\<close> of \<open>src/client.rs\<close>): which password is
  sent, what is remembered, the request, and the options of the session. The state is the handler
  and the files of the peers. Tokens and the address book arrive through parameters; the picture of
  the user, the features and the encodings of the peer are left out.
\<close>

section \<open>Data\<close>

datatype conn_type = DefaultConn | FileTransferConn' | PortForwardConn' | RdpConn | ViewCameraConn' | TerminalConn'

datatype password_source = PersonalAb string | SharedAb string | UndefinedSource

record login_handler =
  lc_id :: string
  lc_type :: conn_type
  is_terminal_admin :: bool
  lc_salt :: string
  lc_challenge :: string
  lc_password :: string
  remember :: bool
  peer :: peer_config
  port_forward :: "string \<times> int"
  peer_version :: "64 word"
  lc_session_id :: nat
  force_relay :: bool
  direct :: "bool option"
  received :: bool
  switch_uuid :: "string option"
  other_server :: "(string \<times> string \<times> string) option"
  custom_fps :: "u64 option"
  password_source :: password_source
  shared_password :: "string option"
  record_state :: bool
  record_permission :: bool

text \<open>
  \<open>ab_personal\<close> is the personal address book with the token it was loaded under;
  \<open>parse_uuid\<close> gives the sixteen bytes of a UUID, \<open>parse_token\<close> reads a connection token and
  \<open>remote_dirs\<close> the JSON map of directories.
\<close>

record viewer_env =
  v_cfg_e :: cfg_env
  v_default :: default_env
  v_cfg :: cfg
  v_sha256 :: "string \<Rightarrow> string"
  ab_personal :: "string \<times> (string \<times> string) list option"
  parse_uuid :: "string \<Rightarrow> string option"
  parse_token :: "string \<Rightarrow> (string \<times> password_source \<times> nat) option"
  remote_dirs :: "string \<Rightarrow> (string \<rightharpoonup> string) option"
  show_dirs :: "(string \<rightharpoonup> string) \<Rightarrow> string"
  random_id :: nat
  my_id :: string
  v_server :: string
  my_name :: string
  my_platform :: string
  my_version :: string
  hwid :: string
  direct_only :: bool
  relay_anyway :: bool
  public_server :: bool
  terminal_admin_env :: bool
  terminal_user_env :: string

datatype client_out =
    MsgBox string string string string
  | SendLogin login_request
  | SendSwitch string login_request
  | SendOption option_message
  | SyncPersonalAb string string

type_synonym client_state = "login_handler \<times> peer_files"

section \<open>The file of the peer\<close>

definition load_config :: "viewer_env \<Rightarrow> client_state \<Rightarrow> peer_config \<times> client_state" where
  "load_config e st =
     (case load_peer (v_cfg_e e) (v_default e) (lc_id (fst st)) (snd st) of
        (c, files) \<Rightarrow> (c, (fst st, files)))"

definition save_config :: "viewer_env \<Rightarrow> peer_config \<Rightarrow> client_state \<Rightarrow> client_state" where
  "save_config e c st = ((fst st)\<lparr>peer := c\<rparr>, store_peer (v_cfg_e e) (lc_id (fst st)) c (snd st))"

text \<open>The many setters: load, change, save.\<close>

definition change_config :: "viewer_env \<Rightarrow> (peer_config \<Rightarrow> peer_config) \<Rightarrow> client_state \<Rightarrow> client_state" where
  "change_config e f st = (case load_config e st of (c, st) \<Rightarrow> save_config e (f c) st)"

definition lc_option :: "login_handler \<Rightarrow> string \<Rightarrow> string" where
  "lc_option h k = unwrap_or_default (p_options (peer h) k)"

definition lc_set_option :: "viewer_env \<Rightarrow> string \<Rightarrow> string \<Rightarrow> client_state \<Rightarrow> client_state" where
  "lc_set_option e k v st =
     (case load_config e st of (c, st) \<Rightarrow>
        if v = lc_option (fst st) k then st
        else save_config e (c\<lparr>p_options := (p_options c)(k \<mapsto> v)\<rparr>) st)"

definition save_ui_flutter :: "viewer_env \<Rightarrow> string \<Rightarrow> string \<Rightarrow> client_state \<Rightarrow> client_state" where
  "save_ui_flutter e k v =
     change_config e (\<lambda>c. c\<lparr>p_ui_flutter := (p_ui_flutter c)(k := if v = [] then None else Some v)\<rparr>)"

definition get_ui_flutter :: "login_handler \<Rightarrow> string \<Rightarrow> string" where
  "get_ui_flutter h k = unwrap_or_default (p_ui_flutter (peer h) k)"

definition set_direct_failure :: "viewer_env \<Rightarrow> int \<Rightarrow> client_state \<Rightarrow> client_state" where
  "set_direct_failure e n = change_config e (\<lambda>c. c\<lparr>p_direct_failures := n\<rparr>)"

definition set_custom_resolution :: "viewer_env \<Rightarrow> string \<Rightarrow> (int \<times> int) option \<Rightarrow> client_state \<Rightarrow> client_state" where
  "set_custom_resolution e d wh =
     change_config e (\<lambda>c. c\<lparr>p_custom_resolutions := (p_custom_resolutions c)(d := wh)\<rparr>)"

definition should_auto_login :: "login_handler \<Rightarrow> string" where
  "should_auto_login h =
     (let p = lc_option h ''os-password'' in
      if p \<noteq> [] \<and> p_lock_after_session_end (peer h) \<and> lc_option h ''auto-login'' \<noteq> [] then p else [])"

section \<open>A new session\<close>

definition handle_relay_id :: "viewer_env \<Rightarrow> string \<Rightarrow> string" where
  "handle_relay_id e i =
     (if direct_only e then i
      else if ends_with i [CHR 0x5C, CHR ''r''] \<or> ends_with i ''/r'' then take (length i - 2) i else i)"

abbreviation "PUBLIC_SERVER \<equiv> ''public''"

definition RS_PUB_KEY :: string where
  "RS_PUB_KEY = ''OeVuKk5nlHiXp+APNn0Y3pC1Iwpwn44JGqrQCsWqmBw=''"

definition nth_or_empty :: "string list \<Rightarrow> nat \<Rightarrow> string" where
  "nth_or_empty xs n = (if n < length xs then xs ! n else [])"

text \<open>The last \<open>key=\<close> among the arguments of the server, whatever the case of its name.\<close>

definition key_argument :: "string \<Rightarrow> string" where
  "key_argument args =
     unwrap_or_default (map_of (rev (List.map_filter (\<lambda>arg.
       case split_on ((=) CHR ''='') arg of
         k # v # rest \<Rightarrow> Some (to_lower k, join_with CHR ''='' (v # rest)) | _ \<Rightarrow> None)
       (split_on ((=) CHR ''&'') args))) ''key'')"

text \<open>The id, whether it asks for a relay, and the other server it names.\<close>

definition parse_peer_id :: "viewer_env \<Rightarrow> string \<Rightarrow> string \<times> bool \<times> (string \<times> string \<times> string) option" where
  "parse_peer_id e i =
     (if CHR ''@'' \<in> set i then
        let v = split_on ((=) CHR ''@'') i;
            raw_id = nth_or_empty v 0;
            server_key = split_on ((=) CHR ''?'') (nth_or_empty v 1);
            server = nth_or_empty server_key 0;
            args = nth_or_empty server_key 1;
            key = (if server = PUBLIC_SERVER then RS_PUB_KEY else key_argument args);
            real_id = handle_relay_id e raw_id
        in (real_id @ ''@'' @ server, real_id \<noteq> raw_id, Some (real_id, server, key))
      else (handle_relay_id e i, handle_relay_id e i \<noteq> i, None))"

definition initialize ::
  "viewer_env \<Rightarrow> string \<Rightarrow> conn_type \<Rightarrow> string option \<Rightarrow> bool \<Rightarrow> string option \<Rightarrow> string option
    \<Rightarrow> client_state \<Rightarrow> client_state" where
  "initialize e i ty uuid relay shared tok st =
     (case parse_peer_id e i of (rid, asks_relay, other) \<Rightarrow>
      let h = (fst st)\<lparr>lc_id := rid, lc_type := ty\<rparr>;
          h = (case other of Some x \<Rightarrow> h\<lparr>other_server := Some x\<rparr> | None \<Rightarrow> h);
          (c, st) = load_config e (h, snd st);
          h = (fst st)\<lparr>remember := (p_password c \<noteq> []), peer := c\<rparr>;
          t = Option.bind tok (parse_token e);
          h = (case t of Some (pw, src, s) \<Rightarrow> h\<lparr>lc_password := pw, password_source := src\<rparr> | None \<Rightarrow> h);
          sid = (case t of Some (pw, src, s) \<Rightarrow> s | None \<Rightarrow> 0);
          sid = (if sid = 0 then if random_id e = 0 then 1 else random_id e else sid);
          other' = (case other_server h of
             Some (r, s, k) \<Rightarrow>
               if lc_option h ''other-server-key'' \<noteq> [] \<and> k = [] then Some (r, s, lc_option h ''other-server-key'')
               else Some (r, s, k)
           | None \<Rightarrow> None)
      in (h\<lparr>lc_session_id := sid,
            force_relay := option2bool ''force-always-relay'' (lc_option h ''force-always-relay'')
              \<or> relay \<or> asks_relay \<or> relay_anyway e,
            other_server := other', direct := None, received := False, switch_uuid := uuid,
            shared_password := shared, record_state := False, record_permission := True,
            is_terminal_admin := (ty = TerminalConn' \<and> terminal_admin_env e)\<rparr>, snd st))"

section \<open>Options of the session\<close>

definition no_options :: option_message where
  "no_options = \<lparr>o_image_quality = QualityNotSet, o_custom_image_quality = 0, o_custom_fps = 0,
     o_supported_decoding = False, o_lock_after_session_end = NotSet, o_show_remote_cursor = NotSet,
     o_follow_remote_cursor = NotSet, o_follow_remote_window = NotSet, o_disable_audio = NotSet,
     o_enable_file_transfer = NotSet, o_disable_clipboard = NotSet, o_disable_keyboard = NotSet,
     o_privacy_mode = NotSet, o_block_input = NotSet, o_terminal_persistent = NotSet, o_show_my_cursor = NotSet\<rparr>"

definition get_toggle_option :: "login_handler \<Rightarrow> string \<Rightarrow> bool" where
  "get_toggle_option h name =
     (let c = peer h in
      if name = ''show-remote-cursor'' then p_show_remote_cursor c
      else if name = ''lock-after-session-end'' then p_lock_after_session_end c
      else if name = ''terminal-persistent'' then p_terminal_persistent c
      else if name = ''privacy-mode'' then p_privacy_mode c
      else if name = ''enable-file-copy-paste'' then p_enable_file_copy_paste c
      else if name = ''disable-audio'' then p_disable_audio c
      else if name = ''disable-clipboard'' then p_disable_clipboard c
      else if name = ''show-quality-monitor'' then p_show_quality_monitor c
      else if name = ''allow_swap_key'' then p_allow_swap_key c
      else if name = ''view-only'' then p_view_only c
      else if name = ''show-my-cursor'' then p_show_my_cursor c
      else if name = ''follow-remote-cursor'' then p_follow_remote_cursor c
      else if name = ''follow-remote-window'' then p_follow_remote_window c
      else lc_option h name \<noteq> [])"

definition get_image_quality_enum :: "string \<Rightarrow> bool \<Rightarrow> image_quality option" where
  "get_image_quality_enum q ignore_default =
     (if q = ''low'' then Some Low
      else if q = ''best'' then Some Best
      else if q = ''balanced'' then if ignore_default then None else Some Balanced
      else None)"

text \<open>\<open>q << 8\<close> of an \<open>i32\<close>.\<close>

definition shl8 :: "int \<Rightarrow> int" where
  "shl8 q = sint (push_bit 8 (of_int q :: i32))"

definition yes_if :: "bool \<Rightarrow> bool_option" where
  "yes_if b = (if b then Yes else NotSet)"

definition add_quality :: "viewer_env \<Rightarrow> bool \<Rightarrow> peer_config \<Rightarrow> option_message \<times> login_handler
    \<Rightarrow> option_message \<times> login_handler" where
  "add_quality e ignore_default c = (\<lambda>(m, h).
     case get_image_quality_enum (p_image_quality (peer h)) ignore_default of
       Some q \<Rightarrow> (m\<lparr>o_image_quality := q\<rparr>, h)
     | None \<Rightarrow>
         if p_image_quality (peer h) \<noteq> ''custom'' then (m, h)
         else
           let allow_more = (\<not> public_server e \<or> direct h = Some True);
               quality = (case p_custom_image_quality c of
                  [] \<Rightarrow> 50
                | q # qs \<Rightarrow> if \<not> allow_more \<and> 100 < q then 50 else q);
               m = m\<lparr>o_custom_image_quality := shl8 quality\<rparr>
           in (case p_options (peer h) ''custom-fps'' of
                 Some s \<Rightarrow>
                   let fps = (case parse_i32 s of Some n \<Rightarrow> n | None \<Rightarrow> 30);
                       fps = (if \<not> allow_more \<and> 30 < fps then 30 else fps)
                   in (m\<lparr>o_custom_fps := fps\<rparr>, h\<lparr>custom_fps := Some (of_int fps)\<rparr>)
               | None \<Rightarrow> (m, h)))"

definition get_option_message ::
  "viewer_env \<Rightarrow> bool \<Rightarrow> client_state \<Rightarrow> option_message option \<times> client_state" where
  "get_option_message e ignore_default st =
     (let h = fst st in
      if lc_type h \<in> {PortForwardConn', RdpConn, FileTransferConn'} then (None, st)
      else if lc_type h = TerminalConn' then
        (if get_toggle_option h ''terminal-persistent'' then Some (no_options\<lparr>o_terminal_persistent := Yes\<rparr>) else None, st)
      else
        let (c, files) = (if get_image_quality_enum (p_image_quality (peer h)) ignore_default = None
                             \<and> p_image_quality (peer h) = ''custom''
                          then case load_config e st of (c, st) \<Rightarrow> (c, snd st) else (peer h, snd st));
            (m, h) = add_quality e ignore_default c (no_options, h);
            on = get_toggle_option h;
            view = on ''view-only''
        in (Some (m\<lparr>o_disable_keyboard := yes_if view,
              o_show_remote_cursor := yes_if (view \<or> on ''show-remote-cursor''),
              o_show_my_cursor := yes_if (view \<and> on ''show-my-cursor''),
              o_follow_remote_cursor := yes_if (on ''follow-remote-cursor''),
              o_follow_remote_window := yes_if (on ''follow-remote-window''),
              o_lock_after_session_end := yes_if (\<not> view \<and> on ''lock-after-session-end''),
              o_disable_audio := yes_if (on ''disable-audio''),
              o_enable_file_transfer := yes_if (\<not> view \<and> on ''enable-file-copy-paste''),
              o_disable_clipboard := yes_if (view \<or> on ''disable-clipboard''),
              o_supported_decoding := True\<rparr>), (h, files)))"

text \<open>
  \<open>toggle_option\<close>: the message for the host, if there is one. The values that switch off view-only
  mode come from the handler, the flags that are flipped from the file.
\<close>

definition yes_no :: "bool \<Rightarrow> bool_option" where
  "yes_no b = (if b then Yes else No)"

definition toggle_view_only ::
  "login_handler \<Rightarrow> peer_config \<Rightarrow> peer_config \<times> option_message" where
  "toggle_view_only h c =
     (let c = c\<lparr>p_view_only := \<not> p_view_only c\<rparr> in
      if p_view_only c then
        (c, no_options\<lparr>o_disable_keyboard := Yes, o_disable_clipboard := Yes, o_show_remote_cursor := Yes,
               o_enable_file_transfer := No, o_lock_after_session_end := No\<rparr>)
      else
        let m = no_options\<lparr>o_disable_keyboard := No,
               o_disable_clipboard := yes_no (get_toggle_option h ''disable-clipboard''),
               o_show_remote_cursor := yes_no (get_toggle_option h ''show-remote-cursor''),
               o_enable_file_transfer := yes_no (p_enable_file_copy_paste (peer h)),
               o_lock_after_session_end := yes_no (p_lock_after_session_end (peer h))\<rparr>
        in if p_show_my_cursor c then (c\<lparr>p_show_my_cursor := False\<rparr>, m\<lparr>o_show_my_cursor := No\<rparr>) else (c, m))"

definition toggle_flag :: "login_handler \<Rightarrow> peer_config \<Rightarrow> string \<Rightarrow> (peer_config \<times> option_message) option" where
  "toggle_flag h c name =
     (let o' = no_options in
      if name = ''show-remote-cursor'' then
        Some (let b = \<not> p_show_remote_cursor c in (c\<lparr>p_show_remote_cursor := b\<rparr>, o'\<lparr>o_show_remote_cursor := yes_no b\<rparr>))
      else if name = ''follow-remote-cursor'' then
        Some (let b = \<not> p_follow_remote_cursor c in (c\<lparr>p_follow_remote_cursor := b\<rparr>, o'\<lparr>o_follow_remote_cursor := yes_no b\<rparr>))
      else if name = ''follow-remote-window'' then
        Some (let b = \<not> p_follow_remote_window c in (c\<lparr>p_follow_remote_window := b\<rparr>, o'\<lparr>o_follow_remote_window := yes_no b\<rparr>))
      else if name = ''disable-audio'' then
        Some (let b = \<not> p_disable_audio c in (c\<lparr>p_disable_audio := b\<rparr>, o'\<lparr>o_disable_audio := yes_no b\<rparr>))
      else if name = ''disable-clipboard'' then
        Some (let b = \<not> p_disable_clipboard c in (c\<lparr>p_disable_clipboard := b\<rparr>, o'\<lparr>o_disable_clipboard := yes_no b\<rparr>))
      else if name = ''lock-after-session-end'' then
        Some (let b = \<not> p_lock_after_session_end c in (c\<lparr>p_lock_after_session_end := b\<rparr>, o'\<lparr>o_lock_after_session_end := yes_no b\<rparr>))
      else if name = ''terminal-persistent'' then
        Some (let b = \<not> p_terminal_persistent c in (c\<lparr>p_terminal_persistent := b\<rparr>, o'\<lparr>o_terminal_persistent := yes_no b\<rparr>))
      else if name = ''privacy-mode'' then Some (c, o'\<lparr>o_privacy_mode := yes_no (\<not> p_privacy_mode c)\<rparr>)
      else if name = ''enable-file-copy-paste'' then
        Some (let b = \<not> p_enable_file_copy_paste c in (c\<lparr>p_enable_file_copy_paste := b\<rparr>, o'\<lparr>o_enable_file_transfer := yes_no b\<rparr>))
      else if name = ''block-input'' then Some (c, o'\<lparr>o_block_input := Yes\<rparr>)
      else if name = ''unblock-input'' then Some (c, o'\<lparr>o_block_input := No\<rparr>)
      else if name = ''show-quality-monitor'' then
        Some (c\<lparr>p_show_quality_monitor := \<not> p_show_quality_monitor c\<rparr>, o')
      else if name = ''allow_swap_key'' then Some (c\<lparr>p_allow_swap_key := \<not> p_allow_swap_key c\<rparr>, o')
      else if name = ''view-only'' then Some (toggle_view_only h c)
      else if name = ''show-my-cursor'' then
        Some (let b = \<not> p_show_my_cursor c in (c\<lparr>p_show_my_cursor := b\<rparr>, o'\<lparr>o_show_my_cursor := yes_no b\<rparr>))
      else None)"

definition toggle_option :: "viewer_env \<Rightarrow> string \<Rightarrow> client_state \<Rightarrow> option_message option \<times> client_state" where
  "toggle_option e name st =
     (case load_config e st of (c, st) \<Rightarrow>
       (case toggle_flag (fst st) c name of
          Some (c, m) \<Rightarrow>
            (Some m, if contains_str name ''block-input'' then st else save_config e c st)
        | None \<Rightarrow>
            let h = fst st;
                c = (peer h)\<lparr>p_options := (p_options (peer h))(name := if lc_option h name \<noteq> [] then None else Some ''Y'')\<rparr>
            in (None, save_config e c st)))"

definition save_custom_image_quality :: "viewer_env \<Rightarrow> int \<Rightarrow> client_state \<Rightarrow> option_message \<times> client_state" where
  "save_custom_image_quality e q st =
     (no_options\<lparr>o_custom_image_quality := shl8 q\<rparr>,
      change_config e (\<lambda>c. c\<lparr>p_image_quality := ''custom'', p_custom_image_quality := [q]\<rparr>) st)"

definition save_image_quality :: "viewer_env \<Rightarrow> string \<Rightarrow> client_state \<Rightarrow> option_message option \<times> client_state" where
  "save_image_quality e v st =
     (map_option (\<lambda>q. no_options\<lparr>o_image_quality := q\<rparr>) (get_image_quality_enum v False),
      change_config e (\<lambda>c. c\<lparr>p_image_quality := v\<rparr>) st)"

definition set_custom_fps :: "viewer_env \<Rightarrow> int \<Rightarrow> bool \<Rightarrow> client_state \<Rightarrow> option_message \<times> client_state" where
  "set_custom_fps e fps save st =
     (no_options\<lparr>o_custom_fps := fps\<rparr>,
      let st = (if save then change_config e (\<lambda>c. c\<lparr>p_options := (p_options c)(''custom-fps'' \<mapsto> show_int fps)\<rparr>) st
                else st)
      in ((fst st)\<lparr>custom_fps := Some (of_int fps)\<rparr>, snd st))"

section \<open>The request\<close>

definition get_key_terminal_service_id :: "login_handler \<Rightarrow> string" where
  "get_key_terminal_service_id h =
     (if is_terminal_admin h then ''terminal-admin-service-id'' else ''terminal-service-id'')"

definition get_remote_dir :: "viewer_env \<Rightarrow> login_handler \<Rightarrow> string" where
  "get_remote_dir e h =
     (case remote_dirs e (lc_option h ''remote_dir'') of
        Some m \<Rightarrow> unwrap_or_default (m (i_username (p_info (peer h)))) | None \<Rightarrow> [])"

definition get_all_remote_dir :: "viewer_env \<Rightarrow> string \<Rightarrow> login_handler \<Rightarrow> string" where
  "get_all_remote_dir e path h =
     (let m = (case remote_dirs e (lc_option h ''remote_dir'') of Some m \<Rightarrow> m | None \<Rightarrow> Map.empty)
      in show_dirs e (m(i_username (p_info (peer h)) := if path = [] then None else Some path)))"

definition create_login_msg ::
  "viewer_env \<Rightarrow> string \<Rightarrow> string \<Rightarrow> string \<Rightarrow> client_state \<Rightarrow> login_request \<times> client_state" where
  "create_login_msg e os_user os_pw pw st =
     (case get_option_message e True st of (om, st) \<Rightarrow>
      let h = fst st;
          (mine, pure_id) = (case other_server h of
             Some (i, s, k) \<Rightarrow> (my_id e @ ''@'' @ v_server e, i)
           | None \<Rightarrow> (my_id e, lc_id h))
      in (\<lparr>lr_username = pure_id, lr_password = pw, lr_my_id = mine, lr_my_name = my_name e,
           lr_my_platform = my_platform e, lr_session_id = lc_session_id h,
           lr_hwid = (if lc_option h ''trust-this-device'' = ''Y'' then hwid e else []),
           lr_version = my_version e, lr_os_username = os_user, lr_os_password = os_pw, lr_option = om,
           lr_video_ack_required = False,
           lr_union =
             (case lc_type h of
                FileTransferConn' \<Rightarrow>
                  LoginFileTransfer (get_remote_dir e h) (lc_option h ''remote_show_hidden'' \<noteq> [])
              | ViewCameraConn' \<Rightarrow> LoginViewCamera
              | PortForwardConn' \<Rightarrow> LoginPortForward (fst (port_forward h)) (snd (port_forward h))
              | RdpConn \<Rightarrow> LoginPortForward (fst (port_forward h)) (snd (port_forward h))
              | TerminalConn' \<Rightarrow> LoginTerminal (lc_option h (get_key_terminal_service_id h))
              | DefaultConn \<Rightarrow> LoginDefault)\<rparr>, st))"

section \<open>Which password is sent\<close>

definition is_personal_ab :: "password_source \<Rightarrow> string \<Rightarrow> bool" where
  "is_personal_ab src pw = (pw \<noteq> [] \<and> src = PersonalAb pw)"

definition is_shared_ab :: "viewer_env \<Rightarrow> password_source \<Rightarrow> string \<Rightarrow> string \<Rightarrow> bool" where
  "is_shared_ab e src pw salt =
     (pw \<noteq> [] \<and> (case src of SharedAb p \<Rightarrow> pw = v_sha256 e (p @ salt) | _ \<Rightarrow> False))"

text \<open>The password found, with its source if that changes.\<close>

definition try_personal_ab :: "viewer_env \<Rightarrow> login_handler \<Rightarrow> (string \<times> password_source) option" where
  "try_personal_ab e h =
     (let tok = get_local_option (v_cfg e) ''access_token'' in
      if tok \<noteq> [] \<and> tok = fst (ab_personal e) then
        (case snd (ab_personal e) of
           None \<Rightarrow> None
         | Some peers \<Rightarrow>
             (case map_of peers (lc_id h) of
                None \<Rightarrow> None
              | Some hash \<Rightarrow>
                  (case b64_decode (fns (v_cfg_e e)) hash of
                     Some p \<Rightarrow> if p \<noteq> [] then Some (p, PersonalAb p) else None
                   | None \<Rightarrow> None)))
      else None)"

definition preset_password :: "viewer_env \<Rightarrow> string \<Rightarrow> string \<Rightarrow> login_handler \<Rightarrow> string \<times> login_handler" where
  "preset_password e preset salt h =
     (if lc_password h = [] \<and> preset \<noteq> [] then (v_sha256 e (preset @ salt), h\<lparr>password_source := UndefinedSource\<rparr>)
      else (lc_password h, h))"

definition shared_ab_password :: "viewer_env \<Rightarrow> string \<Rightarrow> string \<times> login_handler \<Rightarrow> string \<times> login_handler" where
  "shared_ab_password e salt = (\<lambda>(pw, h).
     case shared_password h of
       Some s \<Rightarrow>
         if s \<noteq> [] then (v_sha256 e (s @ salt), h\<lparr>shared_password := None, password_source := SharedAb s\<rparr>)
         else (pw, h\<lparr>shared_password := None\<rparr>)
     | None \<Rightarrow> (pw, h))"

definition stored_password :: "string \<times> login_handler \<Rightarrow> string \<times> login_handler" where
  "stored_password = (\<lambda>(pw, h).
     if pw = [] \<and> p_password (peer h) \<noteq> [] then (p_password (peer h), h\<lparr>password_source := UndefinedSource\<rparr>)
     else (pw, h))"

definition personal_ab_password :: "viewer_env \<Rightarrow> string \<times> login_handler \<Rightarrow> string \<times> login_handler" where
  "personal_ab_password e = (\<lambda>(pw, h).
     if pw = [] then
       (case try_personal_ab e h of Some (p, src) \<Rightarrow> (p, h\<lparr>password_source := src\<rparr>) | None \<Rightarrow> (pw, h))
     else (pw, h))"

definition default_password :: "viewer_env \<Rightarrow> string \<Rightarrow> string \<times> login_handler \<Rightarrow> string \<times> login_handler" where
  "default_password e salt = (\<lambda>(pw, h).
     if pw = [] then
       let p = get_builtin_option (v_cfg e) ''default-connect-password'' in
       if p \<noteq> [] then (v_sha256 e (p @ salt), h\<lparr>password_source := SharedAb p\<rparr>) else (pw, h)
     else (pw, h))"

definition choose_password :: "viewer_env \<Rightarrow> string \<Rightarrow> string \<Rightarrow> login_handler \<Rightarrow> string \<times> login_handler" where
  "choose_password e preset salt h =
     default_password e salt (personal_ab_password e (stored_password
       (shared_ab_password e salt (preset_password e preset salt h))))"

definition client_handle_hash ::
  "viewer_env \<Rightarrow> string \<Rightarrow> string \<Rightarrow> string \<Rightarrow> client_state \<Rightarrow> client_out list \<times> client_state" where
  "client_handle_hash e preset salt challenge st =
     (let h = (fst st)\<lparr>lc_salt := salt, lc_challenge := challenge\<rparr>;
          uuid = Option.bind (switch_uuid h) (parse_uuid e);
          h = h\<lparr>switch_uuid := None\<rparr>
      in case uuid of
        Some u \<Rightarrow>
          (case create_login_msg e [] [] [] (h, snd st) of
             (l, st) \<Rightarrow> ([SendSwitch u l], (fst st)\<lparr>password_source := UndefinedSource\<rparr>, snd st))
      | None \<Rightarrow>
          (case choose_password e preset salt h of (pw, h) \<Rightarrow>
           let h = h\<lparr>lc_password := pw\<rparr> in
           if lc_type h = TerminalConn' \<and> is_terminal_admin h then
             ([MsgBox (if pw = [] then ''terminal-admin-login-password'' else ''terminal-admin-login'') [] [] []],
              h, snd st)
           else
             let box = (if pw = [] then [MsgBox ''input-password'' ''Password Required'' [] []] else []);
                 sent = (if pw = [] then [] else v_sha256 e (pw @ challenge));
                 (u, p) = (if lc_type h = TerminalConn' then ([], [])
                           else (lc_option h ''os-username'', lc_option h ''os-password''))
             in (case create_login_msg e u p sent (h, snd st) of (l, st) \<Rightarrow> (box @ [SendLogin l], st))))"

definition handle_login_from_ui ::
  "viewer_env \<Rightarrow> string \<Rightarrow> string \<Rightarrow> string \<Rightarrow> bool \<Rightarrow> client_state \<Rightarrow> client_out list \<times> client_state" where
  "handle_login_from_ui e u p pw rem st =
     (let h = fst st;
          (hashed, h) =
            (if pw = [] then
               if lc_password h \<noteq> [] then (lc_password h, h)
               else stored_password ([], h)
             else (v_sha256 e (pw @ lc_salt h), h\<lparr>password_source := UndefinedSource, remember := rem\<rparr>));
          h = h\<lparr>lc_password := hashed\<rparr>
      in case create_login_msg e u p (v_sha256 e (hashed @ lc_challenge h)) (h, snd st) of
           (l, st) \<Rightarrow> ([SendLogin l], st))"

section \<open>The answers of the host\<close>

text \<open>\<open>LOGIN_ERROR_MAP\<close>: kind, title, text and link of the box, and whether one may try again.\<close>

abbreviation "HEADLESS \<equiv> ''https://github.com/rustdesk/rustdesk/wiki/Headless-Linux-Support''"

definition LOGIN_ERROR_MAP :: "string \<rightharpoonup> string \<times> string \<times> string \<times> string \<times> bool" where
  "LOGIN_ERROR_MAP = map_of
     [(''Wayland login screen is not supported'',
       (''error'', ''Login Error'', ''Login screen using Wayland is not supported'',
        ''https://rustdesk.com/docs/en/manual/linux/#login-screen'', True)),
      (''Desktop session not ready'', (''session-login'', [], [], [], True)),
      (''Desktop xsession failed'', (''session-re-login'', [], [], [], True)),
      (''Desktop session another user login'',
       (''info-nocancel'', ''another_user_login_title_tip'', ''another_user_login_text_tip'', [], False)),
      (''Desktop xorg not found'',
       (''info-nocancel'', ''xorg_not_found_title_tip'', ''xorg_not_found_text_tip'', HEADLESS, True)),
      (''Desktop none'', (''info-nocancel'', ''no_desktop_title_tip'', ''no_desktop_text_tip'', HEADLESS, True)),
      (''Desktop session not ready, password empty'', (''session-login-password'', [], [], [], True)),
      (''Desktop session not ready, password wrong'', (''session-login-re-password'', [], [], [], True)),
      (''No Password Access'',
       (''wait-remote-accept-nook'', ''Prompt'',
        ''Please wait for the remote side to accept your session request...'', [], True))]"

text \<open>The result tells whether the connection is kept for another attempt.\<close>

definition handle_login_error ::
  "viewer_env \<Rightarrow> string \<Rightarrow> client_state \<Rightarrow> bool \<times> client_out list \<times> client_state" where
  "handle_login_error e err st =
     (if err = ''Empty Password'' then
        (True, [MsgBox ''input-password'' ''Password Required'' [] []], (fst st)\<lparr>lc_password := []\<rparr>, snd st)
      else if err = ''Wrong Password'' then
        (True, [MsgBox ''re-input-password'' err ''Do you want to enter again?'' []], (fst st)\<lparr>lc_password := []\<rparr>, snd st)
      else if err = ''Wrong 2FA Code'' \<or> err = REQUIRE_2FA then
        (True, [MsgBox ''input-2fa'' err [] []],
         if lc_option (fst st) ''trust-this-device'' = ''Y'' then lc_set_option e ''trust-this-device'' [] st else st)
      else case LOGIN_ERROR_MAP err of
        Some (t, title, text, link, try_again) \<Rightarrow> (try_again, [MsgBox t title text link], st)
      | None \<Rightarrow>
          (False, [MsgBox ''error'' ''Login Error'' err
             (if contains_str err ''x11 expected'' then ''https://rustdesk.com/docs/en/manual/linux/#x11-required''
              else [])], st))"

definition check_if_retry :: "bool \<Rightarrow> string \<Rightarrow> string \<Rightarrow> string \<Rightarrow> bool \<Rightarrow> bool" where
  "check_if_retry use_ws msgtype title text retry_for_relay =
     (msgtype = ''error'' \<and> title = ''Connection Error'' \<and>
      ((contains_str text ''10054'' \<or> contains_str text ''104'') \<and> retry_for_relay \<or>
       (\<not> contains_str (to_lower text) ''offline'' \<and> \<not> contains_str (to_lower text) ''not exist''
        \<and> (\<not> contains_str (to_lower text) ''handshake''
           \<or> contains_str (to_lower text) ''connection reset without closing handshake'' \<and> use_ws)
        \<and> \<not> contains_str (to_lower text) ''failed'' \<and> \<not> contains_str (to_lower text) ''resolve''
        \<and> \<not> contains_str (to_lower text) ''mismatch'' \<and> \<not> contains_str (to_lower text) ''manually''
        \<and> \<not> contains_str (to_lower text) ''not allowed'')))"

text \<open>Keyboard modes and which of them a host of some version and platform knows.\<close>

datatype keyboard_mode = Legacy | MapMode | Translate | AutoMode

definition show_mode :: "keyboard_mode \<Rightarrow> string" where
  "show_mode m = (case m of Legacy \<Rightarrow> ''legacy'' | MapMode \<Rightarrow> ''map'' | Translate \<Rightarrow> ''translate'' | AutoMode \<Rightarrow> ''auto'')"

definition parse_mode :: "string \<Rightarrow> keyboard_mode option" where
  "parse_mode s =
     (if s = ''legacy'' then Some Legacy else if s = ''map'' then Some MapMode
      else if s = ''translate'' then Some Translate else if s = ''auto'' then Some AutoMode else None)"

definition is_keyboard_mode_supported :: "keyboard_mode \<Rightarrow> 64 word \<Rightarrow> string \<Rightarrow> bool" where
  "is_keyboard_mode_supported m v platform =
     (case m of
        Legacy \<Rightarrow> True
      | MapMode \<Rightarrow> if to_lower platform = to_lower ''Android'' then False
                   else sint (get_version_number ''1.2.0'') \<le> sint v
      | Translate \<Rightarrow> sint (get_version_number ''1.2.0'') \<le> sint v
      | AutoMode \<Rightarrow> sint (get_version_number ''1.2.0'') \<le> sint v)"

definition get_supported_keyboard_modes :: "64 word \<Rightarrow> string \<Rightarrow> keyboard_mode list" where
  "get_supported_keyboard_modes v platform =
     filter (\<lambda>m. is_keyboard_mode_supported m v platform) [Legacy, MapMode, Translate, AutoMode]"

definition keyboard_mode_for :: "string \<Rightarrow> 64 word \<Rightarrow> string \<Rightarrow> string" where
  "keyboard_mode_for mode v platform =
     (if mode = [] then show_mode (if is_keyboard_mode_supported MapMode v platform then MapMode else Legacy)
      else if (case parse_mode mode of Some m \<Rightarrow> m | None \<Rightarrow> Legacy) \<in> set (get_supported_keyboard_modes v platform)
      then mode else show_mode Legacy)"

record peer_info =
  pi_username :: string
  pi_hostname :: string
  pi_platform :: string
  pi_version :: string

definition get_username :: "login_handler \<Rightarrow> peer_info \<Rightarrow> string" where
  "get_username h p = (if pi_username p = [] then i_username (p_info (peer h)) else pi_username p)"

text \<open>What is remembered as the password of the host.\<close>

definition password_to_store :: "viewer_env \<Rightarrow> login_handler \<Rightarrow> string \<Rightarrow> string" where
  "password_to_store e h old =
     (if remember h then
        (if lc_password h \<noteq> [] \<and> lc_password h \<noteq> old
            \<and> \<not> is_shared_ab e (password_source h) (lc_password h) (lc_salt h) then lc_password h else old)
      else if is_personal_ab (password_source h) (lc_password h) then lc_password h
      else [])"

definition session_options :: "login_handler \<Rightarrow> options \<Rightarrow> options" where
  "session_options h os =
     (let os = (case other_server h of
           Some (a, b, c) \<Rightarrow> if b \<noteq> PUBLIC_SERVER then os(''other-server-key'' \<mapsto> c) else os
         | None \<Rightarrow> os)
      in if force_relay h then os(''force-always-relay'' \<mapsto> ''Y'') else os)"

definition client_handle_peer_info ::
  "viewer_env \<Rightarrow> peer_info \<Rightarrow> client_state \<Rightarrow> client_out list \<times> client_state" where
  "client_handle_peer_info e p st =
     (let h = fst st;
          h = (if pi_version p \<noteq> [] then h\<lparr>peer_version := get_version_number (pi_version p)\<rparr> else h);
          (c, st) = load_config e (h, snd st);
          c = c\<lparr>p_info := \<lparr>i_username = pi_username p, i_hostname = pi_hostname p, i_platform = pi_platform p\<rparr>,
                p_password := password_to_store e h (p_password c),
                p_options := session_options h (p_options c),
                p_keyboard_mode := keyboard_mode_for (p_keyboard_mode c)
                  (get_version_number (pi_version p)) (pi_platform p)\<rparr>;
          out = (if p_password c \<noteq> [] \<and> \<not> is_shared_ab e (password_source h) (lc_password h) (lc_salt h)
                    \<and> \<not> is_personal_ab (password_source h) (lc_password h)
                 then [SyncPersonalAb (lc_id h) (b64_encode (fns (v_cfg_e e)) (p_password c))] else [])
      in (out, save_config e c st))"

definition get_conn_token :: "login_handler \<Rightarrow> (string \<times> password_source \<times> nat) option" where
  "get_conn_token h =
     (if lc_password h = [] then None else Some (lc_password h, password_source h, lc_session_id h))"

section \<open>A viewer and a host\<close>

lemma load_config_handler [simp]: "fst (snd (load_config e st)) = fst st"
  by (simp add: load_config_def split: prod.split)

lemma save_config_simps [simp]:
  "fst (save_config e c st) = (fst st)\<lparr>peer := c\<rparr>"
  "snd (save_config e c st) = store_peer (v_cfg_e e) (lc_id (fst st)) c (snd st)"
  by (simp_all add: save_config_def)

text \<open>Making the message of options or the request changes nothing but the frame rate asked for.\<close>

definition fps_only :: "login_handler \<Rightarrow> login_handler \<Rightarrow> bool" where
  "fps_only h h' \<longleftrightarrow> (\<exists>f. h' = h\<lparr>custom_fps := f\<rparr>)"

lemma fps_only_refl [simp]: "fps_only h h"
  unfolding fps_only_def by (rule exI [of _ "custom_fps h"]) simp

lemma fps_only_upd [simp]: "fps_only h (h\<lparr>custom_fps := f\<rparr>)"
  unfolding fps_only_def by blast

lemma fps_only_fields:
  assumes "fps_only h h'"
  shows "lc_id h' = lc_id h" "lc_type h' = lc_type h" "lc_salt h' = lc_salt h" "lc_challenge h' = lc_challenge h"
    "lc_password h' = lc_password h" "other_server h' = other_server h" "lc_session_id h' = lc_session_id h"
    "remember h' = remember h" "peer h' = peer h" "password_source h' = password_source h"
    "switch_uuid h' = switch_uuid h" "shared_password h' = shared_password h" "force_relay h' = force_relay h"
  using assms by (auto simp: fps_only_def)

lemma add_quality_state: "add_quality e b c (m, h) = (m', h') \<Longrightarrow> fps_only h h'"
  by (auto simp: add_quality_def Let_def split: option.splits if_splits)

lemma get_option_message_handler: "fps_only (fst st) (fst (snd (get_option_message e b st)))"
proof -
  obtain c files where c: "(if get_image_quality_enum (p_image_quality (peer (fst st))) b = None
        \<and> p_image_quality (peer (fst st)) = ''custom''
      then case load_config e st of (c, st) \<Rightarrow> (c, snd st) else (peer (fst st), snd st)) = (c, files)"
    by (rule prod.exhaust)
  obtain m h where m: "add_quality e b c (no_options, fst st) = (m, h)" by (rule prod.exhaust)
  then have "fps_only (fst st) h" by (rule add_quality_state)
  then show ?thesis
    by (simp add: get_option_message_def Let_def c m)
qed

lemma create_login_msg_request:
  assumes "create_login_msg e u p pw st = (l, st')" and "other_server (fst st) = None"
  shows "lr_username l = lc_id (fst st)" "lr_password l = pw" "lr_session_id l = lc_session_id (fst st)"
    "lc_type (fst st) = DefaultConn \<Longrightarrow> lr_union l = LoginDefault"
    "fps_only (fst st) (fst st')"
proof -
  obtain m s where s: "get_option_message e True st = (m, s)" by (rule prod.exhaust)
  then have f: "fps_only (fst st) (fst s)"
    using get_option_message_handler [of st e True] by simp
  have o: "other_server (fst s) = None" using assms(2) fps_only_fields [OF f] by simp
  show "lr_username l = lc_id (fst st)" "lr_password l = pw" "lr_session_id l = lc_session_id (fst st)"
    "lc_type (fst st) = DefaultConn \<Longrightarrow> lr_union l = LoginDefault"
    "fps_only (fst st) (fst st')"
    using assms(1) s o f fps_only_fields [OF f] by (auto simp: create_login_msg_def Let_def)
qed

text \<open>The messages of the viewer that the host handles before the login.\<close>

definition sent :: "login_env \<Rightarrow> client_out list \<Rightarrow> (login_env \<times> login_event) list" where
  "sent e out = List.map_filter (\<lambda>x. case x of
       SendLogin l \<Rightarrow> Some (e, LoginRequest l)
     | SendSwitch u l \<Rightarrow> Some (e, SwitchSidesResponse (Some l) u)
     | _ \<Rightarrow> None) out"

lemma sent_simps [simp]:
  "sent e [] = []" "sent e (SendLogin l # xs) = (e, LoginRequest l) # sent e xs"
  "sent e (MsgBox a b c d # xs) = sent e xs"
  by (simp_all add: sent_def List.map_filter_simps)

text \<open>The viewer has no password of its own for this host.\<close>

definition no_known_password :: "viewer_env \<Rightarrow> login_handler \<Rightarrow> bool" where
  "no_known_password e h =
     (lc_password h = [] \<and> (shared_password h = None \<or> shared_password h = Some []) \<and> p_password (peer h) = []
      \<and> try_personal_ab e h = None \<and> get_builtin_option (v_cfg e) ''default-connect-password'' = [])"

lemma try_personal_ab_id: "lc_id h = lc_id h' \<Longrightarrow> try_personal_ab e h = try_personal_ab e h'"
  by (simp add: try_personal_ab_def cong: option.case_cong if_cong)

lemma no_password_chosen:
  assumes "no_known_password e h"
  shows "choose_password e [] salt h = ([], h\<lparr>shared_password := None\<rparr>)"
  using assms try_personal_ab_id [of "h\<lparr>shared_password := None\<rparr>" h e]
  by (cases "shared_password h")
    (auto simp: choose_password_def preset_password_def shared_ab_password_def stored_password_def
      personal_ab_password_def default_password_def no_known_password_def Let_def)

lemma asks_for_password:
  assumes "no_known_password v (fst st)" and "lc_type (fst st) = DefaultConn" and "other_server (fst st) = None"
    and "switch_uuid (fst st) = None"
  obtains l st' where "client_handle_hash v [] s ch st =
      ([MsgBox ''input-password'' ''Password Required'' [] [], SendLogin l], st')"
    and "lr_username l = lc_id (fst st)" "lr_password l = []" "lr_union l = LoginDefault"
    and "lc_salt (fst st') = s" "lc_challenge (fst st') = ch" "lc_id (fst st') = lc_id (fst st)"
      "lc_type (fst st') = DefaultConn" "other_server (fst st') = None"
proof -
  define h0 where "h0 = (fst st)\<lparr>lc_salt := s, lc_challenge := ch, switch_uuid := None\<rparr>"
  define h where "h = h0\<lparr>shared_password := None, lc_password := []\<rparr>"
  have "try_personal_ab v h0 = try_personal_ab v (fst st)" by (rule try_personal_ab_id) (simp add: h0_def)
  then have "no_known_password v h0" using assms(1) by (simp add: no_known_password_def h0_def)
  note c = no_password_chosen [OF this, of s]
  obtain l st' where l: "create_login_msg v (lc_option h ''os-username'') (lc_option h ''os-password'') []
      (h, snd st) = (l, st')" by (rule prod.exhaust)
  have h: "other_server h = None" "lc_type h = DefaultConn" "lc_id h = lc_id (fst st)" "lc_salt h = s" "lc_challenge h = ch"
    using assms by (simp_all add: h_def h0_def)
  note r = create_login_msg_request [OF l, simplified, OF h(1)]
  have t: "lc_type (h0\<lparr>shared_password := None\<rparr>) = DefaultConn" using assms by (simp add: h0_def)
  have "Option.bind (switch_uuid (fst st)) (parse_uuid v) = None" using assms(4) by simp
  then have o: "client_handle_hash v [] s ch st =
      ([MsgBox ''input-password'' ''Password Required'' [] [], SendLogin l], st')"
    using l c h(2) by (simp add: client_handle_hash_def Let_def h0_def h_def)
  show ?thesis
    by (rule that [OF o]) (use r h fps_only_fields [OF r(5)] in simp_all)
qed

lemma answers_typed_password:
  assumes "pw \<noteq> []" and "lc_type (fst st) = DefaultConn" and "other_server (fst st) = None"
  obtains l st' where "handle_login_from_ui v u p pw rem st = ([SendLogin l], st')"
    and "lr_username l = lc_id (fst st)" "lr_union l = LoginDefault"
    and "lr_password l = v_sha256 v (v_sha256 v (pw @ lc_salt (fst st)) @ lc_challenge (fst st))"
    and "fps_only ((fst st)\<lparr>password_source := UndefinedSource, remember := rem,
      lc_password := v_sha256 v (pw @ lc_salt (fst st))\<rparr>) (fst st')"
proof -
  define h where "h = (fst st)\<lparr>password_source := UndefinedSource, remember := rem,
      lc_password := v_sha256 v (pw @ lc_salt (fst st))\<rparr>"
  obtain l st' where l: "create_login_msg v u p (v_sha256 v (lc_password h @ lc_challenge h)) (h, snd st) = (l, st')"
    by (rule prod.exhaust)
  have h: "other_server h = None" "lc_type h = DefaultConn" "lc_id h = lc_id (fst st)"
    "lc_password h = v_sha256 v (pw @ lc_salt (fst st))" "lc_challenge h = lc_challenge (fst st)"
    using assms by (simp_all add: h_def)
  note r = create_login_msg_request [OF l, simplified, OF h(1)]
  have o: "handle_login_from_ui v u p pw rem st = ([SendLogin l], st')"
    using l assms(1) h(4,5) by (simp add: handle_login_from_ui_def Let_def h_def)
  show ?thesis
    by (rule that [OF o]) (use r h in \<open>simp_all add: h_def\<close>)
qed


text \<open>A request without a password waits for the local user; nothing that decides about the login changes.\<close>

lemma empty_password_waits:
  assumes "\<not> authorized (fst s)" and "lr_union l = LoginDefault" and "\<not> in_privacy_mode e"
    and "is_ip_str e (lr_username l)" and "\<not> needs_click e (snd s)" and "lr_password l = []"
  obtains c h g where "login_step e (LoginRequest l) s = (True, c, h)"
    and "\<not> authorized c" "hash_salt c = hash_salt (fst s)" "hash_challenge c = hash_challenge (fst s)"
      "conn_ip c = conn_ip (fst s)" "require_2fa (fst s) = None \<longrightarrow> require_2fa c = None"
    and "h = (retain_sessions (now_ms e) (snd s))\<lparr>h_cfg := g\<rparr>" "same_settings (h_cfg (snd s)) g"
proof -
  obtain c h where s: "handle_login_request_without_validation e l s = (c, h)" by (rule prod.exhaust)
  note hs = handle_login_request_state [OF s]
  obtain g where g: "h = (snd s)\<lparr>h_cfg := g\<rparr>" "same_settings (h_cfg (snd s)) g" using hs by blast
  let ?c = "c\<lparr>cm_ipc_started := True\<rparr>" and ?h = "retain_sessions (now_ms e) h"
  have sel: "select_session e l (c, h) = Inr (c, h)"
    using assms(2,3) by (simp add: select_session_def Let_def check_privacy_mode_on_def)
  have cred: "login_step e (LoginRequest l) s = check_password e l (?c, h)"
    using assms(1,4,5) hs sel g by (simp add: on_login_request_def s upd_def check_credentials_def needs_click_same)
  have "is_recent_session e False (?c, h) = (False, ?c, ?h)"
    using is_recent_session_state [of e False "(?c, h)"] is_recent_session_iff [of e False ?c h] assms(6) hs
    by (cases "is_recent_session e False (?c, h)") auto
  then have st: "login_step e (LoginRequest l) s = (True, try_start_cm False (?c, ?h))"
    using cred assms(6) by (simp add: check_password_def)
  have "?h = (retain_sessions (now_ms e) (snd s))\<lparr>h_cfg := g\<rparr>"
    using g by (simp add: retain_sessions_def)
  then show ?thesis
    using that [of "emit (CmLogin False) ?c" ?h g] st hs assms(1) g
    by (simp add: try_start_cm_def upd_def emit_def)
qed

text \<open>
  C10. A viewer that knows no password asks for one, and after the right one-time password was typed
  the host lets it in: the request the viewer builds from the salt and the challenge of the host is
  the one the host expects. Until then the host keeps the viewer waiting.
\<close>

theorem typed_password_logs_in:
  assumes "v_sha256 v = sha256 e" and "\<forall>x. sha256 e x \<noteq> []"
    and "no_known_password v (fst st)" and "lc_type (fst st) = DefaultConn" and "other_server (fst st) = None"
    and "switch_uuid (fst st) = None" and "is_ip_str e (lc_id (fst st))"
    and "\<not> authorized c" and "\<not> in_privacy_mode e" and "\<not> needs_click e h" and "require_2fa c = None"
    and "snd (check_failure (password_failures h) (conn_ip c) (get_time (cfg_e e) div 60000)) = None"
    and "temporary_enabled (h_cfg h)" and "temporary_password h \<noteq> []"
    and "client_handle_hash v [] (hash_salt c) (hash_challenge c) st = (out, st')"
    and "handle_login_from_ui v u p (temporary_password h) rem st' = (out', st'')"
  shows "hd out = MsgBox ''input-password'' ''Password Required'' [] [] \<and>
    \<not> authorized (fst (snd (login_run (sent e out) (c, h)))) \<and>
    fst (login_run (sent e out @ sent e out') (c, h)) \<and>
    authorized (fst (snd (login_run (sent e out @ sent e out') (c, h))))"
proof -
  obtain l s1 where o: "out = [MsgBox ''input-password'' ''Password Required'' [] [], SendLogin l]" "s1 = st'"
    and l: "lr_username l = lc_id (fst st)" "lr_password l = []" "lr_union l = LoginDefault"
    and s1: "lc_salt (fst s1) = hash_salt c" "lc_challenge (fst s1) = hash_challenge c"
      "lc_id (fst s1) = lc_id (fst st)" "lc_type (fst s1) = DefaultConn" "other_server (fst s1) = None"
    using asks_for_password [OF assms(3-6), of "hash_salt c" "hash_challenge c"] assms(15) by (metis prod.inject)
  obtain l' s2 where o': "out' = [SendLogin l']" "s2 = st''"
    and l': "lr_username l' = lc_id (fst s1)" "lr_union l' = LoginDefault"
      "lr_password l' = v_sha256 v (v_sha256 v (temporary_password h @ lc_salt (fst s1)) @ lc_challenge (fst s1))"
    using answers_typed_password [OF assms(14) s1(4,5), of v u p rem] assms(16) o(2) by (metis prod.inject)
  obtain c1 h1 g where r: "login_step e (LoginRequest l) (c, h) = (True, c1, h1)" "\<not> authorized c1"
    "hash_salt c1 = hash_salt c" "hash_challenge c1 = hash_challenge c" "conn_ip c1 = conn_ip c" "require_2fa c1 = None"
    and h1: "h1 = (retain_sessions (now_ms e) h)\<lparr>h_cfg := g\<rparr>" "same_settings (h_cfg h) g"
    using empty_password_waits [of "(c, h)" l e] assms(7-11) l by (auto simp del: login_step.simps)
  have "needs_click e h1 = needs_click e (h\<lparr>h_cfg := g\<rparr>)"
    by (simp add: h1 needs_click_def)
  then have n: "\<not> needs_click e h1" using needs_click_same [OF h1(2)] assms(10) by simp
  have "fst (login_step e (LoginRequest l') (c1, h1)) \<and> authorized (fst (snd (login_step e (LoginRequest l') (c1, h1))))"
    by (rule right_password)
      (use assms(1,2,7,9,12-14) r n l' s1 h1 in \<open>simp_all add: proves_def same_settings_decide [OF h1(2)]\<close>)
  then show ?thesis
    using o o' r by (auto simp del: login_step.simps split: prod.splits bool.splits)
qed


section \<open>A remembered password\<close>

lemma stored_password_chosen:
  assumes "lc_password h = []" and "shared_password h = None" and "p_password (peer h) \<noteq> []"
  shows "choose_password e [] salt h = (p_password (peer h), h\<lparr>password_source := UndefinedSource\<rparr>)"
  using assms
  by (simp add: choose_password_def preset_password_def shared_ab_password_def stored_password_def
      personal_ab_password_def default_password_def)

lemma password_remembered:
  assumes "client_handle_peer_info e p st = (out, st')" and "remember (fst st)" and "lc_password (fst st) \<noteq> []"
    and "\<not> is_shared_ab e (password_source (fst st)) (lc_password (fst st)) (lc_salt (fst st))"
  shows "p_password (peer (fst st')) = lc_password (fst st)"
    and "\<exists>files. snd st' = store_peer (v_cfg_e e) (lc_id (fst st)) (peer (fst st')) files"
  using assms
  by (auto simp: client_handle_peer_info_def Let_def password_to_store_def save_config_def load_config_def
      split: prod.splits if_splits)

lemma initialize_loads:
  assumes "parse_peer_id e i = (rid, r, None)" and "load_peer (v_cfg_e e) (v_default e) rid files = (c, files)"
    and "other_server h = None" and "lc_password h = []"
  obtains h' where "initialize e i DefaultConn None relay None None (h, files) = (h', files)"
    and "peer h' = c" "lc_id h' = rid" "lc_type h' = DefaultConn" "lc_password h' = []" "other_server h' = None"
      "switch_uuid h' = None" "shared_password h' = None"
  using assms by (simp add: initialize_def Let_def load_config_def)

lemma stored_password_sent:
  assumes "lc_password (fst st) = []" and "shared_password (fst st) = None" and "switch_uuid (fst st) = None"
    and "p_password (peer (fst st)) \<noteq> []" and "lc_type (fst st) = DefaultConn" and "other_server (fst st) = None"
  obtains l st' where "client_handle_hash e [] s ch st = ([SendLogin l], st')"
    and "lr_username l = lc_id (fst st)" "lr_union l = LoginDefault"
      "lr_password l = v_sha256 e (p_password (peer (fst st)) @ ch)"
proof -
  define h0 where "h0 = (fst st)\<lparr>lc_salt := s, lc_challenge := ch, switch_uuid := None\<rparr>"
  define h where "h = h0\<lparr>password_source := UndefinedSource, lc_password := p_password (peer (fst st))\<rparr>"
  have c: "choose_password e [] s h0 = (p_password (peer (fst st)), h0\<lparr>password_source := UndefinedSource\<rparr>)"
    using stored_password_chosen [of h0 e s] assms by (simp add: h0_def)
  obtain l st' where l: "create_login_msg e (lc_option h ''os-username'') (lc_option h ''os-password'')
      (v_sha256 e (p_password (peer (fst st)) @ ch)) (h, snd st) = (l, st')" by (rule prod.exhaust)
  have h: "other_server h = None" "lc_type h = DefaultConn" "lc_id h = lc_id (fst st)"
    using assms by (simp_all add: h_def h0_def)
  note r = create_login_msg_request [OF l, simplified, OF h(1)]
  have o: "client_handle_hash e [] s ch st = ([SendLogin l], st')"
    using l c h(2) assms(3,4) by (simp add: client_handle_hash_def Let_def h0_def h_def)
  show ?thesis
    by (rule that [OF o]) (use r h in simp_all)
qed

text \<open>What the file of a host has for a password that can be stored: its box under the key of the machine.\<close>

definition sealed_secret :: "cfg_env \<Rightarrow> string \<Rightarrow> string" where
  "sealed_secret e v = ''00'' @ b64_encode (fns e) (box_seal (fns e) (resize_key (machine_uuid (mach e))) v)"

lemma stored_password_is_sealed:
  assumes "storable_peer e de c" and "p_password c \<noteq> []"
  shows "map_option p_password (store_peer e i c files (peer_path (fns e) i)) = Some (sealed_secret e (p_password c))"
  using assms
  by (simp add: store_peer_def peer_image_def storable_peer_def encrypt_vec_or_original_def encrypt_bytes_def
      symmetric_crypt_def sealed_secret_def Let_def)

text \<open>
  C11. A password the viewer was told to remember logs it in again without asking, the one-time and the
  permanent password alike, as long as the host takes it: after the login the hash of the password is in
  the file of the host, sealed under the key of the machine and not in the open; a new session
  unseals it and answers a new challenge with it, and the host lets the viewer in.
\<close>

theorem remembered_password_logs_in:
  assumes "v_sha256 v = sha256 e" and "\<forall>x. sha256 e x \<noteq> []" and "secret_fns_ok (fns (v_cfg_e v))"
    and "client_handle_peer_info v p st = (out, st')" and "remember (fst st)"
    and "lc_password (fst st) = v_sha256 v (password @ hash_salt c)"
    and "\<not> is_shared_ab v (password_source (fst st)) (lc_password (fst st)) (lc_salt (fst st))"
    and "storable_peer (v_cfg_e v) (v_default v) (peer (fst st'))"
    and "parse_peer_id v i = (lc_id (fst st), r, None)" and "is_ip_str e (lc_id (fst st))"
    and "other_server h0 = None" and "lc_password h0 = []"
    and "\<not> authorized c" and "\<not> in_privacy_mode e" and "\<not> needs_click e h" and "require_2fa c = None"
    and "snd (check_failure (password_failures h) (conn_ip c) (get_time (cfg_e e) div 60000)) = None"
    and "in_use h password" and "password \<noteq> []"
  shows "map_option p_password (snd st' (peer_path (fns (v_cfg_e v)) (lc_id (fst st))))
      = Some (sealed_secret (v_cfg_e v) (v_sha256 v (password @ hash_salt c))) \<and>
    (\<exists>l. fst (client_handle_hash v [] (hash_salt c) (hash_challenge c)
        (initialize v i DefaultConn None relay None None (h0, snd st'))) = [SendLogin l] \<and>
      fst (login_step e (LoginRequest l) (c, h)) \<and> authorized (fst (snd (login_step e (LoginRequest l) (c, h)))))"
proof -
  have pw: "lc_password (fst st) \<noteq> []" using assms(1,2,6) by simp
  note pr = password_remembered [OF assms(4,5) pw assms(7)]
  obtain files where f: "snd st' = store_peer (v_cfg_e v) (lc_id (fst st)) (peer (fst st')) files" using pr(2) by blast
  have stored: "map_option p_password (snd st' (peer_path (fns (v_cfg_e v)) (lc_id (fst st))))
      = Some (sealed_secret (v_cfg_e v) (v_sha256 v (password @ hash_salt c)))"
    using stored_password_is_sealed [OF assms(8), of "lc_id (fst st)" files] pr(1) pw assms(6) by (simp add: f)
  have "load_peer (v_cfg_e v) (v_default v) (lc_id (fst st)) (snd st') = (peer (fst st'), snd st')"
    unfolding f by (rule peer_survives_restart [OF assms(3,8)])
  then obtain h' where h': "initialize v i DefaultConn None relay None None (h0, snd st') = (h', snd st')"
    "peer h' = peer (fst st')" "lc_id h' = lc_id (fst st)" "lc_type h' = DefaultConn" "lc_password h' = []"
    "other_server h' = None" "switch_uuid h' = None" "shared_password h' = None"
    using initialize_loads [OF assms(9) _ assms(11,12)] by metis
  obtain l s2 where l: "client_handle_hash v [] (hash_salt c) (hash_challenge c) (h', snd st') = ([SendLogin l], s2)"
    "lr_username l = lc_id h'" "lr_union l = LoginDefault"
    "lr_password l = v_sha256 v (p_password (peer h') @ hash_challenge c)"
    using stored_password_sent [of "(h', snd st')" v "hash_salt c" "hash_challenge c"] h' pr(1) assms(1,2,6) by auto
  have "fst (login_step e (LoginRequest l) (c, h)) \<and> authorized (fst (snd (login_step e (LoginRequest l) (c, h))))"
    by (rule password_in_use_logs_in [where p = password])
      (use assms l h' pr(1) in \<open>simp_all add: proves_def\<close>)
  then show ?thesis using stored h' l by auto
qed

section \<open>The options the host follows\<close>

definition flag_after :: "bool_option \<Rightarrow> bool \<Rightarrow> bool" where
  "flag_after q old = (if q = UnknownOption \<or> q = NotSet then old else q = Yes)"

lemma flag_after_simps [simp]:
  "flag_after NotSet b = b" "flag_after (yes_no a) b = a" "flag_after (yes_if a) b = (a \<or> b)"
  "flag_after Yes b" "\<not> flag_after No b"
  by (simp_all add: flag_after_def yes_no_def yes_if_def)

record peer_flags =
  g_keyboard_off :: bool
  g_audio_off :: bool
  g_clipboard_off :: bool
  g_files :: bool
  g_cursor :: bool
  g_follow_cursor :: bool
  g_follow_window :: bool
  g_lock :: bool

definition flags_of :: "conn \<Rightarrow> peer_flags" where
  "flags_of c = \<lparr>g_keyboard_off = disable_keyboard c, g_audio_off = disable_audio c,
     g_clipboard_off = disable_clipboard c, g_files = enable_file_transfer c,
     g_cursor = show_remote_cursor c, g_follow_cursor = follow_remote_cursor c,
     g_follow_window = follow_remote_window c, g_lock = lock_after_session_end c\<rparr>"

lemma flags_of_emit [simp]: "flags_of (emit x c) = flags_of c"
  by (simp add: flags_of_def emit_def)

lemma flags_of_subs [simp]:
  "flags_of (fst (sub_audio st)) = flags_of (fst st)"
  by (simp add: sub_audio_def Let_def)

lemma flags_of_options:
  "flags_of (fst (update_image_quality m st)) = flags_of (fst st)"
  "flags_of (fst (update_fps m st)) = flags_of (fst st)"
  "flags_of (fst (update_codec m st)) = flags_of (fst st)"
  "flags_of (fst (update_privacy m st)) = flags_of (fst st)"
  "flags_of (fst (update_block_input m st)) = flags_of (fst st)"
  "flags_of (fst (update_show_my_cursor w b st)) = flags_of (fst st)"
  "flags_of (fst (update_cursor b st)) = (flags_of (fst st))\<lparr>g_cursor := b\<rparr>"
  "flags_of (fst (update_follow_window b st)) = (flags_of (fst st))\<lparr>g_follow_window := b\<rparr>"
  "flags_of (fst (update_audio b st)) = (flags_of (fst st))\<lparr>g_audio_off := b\<rparr>"
  "flags_of (fst (update_file_transfer b st)) = (flags_of (fst st))\<lparr>g_files := b\<rparr>"
  "flags_of (fst (update_clipboard b st)) = (flags_of (fst st))\<lparr>g_clipboard_off := b\<rparr>"
  "flags_of (fst (update_keyboard b st)) = (flags_of (fst st))\<lparr>g_keyboard_off := b\<rparr>"
  by (simp_all add: update_image_quality_def update_fps_def update_codec_def update_privacy_def
      update_block_input_def update_show_my_cursor_def update_cursor_def update_follow_window_def
      update_audio_def update_file_transfer_def update_clipboard_def update_keyboard_def Let_def)
    (simp_all add: flags_of_def)

lemma flags_of_plain:
  "flags_of (c\<lparr>lock_after_session_end := b\<rparr>) = (flags_of c)\<lparr>g_lock := b\<rparr>"
  "flags_of (c\<lparr>follow_remote_cursor := b\<rparr>) = (flags_of c)\<lparr>g_follow_cursor := b\<rparr>"
  "flags_of (c\<lparr>terminal_persistent := b\<rparr>) = flags_of c"
  by (simp_all add: flags_of_def)

lemma flags_of_set_by:
  "flags_of (fst (set_by q (\<lambda>b. upd (\<lambda>c. c\<lparr>lock_after_session_end := b\<rparr>)) st))
    = (flags_of (fst st))\<lparr>g_lock := flag_after q (g_lock (flags_of (fst st)))\<rparr>"
  "flags_of (fst (set_by q (\<lambda>b. upd (\<lambda>c. c\<lparr>follow_remote_cursor := b\<rparr>)) st))
    = (flags_of (fst st))\<lparr>g_follow_cursor := flag_after q (g_follow_cursor (flags_of (fst st)))\<rparr>"
  "flags_of (fst (set_by q (\<lambda>b. upd (\<lambda>c. c\<lparr>terminal_persistent := b\<rparr>)) st)) = flags_of (fst st)"
  "flags_of (fst (set_by q (update_show_my_cursor w) st)) = flags_of (fst st)"
  "flags_of (fst (set_by q update_cursor st))
    = (flags_of (fst st))\<lparr>g_cursor := flag_after q (g_cursor (flags_of (fst st)))\<rparr>"
  "flags_of (fst (set_by q update_follow_window st))
    = (flags_of (fst st))\<lparr>g_follow_window := flag_after q (g_follow_window (flags_of (fst st)))\<rparr>"
  "flags_of (fst (set_by q update_audio st))
    = (flags_of (fst st))\<lparr>g_audio_off := flag_after q (g_audio_off (flags_of (fst st)))\<rparr>"
  "flags_of (fst (set_by q update_file_transfer st))
    = (flags_of (fst st))\<lparr>g_files := flag_after q (g_files (flags_of (fst st)))\<rparr>"
  "flags_of (fst (set_by q update_clipboard st))
    = (flags_of (fst st))\<lparr>g_clipboard_off := flag_after q (g_clipboard_off (flags_of (fst st)))\<rparr>"
  "flags_of (fst (set_by q update_keyboard st))
    = (flags_of (fst st))\<lparr>g_keyboard_off := flag_after q (g_keyboard_off (flags_of (fst st)))\<rparr>"
  by (simp_all add: set_by_def flag_after_def flags_of_options flags_of_plain)

lemma update_options_flags:
  "flags_of (fst (update_options w m st)) =
    \<lparr>g_keyboard_off = flag_after (o_disable_keyboard m) (disable_keyboard (fst st)),
     g_audio_off = flag_after (o_disable_audio m) (disable_audio (fst st)),
     g_clipboard_off = flag_after (o_disable_clipboard m) (disable_clipboard (fst st)),
     g_files = flag_after (o_enable_file_transfer m) (enable_file_transfer (fst st)),
     g_cursor = flag_after (o_show_remote_cursor m) (show_remote_cursor (fst st)),
     g_follow_cursor = flag_after (o_follow_remote_cursor m) (follow_remote_cursor (fst st)),
     g_follow_window = flag_after (o_follow_remote_window m) (follow_remote_window (fst st)),
     g_lock = flag_after (o_lock_after_session_end m) (lock_after_session_end (fst st))\<rparr>"
  by (simp add: update_options_def flags_of_set_by flags_of_options) (simp add: flags_of_def)


definition agrees :: "peer_config \<Rightarrow> conn \<Rightarrow> bool" where
  "agrees p c \<longleftrightarrow> disable_keyboard c = p_view_only p \<and> disable_audio c = p_disable_audio p \<and>
     follow_remote_cursor c = p_follow_remote_cursor p \<and> follow_remote_window c = p_follow_remote_window p \<and>
     (\<not> p_view_only p \<longrightarrow> disable_clipboard c = p_disable_clipboard p \<and>
        enable_file_transfer c = p_enable_file_copy_paste p \<and> show_remote_cursor c = p_show_remote_cursor p \<and>
        lock_after_session_end c = p_lock_after_session_end p)"

definition agrees_flags :: "peer_config \<Rightarrow> peer_flags \<Rightarrow> bool" where
  "agrees_flags p f \<longleftrightarrow> g_keyboard_off f = p_view_only p \<and> g_audio_off f = p_disable_audio p \<and>
     g_follow_cursor f = p_follow_remote_cursor p \<and> g_follow_window f = p_follow_remote_window p \<and>
     (\<not> p_view_only p \<longrightarrow> g_clipboard_off f = p_disable_clipboard p \<and>
        g_files f = p_enable_file_copy_paste p \<and> g_cursor f = p_show_remote_cursor p \<and>
        g_lock f = p_lock_after_session_end p)"

lemma agrees_iff: "agrees p c = agrees_flags p (flags_of c)"
  by (simp add: agrees_def agrees_flags_def flags_of_def)

text \<open>The configuration in use is what the file of the host holds.\<close>

definition in_file :: "viewer_env \<Rightarrow> client_state \<Rightarrow> bool" where
  "in_file e st \<longleftrightarrow> storable_peer (v_cfg_e e) (v_default e) (peer (fst st)) \<and>
     load_config e st = (peer (fst st), st)"

lemma save_config_in_file:
  assumes "secret_fns_ok (fns (v_cfg_e e))" and "storable_peer (v_cfg_e e) (v_default e) c"
  shows "in_file e (save_config e c st)"
  using peer_survives_restart [OF assms, of "lc_id (fst st)" "snd st"] assms(2)
  by (simp add: in_file_def load_config_def save_config_def)

lemma deserialize_flags [simp]:
  "deserialize_peer de (c\<lparr>p_view_only := b\<rparr>) = (deserialize_peer de c)\<lparr>p_view_only := b\<rparr>"
  "deserialize_peer de (c\<lparr>p_show_my_cursor := b\<rparr>) = (deserialize_peer de c)\<lparr>p_show_my_cursor := b\<rparr>"
  "deserialize_peer de (c\<lparr>p_show_remote_cursor := b\<rparr>) = (deserialize_peer de c)\<lparr>p_show_remote_cursor := b\<rparr>"
  "deserialize_peer de (c\<lparr>p_follow_remote_cursor := b\<rparr>) = (deserialize_peer de c)\<lparr>p_follow_remote_cursor := b\<rparr>"
  "deserialize_peer de (c\<lparr>p_follow_remote_window := b\<rparr>) = (deserialize_peer de c)\<lparr>p_follow_remote_window := b\<rparr>"
  "deserialize_peer de (c\<lparr>p_disable_audio := b\<rparr>) = (deserialize_peer de c)\<lparr>p_disable_audio := b\<rparr>"
  "deserialize_peer de (c\<lparr>p_disable_clipboard := b\<rparr>) = (deserialize_peer de c)\<lparr>p_disable_clipboard := b\<rparr>"
  "deserialize_peer de (c\<lparr>p_lock_after_session_end := b\<rparr>) = (deserialize_peer de c)\<lparr>p_lock_after_session_end := b\<rparr>"
  "deserialize_peer de (c\<lparr>p_terminal_persistent := b\<rparr>) = (deserialize_peer de c)\<lparr>p_terminal_persistent := b\<rparr>"
  "deserialize_peer de (c\<lparr>p_enable_file_copy_paste := b\<rparr>) = (deserialize_peer de c)\<lparr>p_enable_file_copy_paste := b\<rparr>"
  "deserialize_peer de (c\<lparr>p_show_quality_monitor := b\<rparr>) = (deserialize_peer de c)\<lparr>p_show_quality_monitor := b\<rparr>"
  "deserialize_peer de (c\<lparr>p_allow_swap_key := b\<rparr>) = (deserialize_peer de c)\<lparr>p_allow_swap_key := b\<rparr>"
  "deserialize_peer de (c\<lparr>p_options := os\<rparr>) = (deserialize_peer de c)\<lparr>p_options := os\<rparr>"
  by (simp_all add: deserialize_peer_def)

lemma storable_flip:
  assumes "storable_peer e de c" and "toggle_flag h c name = Some (c', m)"
  shows "storable_peer e de c'"
proof -
  have d: "deserialize_peer de c = c" using assms(1) by (simp add: storable_peer_def)
  have "deserialize_peer de c' = c' \<and> p_password c' = p_password c \<and> p_options c' = p_options c"
    using assms(2) d
    by (simp add: toggle_flag_def toggle_view_only_def Let_def split: if_splits) auto
  then show ?thesis using assms(1) by (simp add: storable_peer_def)
qed

lemma storable_option:
  assumes "storable_peer e de c"
  shows "storable_peer e de (c\<lparr>p_options := (p_options c)(k := if b then None else Some ''Y'')\<rparr>)"
  using assms by (auto simp: storable_peer_def storable_secret_def is_encrypted_def char_count_def valid_utf8.simps utf8_step_def)

definition flags_after :: "option_message \<Rightarrow> peer_flags \<Rightarrow> peer_flags" where
  "flags_after m f = \<lparr>g_keyboard_off = flag_after (o_disable_keyboard m) (g_keyboard_off f),
     g_audio_off = flag_after (o_disable_audio m) (g_audio_off f),
     g_clipboard_off = flag_after (o_disable_clipboard m) (g_clipboard_off f),
     g_files = flag_after (o_enable_file_transfer m) (g_files f),
     g_cursor = flag_after (o_show_remote_cursor m) (g_cursor f),
     g_follow_cursor = flag_after (o_follow_remote_cursor m) (g_follow_cursor f),
     g_follow_window = flag_after (o_follow_remote_window m) (g_follow_window f),
     g_lock = flag_after (o_lock_after_session_end m) (g_lock f)\<rparr>"


lemma no_options_fields [simp]:
  "o_disable_keyboard no_options = NotSet" "o_disable_audio no_options = NotSet"
  "o_disable_clipboard no_options = NotSet" "o_enable_file_transfer no_options = NotSet"
  "o_show_remote_cursor no_options = NotSet" "o_follow_remote_cursor no_options = NotSet"
  "o_follow_remote_window no_options = NotSet" "o_lock_after_session_end no_options = NotSet"
  by (simp_all add: no_options_def)

lemma toggle_view_only_config:
  "fst (toggle_view_only h c) = c\<lparr>p_view_only := \<not> p_view_only c,
     p_show_my_cursor := (if p_view_only c then False else p_show_my_cursor c)\<rparr>"
  by (simp add: toggle_view_only_def Let_def)

lemma toggle_view_only_message:
  "flags_after (snd (toggle_view_only h c)) f = f\<lparr>g_keyboard_off := \<not> p_view_only c,
     g_clipboard_off := (if p_view_only c then p_disable_clipboard (peer h) else True),
     g_files := (if p_view_only c then p_enable_file_copy_paste (peer h) else False),
     g_cursor := (if p_view_only c then p_show_remote_cursor (peer h) else True),
     g_lock := (if p_view_only c then p_lock_after_session_end (peer h) else False)\<rparr>"
  by (simp add: toggle_view_only_def Let_def flags_after_def get_toggle_option_def)

lemma toggle_view_only_agrees:
  assumes "agrees_flags p f" and "toggle_view_only h p = (p', m)" and "peer h = p"
  shows "agrees_flags p' (flags_after m f)"
  using assms toggle_view_only_config [of h p] toggle_view_only_message [of h p f]
  by (simp add: agrees_flags_def)

lemma if_Some_E:
  assumes "(if b then Some x else y) = Some r"
  obtains "b" "r = x" | "\<not> b" "y = Some r"
  using assms by (auto split: if_splits)

lemma toggle_flag_agrees:
  assumes a: "agrees_flags p f" and t: "toggle_flag h p name = Some (p', m)" and "peer h = p"
  shows "agrees_flags p' (flags_after m f)"
proof (cases "name = ''view-only''")
  case True
  then have "toggle_view_only h p = (p', m)" using assms(2) by (simp add: toggle_flag_def)
  then show ?thesis using toggle_view_only_agrees assms by blast
next
  case False
  note t [unfolded toggle_flag_def Let_def if_not_P [OF False]]
  then show ?thesis
    using a
    by (elim if_Some_E; (simp only: option.distinct)?; (simp only: prod.inject)?; elim conjE; hypsubst;
        simp add: agrees_flags_def flags_after_def)
qed


lemma toggle_option_agrees:
  assumes s: "secret_fns_ok (fns (v_cfg_e e))" and f: "in_file e st" and a: "agrees (peer (fst st)) (fst s)"
    and t: "toggle_option e name st = (m, st')"
  shows "in_file e st' \<and> agrees (peer (fst st'))
    (fst (case m of Some m \<Rightarrow> update_options w m s | None \<Rightarrow> s))"
proof -
  have l: "load_config e st = (peer (fst st), st)" and ok: "storable_peer (v_cfg_e e) (v_default e) (peer (fst st))"
    using f by (simp_all add: in_file_def)
  have a': "agrees_flags (peer (fst st)) (flags_of (fst s))" using a by (simp add: agrees_iff)
  have after: "flags_of (fst (update_options w m s)) = flags_after m (flags_of (fst s))" for m
    unfolding update_options_flags flags_after_def by (simp add: flags_of_def)
  show ?thesis
  proof (cases "toggle_flag (fst st) (peer (fst st)) name")
    case None
    then have m: "m = None" and st': "st' = save_config e ((peer (fst st))\<lparr>p_options :=
        (p_options (peer (fst st)))(name := if lc_option (fst st) name \<noteq> [] then None else Some ''Y'')\<rparr>) st"
      using t l by (simp_all add: toggle_option_def Let_def)
    have "in_file e st'" unfolding st' by (rule save_config_in_file [OF s storable_option [OF ok]])
    moreover have "agrees (peer (fst st')) (fst s)" using a by (simp add: st' agrees_def)
    ultimately show ?thesis by (simp add: m)
  next
    case (Some r)
    obtain c m' where r: "r = (c, m')" by (rule prod.exhaust)
    have m: "m = Some m'" and st': "st' = (if contains_str name ''block-input'' then st else save_config e c st)"
      using t l Some r by (simp_all add: toggle_option_def)
    note g = toggle_flag_agrees [OF a' Some [unfolded r] refl]
    have fl: "in_file e (save_config e c st)"
      by (rule save_config_in_file [OF s storable_flip [OF ok Some [unfolded r]]])
    show ?thesis
    proof (cases "contains_str name ''block-input''")
      case True
      from Some [unfolded r toggle_flag_def Let_def] True have "c = peer (fst st)"
        by (elim if_Some_E; simp)
      with True f g show ?thesis by (simp add: m st' agrees_iff after)
    next
      case False
      then show ?thesis using g fl by (simp add: m st' agrees_iff after)
    qed
  qed
qed


fun toggles :: "viewer_env \<Rightarrow> bool \<Rightarrow> string list \<Rightarrow> client_state \<times> state \<Rightarrow> client_state \<times> state" where
  "toggles e w [] x = x"
| "toggles e w (n # ns) (st, s) =
     (case toggle_option e n st of
        (m, st) \<Rightarrow> toggles e w ns (st, case m of Some m \<Rightarrow> update_options w m s | None \<Rightarrow> s))"

lemma toggles_agree:
  assumes "secret_fns_ok (fns (v_cfg_e e))" and "in_file e st" and "agrees (peer (fst st)) (fst s)"
    and "toggles e w names (st, s) = (st', s')"
  shows "in_file e st' \<and> agrees (peer (fst st')) (fst s')"
  using assms(2-4)
proof (induction names arbitrary: st s)
  case (Cons n ns)
  obtain m st1 where t: "toggle_option e n st = (m, st1)" by (rule prod.exhaust)
  show ?case
    using Cons.prems(3) t toggle_option_agrees [OF assms(1) Cons.prems(1,2) t, of w]
    by (intro Cons.IH [of st1 "case m of Some m \<Rightarrow> update_options w m s | None \<Rightarrow> s"]) auto
qed simp

lemma login_options_agree:
  assumes "get_option_message e b st = (Some m, st')" and "in_file e st" and "lc_type (fst st) = DefaultConn"
    and "flags_of (fst s) = \<lparr>g_keyboard_off = False, g_audio_off = False, g_clipboard_off = False,
       g_files = False, g_cursor = False, g_follow_cursor = False, g_follow_window = False, g_lock = False\<rparr>"
  shows "in_file e st' \<and> agrees (peer (fst st')) (fst (update_options w m s))"
proof -
  let ?p = "peer (fst st)"
  have l: "load_config e st = (?p, st)" using assms(2) by (simp add: in_file_def)
  obtain m1 h where q: "add_quality e b ?p (no_options, fst st) = (m1, h)" by (rule prod.exhaust)
  have h: "fps_only (fst st) h" by (rule add_quality_state [OF q])
  have o: "get_toggle_option h = get_toggle_option (fst st)"
    using h by (auto simp: fun_eq_iff get_toggle_option_def lc_option_def fps_only_fields)
  let ?on = "get_toggle_option (fst st)"
  have c: "(if P then case load_config e st of (c, st) \<Rightarrow> (c, snd st) else (?p, snd st)) = (?p, snd st)" for P
    by (simp add: l)
  have m: "o_disable_keyboard m = yes_if (?on ''view-only'')" "o_disable_audio m = yes_if (?on ''disable-audio'')"
    "o_disable_clipboard m = yes_if (?on ''view-only'' \<or> ?on ''disable-clipboard'')"
    "o_enable_file_transfer m = yes_if (\<not> ?on ''view-only'' \<and> ?on ''enable-file-copy-paste'')"
    "o_show_remote_cursor m = yes_if (?on ''view-only'' \<or> ?on ''show-remote-cursor'')"
    "o_follow_remote_cursor m = yes_if (?on ''follow-remote-cursor'')"
    "o_follow_remote_window m = yes_if (?on ''follow-remote-window'')"
    "o_lock_after_session_end m = yes_if (\<not> ?on ''view-only'' \<and> ?on ''lock-after-session-end'')"
    and st': "st' = (h, snd st)"
    using assms(1,3) unfolding get_option_message_def Let_def c prod.case q o by auto
  have on: "?on ''view-only'' = p_view_only ?p" "?on ''disable-audio'' = p_disable_audio ?p"
    "?on ''disable-clipboard'' = p_disable_clipboard ?p" "?on ''enable-file-copy-paste'' = p_enable_file_copy_paste ?p"
    "?on ''show-remote-cursor'' = p_show_remote_cursor ?p" "?on ''follow-remote-cursor'' = p_follow_remote_cursor ?p"
    "?on ''follow-remote-window'' = p_follow_remote_window ?p"
    "?on ''lock-after-session-end'' = p_lock_after_session_end ?p"
    by (simp_all add: get_toggle_option_def)
  have "agrees_flags ?p (flags_after m (flags_of (fst s)))"
    by (simp add: agrees_flags_def flags_after_def m on assms(4))
  moreover have "flags_of (fst (update_options w m s)) = flags_after m (flags_of (fst s))"
    unfolding update_options_flags flags_after_def by (simp add: flags_of_def)
  moreover have "in_file e st'"
    using assms(2) h
    by (cases st) (auto simp: in_file_def st' load_config_def fps_only_fields split: prod.splits)
  ultimately show ?thesis using h by (simp add: agrees_iff st' fps_only_fields)
qed

text \<open>
  C12. The host follows the switches of the viewer: after the options of the login and any sequence
  of toggles, the host ignores keyboard and mouse exactly if the viewer shows view-only mode, and
  outside that mode audio, clipboard, file copies, the remote cursor and the lock at the end of the
  session are set on the host as the viewer shows and has stored them.
\<close>

theorem viewer_and_host_agree:
  assumes "secret_fns_ok (fns (v_cfg_e e))" and "in_file e st" and "lc_type (fst st) = DefaultConn"
    and "get_option_message e b st = (Some m, st0)"
    and "toggles e w names (st0, update_options w m (connection_new g i ip hash totp cp, h)) = (st', s')"
  shows "agrees (peer (fst st')) (fst s') \<and> fst (load_config e st') = peer (fst st')"
proof -
  have "in_file e st0 \<and> agrees (peer (fst st0)) (fst (update_options w m (connection_new g i ip hash totp cp, h)))"
    by (rule login_options_agree [OF assms(4,2,3)]) (simp add: flags_of_def connection_new_def)
  then have "in_file e st' \<and> agrees (peer (fst st')) (fst s')" using toggles_agree [OF assms(1)] assms(5) by blast
  then show ?thesis by (simp add: in_file_def)
qed

section \<open>A viewer at work\<close>

definition demo_defaults :: default_env where
  "demo_defaults = \<lparr>d_cfg = fresh_cfg demo_env, show_f64 = (\<lambda>v lo hi. None), trunc_f64 = (\<lambda>s. None)\<rparr>"

definition demo_viewer :: viewer_env where
  "demo_viewer = \<lparr>v_cfg_e = demo_env, v_default = demo_defaults, v_cfg = fresh_cfg demo_env,
     v_sha256 = (\<lambda>s. CHR ''#'' # s), ab_personal = ([], None), parse_uuid = (\<lambda>s. None),
     parse_token = (\<lambda>s. None), remote_dirs = (\<lambda>s. None), show_dirs = (\<lambda>m. ''{}''), random_id = 5,
     my_id = ''77'', v_server = ''rs'', my_name = ''pc'', my_platform = ''Linux'', my_version = ''1.4.0'',
     hwid = ''h1'', direct_only = True, relay_anyway = False, public_server = False,
     terminal_admin_env = False, terminal_user_env = []\<rparr>"

definition demo_handler :: login_handler where
  "demo_handler = \<lparr>lc_id = ''10.0.0.7'', lc_type = DefaultConn, is_terminal_admin = False, lc_salt = [],
     lc_challenge = [], lc_password = [], remember = False, peer = default_peer demo_defaults,
     port_forward = ([], 0), peer_version = 0, lc_session_id = 5, force_relay = False, direct = None,
     received = False, switch_uuid = None, other_server = None, custom_fps = None,
     password_source = UndefinedSource, shared_password = None, record_state = False, record_permission = True\<rparr>"

lemma fresh_after [simp]: "get_after (fresh_cfg e) k = None"
  by (simp add: get_after_def get_or_def fresh_cfg_def)

lemma demo_numbers:
  "default_number demo_defaults ''edge-scroll-edge-thickness'' = 100" "default_number demo_defaults ''trackpad-speed'' = 100"
  "default_custom_image_quality demo_defaults = [50]"
  by (simp_all add: default_number_def default_custom_image_quality_def get_num_string_def user_default_read_def user_default_get_def
      get_num_string_def demo_defaults_def)

lemma demo_default_storable: "storable_peer demo_env demo_defaults (default_peer demo_defaults)"
  using demo_numbers
  by (auto simp: storable_peer_def default_peer_def deserialize_peer_def or_default_def default_peer_options_def
      secret_options_def is_encrypted_def)

lemma demo_in_file: "in_file demo_viewer (demo_handler, Map.empty)"
  using demo_default_storable
  by (simp add: in_file_def load_config_def load_peer_def demo_viewer_def demo_handler_def)

theorem viewer_and_host_agree_witness:
  "\<exists>m st0 st' s'. get_option_message demo_viewer True (demo_handler, Map.empty) = (Some m, st0) \<and>
     toggles demo_viewer True [''view-only'', ''disable-audio'']
       (st0, update_options True m (demo_conn, demo_host)) = (st', s') \<and> agrees (peer (fst st')) (fst s')"
proof -
  have t: "lc_type demo_handler = DefaultConn" by (simp add: demo_handler_def)
  obtain m st0 where m: "get_option_message demo_viewer True (demo_handler, Map.empty) = (Some m, st0)"
    by (cases "get_option_message demo_viewer True (demo_handler, Map.empty)")
      (auto simp: get_option_message_def t Let_def split: prod.splits)
  obtain st' s' where r: "toggles demo_viewer True [''view-only'', ''disable-audio'']
      (st0, update_options True m (demo_conn, demo_host)) = (st', s')" by (rule prod.exhaust)
  have "secret_fns_ok (fns (v_cfg_e demo_viewer))" by (simp add: demo_viewer_def demo_env_def demo_fns_ok)
  then have "agrees (peer (fst st')) (fst s')"
    using viewer_and_host_agree [OF _ demo_in_file _ m r [unfolded demo_conn_def]] t by simp
  then show ?thesis using m r by blast
qed

theorem typed_password_logs_in_witness:
  "\<exists>out st' out' st''.
     client_handle_hash demo_viewer [] ''salt'' ''challenge'' (demo_handler, Map.empty) = (out, st') \<and>
     handle_login_from_ui demo_viewer [] [] ''tmp123'' False st' = (out', st'') \<and>
     authorized (fst (snd (login_run (sent demo_login_env out @ sent demo_login_env out') (demo_conn, open_host))))"
proof -
  obtain out st' where o: "client_handle_hash demo_viewer [] ''salt'' ''challenge'' (demo_handler, Map.empty) = (out, st')"
    by (rule prod.exhaust)
  obtain out' st'' where o': "handle_login_from_ui demo_viewer [] [] ''tmp123'' False st' = (out', st'')"
    by (rule prod.exhaust)
  have "no_known_password demo_viewer demo_handler"
    by (simp add: no_known_password_def demo_handler_def default_peer_def try_personal_ab_def demo_viewer_def
        get_builtin_option_def fresh_cfg_def get_local_option_def get_or_def fresh_local_def)
  then show ?thesis
    using typed_password_logs_in [of demo_viewer demo_login_env "(demo_handler, Map.empty)" demo_conn open_host
        out st' "[]" "[]" False out' st'']
      o o' open_host_settings demo_login_conn
    by (simp add: demo_handler_def demo_login_env_def demo_viewer_def check_failure_def get_failure_def
        get_ipv6_prefixes_def)
qed


definition logged_in_handler :: login_handler where
  "logged_in_handler = demo_handler\<lparr>remember := True, lc_password := ''#tmp123salt'', lc_salt := ''salt''\<rparr>"

definition demo_peer_info :: peer_info where
  "demo_peer_info = \<lparr>pi_username = ''ann'', pi_hostname = ''desk'', pi_platform = ''Linux'', pi_version = ''1.4.0''\<rparr>"

lemma demo_saved_storable:
  "storable_peer demo_env demo_defaults (peer (fst (snd
     (client_handle_peer_info demo_viewer demo_peer_info (logged_in_handler, Map.empty)))))"
proof -
  have d: "deserialize_peer demo_defaults (default_peer demo_defaults) = default_peer demo_defaults"
    using demo_default_storable by (simp add: storable_peer_def)
  have l: "load_config demo_viewer ((logged_in_handler\<lparr>peer_version := v\<rparr>), Map.empty)
      = (default_peer demo_defaults, logged_in_handler\<lparr>peer_version := v\<rparr>, Map.empty)" for v
    by (simp add: load_config_def load_peer_def demo_viewer_def)
  have p: "password_to_store demo_viewer (logged_in_handler\<lparr>peer_version := v\<rparr>) x = ''#tmp123salt''" for v x
    by (simp add: password_to_store_def logged_in_handler_def demo_handler_def is_shared_ab_def)
  have o: "session_options (logged_in_handler\<lparr>peer_version := v\<rparr>) os = os" for v os
    by (simp add: session_options_def logged_in_handler_def demo_handler_def)
  have s: "deserialize_peer demo_defaults ((default_peer demo_defaults)\<lparr>p_info := i, p_password := w, p_keyboard_mode := a\<rparr>)
      = (default_peer demo_defaults)\<lparr>p_info := i, p_password := w, p_keyboard_mode := a\<rparr>" for a i w
  proof -
    have "deserialize_peer demo_defaults ((default_peer demo_defaults)\<lparr>p_info := i, p_password := w, p_keyboard_mode := a\<rparr>)
      = (deserialize_peer demo_defaults (default_peer demo_defaults))\<lparr>p_info := i, p_password := w, p_keyboard_mode := a\<rparr>"
      by (simp add: deserialize_peer_def)
    then show ?thesis by (simp add: d)
  qed
  have "pi_version demo_peer_info \<noteq> []" by (simp add: demo_peer_info_def)
  then show ?thesis
    using demo_default_storable
    by (auto simp: client_handle_peer_info_def Let_def l p o storable_peer_def s is_encrypted_def)
qed

text \<open>Another host, which takes its permanent password only.\<close>

definition permanent_host :: host where
  "permanent_host = open_host\<lparr>temporary_password := ''other'',
     h_cfg := (h_cfg open_host)\<lparr>config := (config (h_cfg open_host))\<lparr>cfg_password := ''tmp123''\<rparr>\<rparr>\<rparr>"

lemma permanent_host_settings:
  "in_use permanent_host ''tmp123''" "\<not> needs_click demo_login_env permanent_host"
  "password_failures permanent_host = Map.empty" "temporary_password permanent_host \<noteq> ''tmp123''"
  by (simp_all add: permanent_host_def in_use_def permanent_enabled_def verification_method_def needs_click_def
      approve_mode_def has_valid_password_def get_permanent_password_def open_host_def demo_host_def get_option_def
      get_or_def fresh_cfg_def fresh_config2_def temporary_enabled_def Let_def)

theorem remembered_password_logs_in_witness:
  "\<exists>l. fst (client_handle_hash demo_viewer [] ''salt'' ''challenge''
        (initialize demo_viewer ''10.0.0.7'' DefaultConn None False None None (demo_handler,
           snd (snd (client_handle_peer_info demo_viewer demo_peer_info (logged_in_handler, Map.empty)))))) = [SendLogin l] \<and>
     authorized (fst (snd (login_step demo_login_env (LoginRequest l) (demo_conn, permanent_host))))"
proof -
  obtain out st' where o: "client_handle_peer_info demo_viewer demo_peer_info (logged_in_handler, Map.empty) = (out, st')"
    by (rule prod.exhaust)
  show ?thesis
    using remembered_password_logs_in [of demo_viewer demo_login_env demo_peer_info "(logged_in_handler, Map.empty)"
        out st' "''tmp123''" demo_conn "''10.0.0.7''" False demo_handler permanent_host False]
      o demo_saved_storable permanent_host_settings demo_login_conn demo_fns_ok
    by (auto simp: logged_in_handler_def demo_handler_def demo_viewer_def demo_login_env_def demo_env_def
        is_shared_ab_def parse_peer_id_def handle_relay_id_def check_failure_def get_failure_def get_ipv6_prefixes_def)
qed

end
