(* ===== verification/Float32.thy ===== *)
theory Float32
  imports Prelude "HOL-Library.Log_Nat"
begin

text \<open>
  The single-precision arithmetic (\<open>f32\<close>) of the program on numbers that are not negative: a value
  is a rational with at most 24 significant binary digits, and an operation rounds its exact result
  to the nearest such number, to the one with an even last digit in the middle between two.
  The program stays far from the smallest and the largest exponent, so neither underflow nor
  infinity is modelled.
\<close>

section \<open>Rounding\<close>

definition exponent :: "rat \<Rightarrow> int" where
  "exponent x =
     (case quotient_of x of (p, q) \<Rightarrow>
        let k = bitlen p - bitlen q in if x < 2 powi k then k - 1 else k)"

definition ulp :: "rat \<Rightarrow> rat" where
  "ulp x = 2 powi (exponent x - 23)"

definition half_even :: "rat \<Rightarrow> int" where
  "half_even y =
     (let n = \<lfloor>y\<rfloor>; d = y - of_int n in
      if d < 1 / 2 then n else if d > 1 / 2 then n + 1 else if even n then n else n + 1)"

definition rnd :: "rat \<Rightarrow> rat" where
  "rnd x = (if x \<le> 0 then 0 else of_int (half_even (x / ulp x)) * ulp x)"

text \<open>\<open>x as u32\<close>: towards zero, and at most the largest value.\<close>

definition to_u32 :: "rat \<Rightarrow> nat" where
  "to_u32 x = min (nat \<lfloor>x\<rfloor>) (2 ^ 32 - 1)"

text \<open>\<open>f32::clamp\<close> panics when the limits are out of order.\<close>

definition clamp_f32 :: "rat \<Rightarrow> rat \<Rightarrow> rat \<Rightarrow> rat option" where
  "clamp_f32 x lo hi = (if hi < lo then None else Some (if x < lo then lo else if hi < x then hi else x))"

section \<open>The exponent\<close>

lemma bitlen_rat: "p > 0 \<Longrightarrow> (2::rat) powi (bitlen p - 1) \<le> of_int p \<and> of_int p < (2::rat) powi bitlen p"
proof -
  assume p: "p > 0"
  have b: "1 \<le> bitlen p" using p by (simp add: bitlen_alt_def)
  have "2 ^ nat (bitlen p - 1) \<le> p" "p < 2 ^ nat (bitlen p)" using bitlen_bounds [OF p] by simp_all
  then have "rat_of_int (2 ^ nat (bitlen p - 1)) \<le> of_int p" "rat_of_int p < of_int (2 ^ nat (bitlen p))"
    by (simp_all only: of_int_le_iff of_int_less_iff)
  then show ?thesis using b by (simp add: power_int_def)
qed

lemma exponent_bounds:
  assumes "x > 0"
  shows "2 powi exponent x \<le> x" and "x < 2 powi (exponent x + 1)"
proof -
  obtain p q where q: "quotient_of x = (p, q)" by fastforce
  have pq: "q > 0" "p > 0" "x = of_int p / of_int q"
    using quotient_of_denom_pos [OF q] quotient_of_div [OF q] assms by (auto simp: zero_less_divide_iff)
  let ?k = "bitlen p - bitlen q"
  note bp = bitlen_rat [OF pq(2)] and bq = bitlen_rat [OF pq(1)]
  have e: "(2::rat) powi (?k + 1) * 2 powi (bitlen q - 1) = 2 powi bitlen p"
    "(2::rat) powi (?k - 1) * 2 powi bitlen q = 2 powi (bitlen p - 1)"
    by (simp_all flip: power_int_add)
  have qp: "0 < rat_of_int q" using pq by simp
  have "(2::rat) powi (?k + 1) * 2 powi (bitlen q - 1) \<le> 2 powi (?k + 1) * of_int q"
    using bq by (intro mult_left_mono) auto
  then have "of_int p < 2 powi (?k + 1) * rat_of_int q" using e(1) bp by simp
  then have up: "x < 2 powi (?k + 1)" using qp by (simp add: pq(3) divide_less_eq)
  have "2 powi (?k - 1) * rat_of_int q < (2::rat) powi (?k - 1) * 2 powi bitlen q"
    using bq by (intro mult_strict_left_mono) auto
  then have "2 powi (?k - 1) * rat_of_int q \<le> of_int p" using e(2) bp by simp
  then have lo: "2 powi (?k - 1) \<le> x" using qp by (simp add: pq(3) le_divide_eq)
  show "2 powi exponent x \<le> x" "x < 2 powi (exponent x + 1)"
    using up lo by (auto simp: exponent_def q Let_def)
qed

lemma exponent_unique:
  assumes "2 powi k \<le> x" and "x < 2 powi (k + 1)"
  shows "exponent x = k"
proof -
  have x: "x > 0" using assms(1) by (rule order.strict_trans2 [rotated]) simp
  have "2 powi k < (2::rat) powi (exponent x + 1)" "2 powi exponent x < (2::rat) powi (k + 1)"
    using assms exponent_bounds [OF x] by simp_all
  then have "k < exponent x + 1" "exponent x < k + 1"
    by (metis not_less one_le_numeral power_int_increasing)+
  then show ?thesis by simp
qed

section \<open>Error and exact results\<close>

lemma ulp_pos [simp]: "0 < ulp x"
  by (simp add: ulp_def)

lemma half_even_error: "\<bar>of_int (half_even y) - y\<bar> \<le> 1 / 2"
  using of_int_floor_le [of y] floor_correct [of y] by (auto simp: half_even_def Let_def abs_le_iff)

lemma half_even_floor: "\<lfloor>y\<rfloor> \<le> half_even y" "half_even y \<le> \<lfloor>y\<rfloor> + 1"
  by (simp_all add: half_even_def Let_def)

lemma half_even_int [simp]: "half_even (of_int n) = n"
  by (simp add: half_even_def)

lemma scaled_bounds:
  assumes "x > 0"
  shows "2 ^ 23 \<le> x / ulp x" and "x / ulp x < 2 ^ 24"
proof -
  have "(2::rat) powi (exponent x) = 2 ^ 23 * ulp x" "(2::rat) powi (exponent x + 1) = 2 ^ 24 * ulp x"
    by (simp_all add: ulp_def power_int_diff power_int_add)
  then show "2 ^ 23 \<le> x / ulp x" "x / ulp x < 2 ^ 24"
    using exponent_bounds [OF assms] by (simp_all add: le_divide_eq divide_less_eq)
qed

lemma rnd_error:
  assumes "0 \<le> x"
  shows "\<bar>rnd x - x\<bar> \<le> x / 2 ^ 24"
proof (cases "x = 0")
  case False
  then have x: "x > 0" using assms by simp
  have "rnd x - x = (of_int (half_even (x / ulp x)) - x / ulp x) * ulp x"
    using x ulp_pos [of x] by (simp add: rnd_def left_diff_distrib del: ulp_pos)
  then have "\<bar>rnd x - x\<bar> \<le> 1 / 2 * ulp x"
    using mult_right_mono [OF half_even_error [of "x / ulp x"], of "ulp x"] ulp_pos [of x]
    by (simp only: abs_mult abs_of_pos less_imp_le)
  moreover have "2 ^ 23 * ulp x \<le> x" using scaled_bounds(1) [OF x] by (simp add: le_divide_eq)
  ultimately show ?thesis by simp
qed (simp add: rnd_def)

lemma rnd_lower: "0 \<le> x \<Longrightarrow> x - x / 2 ^ 24 \<le> rnd x"
  using rnd_error [of x] unfolding abs_le_iff by linarith

lemma rnd_upper: "0 \<le> x \<Longrightarrow> rnd x \<le> x + x / 2 ^ 24"
  using rnd_error [of x] unfolding abs_le_iff by linarith

lemma rnd_nonneg [simp]: "0 \<le> rnd x"
proof (cases "x > 0")
  case True
  then show ?thesis using rnd_lower [of x] by simp
qed (simp add: rnd_def)

lemma rnd_zero [simp]: "rnd 0 = 0"
  by (simp add: rnd_def)

text \<open>A number with few enough digits is not changed.\<close>

lemma rnd_exact:
  assumes "0 < n" and "n < 2 ^ 24"
  shows "rnd (of_int n * 2 powi e) = of_int n * 2 powi e"
proof -
  let ?x = "rat_of_int n * 2 powi e"
  have x: "?x > 0" using assms by simp
  define k where "k = bitlen n"
  have k: "1 \<le> k" "k \<le> 24"
    using assms bitlen_le_iff_power [of n 24] by (simp_all add: k_def bitlen_alt_def)
  have b: "2 powi (k - 1) \<le> rat_of_int n" "rat_of_int n < 2 powi k"
    using bitlen_rat [OF assms(1)] by (simp_all add: k_def)
  have "exponent ?x = k - 1 + e"
  proof (rule exponent_unique)
    have "(2::rat) powi (k - 1 + e) = 2 powi (k - 1) * 2 powi e" by (simp add: power_int_add)
    then show "2 powi (k - 1 + e) \<le> ?x" using b(1) by simp
    have "(2::rat) powi (k - 1 + e + 1) = 2 powi k * 2 powi e" by (simp flip: power_int_add)
    then show "?x < 2 powi (k - 1 + e + 1)" using b(2) by simp
  qed
  then have "ulp ?x = 2 powi (k + e - 24)" by (simp add: ulp_def ac_simps)
  moreover have "(2::rat) powi e = 2 powi (24 - k) * 2 powi (k + e - 24)" by (simp flip: power_int_add)
  moreover have "(2::rat) powi (24 - k) = of_int (2 ^ nat (24 - k))" using k by (simp add: power_int_def)
  ultimately have q: "?x / ulp ?x = of_int (n * 2 ^ nat (24 - k))" by simp
  then have "half_even (?x / ulp ?x) = n * 2 ^ nat (24 - k)" by (simp only: half_even_int)
  then have "rnd ?x = of_int (n * 2 ^ nat (24 - k)) * ulp ?x" using x by (simp add: rnd_def)
  also have "\<dots> = ?x" unfolding q [symmetric] using ulp_pos [of ?x] by (metis less_irrefl nonzero_eq_divide_eq)
  finally show ?thesis .
qed


lemma rnd_rnd [simp]: "rnd (rnd x) = rnd x"
proof (cases "x > 0")
  case True
  define n where "n = half_even (x / ulp x)"
  have r: "rnd x = of_int n * ulp x" using True by (simp add: rnd_def n_def)
  have f: "8388608 \<le> \<lfloor>x / ulp x\<rfloor>" "\<lfloor>x / ulp x\<rfloor> < 16777216"
    using scaled_bounds [OF True] by (simp_all add: le_floor_iff floor_less_iff)
  have fl: "\<lfloor>x / ulp x\<rfloor> \<le> n" "n \<le> \<lfloor>x / ulp x\<rfloor> + 1" using half_even_floor [of "x / ulp x"] by (simp_all add: n_def)
  have n1: "0 < n" using f(1) fl(1) by linarith
  have n2: "n \<le> 16777216" using f(2) fl(2) by linarith
  show ?thesis
  proof (cases "n = 16777216")
    case True
    have "rnd x = of_int (2 ^ 23) * 2 powi (exponent x - 22)"
      using True by (simp add: r ulp_def power_int_diff)
    then show ?thesis using rnd_exact [of "2 ^ 23" "exponent x - 22"] by simp
  next
    case False
    then show ?thesis using n1 n2 rnd_exact [of n "exponent x - 23"] by (simp add: r ulp_def)
  qed
qed (simp add: rnd_def)

lemma clamp_f32_bounds: "clamp_f32 x lo hi = Some y \<Longrightarrow> lo \<le> y \<and> y \<le> hi"
  by (auto simp: clamp_f32_def split: if_splits)

lemma clamp_f32_total: "lo \<le> hi \<Longrightarrow> \<exists>y. clamp_f32 x lo hi = Some y \<and> lo \<le> y \<and> y \<le> hi"
  by (auto simp: clamp_f32_def)

end
