(* ===== verification/VideoQos.thy ===== *)
theory VideoQos
  imports ClientLogin Float32
begin

text \<open>
  The control of frame rate and bitrate of the host (\<open>src/server/video_qos.rs\<close>): what it knows of
  each viewer and display, the estimate of the round trip, and how both rates follow the delays that
  the viewers report. Times are milliseconds of one clock. The users and displays are lists in the
  order in which the hash maps are traversed. An operation that panics gives \<open>None\<close>.
\<close>

section \<open>Constants\<close>

abbreviation "FPS \<equiv> (30 :: nat)"
abbreviation "MIN_FPS \<equiv> (1 :: nat)"
abbreviation "MAX_FPS \<equiv> (120 :: nat)"
abbreviation "INIT_FPS \<equiv> (15 :: nat)"
abbreviation "HISTORY_DELAY_LEN \<equiv> (2 :: nat)"
abbreviation "ADJUST_RATIO_INTERVAL \<equiv> (3 :: nat)"
abbreviation "DYNAMIC_SCREEN_THRESHOLD \<equiv> (2 :: nat)"
abbreviation "DELAY_THRESHOLD_150MS \<equiv> (150 :: nat)"

definition BR_BEST :: rat where "BR_BEST = 3 / 2"
definition BR_BALANCED :: rat where "BR_BALANCED = rnd (67 / 100)"
definition BR_SPEED :: rat where "BR_SPEED = 1 / 2"
definition BR_MAX :: rat where "BR_MAX = 40"
definition BR_MIN :: rat where "BR_MIN = rnd (2 / 10)"
definition BR_MIN_HIGH_RESOLUTION :: rat where "BR_MIN_HIGH_RESOLUTION = rnd (1 / 10)"
definition MAX_BR_MULTIPLE :: rat where "MAX_BR_MULTIPLE = 1"

definition wrap32 :: "nat \<Rightarrow> nat" where
  "wrap32 n = n mod 2 ^ 32"

abbreviation f32 :: "nat \<Rightarrow> rat" where
  "f32 n \<equiv> rnd (of_nat n)"

definition clamp_u32 :: "nat \<Rightarrow> nat \<Rightarrow> nat \<Rightarrow> nat" where
  "clamp_u32 x lo hi = (if x < lo then lo else if hi < x then hi else x)"

section \<open>Quality\<close>

datatype quality = QBest | QBalanced | QLow | QCustom rat

definition is_custom :: "quality \<Rightarrow> bool" where
  "is_custom q = (case q of QCustom b \<Rightarrow> True | _ \<Rightarrow> False)"

definition quality_ratio :: "quality \<Rightarrow> rat" where
  "quality_ratio q =
     (case q of QBest \<Rightarrow> BR_BEST | QBalanced \<Rightarrow> BR_BALANCED | QLow \<Rightarrow> BR_SPEED | QCustom b \<Rightarrow> b)"

definition convert_quality :: "int \<Rightarrow> quality option" where
  "convert_quality q =
     (if q = image_quality_value Balanced then Some QBalanced
      else if q = image_quality_value Low then Some QLow
      else if q = image_quality_value Best then Some QBest
      else
        let b = rnd (f32 (nat (q div 256 mod 4096 * 2)) / 100)
        in map_option QCustom (clamp_f32 b BR_MIN BR_MAX))"

section \<open>Round trip\<close>

record rtt_calculator =
  min_rtt :: "nat option"
  window_min_rtt :: "nat option"
  smoothed_rtt :: "nat option"
  samples :: "nat list"

abbreviation "WINDOW_SAMPLES \<equiv> (60 :: nat)"
abbreviation "MIN_SAMPLES \<equiv> (10 :: nat)"

definition no_rtt :: rtt_calculator where
  "no_rtt = \<lparr>min_rtt = None, window_min_rtt = None, smoothed_rtt = None, samples = []\<rparr>"

definition smooth :: "nat \<Rightarrow> nat \<Rightarrow> nat" where
  "smooth m w = to_u32 (rnd (rnd (1 / 2 * f32 m) + rnd (1 / 2 * f32 w)))"

definition rtt_update :: "nat \<Rightarrow> rtt_calculator \<Rightarrow> rtt_calculator" where
  "rtt_update delay r =
     (let m = (case min_rtt r of Some m \<Rightarrow> if delay < m then delay else m | None \<Rightarrow> delay);
          xs = (if WINDOW_SAMPLES \<le> length (samples r) then tl (samples r) else samples r) @ [delay];
          w = Min (set xs)
      in r\<lparr>min_rtt := Some m, samples := xs, window_min_rtt := Some w,
           smoothed_rtt := (if WINDOW_SAMPLES \<le> length xs then Some (smooth m w) else smoothed_rtt r)\<rparr>)"

definition get_rtt :: "rtt_calculator \<Rightarrow> nat option" where
  "get_rtt r =
     (case smoothed_rtt r of
        Some rtt \<Rightarrow> Some rtt
      | None \<Rightarrow> if MIN_SAMPLES \<le> length (samples r) then min_rtt r else None)"

section \<open>Users and displays\<close>

record user_delay =
  response_delayed :: bool
  delay_history :: "nat list"
  d_fps :: "nat option"
  d_rtt :: rtt_calculator
  quick_increase_fps_count :: nat
  increase_fps_count :: nat

record user_data =
  auto_adjust_fps :: "nat option"
  u_custom_fps :: "nat option"
  u_quality :: "(int \<times> quality) option"
  u_delay :: user_delay
  u_record :: bool

definition new_user :: user_data where
  "new_user = \<lparr>auto_adjust_fps = None, u_custom_fps = None, u_quality = None,
     u_delay = \<lparr>response_delayed = False, delay_history = [], d_fps = None, d_rtt = no_rtt,
       quick_increase_fps_count = 0, increase_fps_count = 0\<rparr>, u_record = False\<rparr>"

record display_data =
  send_counter :: nat
  support_changing_quality :: bool

record video_qos =
  q_fps :: nat
  q_ratio :: rat
  q_users :: "(int \<times> user_data) list"
  q_displays :: "(string \<times> display_data) list"
  bitrate_store :: nat
  adjust_ratio_instant :: nat
  abr_config :: bool
  new_user_instant :: nat

definition add_delay :: "nat \<Rightarrow> user_delay \<Rightarrow> user_delay" where
  "add_delay delay d =
     d\<lparr>d_rtt := rtt_update delay (d_rtt d),
       delay_history := (if HISTORY_DELAY_LEN < length (delay_history d) then tl (delay_history d)
                         else delay_history d) @ [delay]\<rparr>"

definition avg_delay :: "user_delay \<Rightarrow> nat" where
  "avg_delay d =
     (let len = length (delay_history d) in
      if 0 < len then
        let avg = wrap32 (sum_list (delay_history d)) div len in
        (case get_rtt (d_rtt d) of Some r \<Rightarrow> if r < avg then avg - r else avg | None \<Rightarrow> avg)
      else DELAY_THRESHOLD_150MS)"

definition default_qos :: "nat \<Rightarrow> video_qos" where
  "default_qos now = \<lparr>q_fps = FPS, q_ratio = BR_BALANCED, q_users = [], q_displays = [],
     bitrate_store = 0, adjust_ratio_instant = now, abr_config = True, new_user_instant = now\<rparr>"

text \<open>\<open>get_mut\<close> and \<open>insert\<close> of a hash map.\<close>

definition modify_user :: "int \<Rightarrow> (user_data \<Rightarrow> user_data) \<Rightarrow> video_qos \<Rightarrow> video_qos" where
  "modify_user i f q = q\<lparr>q_users := map (\<lambda>(k, u). (k, if k = i then f u else u)) (q_users q)\<rparr>"

definition modify_display :: "string \<Rightarrow> (display_data \<Rightarrow> display_data) \<Rightarrow> video_qos \<Rightarrow> video_qos" where
  "modify_display n f q = q\<lparr>q_displays := map (\<lambda>(k, d). (k, if k = n then f d else d)) (q_displays q)\<rparr>"

section \<open>Queries\<close>

definition get_fps :: "video_qos \<Rightarrow> nat" where
  "get_fps q = (if MIN_FPS \<le> q_fps q \<and> q_fps q \<le> MAX_FPS then q_fps q else FPS)"

text \<open>Seconds per frame.\<close>

definition spf :: "video_qos \<Rightarrow> rat" where
  "spf q = rnd (1 / f32 (get_fps q))"

definition get_ratio :: "video_qos \<Rightarrow> rat \<times> video_qos" where
  "get_ratio q =
     (let q = (if q_ratio q < BR_MIN_HIGH_RESOLUTION \<or> BR_MAX < q_ratio q then q\<lparr>q_ratio := BR_BALANCED\<rparr> else q)
      in (q_ratio q, q))"

definition any_record :: "video_qos \<Rightarrow> bool" where
  "any_record q = (\<exists>(i, u) \<in> set (q_users q). u_record u)"

definition in_vbr_state :: "video_qos \<Rightarrow> bool" where
  "in_vbr_state q = (abr_config q \<and> (\<forall>(n, d) \<in> set (q_displays q). support_changing_quality d))"

definition user_fps :: "user_data \<Rightarrow> nat" where
  "user_fps u =
     (let fps = (case u_custom_fps u of Some f \<Rightarrow> f | None \<Rightarrow> FPS) in
      case auto_adjust_fps u of Some a \<Rightarrow> if fps = 0 \<or> a < fps then a else fps | None \<Rightarrow> fps)"

definition min_or :: "nat \<Rightarrow> nat list \<Rightarrow> nat" where
  "min_or d xs = (if xs = [] then d else Min (set xs))"

definition highest_fps :: "video_qos \<Rightarrow> nat" where
  "highest_fps q =
     clamp_u32 (min_or FPS (filter (\<lambda>f. MIN_FPS \<le> f) (map (user_fps \<circ> snd) (q_users q)))) MIN_FPS MAX_FPS"

text \<open>The last among the latest choices of a quality (\<open>max_by\<close>).\<close>

definition latest_quality :: "video_qos \<Rightarrow> quality" where
  "latest_quality q =
     (case List.map_filter (u_quality \<circ> snd) (q_users q) of
        [] \<Rightarrow> QBalanced
      | x # xs \<Rightarrow> snd (foldl (\<lambda>a b. if fst b < fst a then a else b) x xs))"

section \<open>Adjusting\<close>

definition adjust_fps :: "nat \<Rightarrow> video_qos \<Rightarrow> video_qos" where
  "adjust_fps now q =
     (let fps = min_or INIT_FPS (map (\<lambda>(i, u). case d_fps (u_delay u) of Some f \<Rightarrow> f | None \<Rightarrow> INIT_FPS) (q_users q));
          fps = (if (\<exists>(i, u) \<in> set (q_users q). response_delayed (u_delay u)) \<and> MIN_FPS + 1 < fps
                 then MIN_FPS + 1 else fps);
          fps = (if (now - new_user_instant q) div 1000 < 1 \<and> INIT_FPS < fps then INIT_FPS else fps)
      in q\<lparr>q_fps := clamp_u32 fps MIN_FPS (highest_fps q)\<rparr>)"

definition ratio_1mbps :: "rat \<Rightarrow> nat \<Rightarrow> rat option" where
  "ratio_1mbps ratio bitrate =
     (if 0 < bitrate then Some (max (rnd (rnd (ratio * 1000) / f32 bitrate)) BR_MIN_HIGH_RESOLUTION) else None)"

definition ratio_add_150kbps :: "rat \<Rightarrow> nat \<Rightarrow> rat option" where
  "ratio_add_150kbps ratio bitrate =
     (if 0 < bitrate then Some (rnd (rnd (f32 (wrap32 (bitrate + 150)) * ratio) / f32 bitrate)) else None)"

definition lower_to :: "rat option \<Rightarrow> rat \<Rightarrow> rat" where
  "lower_to r m = (case r of Some x \<Rightarrow> if x < m then x else m | None \<Rightarrow> m)"

definition min_ratio :: "quality \<Rightarrow> rat option \<Rightarrow> rat" where
  "min_ratio q r1 =
     (case q of
        QBest \<Rightarrow> max (lower_to r1 (rnd (BR_BEST / (5 / 2)))) BR_MIN
      | QBalanced \<Rightarrow> max (lower_to r1 (min (rnd (BR_BALANCED / 2)) (rnd (4 / 10)))) BR_MIN_HIGH_RESOLUTION
      | QLow \<Rightarrow> BR_MIN_HIGH_RESOLUTION
      | QCustom b \<Rightarrow> BR_MIN_HIGH_RESOLUTION)"

definition next_ratio :: "bool \<Rightarrow> nat \<Rightarrow> rat \<Rightarrow> rat" where
  "next_ratio dynamic_screen delay ratio =
     (let scale = (\<lambda>x. rnd (ratio * rnd (x / 100))) in
      if delay < 50 then if dynamic_screen then scale 115 else ratio
      else if delay < 100 then if dynamic_screen then scale 110 else ratio
      else if delay < DELAY_THRESHOLD_150MS then if dynamic_screen then scale 105 else ratio
      else if delay < 200 then scale 95
      else if delay < 300 then scale 90
      else if delay < 500 then scale 85
      else scale 80)"

definition adjust_ratio :: "nat \<Rightarrow> bool \<Rightarrow> video_qos \<Rightarrow> video_qos option" where
  "adjust_ratio now dynamic_screen q =
     (if \<not> in_vbr_state q \<or> q_users q = [] then Some q
      else
        let max_delay = Max (set (map (avg_delay \<circ> u_delay \<circ> snd) (q_users q)));
            target = latest_quality q;
            ratio = q_ratio q;
            v = next_ratio dynamic_screen max_delay ratio;
            v = (case ratio_add_150kbps ratio (bitrate_store q) of
                   Some r \<Rightarrow> if r < v \<and> ratio < r \<and> BR_SPEED \<le> ratio then r else v
                 | None \<Rightarrow> v)
        in map_option (\<lambda>x. q\<lparr>q_ratio := x, adjust_ratio_instant := now\<rparr>)
             (clamp_f32 v (min_ratio target (ratio_1mbps ratio (bitrate_store q)))
                (rnd (quality_ratio target * MAX_BR_MULTIPLE))))"

section \<open>Reports\<close>

definition fps_limits :: "rat \<Rightarrow> nat \<times> nat" where
  "fps_limits ratio = (if BR_BEST \<le> ratio then (8, 16) else if BR_BALANCED \<le> ratio then (10, 20) else (12, 24))"

definition divide_fps :: "nat \<Rightarrow> nat \<Rightarrow> nat" where
  "divide_fps fps avg = to_u32 (of_int \<lceil>rnd (f32 fps / rnd (f32 avg / f32 DELAY_THRESHOLD_150MS))\<rceil>)"

text \<open>The frame rate a delay asks for, and the two counters of good reports.\<close>

definition fps_for_delay :: "nat \<Rightarrow> nat \<Rightarrow> nat \<Rightarrow> nat \<Rightarrow> nat \<Rightarrow> user_delay \<Rightarrow> nat \<times> user_delay" where
  "fps_for_delay min_fps normal_fps old_avg avg fps d =
     (let dividend_ms = DELAY_THRESHOLD_150MS * min_fps in
      if avg < 50 then
        let d = d\<lparr>quick_increase_fps_count := quick_increase_fps_count d + 1\<rparr>;
            step = (if fps < normal_fps then 1 else 0);
            (step, d) = (if 3 \<le> quick_increase_fps_count d then (5, d\<lparr>quick_increase_fps_count := 0\<rparr>) else (step, d))
        in (max min_fps (wrap32 (fps + step)), d)
      else if avg < 100 then
        (max min_fps (wrap32 (fps + (if avg < old_avg \<and> fps < normal_fps then 1 else 0))), d)
      else if avg < DELAY_THRESHOLD_150MS then (max min_fps fps, d)
      else if avg < 200 then (max min_fps (divide_fps fps avg), d)
      else if avg < 300 then (min min_fps (divide_fps fps avg), d)
      else if avg < 600 then (dividend_ms div avg, d)
      else (min (dividend_ms div avg) (divide_fps fps avg), d))"

definition user_delay_report :: "nat \<Rightarrow> nat \<times> nat \<Rightarrow> nat \<Rightarrow> nat \<Rightarrow> user_delay \<Rightarrow> user_delay" where
  "user_delay_report highest limits delay fps d =
     (let delay = max delay 10;
          old_avg = avg_delay d;
          d = add_delay delay d;
          avg = max (avg_delay d) 10;
          (fps, d) = fps_for_delay (fst limits) (snd limits) old_avg avg fps d;
          d = d\<lparr>increase_fps_count := (if avg < DELAY_THRESHOLD_150MS then increase_fps_count d + 1 else 0)\<rparr>;
          (fps, d) = (if 3 \<le> increase_fps_count d then (wrap32 (fps + 1), d\<lparr>increase_fps_count := 0\<rparr>) else (fps, d));
          d = (if 50 < avg then d\<lparr>quick_increase_fps_count := 0\<rparr> else d)
      in d\<lparr>d_fps := Some (clamp_u32 fps MIN_FPS highest)\<rparr>)"

definition user_network_delay :: "bool \<Rightarrow> nat \<Rightarrow> int \<Rightarrow> nat \<Rightarrow> video_qos \<Rightarrow> video_qos option" where
  "user_network_delay linux now i delay q =
     (let limits = fps_limits (quality_ratio (latest_quality q));
          first = (case map_of (q_users q) i of Some u \<Rightarrow> d_fps (u_delay u) = None | None \<Rightarrow> False);
          q' = modify_user i (\<lambda>u. u\<lparr>u_delay := user_delay_report (highest_fps q) limits delay (q_fps q) (u_delay u)\<rparr>) q;
          q' = adjust_fps now q'
      in if first \<and> \<not> linux then adjust_ratio now False q' else Some q')"

definition user_delay_response_elapsed :: "nat \<Rightarrow> int \<Rightarrow> nat \<Rightarrow> video_qos \<Rightarrow> video_qos" where
  "user_delay_response_elapsed now i elapsed q =
     (case map_of (q_users q) i of
        None \<Rightarrow> q
      | Some u \<Rightarrow>
          if 2000 < elapsed then
            adjust_fps now (modify_user i (\<lambda>u. u\<lparr>u_delay :=
              add_delay (wrap32 elapsed) ((u_delay u)\<lparr>response_delayed := True\<rparr>)\<rparr>) q)
          else modify_user i (\<lambda>u. u\<lparr>u_delay := (u_delay u)\<lparr>response_delayed := False\<rparr>\<rparr>) q)"

definition update_display_data :: "nat \<Rightarrow> string \<Rightarrow> nat \<Rightarrow> video_qos \<Rightarrow> video_qos option" where
  "update_display_data now n count q =
     (let q = modify_display n (\<lambda>d. d\<lparr>send_counter := send_counter d + count\<rparr>) q;
          q = adjust_fps now q
      in if in_vbr_state q then
           if ADJUST_RATIO_INTERVAL \<le> (now - adjust_ratio_instant q) div 1000 then
             let dynamic_screen = (\<exists>(k, d) \<in> set (q_displays q).
                   ADJUST_RATIO_INTERVAL * DYNAMIC_SCREEN_THRESHOLD \<le> send_counter d);
                 q = q\<lparr>q_displays := map (\<lambda>(k, d). (k, d\<lparr>send_counter := 0\<rparr>)) (q_displays q)\<rparr>
             in adjust_ratio now dynamic_screen q
           else Some q
         else Some (q\<lparr>q_ratio := quality_ratio (latest_quality q)\<rparr>))"

section \<open>Users\<close>

definition on_connection_open :: "nat \<Rightarrow> bool \<Rightarrow> int \<Rightarrow> video_qos \<Rightarrow> video_qos" where
  "on_connection_open now abr i q =
     q\<lparr>q_users := filter (\<lambda>x. fst x \<noteq> i) (q_users q) @ [(i, new_user)], abr_config := abr, new_user_instant := now\<rparr>"

definition on_connection_close :: "nat \<Rightarrow> int \<Rightarrow> video_qos \<Rightarrow> video_qos" where
  "on_connection_close now i q =
     (let q = q\<lparr>q_users := filter (\<lambda>x. fst x \<noteq> i) (q_users q)\<rparr>
      in if q_users q = [] then default_qos now else q)"

definition user_custom_fps :: "int \<Rightarrow> nat \<Rightarrow> video_qos \<Rightarrow> video_qos" where
  "user_custom_fps i fps q =
     (if fps < MIN_FPS \<or> MAX_FPS < fps then q else modify_user i (\<lambda>u. u\<lparr>u_custom_fps := Some fps\<rparr>) q)"

definition user_auto_adjust_fps :: "int \<Rightarrow> nat \<Rightarrow> video_qos \<Rightarrow> video_qos" where
  "user_auto_adjust_fps i fps q =
     (if fps < MIN_FPS \<or> MAX_FPS < fps then q else modify_user i (\<lambda>u. u\<lparr>auto_adjust_fps := Some fps\<rparr>) q)"

definition user_image_quality :: "int \<Rightarrow> int \<Rightarrow> int \<Rightarrow> video_qos \<Rightarrow> video_qos option" where
  "user_image_quality time i image_quality q =
     (case convert_quality image_quality of
        None \<Rightarrow> None
      | Some x \<Rightarrow>
          if map_of (q_users q) i = None then Some q
          else
            let q = modify_user i (\<lambda>u. u\<lparr>u_quality := Some (time, x)\<rparr>) q
            in Some (q\<lparr>q_ratio := quality_ratio (latest_quality q)\<rparr>))"

definition user_record :: "int \<Rightarrow> bool \<Rightarrow> video_qos \<Rightarrow> video_qos" where
  "user_record i v = modify_user i (\<lambda>u. u\<lparr>u_record := v\<rparr>)"

definition new_display :: "string \<Rightarrow> video_qos \<Rightarrow> video_qos" where
  "new_display n q = q\<lparr>q_displays := filter (\<lambda>x. fst x \<noteq> n) (q_displays q) @
     [(n, \<lparr>send_counter = 0, support_changing_quality = False\<rparr>)]\<rparr>"

definition remove_display :: "string \<Rightarrow> video_qos \<Rightarrow> video_qos" where
  "remove_display n q = q\<lparr>q_displays := filter (\<lambda>x. fst x \<noteq> n) (q_displays q)\<rparr>"

definition set_support_changing_quality :: "string \<Rightarrow> bool \<Rightarrow> video_qos \<Rightarrow> video_qos" where
  "set_support_changing_quality n b = modify_display n (\<lambda>d. d\<lparr>support_changing_quality := b\<rparr>)"

definition store_bitrate :: "nat \<Rightarrow> video_qos \<Rightarrow> video_qos" where
  "store_bitrate b q = q\<lparr>bitrate_store := b\<rparr>"

section \<open>What can happen\<close>

datatype qos_event =
    QOpen bool int
  | QClose int
  | QCustomFps int nat
  | QAutoFps int nat
  | QQuality int int int
  | QRecord int bool
  | QDelay int nat
  | QElapsed int nat
  | QNewDisplay string
  | QRemoveDisplay string
  | QDisplayData string nat
  | QBitrate nat
  | QSupport string bool
  | QRatio

fun qos_step :: "bool \<Rightarrow> nat \<Rightarrow> qos_event \<Rightarrow> video_qos \<Rightarrow> video_qos option" where
  "qos_step l now (QOpen abr i) q = Some (on_connection_open now abr i q)"
| "qos_step l now (QClose i) q = Some (on_connection_close now i q)"
| "qos_step l now (QCustomFps i f) q = Some (user_custom_fps i f q)"
| "qos_step l now (QAutoFps i f) q = Some (user_auto_adjust_fps i f q)"
| "qos_step l now (QQuality t i x) q = user_image_quality t i x q"
| "qos_step l now (QRecord i b) q = Some (user_record i b q)"
| "qos_step l now (QDelay i d) q = user_network_delay l now i d q"
| "qos_step l now (QElapsed i d) q = Some (user_delay_response_elapsed now i d q)"
| "qos_step l now (QNewDisplay n) q = Some (new_display n q)"
| "qos_step l now (QRemoveDisplay n) q = Some (remove_display n q)"
| "qos_step l now (QDisplayData n c) q = update_display_data now n c q"
| "qos_step l now (QBitrate b) q = Some (store_bitrate b q)"
| "qos_step l now (QSupport n b) q = Some (set_support_changing_quality n b q)"
| "qos_step l now QRatio q = Some (snd (get_ratio q))"

fun qos_run :: "bool \<Rightarrow> (nat \<times> qos_event) list \<Rightarrow> video_qos \<Rightarrow> video_qos option" where
  "qos_run l [] q = Some q"
| "qos_run l ((now, e) # es) q = Option.bind (qos_step l now e q) (qos_run l es)"

section \<open>Limits\<close>

lemma near:
  "x > 0 \<Longrightarrow> y < x * (1 - 1 / 2 ^ 24) \<Longrightarrow> y < rnd x" "x > 0 \<Longrightarrow> x * (1 + 1 / 2 ^ 24) < y \<Longrightarrow> rnd x < y"
  using rnd_lower [of x] rnd_upper [of x] by (simp_all add: algebra_simps)

lemma br_bounds:
  "99 / 1000 < BR_MIN_HIGH_RESOLUTION" "BR_MIN_HIGH_RESOLUTION < 101 / 1000"
  "199 / 1000 < BR_MIN" "BR_MIN < 201 / 1000" "669 / 1000 < BR_BALANCED" "BR_BALANCED < 671 / 1000"
  using near(1) [of "1 / 10" "99 / 1000"] near(2) [of "1 / 10" "101 / 1000"]
    near(1) [of "2 / 10" "199 / 1000"] near(2) [of "2 / 10" "201 / 1000"]
    near(1) [of "67 / 100" "669 / 1000"] near(2) [of "67 / 100" "671 / 1000"]
  by (simp_all add: BR_MIN_HIGH_RESOLUTION_def BR_MIN_def BR_BALANCED_def)

lemma exact_ratios: "rnd BR_BEST = BR_BEST" "rnd BR_SPEED = BR_SPEED" "rnd BR_BALANCED = BR_BALANCED" "rnd BR_MAX = BR_MAX"
  "rnd BR_MIN = BR_MIN"
  using rnd_exact [of 3 "-1"] rnd_exact [of 1 "-1"] rnd_exact [of 40 0]
  by (simp_all add: BR_BEST_def BR_SPEED_def BR_BALANCED_def BR_MAX_def BR_MIN_def power_int_minus)

definition quality_ok :: "quality \<Rightarrow> bool" where
  "quality_ok x = (case x of QCustom b \<Rightarrow> rnd b = b \<and> BR_MIN \<le> b \<and> b \<le> BR_MAX | _ \<Rightarrow> True)"

lemma quality_ok_exact: "quality_ok x \<Longrightarrow> rnd (quality_ratio x * MAX_BR_MULTIPLE) = quality_ratio x"
  by (cases x) (simp_all add: quality_ok_def quality_ratio_def MAX_BR_MULTIPLE_def exact_ratios)

lemma quality_ok_bounds:
  "quality_ok x \<Longrightarrow> BR_MIN \<le> quality_ratio x \<and> quality_ratio x \<le> BR_MAX"
  using br_bounds by (cases x) (simp_all add: quality_ok_def quality_ratio_def BR_BEST_def BR_SPEED_def BR_MAX_def)

lemma lower_to_le: "lower_to r m \<le> m"
  by (simp add: lower_to_def split: option.split)

lemma min_ratio_ge: "BR_MIN_HIGH_RESOLUTION \<le> min_ratio x r"
  using br_bounds by (cases x) (simp_all add: min_ratio_def)

lemma min_ratio_le:
  assumes "quality_ok x"
  shows "min_ratio x r \<le> quality_ratio x"
proof (cases x)
  case QBest
  have "rnd (BR_BEST / (5 / 2)) < 3 / 2" using near(2) [of "3 / 5" "3 / 2"] by (simp add: BR_BEST_def)
  then have "lower_to r (rnd (BR_BEST / (5 / 2))) < 3 / 2"
    using lower_to_le [of r "rnd (BR_BEST / (5 / 2))"] by simp
  then show ?thesis
    using QBest br_bounds(4) by (simp add: min_ratio_def quality_ratio_def BR_BEST_def)
next
  case QBalanced
  have "rnd (4 / 10) < 1 / 2" using near(2) [of "4 / 10" "1 / 2"] by simp
  then have "lower_to r (min (rnd (BR_BALANCED / 2)) (rnd (4 / 10))) < 1 / 2"
    using lower_to_le [of r "min (rnd (BR_BALANCED / 2)) (rnd (4 / 10))"] by simp
  then show ?thesis using QBalanced br_bounds by (simp add: min_ratio_def quality_ratio_def)
qed (use assms br_bounds in \<open>simp_all add: min_ratio_def quality_ratio_def BR_SPEED_def quality_ok_def\<close>)

text \<open>The limits of the bitrate are never out of order, so the clamp does not panic.\<close>

lemma ratio_clamp:
  assumes "quality_ok x"
  shows "\<exists>y. clamp_f32 v (min_ratio x r) (rnd (quality_ratio x * MAX_BR_MULTIPLE)) = Some y
    \<and> min_ratio x r \<le> y \<and> y \<le> quality_ratio x"
  using clamp_f32_total [OF min_ratio_le [OF assms]] by (simp add: quality_ok_exact [OF assms])

lemma clamp_u32_bounds: "lo \<le> hi \<Longrightarrow> lo \<le> clamp_u32 x lo hi \<and> clamp_u32 x lo hi \<le> hi"
  by (simp add: clamp_u32_def)

lemma highest_fps_bounds: "MIN_FPS \<le> highest_fps q" "highest_fps q \<le> MAX_FPS"
  by (simp_all add: highest_fps_def clamp_u32_def)


section \<open>The state stays well formed\<close>

definition delay_ok :: "user_delay \<Rightarrow> bool" where
  "delay_ok d \<longleftrightarrow> length (delay_history d) \<le> 3 \<and> length (samples (d_rtt d)) \<le> WINDOW_SAMPLES \<and>
     (\<forall>f. d_fps d = Some f \<longrightarrow> MIN_FPS \<le> f \<and> f \<le> MAX_FPS)"

definition user_ok :: "user_data \<Rightarrow> bool" where
  "user_ok u \<longleftrightarrow> delay_ok (u_delay u) \<and>
     (\<forall>f. u_custom_fps u = Some f \<or> auto_adjust_fps u = Some f \<longrightarrow> MIN_FPS \<le> f \<and> f \<le> MAX_FPS) \<and>
     (\<forall>t x. u_quality u = Some (t, x) \<longrightarrow> quality_ok x)"

definition qos_ok :: "video_qos \<Rightarrow> bool" where
  "qos_ok q \<longleftrightarrow> MIN_FPS \<le> q_fps q \<and> q_fps q \<le> MAX_FPS \<and>
     BR_MIN_HIGH_RESOLUTION \<le> q_ratio q \<and> q_ratio q \<le> BR_MAX \<and> (\<forall>(i, u) \<in> set (q_users q). user_ok u)"

lemma qos_ok_users: "qos_ok q \<Longrightarrow> (i, u) \<in> set (q_users q) \<Longrightarrow> user_ok u"
  by (auto simp: qos_ok_def)

lemma modify_user_ok: "qos_ok q \<Longrightarrow> (\<And>u. user_ok u \<Longrightarrow> user_ok (f u)) \<Longrightarrow> qos_ok (modify_user i f q)"
  by (auto simp: qos_ok_def modify_user_def)

lemma foldl_pick: "foldl (\<lambda>a b. if fst b < fst a then a else b) x xs \<in> set (x # xs)"
proof (induction xs arbitrary: x)
  case (Cons y ys)
  show ?case using Cons.IH [of x] Cons.IH [of y] by simp blast
qed simp

lemma latest_quality_ok: "qos_ok q \<Longrightarrow> quality_ok (latest_quality q)"
proof -
  assume q: "qos_ok q"
  define ys where "ys = List.map_filter (u_quality \<circ> snd) (q_users q)"
  have ok: "quality_ok (snd y)" if "y \<in> set ys" for y
    using that q by (fastforce simp: ys_def List.map_filter_def qos_ok_def user_ok_def)
  show ?thesis
  proof (cases ys)
    case Nil
    then show ?thesis by (simp add: latest_quality_def quality_ok_def flip: ys_def)
  next
    case (Cons x xs)
    then show ?thesis using ok [OF foldl_pick [of x xs, folded Cons]] by (simp add: latest_quality_def flip: ys_def)
  qed
qed

lemma rtt_update_samples: "length (samples r) \<le> WINDOW_SAMPLES \<Longrightarrow> length (samples (rtt_update d r)) \<le> WINDOW_SAMPLES"
  by (simp add: rtt_update_def Let_def)

lemma add_delay_ok: "delay_ok d \<Longrightarrow> delay_ok (add_delay x d)"
  by (auto simp: delay_ok_def add_delay_def rtt_update_samples)

lemma fps_for_delay_fields:
  assumes "fps_for_delay m n old avg fps d = (f, d')"
  shows "delay_history d' = delay_history d" "d_rtt d' = d_rtt d" "d_fps d' = d_fps d"
    "increase_fps_count d' = increase_fps_count d" "response_delayed d' = response_delayed d"
  using assms by (auto simp: fps_for_delay_def Let_def split: if_splits)

lemma report_ok:
  assumes "delay_ok d" and "MIN_FPS \<le> hi" and "hi \<le> MAX_FPS"
  shows "delay_ok (user_delay_report hi lms delay fps d)"
proof -
  let ?d = "add_delay (max delay 10) d"
  obtain f d' where f: "fps_for_delay (fst lms) (snd lms) (avg_delay d) (max (avg_delay ?d) 10) fps ?d = (f, d')"
    by (rule prod.exhaust)
  show ?thesis
    using add_delay_ok [OF assms(1), of "max delay 10"] fps_for_delay_fields [OF f] assms clamp_u32_bounds [OF assms(2)]
      order.trans [OF clamp_u32_bounds [OF assms(2), THEN conjunct2] assms(3)]
    by (auto simp: user_delay_report_def f Let_def delay_ok_def)
qed

lemma adjust_fps_ok: "qos_ok q \<Longrightarrow> qos_ok (adjust_fps now q)"
  using clamp_u32_bounds [OF highest_fps_bounds(1) [of q]] highest_fps_bounds(2) [of q]
  by (auto simp: qos_ok_def adjust_fps_def Let_def intro: order.trans)

lemma adjust_ratio_ok:
  assumes "qos_ok q"
  shows "\<exists>q'. adjust_ratio now b q = Some q' \<and> qos_ok q'"
proof (cases "\<not> in_vbr_state q \<or> q_users q = []")
  case False
  have l: "quality_ok (latest_quality q)" using assms by (rule latest_quality_ok)
  have ok: "qos_ok (q\<lparr>q_ratio := y, adjust_ratio_instant := now\<rparr>)"
    if "min_ratio (latest_quality q) r \<le> y" "y \<le> quality_ratio (latest_quality q)" for y r
    using that assms min_ratio_ge [of "latest_quality q" r] quality_ok_bounds [OF l] by (auto simp: qos_ok_def)
  let ?r = "ratio_1mbps (q_ratio q) (bitrate_store q)"
  obtain v where "adjust_ratio now b q = map_option (\<lambda>x. q\<lparr>q_ratio := x, adjust_ratio_instant := now\<rparr>)
      (clamp_f32 v (min_ratio (latest_quality q) ?r) (rnd (quality_ratio (latest_quality q) * MAX_BR_MULTIPLE)))"
    using False by (simp only: adjust_ratio_def if_False Let_def)
  moreover obtain y where "clamp_f32 v (min_ratio (latest_quality q) ?r)
      (rnd (quality_ratio (latest_quality q) * MAX_BR_MULTIPLE)) = Some y"
    "min_ratio (latest_quality q) ?r \<le> y" "y \<le> quality_ratio (latest_quality q)"
    using ratio_clamp [OF l, of v ?r] by blast
  ultimately show ?thesis using ok by simp
qed (use assms in \<open>auto simp: adjust_ratio_def\<close>)

lemma set_latest_ok: "qos_ok q \<Longrightarrow> qos_ok (q\<lparr>q_ratio := quality_ratio (latest_quality q)\<rparr>)"
  using quality_ok_bounds [OF latest_quality_ok [of q]] br_bounds by (auto simp: qos_ok_def)

lemma convert_quality_ok: "\<exists>x. convert_quality i = Some x \<and> quality_ok x"
proof -
  have b: "BR_MIN \<le> BR_MAX" using br_bounds by (simp add: BR_MAX_def)
  show ?thesis
    using exact_ratios b by (auto simp: convert_quality_def quality_ok_def Let_def clamp_f32_def)
qed


lemma default_qos_ok: "qos_ok (default_qos now)"
  using br_bounds by (simp add: qos_ok_def default_qos_def BR_MAX_def)

lemma user_ok_upds:
  "user_ok u \<Longrightarrow> MIN_FPS \<le> f \<Longrightarrow> f \<le> MAX_FPS \<Longrightarrow> user_ok (u\<lparr>u_custom_fps := Some f\<rparr>)"
  "user_ok u \<Longrightarrow> MIN_FPS \<le> f \<Longrightarrow> f \<le> MAX_FPS \<Longrightarrow> user_ok (u\<lparr>auto_adjust_fps := Some f\<rparr>)"
  "user_ok u \<Longrightarrow> quality_ok x \<Longrightarrow> user_ok (u\<lparr>u_quality := Some (t, x)\<rparr>)"
  "user_ok u \<Longrightarrow> user_ok (u\<lparr>u_record := b\<rparr>)"
  "user_ok u \<Longrightarrow> delay_ok d \<Longrightarrow> user_ok (u\<lparr>u_delay := d\<rparr>)"
  "user_ok new_user"
  by (auto simp: user_ok_def new_user_def delay_ok_def no_rtt_def)

lemma user_ok_delay: "user_ok u \<Longrightarrow> delay_ok (u_delay u)" "delay_ok d \<Longrightarrow> delay_ok (d\<lparr>response_delayed := b\<rparr>)"
  by (simp_all add: user_ok_def delay_ok_def)

lemma qos_ok_displays: "qos_ok (q\<lparr>q_displays := ds\<rparr>) = qos_ok q" "qos_ok (modify_display n f q) = qos_ok q"
  by (simp_all add: qos_ok_def modify_display_def)

lemma network_delay_ok:
  assumes "qos_ok q"
  shows "\<exists>q'. user_network_delay l now i d q = Some q' \<and> qos_ok q'"
proof -
  let ?q = "adjust_fps now (modify_user i (\<lambda>u. u\<lparr>u_delay := user_delay_report (highest_fps q)
      (fps_limits (quality_ratio (latest_quality q))) d (q_fps q) (u_delay u)\<rparr>) q)"
  have "qos_ok ?q"
    by (intro adjust_fps_ok modify_user_ok assms user_ok_upds report_ok user_ok_delay highest_fps_bounds)
  then show ?thesis
    using adjust_ratio_ok [of ?q now False] by (simp add: user_network_delay_def Let_def)
qed

lemma display_data_ok:
  assumes "qos_ok q"
  shows "\<exists>q'. update_display_data now n c q = Some q' \<and> qos_ok q'"
proof -
  define q1 where "q1 = adjust_fps now (modify_display n (\<lambda>d. d\<lparr>send_counter := send_counter d + c\<rparr>) q)"
  have q1: "qos_ok q1" using assms by (simp add: q1_def adjust_fps_ok qos_ok_displays)
  then have "qos_ok (q1\<lparr>q_displays := ds\<rparr>)" for ds by (simp add: qos_ok_displays)
  from adjust_ratio_ok [OF this] set_latest_ok [OF q1] q1 show ?thesis
    by (simp add: update_display_data_def Let_def flip: q1_def)
qed

lemma qos_step_ok:
  assumes "qos_ok q"
  shows "\<exists>q'. qos_step l now e q = Some q' \<and> qos_ok q'"
proof (cases e)
  case (QOpen abr i)
  then show ?thesis using assms user_ok_upds(6) by (auto simp: on_connection_open_def qos_ok_def)
next
  case (QClose i)
  then show ?thesis using assms default_qos_ok by (auto simp: on_connection_close_def qos_ok_def Let_def)
next
  case (QCustomFps i f)
  then show ?thesis using assms by (auto simp: user_custom_fps_def intro!: modify_user_ok user_ok_upds)
next
  case (QAutoFps i f)
  then show ?thesis using assms by (auto simp: user_auto_adjust_fps_def intro!: modify_user_ok user_ok_upds)
next
  case (QQuality t i x)
  obtain c where c: "convert_quality x = Some c" "quality_ok c" using convert_quality_ok by blast
  have "qos_ok (modify_user i (\<lambda>u. u\<lparr>u_quality := Some (t, c)\<rparr>) q)"
    by (intro modify_user_ok assms user_ok_upds c)
  then show ?thesis using QQuality c assms set_latest_ok by (simp add: user_image_quality_def Let_def)
next
  case (QRecord i b)
  then show ?thesis using assms by (auto simp: user_record_def intro!: modify_user_ok user_ok_upds)
next
  case (QDelay i d)
  then show ?thesis using network_delay_ok [OF assms] by simp
next
  case (QElapsed i d)
  then show ?thesis using assms
    by (auto simp: user_delay_response_elapsed_def split: option.split
        intro!: adjust_fps_ok modify_user_ok user_ok_upds add_delay_ok user_ok_delay)
next
  case (QDisplayData n c)
  then show ?thesis using display_data_ok [OF assms] by simp
next
  case QRatio
  then show ?thesis using assms br_bounds by (auto simp: get_ratio_def qos_ok_def Let_def)
qed (use assms in \<open>simp_all add: new_display_def remove_display_def store_bitrate_def
    set_support_changing_quality_def qos_ok_displays, simp add: qos_ok_def\<close>)

lemma qos_run_ok: "qos_ok q \<Longrightarrow> \<exists>q'. qos_run l es q = Some q' \<and> qos_ok q'"
proof (induction l es q rule: qos_run.induct)
  case (2 l now e es q)
  obtain q' where "qos_step l now e q = Some q'" "qos_ok q'" using qos_step_ok [OF 2(2)] by blast
  then show ?case using 2(1) by simp
qed simp

text \<open>
  C13. The control never panics and stays in range: whatever the viewers report and choose and
  however displays come and go, every operation returns, the frame rate is between 1 and 120, the
  bitrate ratio between a tenth and forty, and the histories have a bounded length, so the repairs
  in \<open>fps\<close> and \<open>ratio\<close> are never needed.
\<close>

theorem qos_in_range:
  "\<exists>q. qos_run l es (default_qos t) = Some q \<and> get_fps q = q_fps q \<and> get_ratio q = (q_ratio q, q) \<and>
     MIN_FPS \<le> q_fps q \<and> q_fps q \<le> MAX_FPS \<and> BR_MIN_HIGH_RESOLUTION \<le> q_ratio q \<and> q_ratio q \<le> BR_MAX \<and>
     (\<forall>(i, u) \<in> set (q_users q). length (delay_history (u_delay u)) \<le> 3 \<and>
        length (samples (d_rtt (u_delay u))) \<le> WINDOW_SAMPLES)"
proof -
  obtain q where q: "qos_run l es (default_qos t) = Some q" "qos_ok q" using qos_run_ok [OF default_qos_ok] by blast
  then have "get_fps q = q_fps q" "get_ratio q = (q_ratio q, q)"
    by (auto simp: get_fps_def get_ratio_def qos_ok_def)
  then show ?thesis using q by (auto simp: qos_ok_def user_ok_def delay_ok_def)
qed

section \<open>A bad network\<close>

lemma report_fields:
  assumes "fps_for_delay (fst lms) (snd lms) (avg_delay d) (max (avg_delay (add_delay (max x 10) d)) 10) fps
      (add_delay (max x 10) d) = (f, d')"
  defines "a \<equiv> max (avg_delay (add_delay (max x 10) d)) 10"
  defines "c \<equiv> (if a < DELAY_THRESHOLD_150MS then increase_fps_count d + 1 else 0)"
  shows "d_fps (user_delay_report hi lms x fps d) = Some (clamp_u32 (if 3 \<le> c then wrap32 (f + 1) else f) MIN_FPS hi)"
    and "increase_fps_count (user_delay_report hi lms x fps d) = (if 3 \<le> c then 0 else c)"
    and "delay_history (user_delay_report hi lms x fps d) = delay_history (add_delay (max x 10) d)"
    and "response_delayed (user_delay_report hi lms x fps d) = response_delayed d"
proof -
  have "increase_fps_count d' = increase_fps_count d" "delay_history d' = delay_history (add_delay (max x 10) d)"
    "response_delayed d' = response_delayed d"
    using fps_for_delay_fields [OF assms(1)] by (simp_all add: add_delay_def)
  then show "d_fps (user_delay_report hi lms x fps d) = Some (clamp_u32 (if 3 \<le> c then wrap32 (f + 1) else f) MIN_FPS hi)"
    "increase_fps_count (user_delay_report hi lms x fps d) = (if 3 \<le> c then 0 else c)"
    "delay_history (user_delay_report hi lms x fps d) = delay_history (add_delay (max x 10) d)"
    "response_delayed (user_delay_report hi lms x fps d) = response_delayed d"
    unfolding user_delay_report_def Let_def a_def [symmetric] assms(1) [folded a_def] prod.case
    by (simp_all add: c_def)
qed

lemma fps_limits_le: "fst (fps_limits r) \<le> 12"
  by (simp add: fps_limits_def)

lemma bad_report:
  assumes "600 \<le> avg_delay (add_delay (max x 10) d)" and "fst lms \<le> 12" and "MIN_FPS \<le> hi"
  shows "\<exists>f. d_fps (user_delay_report hi lms x fps d) = Some f \<and> MIN_FPS \<le> f \<and> f \<le> 3"
proof -
  let ?d = "add_delay (max x 10) d" and ?a = "max (avg_delay (add_delay (max x 10) d)) 10"
  obtain f d' where f: "fps_for_delay (fst lms) (snd lms) (avg_delay d) ?a fps ?d = (f, d')" by (rule prod.exhaust)
  have a: "600 \<le> ?a" using assms(1) by simp
  have "150 * fst lms div ?a \<le> 1800 div ?a" by (rule div_le_mono) (use assms(2) in simp)
  also have "\<dots> \<le> 1800 div 600" by (rule div_le_mono2) (use a in simp_all)
  finally have three: "150 * fst lms div ?a \<le> 3" by simp
  have "f = min (150 * fst lms div ?a) (divide_fps fps ?a)"
    using f a unfolding fps_for_delay_def Let_def by (simp only: split: if_split_asm) auto
  then have "f \<le> 3" using three by (metis min.cobounded1 order.trans)
  then show ?thesis using report_fields(1) [OF f, of hi] assms(1,3) by (simp add: clamp_u32_def)
qed

lemma adjust_fps_le:
  assumes "(i, u) \<in> set (q_users q)" and "d_fps (u_delay u) = Some f" and "MIN_FPS \<le> f"
  shows "q_fps (adjust_fps now q) \<le> f"
proof -
  let ?xs = "map (\<lambda>(i, u). case d_fps (u_delay u) of Some f \<Rightarrow> f | None \<Rightarrow> INIT_FPS) (q_users q)"
  have "f \<in> set ?xs" using assms(1,2) by (force simp: image_iff)
  then have "min_or INIT_FPS ?xs \<le> f" by (auto simp: min_or_def)
  then show ?thesis
    using assms(3) by (simp add: adjust_fps_def Let_def clamp_u32_def)
qed


text \<open>
  A bad network gets few frames: as soon as the delay of one viewer, averaged over its last
  three reports and less the round trip, reaches 600 milliseconds, at most three frames per second
  are captured for everybody.
\<close>

theorem bad_network_few_frames:
  assumes "map_of (q_users q) i = Some u" and "600 \<le> avg_delay (add_delay (max x 10) (u_delay u))"
    and "user_network_delay l now i x q = Some q'"
  shows "q_fps q' \<le> 3"
proof -
  let ?f = "\<lambda>u. u\<lparr>u_delay := user_delay_report (highest_fps q) (fps_limits (quality_ratio (latest_quality q))) x
      (q_fps q) (u_delay u)\<rparr>"
  let ?q = "modify_user i ?f q"
  obtain f where f: "d_fps (u_delay (?f u)) = Some f" "MIN_FPS \<le> f" "f \<le> 3"
    using bad_report [OF assms(2) fps_limits_le highest_fps_bounds(1)] by force
  have m: "(i, ?f u) \<in> set (q_users ?q)"
    using map_of_SomeD [OF assms(1)] by (force simp: modify_user_def)
  have le: "q_fps (adjust_fps now ?q) \<le> 3"
    using adjust_fps_le [OF m f(1,2), of now] f(3) by linarith
  have same: "q_fps q'' = q_fps p" if "adjust_ratio now b p = Some q''" for b p q''
    using that by (auto simp: adjust_ratio_def Let_def split: if_splits)
  show ?thesis
    using assms(3) le same by (auto simp: user_network_delay_def Let_def split: if_splits)
qed


section \<open>A good network\<close>

lemma wrap32_small: "n < 4294967296 \<Longrightarrow> wrap32 n = n"
  by (simp add: wrap32_def)

lemma avg_delay_below:
  assumes "delay_history d \<noteq> []" and "\<forall>x \<in> set (delay_history d). x < 50" and "length (delay_history d) \<le> 3"
  shows "avg_delay d < 50"
proof -
  let ?xs = "delay_history d"
  have s: "sum_list xs \<le> 49 * length xs" if "\<forall>x \<in> set xs. x < 50" for xs :: "nat list"
    using that by (induction xs) fastforce+
  have n: "0 < length ?xs" using assms(1) by simp
  have "wrap32 (sum_list ?xs) \<le> 49 * length ?xs"
    using s [OF assms(2)] mod_less_eq_dividend [of "sum_list ?xs" "2 ^ 32"] by (simp add: wrap32_def)
  then have "wrap32 (sum_list ?xs) div length ?xs \<le> 49 * length ?xs div length ?xs" by (rule div_le_mono)
  then have "wrap32 (sum_list ?xs) div length ?xs \<le> 49" using n by simp
  then show ?thesis
    using n by (auto simp: avg_delay_def Let_def split: option.split)
qed

text \<open>A good report raises the frame rate or brings the next rise closer.\<close>

lemma good_report:
  assumes "avg_delay (add_delay (max x 10) d) < 50" and "MIN_FPS \<le> hi" and "hi \<le> MAX_FPS" and "fps \<le> hi"
    and "fst lms \<le> 12"
  shows "\<exists>f. d_fps (user_delay_report hi lms x fps d) = Some f \<and> fps \<le> f \<and> f \<le> hi \<and>
    increase_fps_count (user_delay_report hi lms x fps d) \<le> max 2 (increase_fps_count d) \<and>
    (f = hi \<or> 3 * f + increase_fps_count (user_delay_report hi lms x fps d) \<ge> 3 * fps + min 2 (increase_fps_count d) + 1)"
proof -
  let ?d = "add_delay (max x 10) d" and ?a = "max (avg_delay (add_delay (max x 10) d)) 10"
  obtain f d' where f: "fps_for_delay (fst lms) (snd lms) (avg_delay d) ?a fps ?d = (f, d')" by (rule prod.exhaust)
  have a: "?a < 50" using assms(1) by simp
  have w: "wrap32 (fps + k) = fps + k" if "k \<le> 5" for k using that assms(3,4) by (simp add: wrap32_small)
  have "f = max (fst lms) fps \<or> f = max (fst lms) (fps + 1) \<or> f = max (fst lms) (fps + 5)"
    using f a w [of 0] w [of 1] w [of 5] by (auto simp: fps_for_delay_def Let_def split: if_splits)
  then have fk: "fps \<le> f" "f \<le> 125" using assms(3-5) by auto
  have "?a < DELAY_THRESHOLD_150MS" using a by simp
  note r = report_fields(1,2) [OF f, of hi, unfolded if_P [OF this]]
  show ?thesis
  proof (cases "3 \<le> increase_fps_count d + 1")
    case True
    then show ?thesis using r fk assms(2,4) wrap32_small [of "f + 1"] by (simp add: clamp_u32_def)
  next
    case False
    then show ?thesis using r fk assms(2,4) by (simp add: clamp_u32_def)
  qed
qed


text \<open>One report of the only viewer.\<close>

lemma report_single:
  assumes "q_users q = [(i, u)]" and "\<not> response_delayed (u_delay u)" and "new_user_instant q + 1000 \<le> t"
    and "user_network_delay l t i x q = Some q'"
  defines "d \<equiv> user_delay_report (highest_fps q) (fps_limits (quality_ratio (latest_quality q))) x (q_fps q) (u_delay u)"
  shows "q_users q' = [(i, u\<lparr>u_delay := d\<rparr>)]" and "highest_fps q' = highest_fps q"
    and "new_user_instant q' = new_user_instant q" and "\<not> response_delayed d"
    and "d_fps d = Some f \<Longrightarrow> MIN_FPS \<le> f \<Longrightarrow> f \<le> highest_fps q \<Longrightarrow> q_fps q' = f"
proof -
  let ?q = "modify_user i (\<lambda>u. u\<lparr>u_delay := user_delay_report (highest_fps q)
      (fps_limits (quality_ratio (latest_quality q))) x (q_fps q) (u_delay u)\<rparr>) q"
  have u: "q_users ?q = [(i, u\<lparr>u_delay := d\<rparr>)]" by (simp add: modify_user_def assms(1) d_def)
  obtain fps d' where "fps_for_delay (fst (fps_limits (quality_ratio (latest_quality q))))
      (snd (fps_limits (quality_ratio (latest_quality q)))) (avg_delay (u_delay u))
      (max (avg_delay (add_delay (max x 10) (u_delay u))) 10) (q_fps q) (add_delay (max x 10) (u_delay u)) = (fps, d')"
    by (rule prod.exhaust)
  from report_fields(4) [OF this] show nd: "\<not> response_delayed d" using assms(2) by (simp add: d_def)
  have "user_fps (u\<lparr>u_delay := d\<rparr>) = user_fps u" by (simp add: user_fps_def)
  then have hp: "highest_fps p = highest_fps q" if "q_users p = [(i, u\<lparr>u_delay := d\<rparr>)]" for p
    by (simp add: highest_fps_def that assms(1))
  note h = hp [OF u]
  have keep: "q_users q'' = q_users p \<and> q_fps q'' = q_fps p \<and> new_user_instant q'' = new_user_instant p"
    if "adjust_ratio now b p = Some q''" for now b p q''
    using that by (auto simp: adjust_ratio_def Let_def split: if_splits)
  have a: "q_users (adjust_fps t ?q) = q_users ?q" "new_user_instant (adjust_fps t ?q) = new_user_instant q"
    by (simp_all add: adjust_fps_def Let_def modify_user_def)
  have q': "q_users q' = q_users ?q" "q_fps q' = q_fps (adjust_fps t ?q)" "new_user_instant q' = new_user_instant q"
    using assms(4) keep a by (auto simp: user_network_delay_def Let_def split: if_splits)
  then show "q_users q' = [(i, u\<lparr>u_delay := d\<rparr>)]" "new_user_instant q' = new_user_instant q" using u by simp_all
  show "highest_fps q' = highest_fps q" using q'(1) u by (intro hp) simp
  show "q_fps q' = f" if "d_fps d = Some f" "MIN_FPS \<le> f" "f \<le> highest_fps q"
  proof -
    have "(t - new_user_instant ?q) div 1000 \<ge> 1" using assms(3) by (simp add: modify_user_def div_greater_zero_iff Suc_leI)
    then show ?thesis
      using that nd h u by (simp add: q'(2) adjust_fps_def Let_def min_or_def clamp_u32_def)
  qed
qed


text \<open>The last \<open>n\<close> delays of the only viewer are good.\<close>

definition warm :: "nat \<Rightarrow> int \<Rightarrow> nat \<Rightarrow> nat \<Rightarrow> video_qos \<Rightarrow> bool" where
  "warm n i hi T q \<longleftrightarrow> (\<exists>u old new. q_users q = [(i, u)] \<and> \<not> response_delayed (u_delay u) \<and>
     highest_fps q = hi \<and> new_user_instant q = T \<and> qos_ok q \<and>
     delay_history (u_delay u) = old @ new \<and> length new = n \<and> (\<forall>x \<in> set new. x < 50) \<and>
     (0 < n \<longrightarrow> q_fps q \<le> hi \<and> increase_fps_count (u_delay u) \<le> 2))"

definition progress :: "video_qos \<Rightarrow> nat" where
  "progress q = 3 * q_fps q + increase_fps_count (u_delay (snd (hd (q_users q))))"

lemma good_suffix:
  fixes new :: "nat list"
  assumes "length (old @ new) \<le> 3" and "\<forall>x \<in> set new. x < 50" and "y < 50"
  shows "\<exists>old' new'. (if 2 < length (old @ new) then tl (old @ new) else old @ new) @ [y] = old' @ new' \<and>
    length new' = min 3 (Suc (length new)) \<and> (\<forall>x \<in> set new'. x < 50)"
proof (cases "old = [] \<and> length new = 3")
  case True
  then show ?thesis using assms(2,3) list.set_sel(2) [of new]
    by (intro exI [of _ "[]"] exI [of _ "tl new @ [y]"]) (cases new; auto)
next
  case False
  then show ?thesis using assms
    by (intro exI [of _ "if 2 < length (old @ new) then tl old else old"] exI [of _ "new @ [y]"]) (cases old; auto)
qed

lemma warm_step:
  assumes "warm n i hi T q" and "n \<le> 3" and "x < 50" and "T + 1000 \<le> t" and "user_network_delay l t i x q = Some q'"
  shows "warm (min 3 (Suc n)) i hi T q'"
    and "2 \<le> n \<Longrightarrow> q_fps q \<le> q_fps q' \<and> (q_fps q' = hi \<or> progress q + 1 \<le> progress q')"
proof -
  obtain u old new where u: "q_users q = [(i, u)]" "\<not> response_delayed (u_delay u)"
    "highest_fps q = hi" "new_user_instant q = T" "qos_ok q" "delay_history (u_delay u) = old @ new" "length new = n"
    "\<forall>x \<in> set new. x < 50" "0 < n \<longrightarrow> q_fps q \<le> hi \<and> increase_fps_count (u_delay u) \<le> 2"
    using assms(1) by (auto simp: warm_def)
  let ?lms = "fps_limits (quality_ratio (latest_quality q))"
  define d where "d = user_delay_report hi ?lms x (q_fps q) (u_delay u)"
  have hi: "MIN_FPS \<le> hi" "hi \<le> MAX_FPS" using highest_fps_bounds [of q] u(3) by simp_all
  obtain f d' where f: "fps_for_delay (fst ?lms) (snd ?lms) (avg_delay (u_delay u))
      (max (avg_delay (add_delay (max x 10) (u_delay u))) 10) (q_fps q) (add_delay (max x 10) (u_delay u)) = (f, d')"
    by (rule prod.exhaust)
  note r = report_fields [OF f, of hi, folded d_def]
  note s = report_single [OF u(1,2) _ assms(5), unfolded u(3,4), folded d_def, OF assms(4)]
  obtain g where g: "d_fps d = Some g" "MIN_FPS \<le> g" "g \<le> hi"
    using r(1) clamp_u32_bounds [OF hi(1)] by simp
  have q': "q_fps q' = g" using s(5) g by simp
  have len: "length (old @ new) \<le> 3"
    using u(1,5,6) by (auto simp: qos_ok_def user_ok_def delay_ok_def)
  have dh: "delay_history d = (if 2 < length (old @ new) then tl (old @ new) else old @ new) @ [max x 10]"
    using r(3) u(6) by (simp add: add_delay_def)
  have "max x 10 < 50" using assms(3) by simp
  from good_suffix [OF len u(8) this, folded dh, unfolded u(7)]
  obtain old' new' where h: "delay_history d = old' @ new'" "length new' = min 3 (Suc n)" "\<forall>x \<in> set new'. x < 50"
    by blast
  have c: "increase_fps_count d \<le> 2" using r(2) by auto
  have "qos_ok q'" using network_delay_ok [OF u(5), of l t i x] assms(5) by simp
  then show "warm (min 3 (Suc n)) i hi T q'"
    using s(1-4) h c g q' unfolding warm_def by (intro exI [of _ "u\<lparr>u_delay := d\<rparr>"] exI [of _ old'] exI [of _ new']) simp
  assume n: "2 \<le> n"
  have "length (delay_history d) \<le> 3"
    using r(3) u(6) len by (auto simp: add_delay_def)
  then have "old' = []" using h n by (cases old') auto
  then have "avg_delay (add_delay (max x 10) (u_delay u)) < 50"
    using h r(3) n by (intro avg_delay_below) auto
  from good_report [OF this hi, of "q_fps q" ?lms] fps_limits_le u(9) n q' g c
  show "q_fps q \<le> q_fps q' \<and> (q_fps q' = hi \<or> progress q + 1 \<le> progress q')"
    using s(1) u(1) by (auto simp: progress_def simp flip: d_def)
qed


text \<open>Reports of one viewer as events.\<close>

definition reports :: "int \<Rightarrow> (nat \<times> nat) list \<Rightarrow> (nat \<times> qos_event) list" where
  "reports i rs = map (\<lambda>(t, x). (t, QDelay i x)) rs"

lemma reports_simps [simp]: "reports i [] = []" "reports i ((t, x) # rs) = (t, QDelay i x) # reports i rs"
  by (simp_all add: reports_def)

lemma qos_run_append: "qos_run l (xs @ ys) q = Option.bind (qos_run l xs q) (qos_run l ys)"
  by (induction xs arbitrary: q) (auto split: Option.bind_splits)

lemma warm_progress: "warm n i hi T q \<Longrightarrow> 0 < n \<Longrightarrow> q_fps q \<le> hi \<and> progress q \<le> 3 * q_fps q + 2"
  by (auto simp: warm_def progress_def)

lemma warm_up:
  assumes "warm n i hi T q" and "n \<le> 3" and "\<forall>(t, x) \<in> set rs. T + 1000 \<le> t \<and> x < 50"
    and "qos_run l (reports i rs) q = Some q'"
  shows "warm (min 3 (n + length rs)) i hi T q'"
  using assms
proof (induction rs arbitrary: n q)
  case (Cons r rs)
  obtain t x where r: "r = (t, x)" by (rule prod.exhaust)
  obtain q1 where q1: "user_network_delay l t i x q = Some q1" "qos_run l (reports i rs) q1 = Some q'"
    using Cons.prems(4) by (auto simp: r bind_eq_Some_conv)
  have "warm (min 3 (Suc n)) i hi T q1" using warm_step(1) [OF Cons.prems(1,2) _ _ q1(1)] Cons.prems(3) r by auto
  moreover have "\<forall>(t, x) \<in> set rs. T + 1000 \<le> t \<and> x < 50" using Cons.prems(3) by simp
  ultimately have "warm (min 3 (min 3 (Suc n) + length rs)) i hi T q'" by (intro Cons.IH [OF _ _ _ q1(2)]) simp_all
  moreover have "min 3 (min 3 (Suc n) + length rs) = min 3 (n + length (r # rs))" by (simp add: min_def)
  ultimately show ?case by simp
qed (simp add: min_absorb2)

lemma climbs:
  assumes "warm 3 i hi T q" and "\<forall>(t, x) \<in> set rs. T + 1000 \<le> t \<and> x < 50"
    and "qos_run l (reports i rs) q = Some q'" and "q_fps q = hi \<or> m \<le> progress q"
  shows "q_fps q' = hi \<or> m + length rs \<le> progress q'"
  using assms
proof (induction rs arbitrary: q m)
  case (Cons r rs)
  obtain t x where r: "r = (t, x)" by (rule prod.exhaust)
  obtain q1 where q1: "user_network_delay l t i x q = Some q1" "qos_run l (reports i rs) q1 = Some q'"
    using Cons.prems(3) by (auto simp: r bind_eq_Some_conv)
  note st = warm_step [OF Cons.prems(1) order.refl _ _ q1(1)]
  have w: "warm 3 i hi T q1" using st(1) Cons.prems(2) r by auto
  have p: "q_fps q \<le> q_fps q1" "q_fps q1 = hi \<or> progress q + 1 \<le> progress q1"
    using st(2) Cons.prems(2) r by auto
  have "q_fps q1 \<le> hi" using warm_progress [OF w] by simp
  then have "q_fps q1 = hi \<or> m + 1 \<le> progress q1" using p Cons.prems(4) by auto
  from Cons.IH [OF w _ q1(2) this] Cons.prems(2) show ?case by auto
qed simp

text \<open>
  C14. A good network brings the full frame rate back: if the only viewer reports delays below 50
  milliseconds from one second after it connected, the host captures at the highest rate this viewer
  allows after at most three reports and three more for every frame per second, whatever the rate was
  before.
\<close>

theorem good_network_recovers:
  assumes "qos_ok q" and "q_users q = [(i, u)]" and "\<not> response_delayed (u_delay u)"
    and "\<forall>(t, x) \<in> set rs. new_user_instant q + 1000 \<le> t \<and> x < 50"
    and "3 * highest_fps q + 3 \<le> length rs" and "qos_run l (reports i rs) q = Some q'"
  shows "q_fps q' = highest_fps q"
proof -
  let ?hi = "highest_fps q" and ?T = "new_user_instant q"
  define as bs where "as = take 3 rs" and "bs = drop 3 rs"
  have rs: "rs = as @ bs" "length as = 3" "length bs = length rs - 3" using assms(5) by (simp_all add: as_def bs_def)
  obtain q1 where q1: "qos_run l (reports i as) q = Some q1" "qos_run l (reports i bs) q1 = Some q'"
    using assms(6) by (auto simp: rs(1) reports_def qos_run_append bind_eq_Some_conv)
  have "warm 0 i ?hi ?T q" using assms(1-3) by (auto simp: warm_def)
  from warm_up [OF this _ _ q1(1)] assms(4) have w: "warm 3 i ?hi ?T q1" by (auto simp: rs)
  have "1 \<le> q_fps q1" using w by (auto simp: warm_def qos_ok_def)
  then have "3 \<le> progress q1" by (simp add: progress_def)
  with climbs [OF w _ q1(2), of 3] assms(4) have c: "q_fps q' = ?hi \<or> 3 + length bs \<le> progress q'" by (auto simp: rs(1))
  have "warm 3 i ?hi ?T q'" using warm_up [OF w _ _ q1(2)] assms(4) by (auto simp: rs(1))
  from warm_progress [OF this] c assms(5) rs(3) show ?thesis by simp
qed

section \<open>The bitrate\<close>

lemma scaled_down:
  assumes "0 < r" and "0 \<le> k" and "k \<le> 95"
  shows "rnd (r * rnd (k / 100)) < r"
proof -
  have k: "rnd (k / 100) \<le> 96 / 100" using rnd_upper [of "k / 100"] assms(2,3) by simp
  have "r * rnd (k / 100) \<le> r * (96 / 100)" using assms(1) k by (intro mult_left_mono) auto
  moreover from this have "r * rnd (k / 100) / 2 ^ 24 \<le> r * (96 / 100) / 2 ^ 24" by (rule divide_right_mono) simp
  moreover have "rnd (r * rnd (k / 100)) \<le> r * rnd (k / 100) + r * rnd (k / 100) / 2 ^ 24"
    using assms(1) by (intro rnd_upper) simp
  moreover have "r * (96 / 100) + r * (96 / 100) / 2 ^ 24 < r" using assms(1) by simp
  ultimately show ?thesis by linarith
qed

lemma next_ratio_falls: "0 < r \<Longrightarrow> DELAY_THRESHOLD_150MS \<le> delay \<Longrightarrow> next_ratio b delay r < r"
  using scaled_down [of r 95] scaled_down [of r 90] scaled_down [of r 85] scaled_down [of r 80]
  by (auto simp: next_ratio_def Let_def)

text \<open>An adjustment clamps a value that is at most the one the delay asks for.\<close>

definition max_delay :: "video_qos \<Rightarrow> nat" where
  "max_delay q = Max (set (map (avg_delay \<circ> u_delay \<circ> snd) (q_users q)))"

lemma adjust_ratio_clamps:
  assumes "quality_ok (latest_quality q)" and "adjust_ratio now b q = Some q'" and "in_vbr_state q" and "q_users q \<noteq> []"
  shows "\<exists>v. v \<le> next_ratio b (max_delay q) (q_ratio q) \<and>
    clamp_f32 v (min_ratio (latest_quality q) (ratio_1mbps (q_ratio q) (bitrate_store q)))
      (quality_ratio (latest_quality q)) = Some (q_ratio q')"
proof -
  define v where "v = next_ratio b (max_delay q) (q_ratio q)"
  define v' where "v' = (case ratio_add_150kbps (q_ratio q) (bitrate_store q) of
      Some r \<Rightarrow> if r < v \<and> q_ratio q < r \<and> BR_SPEED \<le> q_ratio q then r else v | None \<Rightarrow> v)"
  have "v' \<le> v" by (auto simp: v'_def split: option.split)
  moreover have "adjust_ratio now b q = map_option (\<lambda>x. q\<lparr>q_ratio := x, adjust_ratio_instant := now\<rparr>)
      (clamp_f32 v' (min_ratio (latest_quality q) (ratio_1mbps (q_ratio q) (bitrate_store q)))
        (rnd (quality_ratio (latest_quality q) * MAX_BR_MULTIPLE)))"
    using assms(3,4) unfolding adjust_ratio_def Let_def v'_def v_def max_delay_def by simp
  ultimately have "map_option (\<lambda>x. q\<lparr>q_ratio := x, adjust_ratio_instant := now\<rparr>)
      (clamp_f32 v' (min_ratio (latest_quality q) (ratio_1mbps (q_ratio q) (bitrate_store q)))
        (quality_ratio (latest_quality q))) = Some q'" "v' \<le> v"
    using assms(2) by (simp_all add: quality_ok_exact [OF assms(1)])
  then show ?thesis by (auto simp: v_def)
qed

lemma ratio_after:
  assumes "qos_ok q" and "adjust_ratio now b q = Some q'" and "in_vbr_state q" and "q_users q \<noteq> []"
  shows "(q_ratio q' \<le> next_ratio b (max_delay q) (q_ratio q) \<or>
      q_ratio q' = min_ratio (latest_quality q) (ratio_1mbps (q_ratio q) (bitrate_store q)))
    \<and> q_ratio q' \<le> quality_ratio (latest_quality q)"
proof -
  have l: "quality_ok (latest_quality q)" using assms(1) by (rule latest_quality_ok)
  from adjust_ratio_clamps [OF l assms(2-4)] min_ratio_le [OF l] show ?thesis
    by (auto simp: clamp_f32_def split: if_splits)
qed

text \<open>
  The bitrate gives way to a bad network: when the delay of some viewer is 150 milliseconds or
  more, an adjustment lowers the bitrate ratio, or sets it to the least ratio of the quality in
  force; in no case does it exceed what that quality allows.
\<close>

theorem bitrate_gives_way:
  assumes "qos_ok q" and "in_vbr_state q" and "(i, u) \<in> set (q_users q)"
    and "DELAY_THRESHOLD_150MS \<le> avg_delay (u_delay u)" and "adjust_ratio now b q = Some q'"
  shows "(q_ratio q' < q_ratio q \<or>
      q_ratio q' = min_ratio (latest_quality q) (ratio_1mbps (q_ratio q) (bitrate_store q)))
    \<and> q_ratio q' \<le> quality_ratio (latest_quality q)"
proof -
  have "avg_delay (u_delay u) \<le> max_delay q"
    using assms(3) unfolding max_delay_def by (intro Max_ge) force+
  then have d: "DELAY_THRESHOLD_150MS \<le> max_delay q" using assms(4) by linarith
  have "0 < q_ratio q" using assms(1) br_bounds(1) by (simp add: qos_ok_def)
  then have "next_ratio b (max_delay q) (q_ratio q) < q_ratio q" using d by (rule next_ratio_falls)
  moreover have "q_users q \<noteq> []" using assms(3) by auto
  ultimately show ?thesis using ratio_after [OF assms(1,5,2)] by auto
qed

section \<open>What the comments do not say\<close>

text \<open>
  The delay is averaged over three reports, not over \<open>HISTORY_DELAY_LEN\<close>; a delay between 150 and
  200 milliseconds never takes the frame rate below the least one of the quality; and a viewer that
  connects right after the last one left finds no display, so that its screen never counts as moving
  and the bitrate does not rise again until the video service is started anew.
\<close>

lemma history_holds_three: "length (delay_history d) = HISTORY_DELAY_LEN \<Longrightarrow> length (delay_history (add_delay x d)) = 3"
  by (simp add: add_delay_def)

lemma moderate_delay_keeps_min_fps:
  "DELAY_THRESHOLD_150MS \<le> avg \<Longrightarrow> avg < 200 \<Longrightarrow> m \<le> fst (fps_for_delay m n old avg fps d)"
  by (simp add: fps_for_delay_def Let_def)

lemma reconnect_forgets_displays:
  "\<exists>q. qos_run l [(t, QOpen True i), (t, QNewDisplay n), (t, QClose i), (t, QOpen True j)] (default_qos 0) = Some q
    \<and> q_displays q = [] \<and> in_vbr_state q"
  by (simp add: on_connection_open_def on_connection_close_def new_display_def default_qos_def in_vbr_state_def Let_def)

lemma adjust_fps_frame:
  "q_displays (adjust_fps now q) = q_displays q" "q_ratio (adjust_fps now q) = q_ratio q"
  "q_users (adjust_fps now q) = q_users q" "bitrate_store (adjust_fps now q) = bitrate_store q"
  "abr_config (adjust_fps now q) = abr_config q"
  by (simp_all add: adjust_fps_def Let_def)

lemma lost_display_never_moves:
  assumes "q_displays q = []" and "qos_ok q" and "abr_config q" and "update_display_data now n c q = Some q'"
  shows "q_displays q' = [] \<and> (q_ratio q' \<le> q_ratio q \<or>
    q_ratio q' = min_ratio (latest_quality q) (ratio_1mbps (q_ratio q) (bitrate_store q)))"
proof -
  define q1 where "q1 = adjust_fps now q"
  have d: "p\<lparr>q_displays := map f (q_displays p)\<rparr> = p" if "q_displays p = []" for f and p :: video_qos
    using that by (cases p) simp
  have m: "modify_display n f q = q" for f unfolding modify_display_def by (rule d [OF assms(1)])
  have q1: "q_displays q1 = []" "q_ratio q1 = q_ratio q" "latest_quality q1 = latest_quality q"
    "bitrate_store q1 = bitrate_store q" "in_vbr_state q1"
    using assms(1,3) by (simp_all add: q1_def adjust_fps_frame latest_quality_def in_vbr_state_def)
  have ok: "qos_ok q1" unfolding q1_def by (rule adjust_fps_ok [OF assms(2)])
  have q0: "q1\<lparr>q_displays := map f (q_displays q1)\<rparr> = q1" for f by (rule d [OF q1(1)])
  have ex: "(\<exists>(k, d) \<in> set (q_displays q1). P d) = False" for P :: "display_data \<Rightarrow> bool" by (simp add: q1(1))
  have "update_display_data now n c q = (if ADJUST_RATIO_INTERVAL \<le> (now - adjust_ratio_instant q1) div 1000
      then adjust_ratio now False q1 else Some q1)"
    unfolding update_display_data_def Let_def m q1_def [symmetric] q0 ex if_P [OF q1(5)] by (rule refl)
  then have u: "q' = q1 \<or> adjust_ratio now False q1 = Some q'" using assms(4) by (simp split: if_splits)
  have pos: "0 < q_ratio q" using assms(2) br_bounds(1) by (simp add: qos_ok_def)
  have le: "next_ratio False d (q_ratio q) \<le> q_ratio q" for d
    by (cases "DELAY_THRESHOLD_150MS \<le> d") (use next_ratio_falls [OF pos, of d False] in simp, simp add: next_ratio_def)
  have same: "q_displays q'' = q_displays p" if "adjust_ratio now False p = Some q''" for p q''
    using that by (auto simp: adjust_ratio_def Let_def split: if_splits)
  show ?thesis
  proof (cases "adjust_ratio now False q1 = Some q' \<and> q_users q1 \<noteq> []")
    case True
    then have r: "q_ratio q' \<le> next_ratio False (max_delay q1) (q_ratio q) \<or>
        q_ratio q' = min_ratio (latest_quality q) (ratio_1mbps (q_ratio q) (bitrate_store q))"
      using ratio_after [OF ok _ q1(5), of now False q', unfolded q1(2-4)] by blast
    have "q_displays q' = []" using True same [of q1 q'] q1(1) by simp
    then show ?thesis using r le [of "max_delay q1"] by linarith
  next
    case False
    moreover have "adjust_ratio now False q1 = Some q1" if "q_users q1 = []" by (simp add: adjust_ratio_def that)
    ultimately have "q' = q1" using u by (metis option.inject)
    then show ?thesis using q1 by simp
  qed
qed


section \<open>Examples\<close>

definition demo_qos :: video_qos where
  "demo_qos = on_connection_open 0 True 7 (default_qos 0)"

lemma demo_qos_simps:
  "q_users demo_qos = [(7, new_user)]" "q_fps demo_qos = 30" "new_user_instant demo_qos = 0"
  "in_vbr_state demo_qos" "highest_fps demo_qos = 30" "qos_ok demo_qos"
  using default_qos_ok user_ok_upds(6)
  by (simp_all add: demo_qos_def on_connection_open_def default_qos_def in_vbr_state_def highest_fps_def
      new_user_def user_fps_def min_or_def clamp_u32_def qos_ok_def)

theorem qos_in_range_witness:
  "\<exists>q. qos_run False [(0, QOpen True 7), (2000, QDelay 7 80)] (default_qos 0) = Some q \<and> get_fps q = q_fps q"
  using qos_in_range [of False "[(0, QOpen True 7), (2000, QDelay 7 80)]" 0] by blast

theorem bad_network_few_frames_witness:
  "\<exists>q. user_network_delay False 2000 7 700 demo_qos = Some q \<and> q_fps q \<le> 3"
proof -
  obtain q where q: "user_network_delay False 2000 7 700 demo_qos = Some q"
    using network_delay_ok demo_qos_simps(6) by blast
  then show ?thesis
    using bad_network_few_frames [OF _ _ q, of new_user]
    by (simp add: demo_qos_simps new_user_def add_delay_def avg_delay_def wrap32_small no_rtt_def rtt_update_def get_rtt_def)
qed

theorem good_network_recovers_witness:
  "\<exists>q. qos_run False (reports 7 (replicate 93 (1000, 20))) demo_qos = Some q \<and> q_fps q = 30"
proof -
  obtain q where q: "qos_run False (reports 7 (replicate 93 (1000, 20))) demo_qos = Some q"
    using qos_run_ok demo_qos_simps(6) by blast
  have "\<not> response_delayed (u_delay new_user)" by (simp add: new_user_def)
  then show ?thesis
    using good_network_recovers [OF demo_qos_simps(6,1) _ _ _ q] q demo_qos_simps(3,5) by simp
qed

theorem bitrate_gives_way_witness:
  "\<exists>q. adjust_ratio 3000 False demo_qos = Some q \<and> q_ratio q \<le> quality_ratio (latest_quality demo_qos)"
proof -
  obtain q where q: "adjust_ratio 3000 False demo_qos = Some q" using adjust_ratio_ok demo_qos_simps(6) by blast
  have "DELAY_THRESHOLD_150MS \<le> avg_delay (u_delay new_user)" by (simp add: new_user_def avg_delay_def)
  then show ?thesis
    using bitrate_gives_way [OF demo_qos_simps(6,4) _ _ q] demo_qos_simps(1) q by auto
qed

lemma shl8_small: "0 \<le> q \<Longrightarrow> q \<le> 4095 \<Longrightarrow> shl8 q = 256 * q"
proof -
  assume q: "0 \<le> q" "q \<le> 4095"
  have "push_bit 8 (of_int q :: i32) = of_int (q * 256)" by (simp add: push_bit_eq_mult)
  moreover have "sint (of_int (q * 256) :: i32) = q * 256"
    using q by (simp only: signed_of_int) (simp add: signed_take_bit_int_eq_self)
  ultimately show ?thesis by (simp only: shl8_def mult.commute)
qed

lemma custom_quality_converts:
  assumes "10 \<le> q" and "q \<le> 4095"
  shows "convert_quality (o_custom_image_quality (fst (save_custom_image_quality e q st))) =
    map_option QCustom (clamp_f32 (rnd (f32 (nat (2 * q)) / 100)) BR_MIN BR_MAX)"
proof -
  have "shl8 q = 256 * q" using assms by (intro shl8_small) simp_all
  then show ?thesis
    using assms by (simp add: save_custom_image_quality_def convert_quality_def Let_def mult.commute)
qed

end
