(* ===== verification/TerminalBuffer.thy ===== *)
theory TerminalBuffer
  imports Prelude
begin

text \<open>
  The output a terminal of the host keeps for a viewer that comes back (\<open>OutputBuffer\<close> of
  \<open>src/server/terminal_service.rs\<close>): the lines of the shell, trimmed from the front, and the recent
  part that is replayed. The byte count of the buffer is a \<open>usize\<close> that wraps, as in the release
  build, and the trimming loop is a partial function, because it can run forever.
\<close>

definition MAX_OUTPUT_BUFFER_SIZE :: nat where
  "MAX_OUTPUT_BUFFER_SIZE = 1048576"

definition MAX_BUFFER_LINES :: nat where
  "MAX_BUFFER_LINES = 10000"

record output_buffer =
  buf_lines :: "bytes list"
  total_size :: u64
  last_line_incomplete :: bool

definition buffer_new :: output_buffer where
  "buffer_new = \<lparr>buf_lines = [], total_size = 0, last_line_incomplete = False\<rparr>"

section \<open>Adding output\<close>

text \<open>\<open>slice::split\<close> at the newline byte: never empty, the last piece is what follows the last newline.\<close>

fun split_lines :: "bytes \<Rightarrow> bytes list" where
  "split_lines [] = [[]]"
| "split_lines (c # cs) =
     (if c = 10 then [] # split_lines cs
      else (case split_lines cs of l # ls \<Rightarrow> (c # l) # ls | [] \<Rightarrow> [[c]]))"

text \<open>The loop over the pieces: the last one has no newline unless the data ends with one.\<close>

fun push_lines :: "bool \<Rightarrow> bytes list \<Rightarrow> output_buffer \<Rightarrow> output_buffer" where
  "push_lines ends [] b = b"
| "push_lines ends (l # ls) b =
     (let b = (if ls = [] \<and> \<not> ends \<and> l \<noteq> [] then b\<lparr>last_line_incomplete := True\<rparr> else b);
          b = (if l \<noteq> [] \<or> ls \<noteq> []
               then (let d = (if ls \<noteq> [] \<or> ends then l @ [10] else l)
                     in b\<lparr>total_size := total_size b + of_nat (length d), buf_lines := buf_lines b @ [d]\<rparr>)
               else b)
      in push_lines ends ls b)"

text \<open>\<open>while total_size > MAX || lines.len() > MAX\<close>: nothing leaves the loop when no line is left.\<close>

partial_function (option) trim_front :: "output_buffer \<Rightarrow> output_buffer option" where
  "trim_front b =
     (if unat (total_size b) > MAX_OUTPUT_BUFFER_SIZE \<or> length (buf_lines b) > MAX_BUFFER_LINES
      then (case buf_lines b of
              [] \<Rightarrow> trim_front b
            | l # ls \<Rightarrow> trim_front (b\<lparr>buf_lines := ls, total_size := total_size b - of_nat (length l)\<rparr>))
      else Some b)"

definition add_lines :: "bytes \<Rightarrow> output_buffer \<Rightarrow> output_buffer option" where
  "add_lines d b = trim_front (push_lines (d \<noteq> [] \<and> List.last d = 10) (split_lines d) b)"

definition append_output :: "output_buffer \<Rightarrow> bytes \<Rightarrow> output_buffer option" where
  "append_output b d =
     (if d = [] then Some b
      else if last_line_incomplete b \<and> buf_lines b \<noteq> [] then
        (let ls = butlast (buf_lines b); l = List.last (buf_lines b)
         in (if 10 \<in> set d then
               add_lines (tl (dropWhile (\<lambda>c. c \<noteq> 10) d))
                 (b\<lparr>buf_lines := ls @ [l @ takeWhile (\<lambda>c. c \<noteq> 10) d @ [10]], last_line_incomplete := False\<rparr>)
             else Some (b\<lparr>buf_lines := ls @ [l @ d], total_size := total_size b + of_nat (length d)\<rparr>)))
      else add_lines d b)"

section \<open>What is replayed\<close>

text \<open>At most three continuation bytes of UTF-8 are skipped.\<close>

fun skip_continuation :: "nat \<Rightarrow> bytes \<Rightarrow> nat \<Rightarrow> nat" where
  "skip_continuation 0 l n = n"
| "skip_continuation (Suc k) l n =
     (if n < length l \<and> l ! n AND 192 = 128 then skip_continuation k l (n + 1) else n)"

text \<open>The pieces from the newest line on; the list of lines is reversed.\<close>

fun recent_chunks :: "nat \<Rightarrow> nat \<Rightarrow> bytes list \<Rightarrow> bytes list" where
  "recent_chunks mx got [] = []"
| "recent_chunks mx got (l # ls) =
     (if got + length l > mx then
        (if got = 0 \<and> length l > mx then
           (let n = skip_continuation 3 l (length l - mx)
            in (if n < length l then [drop n l] else []))
         else [])
      else l # recent_chunks mx (got + length l) ls)"

definition get_recent :: "output_buffer \<Rightarrow> nat \<Rightarrow> bytes" where
  "get_recent b mx = (if mx = 0 then [] else concat (rev (recent_chunks mx 0 (rev (buf_lines b)))))"

section \<open>The buffer as a log\<close>

text \<open>
  What a session relies on: the log holds the end of everything that was put into it, and what it
  replays is the end of what it holds, no longer than was asked for.
\<close>

fun put_all :: "('b \<Rightarrow> bytes \<Rightarrow> 'b option) \<Rightarrow> 'b \<Rightarrow> bytes list \<Rightarrow> 'b option" where
  "put_all put b [] = Some b"
| "put_all put b (d # ds) = (case put b d of None \<Rightarrow> None | Some b' \<Rightarrow> put_all put b' ds)"

lemma put_all_append:
  "put_all put b (xs @ ys) = (case put_all put b xs of None \<Rightarrow> None | Some b' \<Rightarrow> put_all put b' ys)"
  by (induction xs arbitrary: b) (auto split: option.split)

locale output_log =
  fixes put :: "'b \<Rightarrow> bytes \<Rightarrow> 'b option"
    and recent :: "'b \<Rightarrow> nat \<Rightarrow> bytes"
    and held :: "'b \<Rightarrow> bytes"
  assumes put_suffix: "put b d = Some b' \<Longrightarrow> suffix (held b') (held b @ d)"
    and recent_suffix: "suffix (recent b n) (held b)"
    and recent_length: "length (recent b n) \<le> n"
begin

lemma puts_suffix: "put_all put b ds = Some b' \<Longrightarrow> suffix (held b') (held b @ concat ds)"
proof (induction ds arbitrary: b)
  case (Cons d ds)
  then obtain c where c: "put b d = Some c" "put_all put c ds = Some b'"
    by (auto split: option.splits)
  have "suffix (held c @ concat ds) ((held b @ d) @ concat ds)"
    using put_suffix [OF c(1)] by (auto simp: suffix_def)
  then show ?case using Cons.IH [OF c(2)] by (auto intro: suffix_order.trans)
qed simp

lemma recent_of_puts:
  assumes "put_all put b ds = Some b'"
  shows "suffix (recent b' n) (held b @ concat ds)" and "length (recent b' n) \<le> n"
  using suffix_order.trans [OF recent_suffix puts_suffix [OF assms]] recent_length by auto

end

definition held_output :: "output_buffer \<Rightarrow> bytes" where
  "held_output b = concat (buf_lines b)"

fun join_lines :: "bytes list \<Rightarrow> bytes" where
  "join_lines [] = []"
| "join_lines (l # ls) = (if ls = [] then l else l @ 10 # join_lines ls)"

lemma split_lines_ne [simp]: "split_lines d \<noteq> []"
  by (cases d) (auto split: list.split)

lemma join_split_lines [simp]: "join_lines (split_lines d) = d"
  by (induction d) (auto split: list.split)

lemma split_single: "split_lines d = [[]] \<longleftrightarrow> d = []"
  using join_split_lines [of d] by (cases d) auto

lemma last_split: "d \<noteq> [] \<Longrightarrow> List.last d = 10 \<Longrightarrow> List.last (split_lines d) = []"
proof (induction d)
  case (Cons c cs)
  then show ?case using split_single [of cs] by (cases "cs = []") (auto split: list.split)
qed simp

lemma held_push:
  "ls \<noteq> [] \<Longrightarrow> (ends \<Longrightarrow> List.last ls = []) \<Longrightarrow>
     held_output (push_lines ends ls b) = held_output b @ join_lines ls"
proof (induction ends ls b rule: push_lines.induct)
  case (2 ends l ls b)
  then show ?case
    by (cases "ls = []") (auto simp: held_output_def Let_def)
qed simp

lemma trim_steps:
  assumes "trim_front b = Some b'"
  shows "\<exists>k \<le> length (buf_lines b).
     b' = b\<lparr>buf_lines := drop k (buf_lines b),
            total_size := total_size b - of_nat (length (concat (take k (buf_lines b))))\<rparr>
     \<and> unat (total_size b') \<le> MAX_OUTPUT_BUFFER_SIZE \<and> length (buf_lines b') \<le> MAX_BUFFER_LINES"
proof (rule trim_front.raw_induct [OF _ assms])
  fix trim :: "output_buffer \<Rightarrow> output_buffer option" and b b'
  let ?P = "\<lambda>b b'. \<exists>k \<le> length (buf_lines b).
     b' = b\<lparr>buf_lines := drop k (buf_lines b),
            total_size := total_size b - of_nat (length (concat (take k (buf_lines b))))\<rparr>
     \<and> unat (total_size b') \<le> MAX_OUTPUT_BUFFER_SIZE \<and> length (buf_lines b') \<le> MAX_BUFFER_LINES"
  assume 1: "\<And>b b'. trim b = Some b' \<Longrightarrow> ?P b b'"
    "(if unat (total_size b) > MAX_OUTPUT_BUFFER_SIZE \<or> length (buf_lines b) > MAX_BUFFER_LINES
      then (case buf_lines b of
              [] \<Rightarrow> trim b
            | l # ls \<Rightarrow> trim (b\<lparr>buf_lines := ls, total_size := total_size b - of_nat (length l)\<rparr>))
      else Some b) = Some b'"
  show "?P b b'"
  proof (cases "unat (total_size b) > MAX_OUTPUT_BUFFER_SIZE \<or> length (buf_lines b) > MAX_BUFFER_LINES")
    case False
    then show ?thesis using 1 by (intro exI [of _ 0]) auto
  next
    case True
    show ?thesis
    proof (cases "buf_lines b")
      case Nil
      then have "trim b = Some b'" using 1(2) True by simp
      then show ?thesis using 1(1) [of b b'] Nil True by (auto simp: MAX_BUFFER_LINES_def)
    next
      case (Cons l ls)
      with 1(2) True obtain k where "k \<le> length ls"
        and "b' = b\<lparr>buf_lines := drop k ls,
               total_size := total_size b - of_nat (length l) - of_nat (length (concat (take k ls)))\<rparr>"
        and "unat (total_size b') \<le> MAX_OUTPUT_BUFFER_SIZE" "length (buf_lines b') \<le> MAX_BUFFER_LINES"
        using 1(1) [of "b\<lparr>buf_lines := ls, total_size := total_size b - of_nat (length l)\<rparr>" b']
        by auto
      with Cons show ?thesis by (intro exI [of _ "Suc k"]) (simp add: algebra_simps)
    qed
  qed
qed

lemma suffix_concat_drop: "suffix (concat (drop k xs)) (concat xs)"
  by (metis append_take_drop_id concat_append suffix_def)

lemma trim_suffix: "trim_front b = Some b' \<Longrightarrow> suffix (held_output b') (held_output b)"
  using trim_steps [of b b'] by (auto simp: held_output_def suffix_concat_drop)

lemma add_lines_suffix:
  "add_lines d b = Some b' \<Longrightarrow> suffix (held_output b') (held_output b @ d)"
  using trim_suffix held_push [of "split_lines d" "d \<noteq> [] \<and> List.last d = 10" b] last_split [of d]
  by (force simp: add_lines_def)

lemma split_at_newline:
  "10 \<in> set d \<Longrightarrow> takeWhile (\<lambda>c. c \<noteq> 10) d @ 10 # tl (dropWhile (\<lambda>c. c \<noteq> 10) d) = (d :: bytes)"
  by (induction d) auto

lemma append_output_suffix:
  assumes "append_output b d = Some b'"
  shows "suffix (held_output b') (held_output b @ d)"
proof (cases "last_line_incomplete b \<and> buf_lines b \<noteq> [] \<and> d \<noteq> []")
  case False
  then show ?thesis using assms add_lines_suffix by (auto simp: append_output_def split: if_splits)
next
  case True
  define ls l where "ls = butlast (buf_lines b)" and "l = List.last (buf_lines b)"
  have held: "held_output b = concat ls @ l"
    using True by (metis append_butlast_last_id concat.simps(1) concat.simps(2) concat_append
      append_Nil2 held_output_def l_def ls_def)
  show ?thesis
  proof (cases "10 \<in> set d")
    case nl: True
    show ?thesis
      using assms True nl split_at_newline [OF nl]
      by (auto simp: append_output_def held Let_def simp flip: ls_def l_def
          dest!: add_lines_suffix) (simp add: held_output_def)
  next
    case no: False
    then show ?thesis using assms True
      by (auto simp: append_output_def held Let_def simp flip: ls_def l_def)
         (auto simp: held_output_def)
  qed
qed

lemma recent_chunks_suffix: "suffix (concat (rev (recent_chunks mx n ls))) (concat (rev ls))"
proof (induction mx n ls rule: recent_chunks.induct)
  case (2 mx n l ls)
  then show ?case by (auto simp: Let_def suffix_drop intro: suffix_appendI)
qed simp

lemma skip_continuation_ge: "n \<le> skip_continuation k l n"
  by (induction k l n rule: skip_continuation.induct) auto

lemma recent_chunks_length: "n \<le> mx \<Longrightarrow> n + length (concat (recent_chunks mx n ls)) \<le> mx"
proof (induction mx n ls rule: recent_chunks.induct)
  case (2 mx n l ls)
  then show ?case
    using skip_continuation_ge [of "length l - mx" 3 l]
    by (auto simp: Let_def)
qed simp

interpretation terminal_log: output_log append_output get_recent held_output
proof
  fix b n
  show "suffix (get_recent b n) (held_output b)"
    using recent_chunks_suffix [of n 0 "rev (buf_lines b)"]
    by (auto simp: get_recent_def held_output_def)
  show "length (get_recent b n) \<le> n"
    using recent_chunks_length [of 0 n "rev (buf_lines b)"]
    by (auto simp: get_recent_def length_concat sum_list_rev simp flip: rev_map)
qed (rule append_output_suffix)

section \<open>When adding output returns\<close>

definition counted :: "output_buffer \<Rightarrow> bool" where
  "counted b = (total_size b = of_nat (length (held_output b)))"

lemma counted_push: "counted b \<Longrightarrow> counted (push_lines ends ls b)"
  by (induction ends ls b rule: push_lines.induct) (auto simp: counted_def held_output_def Let_def)

lemma flag_push [simp]: "last_line_incomplete (push_lines True ls b) = last_line_incomplete b"
  by (induction True ls b rule: push_lines.induct) (auto simp: Let_def)

lemma counted_trim:
  assumes "counted b" and "trim_front b = Some b'"
  shows "counted b'" and "last_line_incomplete b' = last_line_incomplete b"
proof -
  obtain k where b': "b' = b\<lparr>buf_lines := drop k (buf_lines b),
        total_size := total_size b - of_nat (length (concat (take k (buf_lines b))))\<rparr>"
    using trim_steps [OF assms(2)] by auto
  have "length (concat (buf_lines b))
      = length (concat (take k (buf_lines b))) + length (concat (drop k (buf_lines b)))"
    by (metis append_take_drop_id concat_append length_append)
  then show "counted b'" using assms(1) by (simp add: b' counted_def held_output_def)
qed (use trim_steps [OF assms(2)] in auto)

lemma trim_returns:
  "counted b \<Longrightarrow> length (held_output b) < 2 ^ 64 \<Longrightarrow> \<exists>b'. trim_front b = Some b'"
proof (induction "buf_lines b" arbitrary: b)
  case Nil
  then show ?case by (subst trim_front.simps) (simp add: counted_def held_output_def)
next
  case (Cons l ls)
  let ?b = "b\<lparr>buf_lines := ls, total_size := total_size b - of_nat (length l)\<rparr>"
  have "\<exists>b'. trim_front ?b = Some b'"
    using Cons.prems by (intro Cons.hyps(1)) (auto simp: counted_def held_output_def simp flip: Cons.hyps(2))
  then show ?case by (subst trim_front.simps) (simp flip: Cons.hyps(2))
qed

definition whole_lines :: "bytes \<Rightarrow> bool" where
  "whole_lines d = (d \<noteq> [] \<and> List.last d = 10)"

text \<open>The buffer between whole lines: exact count, no open line, both limits kept.\<close>

definition buffer_ok :: "output_buffer \<Rightarrow> bool" where
  "buffer_ok b = (counted b \<and> \<not> last_line_incomplete b \<and> length (held_output b) \<le> MAX_OUTPUT_BUFFER_SIZE
     \<and> length (buf_lines b) \<le> MAX_BUFFER_LINES)"

lemma buffer_ok_new [simp]: "buffer_ok buffer_new"
  by (simp add: buffer_ok_def counted_def held_output_def buffer_new_def)

lemma unat_counted:
  "counted b \<Longrightarrow> length (held_output b) < 2 ^ 64 \<Longrightarrow> unat (total_size b) = length (held_output b)"
  by (simp add: counted_def unsigned_of_nat take_bit_nat_eq_self)

lemma append_whole_lines:
  assumes "buffer_ok b" and "whole_lines d" and "length d < 2 ^ 63"
  shows "\<exists>b'. append_output b d = Some b' \<and> buffer_ok b'"
proof -
  let ?p = "push_lines True (split_lines d) b"
  have held: "held_output ?p = held_output b @ d"
    using assms(2) by (simp add: held_push last_split whole_lines_def)
  have p: "counted ?p" "length (held_output ?p) < 2 ^ 64"
    using assms by (auto simp: counted_push held buffer_ok_def MAX_OUTPUT_BUFFER_SIZE_def)
  obtain b' where b': "trim_front ?p = Some b'" using trim_returns [OF p] by blast
  have "length (held_output b') \<le> length (held_output ?p)"
    using suffix_length_le [OF trim_suffix [OF b']] .
  then have "unat (total_size b') = length (held_output b')"
    using p(2) counted_trim(1) [OF p(1) b'] by (intro unat_counted) auto
  then have "buffer_ok b'"
    using trim_steps [OF b'] counted_trim [OF p(1) b'] assms(1) by (auto simp: buffer_ok_def)
  then show ?thesis
    using assms b' by (auto simp: append_output_def add_lines_def whole_lines_def buffer_ok_def)
qed

lemma put_all_whole_lines:
  "buffer_ok b \<Longrightarrow> \<forall>d \<in> set ds. whole_lines d \<and> length d < 2 ^ 63 \<Longrightarrow>
     \<exists>b'. put_all append_output b ds = Some b' \<and> buffer_ok b'"
proof (induction ds arbitrary: b)
  case (Cons d ds)
  then show ?case using append_whole_lines [of b d] by auto
qed simp

text \<open>
  C20. While the shell writes whole lines, adding its output always returns, and the buffer keeps both
  of its limits, one megabyte and ten thousand lines, with an exact count of its bytes.
\<close>

theorem whole_lines_are_bounded:
  assumes "\<forall>d \<in> set ds. whole_lines d \<and> length d < 2 ^ 63"
  shows "\<exists>b. put_all append_output buffer_new ds = Some b
    \<and> length (held_output b) \<le> MAX_OUTPUT_BUFFER_SIZE \<and> length (buf_lines b) \<le> MAX_BUFFER_LINES
    \<and> unat (total_size b) = length (held_output b)"
proof -
  obtain b where b: "put_all append_output buffer_new ds = Some b" "buffer_ok b"
    using put_all_whole_lines [OF buffer_ok_new assms] by blast
  then have "unat (total_size b) = length (held_output b)"
    by (intro unat_counted) (auto simp: buffer_ok_def MAX_OUTPUT_BUFFER_SIZE_def)
  then show ?thesis using b by (auto simp: buffer_ok_def)
qed

theorem whole_lines_are_bounded_witness:
  "\<exists>b. put_all append_output buffer_new [[108, 115, 10], [97, 10, 98, 10]] = Some b
    \<and> length (held_output b) \<le> MAX_OUTPUT_BUFFER_SIZE \<and> length (buf_lines b) \<le> MAX_BUFFER_LINES
    \<and> unat (total_size b) = length (held_output b)"
  by (rule whole_lines_are_bounded) (simp add: whole_lines_def)

section \<open>When it does not\<close>

lemma append_blank:
  "\<not> last_line_incomplete b \<Longrightarrow> append_output b [10]
     = trim_front (b\<lparr>total_size := total_size b + 1, buf_lines := buf_lines b @ [[10]]\<rparr>)"
  by (simp add: append_output_def add_lines_def Let_def)

lemma trim_done:
  "unat (total_size b) \<le> MAX_OUTPUT_BUFFER_SIZE \<Longrightarrow> length (buf_lines b) \<le> MAX_BUFFER_LINES \<Longrightarrow>
     trim_front b = Some b"
  by (subst trim_front.simps) simp

lemma unat_count: "k < 2 ^ 64 \<Longrightarrow> unat (of_nat k :: u64) = k"
  by (simp add: unsigned_of_nat take_bit_nat_eq_self)

lemma unat_underflow:
  assumes "k < n" and "n \<le> 2 ^ 64"
  shows "unat (of_nat k - of_nat n :: u64) = 2 ^ 64 + k - n"
proof -
  have "(of_nat (2 ^ 64 + k - n) :: u64) = of_nat (2 ^ 64 + k) - of_nat n"
    using assms by (intro of_nat_diff) simp
  also have "(of_nat (2 ^ 64 + k) :: u64) = of_nat k" by simp
  finally show ?thesis using assms unat_count [of "2 ^ 64 + k - n"] by simp
qed

lemma trim_counted:
  "k < MAX_OUTPUT_BUFFER_SIZE \<Longrightarrow> length ls \<le> MAX_BUFFER_LINES \<Longrightarrow>
     trim_front \<lparr>buf_lines = ls, total_size = of_nat k + 1, last_line_incomplete = f\<rparr>
       = Some \<lparr>buf_lines = ls, total_size = of_nat k + 1, last_line_incomplete = f\<rparr>"
  using unat_count [of "Suc k"] by (intro trim_done) (simp_all add: MAX_OUTPUT_BUFFER_SIZE_def add.commute)

lemma blank_lines:
  "length ls + n \<le> MAX_BUFFER_LINES \<Longrightarrow> k + n \<le> MAX_OUTPUT_BUFFER_SIZE \<Longrightarrow>
     put_all append_output \<lparr>buf_lines = ls, total_size = of_nat k, last_line_incomplete = False\<rparr> (replicate n [10])
       = Some \<lparr>buf_lines = ls @ replicate n [10], total_size = of_nat (k + n), last_line_incomplete = False\<rparr>"
proof (induction n arbitrary: ls k)
  case (Suc n)
  have "append_output \<lparr>buf_lines = ls, total_size = of_nat k, last_line_incomplete = False\<rparr> [10]
      = Some \<lparr>buf_lines = ls @ [[10]], total_size = of_nat (Suc k), last_line_incomplete = False\<rparr>"
    using Suc.prems trim_counted [of k "ls @ [[10]]" False] by (simp add: append_blank add.commute)
  then show ?case using Suc.prems Suc.IH [of "ls @ [[10]]" "Suc k"] by simp
qed simp

text \<open>A line that arrives in two pieces is counted with its first piece only.\<close>

lemma first_piece:
  assumes "length ls < MAX_BUFFER_LINES" and "k < MAX_OUTPUT_BUFFER_SIZE"
  shows "append_output \<lparr>buf_lines = ls, total_size = of_nat k, last_line_incomplete = False\<rparr> [97]
       = Some \<lparr>buf_lines = ls @ [[97]], total_size = of_nat k + 1, last_line_incomplete = True\<rparr>"
  using assms by (simp add: append_output_def add_lines_def trim_counted)

lemma second_piece:
  assumes "length ls < MAX_BUFFER_LINES" and "k < MAX_OUTPUT_BUFFER_SIZE" and "10 \<notin> set d"
  shows "append_output \<lparr>buf_lines = ls @ [l], total_size = of_nat k + 1, last_line_incomplete = True\<rparr> (d @ [10])
       = Some \<lparr>buf_lines = ls @ [l @ d @ [10]], total_size = of_nat k + 1, last_line_incomplete = False\<rparr>"
proof -
  have "takeWhile (\<lambda>c. c \<noteq> 10) (d @ [10]) = d" "dropWhile (\<lambda>c. c \<noteq> 10) (d @ [10]) = [10]"
    using assms(3) by (induction d) auto
  then show ?thesis using assms by (simp add: append_output_def add_lines_def trim_counted)
qed

lemma line_in_pieces:
  assumes "length ls < MAX_BUFFER_LINES" and "k < MAX_OUTPUT_BUFFER_SIZE" and "10 \<notin> set d"
  shows "put_all append_output \<lparr>buf_lines = ls, total_size = of_nat k, last_line_incomplete = False\<rparr> [[97], d @ [10]]
       = Some \<lparr>buf_lines = ls @ [97 # d @ [10]], total_size = of_nat (Suc k), last_line_incomplete = False\<rparr>"
  using second_piece [OF assms, of "[97]"] by (simp add: first_piece [OF assms(1,2)] add.commute)

lemma blank_line_pops:
  assumes "Suc (length ls) = MAX_BUFFER_LINES" and "length l \<le> Suc k" and "k < MAX_OUTPUT_BUFFER_SIZE"
  shows "append_output \<lparr>buf_lines = l # ls, total_size = of_nat k, last_line_incomplete = False\<rparr> [10]
       = Some \<lparr>buf_lines = ls @ [[10]], total_size = of_nat (Suc k - length l), last_line_incomplete = False\<rparr>"
proof -
  have n: "of_nat k + 1 - of_nat (length l) = (of_nat (Suc k - length l) :: u64)"
    using assms(2) by (simp add: of_nat_diff)
  have "unat (of_nat (Suc k - length l) :: u64) \<le> MAX_OUTPUT_BUFFER_SIZE"
    using assms(3) unat_count [of "Suc k - length l"] by (simp add: MAX_OUTPUT_BUFFER_SIZE_def)
  then show ?thesis using assms(1)
    by (subst append_blank, simp, subst trim_front.simps) (simp add: n trim_done del: of_nat_diff)
qed

lemma blank_line_hangs:
  assumes "Suc (length ls) = MAX_BUFFER_LINES" and "Suc k < length l" and "length (concat ls) + length l < 2 ^ 63"
  shows "append_output \<lparr>buf_lines = l # ls, total_size = of_nat k, last_line_incomplete = False\<rparr> [10] = None"
proof (rule ccontr)
  let ?ls = "l # ls @ [[10]]"
  let ?b = "\<lparr>buf_lines = ?ls, total_size = of_nat k + 1, last_line_incomplete = False\<rparr>"
  assume "\<not> ?thesis"
  then obtain b' where "trim_front ?b = Some b'" by (auto simp: append_blank)
  from trim_steps [OF this] obtain j where j: "length ?ls - j \<le> MAX_BUFFER_LINES"
    "unat (of_nat k + 1 - of_nat (length (concat (take j ?ls))) :: u64) \<le> MAX_OUTPUT_BUFFER_SIZE"
    by auto
  then obtain i where i: "j = Suc i" using assms(1) by (cases j) (auto simp: MAX_BUFFER_LINES_def)
  let ?n = "length (concat (take j ?ls))"
  have "length (concat (take i (ls @ [[10]]))) \<le> length (concat (ls @ [[10]]))"
    by (metis append_take_drop_id concat_append le_add1 length_append)
  then have n: "Suc k < ?n" "?n < 2 ^ 63 + 1" using assms i by auto
  then show False
    using j(2) unat_underflow [of "Suc k" ?n] by (simp add: MAX_OUTPUT_BUFFER_SIZE_def add.commute)
qed

text \<open>
  Three lines of four kilobytes, each read in two pieces, and ten thousand empty lines: the third line
  that is dropped is longer than what is left of the count.
\<close>

definition long_line :: "bytes list" where
  "long_line = [[97], replicate 4095 97 @ [10]]"

definition unlucky_output :: "bytes list" where
  "unlucky_output = long_line @ long_line @ long_line @ replicate 9997 [10] @ [[10], [10], [10]]"

text \<open>
  C21. Output that a shell can produce, in reads of at most four kilobytes, makes the trimming loop run
  forever: the count of bytes goes below zero, wraps to a huge number, and stays there when every
  line is gone.
\<close>

theorem unlucky_output_hangs:
  "list_all (\<lambda>d. length d \<le> 4096) unlucky_output \<and> put_all append_output buffer_new unlucky_output = None"
proof
  show "list_all (\<lambda>d. length d \<le> 4096) unlucky_output"
    by (auto simp: list_all_iff unlucky_output_def long_line_def)
  define d :: bytes where "d = replicate 4095 97"
  define l where "l = 97 # d @ [10]"
  have l: "length l = 4097" and d: "10 \<notin> set d" by (auto simp: l_def d_def)
  have long: "long_line = [[97], d @ [10]]" by (simp add: long_line_def d_def)
  define bl where "bl = (\<lambda>n. replicate n [10 :: u8])"
  have bl: "length (bl n) = n" "length (concat (bl n)) = n" "bl n @ [[10]] = bl (Suc n)" for n
    by (auto simp: bl_def length_concat replicate_append_same sum_list_replicate)
  let ?B = "\<lambda>ls k. \<lparr>buf_lines = ls, total_size = of_nat k, last_line_incomplete = False\<rparr>"
  have 1: "put_all append_output (?B ls k) long_line = Some (?B (ls @ [l]) (Suc k))"
    if "length ls < 3" "k < 3" for ls k
    using that d unfolding long l_def
    by (intro line_in_pieces) (auto simp: MAX_BUFFER_LINES_def MAX_OUTPUT_BUFFER_SIZE_def)
  have 2: "put_all append_output (?B [l, l, l] 3) (bl 9997) = Some (?B (l # l # l # bl 9997) 10000)"
    using blank_lines [of "[l, l, l]" 9997 3] unfolding bl_def
    by (simp add: MAX_BUFFER_LINES_def MAX_OUTPUT_BUFFER_SIZE_def)
  have 3: "append_output (?B (l # l # l # bl 9997) 10000) [10] = Some (?B (l # l # bl 9998) 5904)"
    using blank_line_pops [of "l # l # bl 9997" l 10000] l bl
    by (simp add: MAX_BUFFER_LINES_def MAX_OUTPUT_BUFFER_SIZE_def)
  have 4: "append_output (?B (l # l # bl 9998) 5904) [10] = Some (?B (l # bl 9999) 1808)"
    using blank_line_pops [of "l # bl 9998" l 5904] l bl
    by (simp add: MAX_BUFFER_LINES_def MAX_OUTPUT_BUFFER_SIZE_def)
  have 5: "append_output (?B (l # bl 9999) 1808) [10] = None"
    using blank_line_hangs [of "bl 9999" 1808 l] l bl by (simp add: MAX_BUFFER_LINES_def)
  have 0: "buffer_new = ?B [] 0" by (simp add: buffer_new_def)
  have "put_all append_output buffer_new long_line = Some (?B [l] 1)" using 1 [of "[]" 0] 0 by simp
  moreover have "put_all append_output (?B [l] 1) long_line = Some (?B [l, l] 2)" using 1 [of "[l]" 1] by simp
  moreover have "put_all append_output (?B [l, l] 2) long_line = Some (?B [l, l, l] 3)"
    using 1 [of "[l, l]" 2] by simp
  ultimately show "put_all append_output buffer_new unlucky_output = None"
    by (simp only: unlucky_output_def put_all_append option.case 2 [unfolded bl_def] put_all.simps
        3 [unfolded bl_def] 4 [unfolded bl_def] 5 [unfolded bl_def])
qed

section \<open>A line without end\<close>

text \<open>Trimming is not reached by output without a newline: neither limit is kept.\<close>

lemma open_line_grows:
  "last_line_incomplete b \<Longrightarrow> buf_lines b \<noteq> [] \<Longrightarrow> \<forall>d \<in> set ds. 10 \<notin> set d \<Longrightarrow>
     \<exists>b'. put_all append_output b ds = Some b' \<and> held_output b' = held_output b @ concat ds"
proof (induction ds arbitrary: b)
  case (Cons d ds)
  have held: "concat (butlast (buf_lines b)) @ List.last (buf_lines b) = held_output b"
    using Cons.prems(2) by (metis append_butlast_last_id concat.simps(1) concat.simps(2) concat_append
      append_Nil2 held_output_def)
  show ?case
  proof (cases "d = []")
    case True
    then show ?thesis using Cons by (simp add: append_output_def)
  next
    case False
    let ?b = "b\<lparr>buf_lines := butlast (buf_lines b) @ [List.last (buf_lines b) @ d],
                 total_size := total_size b + of_nat (length d)\<rparr>"
    have "held_output ?b = held_output b @ d" using held by (simp add: held_output_def)
    then show ?thesis using Cons.IH [of ?b] Cons.prems False by (simp add: append_output_def Let_def)
  qed
qed simp

lemma split_one_line: "10 \<notin> set d \<Longrightarrow> split_lines d = [d]"
  by (induction d) auto

lemma unterminated_output_is_unbounded:
  assumes "d \<noteq> []" "length d \<le> 4096" and "\<forall>d \<in> set (d # ds). 10 \<notin> set d"
  shows "\<exists>b. put_all append_output buffer_new (d # ds) = Some b \<and> held_output b = d @ concat ds"
proof -
  let ?b = "\<lparr>buf_lines = [d], total_size = of_nat (length d), last_line_incomplete = True\<rparr>"
  have "List.last d \<noteq> 10" using last_in_set [OF assms(1)] assms(3) by auto
  then have "append_output buffer_new d = Some ?b"
    using assms unat_count [of "length d"]
    by (simp add: append_output_def add_lines_def buffer_new_def split_one_line trim_done
        MAX_OUTPUT_BUFFER_SIZE_def MAX_BUFFER_LINES_def)
  moreover have "held_output ?b = d" by (simp add: held_output_def)
  ultimately show ?thesis using open_line_grows [of ?b ds] assms(3) by simp
qed

section \<open>The replay\<close>

lemma recent_chunks_all: "n + length (concat ls) \<le> mx \<Longrightarrow> recent_chunks mx n ls = ls"
  by (induction mx n ls rule: recent_chunks.induct) auto

lemma get_recent_all:
  assumes "length (held_output b) \<le> n"
  shows "get_recent b n = held_output b"
proof -
  have "length (concat (rev (buf_lines b))) = length (held_output b)"
    by (simp add: held_output_def length_concat sum_list_rev flip: rev_map)
  then show ?thesis using assms recent_chunks_all [of 0 "rev (buf_lines b)" n]
    by (auto simp: get_recent_def held_output_def)
qed

text \<open>
  What is replayed to a viewer that comes back is the end of everything the shell has written, in
  order and without a gap, no longer than was asked for, and all the buffer holds when that is short
  enough.
\<close>

theorem replay_is_recent_output:
  assumes "put_all append_output buffer_new ds = Some b"
  shows "suffix (get_recent b n) (concat ds) \<and> length (get_recent b n) \<le> n
    \<and> (length (held_output b) \<le> n \<longrightarrow> get_recent b n = held_output b)"
  using terminal_log.recent_of_puts [OF assms, of n] get_recent_all [of b n]
  by (simp add: held_output_def buffer_new_def)

lemma demo_output:
  "put_all append_output buffer_new [[36, 32], [108], [115, 10, 97], [98, 10]]
     = Some \<lparr>buf_lines = [[36, 32, 108, 115, 10], [97, 98, 10]], total_size = 4, last_line_incomplete = False\<rparr>"
  by (simp add: append_output_def add_lines_def buffer_new_def trim_done Let_def
      MAX_OUTPUT_BUFFER_SIZE_def MAX_BUFFER_LINES_def)

theorem replay_is_recent_output_witness:
  "suffix (get_recent \<lparr>buf_lines = [[36, 32, 108, 115, 10], [97, 98, 10]], total_size = 4,
       last_line_incomplete = False\<rparr> 4) (concat [[36, 32], [108], [115, 10, 97], [98, 10]])
   \<and> get_recent \<lparr>buf_lines = [[36, 32, 108, 115, 10], [97, 98, 10]], total_size = 4,
       last_line_incomplete = False\<rparr> 4 = [97, 98, 10]"
  using replay_is_recent_output [OF demo_output, of 4] by (simp add: get_recent_def)

section \<open>Little output\<close>

text \<open>While little is written nothing is trimmed, in whatever pieces it comes.\<close>

definition buffer_short :: "output_buffer \<Rightarrow> bool" where
  "buffer_short b = (unat (total_size b) \<le> length (held_output b) \<and> [] \<notin> set (buf_lines b))"

lemma unat_add_le: "unat (a + of_nat n :: u64) \<le> unat a + n"
proof -
  have "unat (of_nat n :: u64) \<le> n" by (simp add: unsigned_of_nat)
  moreover have "unat (a + of_nat n :: u64) \<le> unat a + unat (of_nat n :: u64)"
    by (simp only: unat_word_ariths mod_less_eq_dividend)
  ultimately show ?thesis by linarith
qed

lemma short_push: "buffer_short b \<Longrightarrow> buffer_short (push_lines ends ls b)"
proof (induction ends ls b rule: push_lines.induct)
  case (2 ends l ls b)
  have "unat (total_size b + of_nat (length d)) \<le> length (held_output b) + length d" for d :: bytes
    using unat_add_le [of "total_size b" "length d"] 2(2) by (simp add: buffer_short_def)
  from this [of l] this [of "l @ [10]"] 2 show ?case
    by (auto simp: buffer_short_def held_output_def Let_def add.commute)
qed simp

lemma length_le_concat: "[] \<notin> set xs \<Longrightarrow> length xs \<le> length (concat xs)"
proof (induction xs)
  case (Cons x xs)
  then show ?case by (cases x) auto
qed simp

lemma add_lines_short:
  assumes "buffer_short b" and "length (held_output b) + length d \<le> 8192"
  shows "\<exists>b'. add_lines d b = Some b' \<and> held_output b' = held_output b @ d \<and> buffer_short b'"
proof -
  let ?p = "push_lines (d \<noteq> [] \<and> List.last d = 10) (split_lines d) b"
  have p: "held_output ?p = held_output b @ d" "buffer_short ?p"
    using assms(1) by (simp_all add: held_push last_split short_push)
  then have "trim_front ?p = Some ?p"
    using assms(2) length_le_concat [of "buf_lines ?p"]
    by (intro trim_done) (auto simp: buffer_short_def held_output_def MAX_OUTPUT_BUFFER_SIZE_def MAX_BUFFER_LINES_def)
  then show ?thesis using p by (simp add: add_lines_def)
qed

lemma append_short:
  assumes "buffer_short b" and "length (held_output b) + length d \<le> 8192"
  shows "\<exists>b'. append_output b d = Some b' \<and> held_output b' = held_output b @ d \<and> buffer_short b'"
proof (cases "last_line_incomplete b \<and> buf_lines b \<noteq> [] \<and> d \<noteq> []")
  case False
  then show ?thesis using assms add_lines_short [OF assms] by (auto simp: append_output_def)
next
  case True
  define ls l where "ls = butlast (buf_lines b)" and "l = List.last (buf_lines b)"
  have b: "buf_lines b = ls @ [l]" using True by (simp add: ls_def l_def)
  show ?thesis
  proof (cases "10 \<in> set d")
    case nl: True
    let ?h = "takeWhile (\<lambda>c. c \<noteq> 10) d @ [10]" and ?t = "tl (dropWhile (\<lambda>c. c \<noteq> 10) d)"
    let ?b = "b\<lparr>buf_lines := ls @ [l @ ?h], last_line_incomplete := False\<rparr>"
    have held: "held_output ?b = held_output b @ ?h" by (simp add: held_output_def b)
    have short: "buffer_short ?b" using assms(1) by (auto simp: buffer_short_def held_output_def b)
    have d: "?h @ ?t = d" using split_at_newline [OF nl] by simp
    then have "length ?h + length ?t = length d" by (metis length_append)
    then have "length (held_output ?b) + length ?t \<le> 8192" using assms(2) by (simp only: held length_append)
    from add_lines_short [OF short this] obtain b' where
      b': "add_lines ?t ?b = Some b'" "held_output b' = held_output ?b @ ?t" "buffer_short b'" by blast
    have "held_output b' = held_output b @ d" using b'(2) d by (simp add: held)
    moreover have "append_output b d = Some b'"
      using True nl b'(1) by (simp add: append_output_def Let_def ls_def l_def)
    ultimately show ?thesis using b'(3) by blast
  next
    case no: False
    then show ?thesis using assms True unat_add_le [of "total_size b" "length d"]
      by (auto simp: append_output_def Let_def buffer_short_def held_output_def b)
  qed
qed

lemma put_all_short:
  "buffer_short b \<Longrightarrow> length (held_output b) + length (concat ds) \<le> 8192 \<Longrightarrow>
     \<exists>b'. put_all append_output b ds = Some b' \<and> held_output b' = held_output b @ concat ds"
proof (induction ds arbitrary: b)
  case (Cons d ds)
  then obtain b1 where "append_output b d = Some b1" "held_output b1 = held_output b @ d" "buffer_short b1"
    using append_short [of b d] by auto
  then show ?case using Cons.IH [of b1] Cons.prems(2) by auto
qed simp

lemma all_is_replayed:
  assumes "put_all append_output buffer_new ds = Some b" and "length (concat ds) \<le> 8192"
  shows "get_recent b 8192 = concat ds"
  using assms put_all_short [of buffer_new ds] get_recent_all [of b 8192]
  by (auto simp: buffer_short_def held_output_def buffer_new_def)

end
