(* ===== verification/TerminalHelper.thy ===== *)
theory TerminalHelper
  imports BytesCodec
begin

text \<open>
  The protocol between the service on Windows and the helper process that owns the shell
  (\<open>src/server/terminal_helper.rs\<close>): messages with a type byte and a length, their encoders, and
  the thread of the helper that reads them from a pipe. What a pipe delivers is one byte string, which
  ends when the service closes its side; errors of the pipe and of the pseudo-terminal are left out.
\<close>

definition MSG_TYPE_DATA :: u8 where
  "MSG_TYPE_DATA = 1"

definition MSG_TYPE_RESIZE :: u8 where
  "MSG_TYPE_RESIZE = 2"

definition MSG_HEADER_SIZE :: nat where
  "MSG_HEADER_SIZE = 5"

definition MAX_PAYLOAD_SIZE :: nat where
  "MAX_PAYLOAD_SIZE = 16 * 1024 * 1024"

definition encode_helper_message :: "u8 \<Rightarrow> bytes \<Rightarrow> bytes" where
  "encode_helper_message t payload = t # put_u32_le (of_nat (length payload)) @ payload"

definition encode_resize_message :: "u16 \<Rightarrow> u16 \<Rightarrow> bytes" where
  "encode_resize_message rows cols =
     encode_helper_message MSG_TYPE_RESIZE (put_u16_le rows @ put_u16_le cols)"

section \<open>The reading thread\<close>

text \<open>What the thread does to the shell, and why it ends.\<close>

datatype shell_cmd = ShellData bytes | ShellResize u16 u16

datatype helper_end = PipeEof | PayloadTooLarge nat | UnknownType u8

definition read_exact_or_eof :: "nat \<Rightarrow> bytes \<Rightarrow> (bytes \<times> bytes) option" where
  "read_exact_or_eof n bs = (if length bs < n then None else Some (take n bs, drop n bs))"

definition from_le_bytes :: "bytes \<Rightarrow> nat" where
  "from_le_bytes bs = foldr (\<lambda>b n. unat b + 256 * n) bs 0"

definition do_cmd :: "shell_cmd list \<Rightarrow> shell_cmd list \<times> helper_end \<Rightarrow> shell_cmd list \<times> helper_end" where
  "do_cmd cs r = (cs @ fst r, snd r)"

definition resize_cmd :: "bytes \<Rightarrow> shell_cmd list" where
  "resize_cmd p =
     (if length p \<ge> 4 then
        [ShellResize (of_nat (from_le_bytes [p ! 0, p ! 1])) (of_nat (from_le_bytes [p ! 2, p ! 3]))]
      else [])"

function helper_input :: "bytes \<Rightarrow> shell_cmd list \<times> helper_end" where
  "helper_input bs =
     (case read_exact_or_eof MSG_HEADER_SIZE bs of
        None \<Rightarrow> ([], PipeEof)
      | Some (h, rest) \<Rightarrow>
          (let msg_type = h ! 0; payload_len = from_le_bytes [h ! 1, h ! 2, h ! 3, h ! 4]
           in (if payload_len > MAX_PAYLOAD_SIZE then ([], PayloadTooLarge payload_len)
               else (case read_exact_or_eof payload_len rest of
                       None \<Rightarrow> ([], PipeEof)
                     | Some (payload, rest) \<Rightarrow>
                         (if msg_type = MSG_TYPE_DATA then do_cmd [ShellData payload] (helper_input rest)
                          else if msg_type = MSG_TYPE_RESIZE then do_cmd (resize_cmd payload) (helper_input rest)
                          else ([], UnknownType msg_type))))))"
  by pat_completeness auto

termination
  by (relation "measure length") (auto simp: read_exact_or_eof_def MSG_HEADER_SIZE_def split: if_splits)

declare helper_input.simps [simp del]

section \<open>What is sent is what the helper does\<close>

fun encode_cmd :: "shell_cmd \<Rightarrow> bytes" where
  "encode_cmd (ShellData d) = encode_helper_message MSG_TYPE_DATA d"
| "encode_cmd (ShellResize rows cols) = encode_resize_message rows cols"

fun cmd_fits :: "shell_cmd \<Rightarrow> bool" where
  "cmd_fits (ShellData d) = (length d \<le> MAX_PAYLOAD_SIZE)"
| "cmd_fits (ShellResize rows cols) = True"

lemma from_le_bytes_digits:
  "map unat bs = le_digits n v \<Longrightarrow> from_le_bytes bs = v mod 256 ^ n"
proof (induction n v arbitrary: bs rule: le_digits.induct)
  case (2 n v)
  then obtain b cs where bs: "bs = b # cs" "unat b = v mod 256" "map unat cs = le_digits n (v div 256)"
    by (cases bs) auto
  have "from_le_bytes bs = v mod 256 + 256 * (v div 256 mod 256 ^ n)"
    using 2(1) [OF bs(3)] by (simp add: bs(1,2) from_le_bytes_def)
  then show ?case by (simp add: mod_mult2_eq)
qed (simp add: from_le_bytes_def)

lemma length_put [simp]: "length (put_u16_le w) = 2" "length (put_u32_le v) = 4"
  by (simp_all add: put_u16_le_def put_u32_le_def)

lemma put_bytes:
  "[put_u32_le v ! 0, put_u32_le v ! 1, put_u32_le v ! 2, put_u32_le v ! 3] = put_u32_le v"
  "[put_u16_le w ! 0, put_u16_le w ! 1] = put_u16_le w"
  by (simp_all add: put_u16_le_def put_u32_le_def numeral_eq_Suc)

lemma from_put_u32: "n < 2 ^ 32 \<Longrightarrow> from_le_bytes (put_u32_le (of_nat n)) = n"
  using from_le_bytes_digits [OF put_u32_le_digits, of "of_nat n"]
  by (simp add: unsigned_of_nat take_bit_nat_eq_self)

lemma from_put_u16: "from_le_bytes (put_u16_le w) = unat w"
  using from_le_bytes_digits [OF put_u16_le_digits, of w] unat_u16_less [of w] by simp

lemma helper_reads:
  assumes "length p < 2 ^ 32"
  shows "helper_input (encode_helper_message t p @ rest) =
     (if length p > MAX_PAYLOAD_SIZE then ([], PayloadTooLarge (length p))
      else if t = MSG_TYPE_DATA then do_cmd [ShellData p] (helper_input rest)
      else if t = MSG_TYPE_RESIZE then do_cmd (resize_cmd p) (helper_input rest)
      else ([], UnknownType t))"
proof -
  let ?l = "put_u32_le (of_nat (length p))"
  have "read_exact_or_eof MSG_HEADER_SIZE (encode_helper_message t p @ rest) = Some (t # ?l, p @ rest)"
    by (simp add: read_exact_or_eof_def MSG_HEADER_SIZE_def encode_helper_message_def)
  moreover have "from_le_bytes [(t # ?l) ! 1, (t # ?l) ! 2, (t # ?l) ! 3, (t # ?l) ! 4] = length p"
    using put_bytes(1) [of "of_nat (length p)"] from_put_u32 [OF assms] by simp
  moreover have "read_exact_or_eof (length p) (p @ rest) = Some (p, rest)"
    by (simp add: read_exact_or_eof_def)
  ultimately show ?thesis by (subst helper_input.simps) (simp add: Let_def)
qed

lemma resize_cmd_put: "resize_cmd (put_u16_le rows @ put_u16_le cols) = [ShellResize rows cols]"
  using put_bytes(2) [of rows] put_bytes(2) [of cols]
  by (simp add: resize_cmd_def nth_append from_put_u16)

lemma helper_reads_cmd:
  "cmd_fits c \<Longrightarrow> helper_input (encode_cmd c @ rest) = do_cmd [c] (helper_input rest)"
  by (cases c) (auto simp: helper_reads MAX_PAYLOAD_SIZE_def encode_resize_message_def resize_cmd_put
      MSG_TYPE_DATA_def MSG_TYPE_RESIZE_def)

lemma helper_reads_cmds:
  "\<forall>c \<in> set cs. cmd_fits c \<Longrightarrow>
     helper_input (concat (map encode_cmd cs) @ rest) = do_cmd cs (helper_input rest)"
  by (induction cs) (auto simp: helper_reads_cmd do_cmd_def)

text \<open>An input above the limit, which the service writes all the same, ends the thread with all that follows.\<close>

lemma oversized_input_ends_helper:
  assumes "\<forall>c \<in> set cs. cmd_fits c" and "MAX_PAYLOAD_SIZE < length d" and "length d < 2 ^ 32"
  shows "helper_input (concat (map encode_cmd cs) @ encode_cmd (ShellData d) @ rest)
       = (cs, PayloadTooLarge (length d))"
  using helper_reads_cmds [OF assms(1)] assms(2,3) by (simp add: helper_reads do_cmd_def)

fun payload_of :: "shell_cmd \<Rightarrow> nat" where
  "payload_of (ShellData d) = length d"
| "payload_of (ShellResize rows cols) = 4"

lemma fits_payload: "cmd_fits c = (payload_of c \<le> MAX_PAYLOAD_SIZE)"
  by (cases c) (simp_all add: MAX_PAYLOAD_SIZE_def)

text \<open>
  C26. The helper does what the service asks for, up to the first input that is larger than 16 MiB:
  of the messages that are written to its pipe one after another, those before that input reach the
  shell in order, input as it is and sizes as they are, and then the thread ends for the size of that
  input, which the service has sent all the same. Where no input is that large, every message reaches
  the shell and the thread ends with the pipe. (The length of an input is written in 32 bits, so the
  inputs are taken to be shorter than 4 GiB.)
\<close>

theorem helper_does_what_is_sent:
  assumes "\<forall>c \<in> set cs. payload_of c < 2 ^ 32"
  shows "helper_input (concat (map encode_cmd cs)) =
    (case dropWhile cmd_fits cs of
       [] \<Rightarrow> (cs, PipeEof)
     | c # later \<Rightarrow> (takeWhile cmd_fits cs, PayloadTooLarge (payload_of c)))"
proof (cases "dropWhile cmd_fits cs")
  case Nil
  then have "\<forall>c \<in> set cs. cmd_fits c" by (simp add: dropWhile_eq_Nil_conv)
  from helper_reads_cmds [OF this, of "[]"] show ?thesis
    by (simp add: Nil do_cmd_def helper_input.simps [of "[]"] read_exact_or_eof_def MSG_HEADER_SIZE_def)
next
  case (Cons c later)
  then have cs: "cs = takeWhile cmd_fits cs @ c # later" by (metis takeWhile_dropWhile_id)
  from Cons have c: "\<not> cmd_fits c" by (metis hd_dropWhile list.distinct(1) list.sel(1))
  then obtain d where d: "c = ShellData d" by (cases c) auto
  have "payload_of c < 2 ^ 32" using assms cs by (metis in_set_conv_decomp)
  then show ?thesis
    using oversized_input_ends_helper [of "takeWhile cmd_fits cs" d "concat (map encode_cmd later)"] c
    by (subst cs) (simp add: Cons d not_le, metis set_takeWhileD)
qed

theorem helper_does_what_is_sent_witness:
  "helper_input (concat (map encode_cmd [ShellResize 24 80, ShellData [108, 115, 13],
       ShellData (replicate 16777217 0), ShellData []]))
     = ([ShellResize 24 80, ShellData [108, 115, 13]], PayloadTooLarge 16777217)"
  using helper_does_what_is_sent [of "[ShellResize 24 80, ShellData [108, 115, 13],
       ShellData (replicate 16777217 0), ShellData []]"]
  by (simp add: MAX_PAYLOAD_SIZE_def)

end
