(* ===== verification/Terminal.thy ===== *)
theory Terminal
  imports TerminalBuffer TerminalHelper Connection "HOL-Library.AList"
begin

text \<open>
  The terminals of the host (\<open>src/server/terminal_service.rs\<close>): shells that outlive the connection
  which opened them, the registry of their services, the actions of a viewer, the polling loop that
  sends what the shells write, and the part of a connection that drives them
  (\<open>src/server/connection.rs\<close>).

  A table stands for a hash map in its order of iteration. Times are milliseconds. Opening a
  pseudo-terminal or a helper process, resizing, killing, exit codes and the compressor belong to
  the environment; what they are asked to do is recorded in the log of the host. The writer and
  reader threads of a shell are its two ends: \<open>ToShell\<close> is what the writer is given, \<open>shell_writes\<close>
  one turn of the reader. A read that never returns is \<open>None\<close>, as the buffer can hang. The
  pseudo-terminal is closed by \<open>stop\<close> as on Linux and Windows.
\<close>

section \<open>Data\<close>

definition MAX_SERVICES :: nat where
  "MAX_SERVICES = 100"

definition SERVICE_IDLE_TIMEOUT :: nat where
  "SERVICE_IDLE_TIMEOUT = 3600 * 1000"

definition CHANNEL_BUFFER_SIZE :: nat where
  "CHANNEL_BUFFER_SIZE = 500"

definition COMPRESS_THRESHOLD :: nat where
  "COMPRESS_THRESHOLD = 512"

definition DEFAULT_RECONNECT_BUFFER_BYTES :: nat where
  "DEFAULT_RECONNECT_BUFFER_BYTES = 8 * 1024"

definition MAX_SIGWINCH_PHASE_ATTEMPTS :: nat where
  "MAX_SIGWINCH_PHASE_ATTEMPTS = 3"

datatype sigwinch_phase = SigwinchIdle | TempResizePhase nat | RestorePhase nat

datatype sigwinch_action = TempResize | Restore

datatype session_state = SessionClosed | SessionActive (pending_buffer: "bytes option") (sigwinch: sigwinch_phase)

record term_session =
  ts_title :: string
  ts_pid :: nat
  ts_rows :: u16
  ts_cols :: u16
  ts_created_at :: nat
  ts_last_activity :: nat
  ts_pty :: bool
  ts_child :: "nat option"
  ts_input :: bool
  ts_output :: "bytes list option"
  ts_reader_finished :: "bool option"
  ts_exiting :: bool
  ts_buffer :: output_buffer
  ts_closed_sent :: bool
  ts_state :: session_state
  ts_helper_mode :: bool
  ts_helper_handle :: bool

record term_service =
  sv_id :: string
  sv_sessions :: "(int \<times> term_session) list"
  sv_created_at :: nat
  sv_last_activity :: nat
  sv_persistent :: bool
  sv_needs_sync :: bool
  sv_specified_user :: bool

text \<open>What happens outside: bytes for a shell, sizes set, children and helpers ended.\<close>

datatype term_effect =
    ToShell nat bytes
  | PtyResized nat u16 u16
  | ChildKilled nat
  | HelperEnded nat

record term_host =
  th_services :: "(string \<times> term_service) list"
  th_tasks :: "nat list"
  th_log :: "term_effect list"

datatype child_status = ChildExited | ChildRunning | ChildError

record term_env =
  te_windows :: bool
  open_shell :: "int \<Rightarrow> u16 \<Rightarrow> u16 \<Rightarrow> string + nat \<times> nat"
  open_helper :: "int \<Rightarrow> u16 \<Rightarrow> u16 \<Rightarrow> string + nat"
  resize_error :: "nat \<Rightarrow> string option"
  kill_error :: "nat \<Rightarrow> string option"
  child_exit :: "nat \<Rightarrow> int option"
  compress :: "bytes \<Rightarrow> bytes"

datatype terminal_action =
    ActOpen int u32 u32
  | ActResize int u32 u32
  | ActData int bytes
  | ActClose int
  | ActOther

datatype terminal_response =
    RespError string
  | RespOpened int string nat string "int list"
  | RespData int bytes bool
  | RespClosed int int

section \<open>Sessions\<close>

definition session_new :: "int \<Rightarrow> u16 \<Rightarrow> u16 \<Rightarrow> nat \<Rightarrow> term_session" where
  "session_new i rows cols now =
     \<lparr>ts_title = ''Terminal '' @ show_int i, ts_pid = 0, ts_rows = rows, ts_cols = cols,
      ts_created_at = now, ts_last_activity = now, ts_pty = False, ts_child = None, ts_input = False,
      ts_output = None, ts_reader_finished = None, ts_exiting = False, ts_buffer = buffer_new,
      ts_closed_sent = False, ts_state = SessionClosed, ts_helper_mode = False, ts_helper_handle = False\<rparr>"

definition log_effects :: "term_effect list \<Rightarrow> term_host \<Rightarrow> term_host" where
  "log_effects es h = h\<lparr>th_log := th_log h @ es\<rparr>"

definition add_to_reaper :: "nat \<Rightarrow> term_host \<Rightarrow> term_host" where
  "add_to_reaper c h = h\<lparr>th_tasks := th_tasks h @ [c]\<rparr>"

text \<open>\<open>stop\<close>, also what dropping a session does.\<close>

definition stop_session :: "term_env \<Rightarrow> term_session \<Rightarrow> term_host \<Rightarrow> term_session \<times> term_host" where
  "stop_session e s h =
     (let helper = te_windows e \<and> ts_helper_mode s;
          final_msg = (if helper then encode_helper_message MSG_TYPE_DATA [13, 10] else [13, 10]);
          h = (if ts_input s then log_effects [ToShell (ts_pid s) final_msg] h else h);
          h = (if helper \<and> ts_helper_handle s then log_effects [HelperEnded (ts_pid s)] h else h);
          h = (case ts_child s of
                 Some c \<Rightarrow> add_to_reaper c (log_effects [ChildKilled c] h)
               | None \<Rightarrow> h)
      in (s\<lparr>ts_state := SessionClosed, ts_exiting := True, ts_input := False, ts_output := None,
            ts_helper_handle := ts_helper_handle s \<and> \<not> helper, ts_pty := False,
            ts_reader_finished := None, ts_child := None\<rparr>, h))"

text \<open>
  One turn of the reader thread: the channel takes at most \<open>CHANNEL_BUFFER_SIZE\<close> chunks and drops
  the rest; the thread ends at the end of the shell's output or when the session is stopped.
\<close>

definition shell_writes :: "bytes \<Rightarrow> term_session \<Rightarrow> term_session" where
  "shell_writes d s =
     (if ts_reader_finished s \<noteq> Some False then s
      else if ts_exiting s then s\<lparr>ts_reader_finished := Some True\<rparr>
      else (case ts_output s of
              None \<Rightarrow> s\<lparr>ts_reader_finished := Some True\<rparr>
            | Some q \<Rightarrow> if length q < CHANNEL_BUFFER_SIZE then s\<lparr>ts_output := Some (q @ [d])\<rparr> else s))"

definition shell_ends :: "term_session \<Rightarrow> term_session" where
  "shell_ends s = (if ts_reader_finished s = Some False then s\<lparr>ts_reader_finished := Some True\<rparr> else s)"

section \<open>Services\<close>

definition get_service :: "string \<Rightarrow> term_host \<Rightarrow> term_service option" where
  "get_service i h = map_of (th_services h) i"

definition put_service :: "string \<Rightarrow> term_service \<Rightarrow> term_host \<Rightarrow> term_host" where
  "put_service i sv h = h\<lparr>th_services := AList.update i sv (th_services h)\<rparr>"

definition term_service_new :: "string \<Rightarrow> bool \<Rightarrow> bool \<Rightarrow> nat \<Rightarrow> term_service" where
  "term_service_new i persistent specified now =
     \<lparr>sv_id = i, sv_sessions = [], sv_created_at = now, sv_last_activity = now, sv_persistent = persistent,
      sv_needs_sync = False, sv_specified_user = specified\<rparr>"

definition reset_status :: "bool \<Rightarrow> term_service \<Rightarrow> term_service" where
  "reset_status persistent sv =
     sv\<lparr>sv_persistent := persistent, sv_needs_sync := True,
        sv_sessions := map (\<lambda>(i, s). (i, s\<lparr>ts_state := SessionClosed\<rparr>)) (sv_sessions sv)\<rparr>"

definition is_service_specified_user :: "string \<Rightarrow> term_host \<Rightarrow> bool option" where
  "is_service_specified_user i h = map_option sv_specified_user (get_service i h)"

definition get_or_create_service :: "string \<Rightarrow> bool \<Rightarrow> bool \<Rightarrow> nat \<Rightarrow> term_host \<Rightarrow> string + term_host" where
  "get_or_create_service i persistent specified now h =
     (if get_service i h = None \<and> length (th_services h) \<ge> MAX_SERVICES
      then Inl (''Maximum number of terminal services ('' @ dec MAX_SERVICES @ '') reached'')
      else (let sv = (case get_service i h of
                        Some sv \<Rightarrow> sv
                      | None \<Rightarrow> term_service_new i persistent specified now)
            in Inr (put_service i (reset_status persistent sv) h)))"

definition stop_all :: "term_env \<Rightarrow> (int \<times> term_session) list \<Rightarrow> term_host \<Rightarrow> term_host" where
  "stop_all e ss h = fold (\<lambda>(i, s) h. snd (stop_session e s h)) ss h"

definition remove_service :: "term_env \<Rightarrow> string \<Rightarrow> term_host \<Rightarrow> term_host" where
  "remove_service e i h =
     (case get_service i h of
        None \<Rightarrow> h
      | Some sv \<Rightarrow> stop_all e (sv_sessions sv) (h\<lparr>th_services := AList.delete i (th_services h)\<rparr>))"

definition list_services :: "term_host \<Rightarrow> (string \<times> nat \<times> nat \<times> bool) list" where
  "list_services h =
     map (\<lambda>(i, sv). (i, sv_created_at sv, length (sv_sessions sv), sv_persistent sv)) (th_services h)"

definition is_idle :: "nat \<Rightarrow> term_service \<Rightarrow> bool" where
  "is_idle now sv =
     (if \<not> sv_persistent sv \<and> now - sv_last_activity sv > SERVICE_IDLE_TIMEOUT then True
      else sv_persistent sv \<and> sv_sessions sv = [] \<and> now - sv_last_activity sv > SERVICE_IDLE_TIMEOUT * 2)"

definition cleanup_inactive_services :: "term_env \<Rightarrow> nat \<Rightarrow> term_host \<Rightarrow> term_host" where
  "cleanup_inactive_services e now h =
     fold (remove_service e) (map fst (filter (\<lambda>(i, sv). is_idle now sv) (th_services h))) h"

text \<open>\<open>check_zombie_terminals\<close>: the index stays where a child was taken out.\<close>

function reap_from :: "(nat \<Rightarrow> child_status) \<Rightarrow> nat list \<Rightarrow> nat \<Rightarrow> nat list" where
  "reap_from w tasks i =
     (if i < length tasks then
        (case w (tasks ! i) of
           ChildRunning \<Rightarrow> reap_from w tasks (i + 1)
         | _ \<Rightarrow> reap_from w (take i tasks @ drop (i + 1) tasks) i)
      else tasks)"
  by pat_completeness auto

termination
  by (relation "measure (\<lambda>(w, tasks, i). length tasks - i)") auto

declare reap_from.simps [simp del]

definition check_zombie_terminals :: "(nat \<Rightarrow> child_status) \<Rightarrow> term_host \<Rightarrow> term_host" where
  "check_zombie_terminals w h = h\<lparr>th_tasks := reap_from w (th_tasks h) 0\<rparr>"

definition get_terminal_session_count :: "bool \<Rightarrow> term_host \<Rightarrow> nat" where
  "get_terminal_session_count zombies h =
     length (th_services h) + (if zombies then length (th_tasks h) else 0)"

definition list_terminals :: "term_service \<Rightarrow> (int \<times> string \<times> nat \<times> nat) list" where
  "list_terminals sv = map (\<lambda>(i, s). (i, ts_title s, ts_pid s, ts_created_at s)) (sv_sessions sv)"

definition get_terminal_buffer :: "int \<Rightarrow> nat \<Rightarrow> term_service \<Rightarrow> bytes option" where
  "get_terminal_buffer i n sv = map_option (\<lambda>s. get_recent (ts_buffer s) n) (map_of (sv_sessions sv) i)"

definition get_terminal_info :: "int \<Rightarrow> term_service \<Rightarrow> (u16 \<times> u16 \<times> bytes) option" where
  "get_terminal_info i sv =
     map_option (\<lambda>s. (ts_rows s, ts_cols s, get_recent (ts_buffer s) DEFAULT_RECONNECT_BUFFER_BYTES))
       (map_of (sv_sessions sv) i)"

definition has_active_terminals :: "term_service \<Rightarrow> bool" where
  "has_active_terminals sv = (sv_sessions sv \<noteq> [])"

definition set_persistent :: "string \<Rightarrow> bool \<Rightarrow> term_host \<Rightarrow> string + term_host" where
  "set_persistent i b h =
     (case get_service i h of
        Some sv \<Rightarrow> Inr (put_service i (sv\<lparr>sv_persistent := b\<rparr>) h)
      | None \<Rightarrow> Inl (''Service '' @ i @ '' not found''))"

section \<open>Actions of the viewer\<close>

record term_proxy =
  px_service_id :: string
  px_persistent :: bool
  px_user_token :: bool

definition proxy_new :: "string \<Rightarrow> bool option \<Rightarrow> bool \<Rightarrow> term_host \<Rightarrow> term_proxy" where
  "proxy_new i persistent token h =
     \<lparr>px_service_id = i,
      px_persistent = (case persistent of
                         Some b \<Rightarrow> b
                       | None \<Rightarrow> (case get_service i h of Some sv \<Rightarrow> sv_persistent sv | None \<Rightarrow> False)),
      px_user_token = token\<rparr>"

text \<open>After a reconnection the lowest surviving session takes the number that is asked for.\<close>

definition remap_session :: "int \<Rightarrow> term_service \<Rightarrow> term_service" where
  "remap_session i sv =
     (if map_of (sv_sessions sv) i = None \<and> sv_needs_sync sv \<and> sv_sessions sv \<noteq> [] then
        (let lowest = min_list (map fst (sv_sessions sv))
         in (case map_of (sv_sessions sv) lowest of
               Some s \<Rightarrow> sv\<lparr>sv_sessions := AList.update i s (AList.delete lowest (sv_sessions sv))\<rparr>
             | None \<Rightarrow> sv))
      else sv)"

definition reopen_session :: "term_proxy \<Rightarrow> int \<Rightarrow> term_session \<Rightarrow> term_service \<Rightarrow> terminal_response \<times> term_service" where
  "reopen_session px i s sv =
     (let buffer = get_recent (ts_buffer s) DEFAULT_RECONNECT_BUFFER_BYTES;
          s' = s\<lparr>ts_state := SessionActive (if buffer \<noteq> [] then Some buffer else None)
                              (TempResizePhase MAX_SIGWINCH_PHASE_ATTEMPTS)\<rparr>;
          others = (if sv_needs_sync sv \<and> length (sv_sessions sv) > 1
                    then filter (\<lambda>j. j \<noteq> i) (map fst (sv_sessions sv)) else [])
      in (RespOpened i ''Reconnected to existing terminal'' (ts_pid s) (px_service_id px) others,
          sv\<lparr>sv_needs_sync := False, sv_sessions := AList.update i s' (sv_sessions sv)\<rparr>))"

text \<open>What \<open>handle_open\<close> and \<open>handle_open_with_helper\<close> do with a session whose shell runs.\<close>

definition add_session :: "int \<Rightarrow> string \<Rightarrow> term_session \<Rightarrow> term_service \<Rightarrow> terminal_response \<times> term_service" where
  "add_session i message s sv =
     (let s = s\<lparr>ts_input := True, ts_output := Some [], ts_reader_finished := Some False,
                ts_state := SessionActive None SigwinchIdle\<rparr>;
          others = (if sv_needs_sync sv \<and> sv_sessions sv \<noteq> [] then map fst (sv_sessions sv) else [])
      in (RespOpened i message (ts_pid s) (sv_id sv) others,
          sv\<lparr>sv_needs_sync := False, sv_sessions := AList.update i s (sv_sessions sv)\<rparr>))"

definition handle_open_with_helper ::
    "term_env \<Rightarrow> nat \<Rightarrow> int \<Rightarrow> u32 \<Rightarrow> u32 \<Rightarrow> term_service \<Rightarrow> string + terminal_response \<times> term_service" where
  "handle_open_with_helper e now i rows cols sv =
     (case open_helper e i (ucast rows) (ucast cols) of
        Inl err \<Rightarrow> Inl err
      | Inr pid \<Rightarrow>
          Inr (add_session i ''Terminal opened (helper mode)''
            ((session_new i (ucast rows) (ucast cols) now)
               \<lparr>ts_pid := pid, ts_helper_mode := True, ts_helper_handle := True\<rparr>) sv))"

definition handle_open ::
    "term_env \<Rightarrow> nat \<Rightarrow> term_proxy \<Rightarrow> int \<Rightarrow> u32 \<Rightarrow> u32 \<Rightarrow> term_service
       \<Rightarrow> (string + terminal_response) \<times> term_service" where
  "handle_open e now px i rows cols sv =
     (let sv = remap_session i sv
      in (case map_of (sv_sessions sv) i of
            Some s \<Rightarrow> (case reopen_session px i s sv of (r, sv) \<Rightarrow> (Inr r, sv))
          | None \<Rightarrow>
              (case (if te_windows e \<and> px_user_token px then handle_open_with_helper e now i rows cols sv
                     else (case open_shell e i (ucast rows) (ucast cols) of
                             Inl err \<Rightarrow> Inl err
                           | Inr (child, pid) \<Rightarrow>
                               Inr (add_session i ''Terminal opened''
                                 ((session_new i (ucast rows) (ucast cols) now)
                                    \<lparr>ts_pid := pid, ts_pty := True, ts_child := Some child\<rparr>) sv))) of
                 Inl err \<Rightarrow> (Inl err, sv)
               | Inr (r, sv) \<Rightarrow> (Inr r, sv))))"

definition put_session :: "int \<Rightarrow> term_session \<Rightarrow> term_service \<Rightarrow> term_service" where
  "put_session i s sv = sv\<lparr>sv_sessions := AList.update i s (sv_sessions sv)\<rparr>"

definition handle_resize ::
    "term_env \<Rightarrow> nat \<Rightarrow> u32 \<Rightarrow> u32 \<Rightarrow> term_session \<Rightarrow> (string option) \<times> term_session \<times> term_effect list" where
  "handle_resize e now rows cols s =
     (let s = s\<lparr>ts_last_activity := now, ts_rows := ucast rows, ts_cols := ucast cols\<rparr>
      in (if te_windows e \<and> ts_helper_mode s then
            (None, s, if ts_input s
                      then [ToShell (ts_pid s) (encode_resize_message (ucast rows) (ucast cols))] else [])
          else if ts_pty s then
            (case resize_error e (ts_pid s) of
               Some err \<Rightarrow> (Some err, s, [])
             | None \<Rightarrow> (None, s, [PtyResized (ts_pid s) (ucast rows) (ucast cols)]))
          else (None, s, [])))"

definition handle_data :: "term_env \<Rightarrow> nat \<Rightarrow> bytes \<Rightarrow> term_session \<Rightarrow> term_session \<times> term_effect list" where
  "handle_data e now d s =
     (s\<lparr>ts_last_activity := now\<rparr>,
      if ts_input s then
        [ToShell (ts_pid s)
           (if te_windows e \<and> ts_helper_mode s then encode_helper_message MSG_TYPE_DATA d else d)]
      else [])"

definition handle_close ::
    "term_env \<Rightarrow> int \<Rightarrow> term_service \<Rightarrow> term_host \<Rightarrow> (string + terminal_response option) \<times> term_service \<times> term_host" where
  "handle_close e i sv h =
     (case map_of (sv_sessions sv) i of
        None \<Rightarrow> (Inr None, sv, h)
      | Some s \<Rightarrow>
          (let sv = sv\<lparr>sv_sessions := AList.delete i (sv_sessions sv)\<rparr>
           in (case ts_child s of
                 None \<Rightarrow> (Inr (Some (RespClosed i 0)), sv, snd (stop_session e s h))
               | Some c \<Rightarrow>
                   (case kill_error e c of
                      Some err \<Rightarrow> (Inl err, sv, snd (stop_session e (s\<lparr>ts_child := None\<rparr>) h))
                    | None \<Rightarrow> (Inr (Some (RespClosed i (-1))), sv,
                        snd (stop_session e (s\<lparr>ts_child := None\<rparr>)
                          (add_to_reaper c (log_effects [ChildKilled c] h))))))))"

definition handle_action ::
    "term_env \<Rightarrow> nat \<Rightarrow> term_proxy \<Rightarrow> terminal_action \<Rightarrow> term_host
       \<Rightarrow> (string + terminal_response option) \<times> term_host" where
  "handle_action e now px a h =
     (let sid = px_service_id px
      in (case get_service sid h of
            None \<Rightarrow> (Inr (Some (RespError (''Terminal service '' @ sid @ '' not found''))), h)
          | Some sv \<Rightarrow>
              (let sv = sv\<lparr>sv_last_activity := now\<rparr>
               in (case a of
                     ActOpen i rows cols \<Rightarrow>
                       (case handle_open e now px i rows cols sv of
                          (Inl err, sv) \<Rightarrow> (Inl err, put_service sid sv h)
                        | (Inr r, sv) \<Rightarrow> (Inr (Some r), put_service sid sv h))
                   | ActResize i rows cols \<Rightarrow>
                       (case map_of (sv_sessions sv) i of
                          None \<Rightarrow> (Inr None, put_service sid sv h)
                        | Some s \<Rightarrow>
                            (case handle_resize e now rows cols s of
                               (err, s, fx) \<Rightarrow>
                                 (case err of Some m \<Rightarrow> Inl m | None \<Rightarrow> Inr None,
                                  log_effects fx (put_service sid (put_session i s sv) h))))
                   | ActData i d \<Rightarrow>
                       (case map_of (sv_sessions sv) i of
                          None \<Rightarrow> (Inr None, put_service sid sv h)
                        | Some s \<Rightarrow>
                            (case handle_data e now d s of
                               (s, fx) \<Rightarrow> (Inr None, log_effects fx (put_service sid (put_session i s sv) h))))
                   | ActClose i \<Rightarrow>
                       (case handle_close e i sv h of (r, sv, h) \<Rightarrow> (r, put_service sid sv h))
                   | ActOther \<Rightarrow> (Inr None, put_service sid sv h)))))"

section \<open>Reading what the shells write\<close>

text \<open>The size a phase asks for, and one resize: \<open>ok\<close> says whether the system takes it.\<close>

definition sigwinch_rows :: "sigwinch_action \<Rightarrow> u16 \<Rightarrow> u16" where
  "sigwinch_rows a rows =
     (case a of TempResize \<Rightarrow> (if rows > 2 then rows - 1 else rows + 1) | Restore \<Rightarrow> rows)"

definition do_sigwinch_resize :: "term_env \<Rightarrow> bool \<Rightarrow> sigwinch_action \<Rightarrow> term_session \<Rightarrow> term_effect list option" where
  "do_sigwinch_resize e ok a s =
     (if ts_rows s = 0 \<or> ts_cols s = 0 then None
      else (let target = sigwinch_rows a (ts_rows s)
            in (if te_windows e \<and> ts_helper_mode s then
                  (if ts_input s \<and> ok
                   then Some [ToShell (ts_pid s) (encode_resize_message target (ts_cols s))] else None)
                else if ts_pty s \<and> ok then Some [PtyResized (ts_pid s) target (ts_cols s)]
                else None)))"

text \<open>What is due in a phase, and the phase with one try less.\<close>

fun sigwinch_due :: "sigwinch_phase \<Rightarrow> sigwinch_action option \<times> sigwinch_phase" where
  "sigwinch_due (TempResizePhase n) =
     (if n = 0 then (None, SigwinchIdle) else (Some TempResize, TempResizePhase (n - 1)))"
| "sigwinch_due (RestorePhase n) =
     (if n = 0 then (None, SigwinchIdle) else (Some Restore, RestorePhase (n - 1)))"
| "sigwinch_due SigwinchIdle = (None, SigwinchIdle)"

definition sigwinch_done :: "sigwinch_action \<Rightarrow> sigwinch_phase" where
  "sigwinch_done a =
     (case a of TempResize \<Rightarrow> RestorePhase MAX_SIGWINCH_PHASE_ATTEMPTS | Restore \<Rightarrow> SigwinchIdle)"

definition sigwinch_turn :: "term_env \<Rightarrow> bool \<Rightarrow> term_session \<Rightarrow> sigwinch_phase \<Rightarrow> sigwinch_phase \<times> term_effect list" where
  "sigwinch_turn e ok s p =
     (case sigwinch_due p of
        (None, p) \<Rightarrow> (p, [])
      | (Some a, p) \<Rightarrow>
          (case do_sigwinch_resize e ok a s of
             Some fx \<Rightarrow> (sigwinch_done a, fx)
           | None \<Rightarrow> (p, [])))"

definition create_terminal_data_response :: "term_env \<Rightarrow> int \<Rightarrow> bytes \<Rightarrow> terminal_response" where
  "create_terminal_data_response e i d =
     (if length d > COMPRESS_THRESHOLD then
        (let c = compress e d in if length c < length d then RespData i c True else RespData i d False)
      else RespData i d False)"

definition closed_due :: "term_session \<Rightarrow> bool" where
  "closed_due s = (\<not> ts_closed_sent s \<and> ts_reader_finished s = Some True)"

definition drain_output :: "nat \<Rightarrow> term_session \<Rightarrow> bytes list \<times> term_session" where
  "drain_output now s =
     (case ts_output s of
        None \<Rightarrow> ([], s)
      | Some q \<Rightarrow> (q, s\<lparr>ts_output := Some [], ts_last_activity := (if q \<noteq> [] then now else ts_last_activity s)\<rparr>))"

text \<open>One session of \<open>read_outputs\<close>: its new state, the responses and what is done to its terminal.\<close>

definition read_session ::
    "term_env \<Rightarrow> nat \<Rightarrow> bool \<Rightarrow> int \<Rightarrow> term_session
       \<Rightarrow> (term_session \<times> terminal_response list \<times> term_effect list) option" where
  "read_session e now ok i s =
     (let s = s\<lparr>ts_closed_sent := ts_closed_sent s \<or> closed_due s\<rparr>
      in (case drain_output now s of
            (received, s) \<Rightarrow>
              (case put_all append_output (ts_buffer s) received of
                 None \<Rightarrow> None
               | Some b \<Rightarrow>
                   (let s = s\<lparr>ts_buffer := b\<rparr>
                    in (case ts_state s of
                          SessionClosed \<Rightarrow> Some (s, [], [])
                        | SessionActive pending p \<Rightarrow>
                            (let history = (case pending of Some d \<Rightarrow> if d \<noteq> [] then [d] else [] | None \<Rightarrow> [])
                             in (case sigwinch_turn e ok s p of
                                   (p, fx) \<Rightarrow>
                                     Some (s\<lparr>ts_state := SessionActive None p\<rparr>,
                                       map (create_terminal_data_response e i) (history @ received), fx))))))))"

text \<open>All sessions; those whose lock is taken (\<open>busy\<close>) are left out.\<close>

fun read_sessions ::
    "term_env \<Rightarrow> nat \<Rightarrow> (int \<Rightarrow> bool) \<Rightarrow> (int \<Rightarrow> bool) \<Rightarrow> (int \<times> term_session) list
       \<Rightarrow> ((int \<times> term_session) list \<times> terminal_response list \<times> term_effect list \<times> int list) option" where
  "read_sessions e now busy ok [] = Some ([], [], [], [])"
| "read_sessions e now busy ok ((i, s) # ss) =
     (if busy i then
        map_option (\<lambda>(ss', rs, fx, cl). ((i, s) # ss', rs, fx, cl)) (read_sessions e now busy ok ss)
      else (case read_session e now (ok i) i s of
              None \<Rightarrow> None
            | Some (s', rs1, fx1) \<Rightarrow>
                map_option (\<lambda>(ss', rs, fx, cl).
                    ((i, s') # ss', rs1 @ rs, fx1 @ fx, (if closed_due s then [i] else []) @ cl))
                  (read_sessions e now busy ok ss)))"

text \<open>Terminals whose shell has ended; a persistent service keeps the session without its child.\<close>

definition take_child :: "term_env \<Rightarrow> term_session \<Rightarrow> term_host \<Rightarrow> int \<times> term_session \<times> term_host" where
  "take_child e s h =
     (case ts_child s of
        None \<Rightarrow> (0, s, h)
      | Some c \<Rightarrow> (case child_exit e c of Some code \<Rightarrow> code | None \<Rightarrow> 0, s\<lparr>ts_child := None\<rparr>, add_to_reaper c h))"

definition close_finished ::
    "term_env \<Rightarrow> bool \<Rightarrow> int \<Rightarrow> term_service \<times> term_host \<Rightarrow> terminal_response \<times> term_service \<times> term_host" where
  "close_finished e persistent i st =
     (case st of (sv, h) \<Rightarrow>
        (case map_of (sv_sessions sv) i of
           None \<Rightarrow> (RespClosed i 0, sv, h)
         | Some s \<Rightarrow>
             (case take_child e s h of
                (code, s, h) \<Rightarrow>
                  (if persistent then (RespClosed i code, put_session i s sv, h)
                   else (RespClosed i code, sv\<lparr>sv_sessions := AList.delete i (sv_sessions sv)\<rparr>,
                         snd (stop_session e s h))))))"

fun close_all_finished ::
    "term_env \<Rightarrow> bool \<Rightarrow> int list \<Rightarrow> term_service \<times> term_host \<Rightarrow> terminal_response list \<times> term_service \<times> term_host" where
  "close_all_finished e persistent [] st = ([], st)"
| "close_all_finished e persistent (i # is) st =
     (case close_finished e persistent i st of
        (r, st) \<Rightarrow> (case close_all_finished e persistent is st of (rs, st) \<Rightarrow> (r # rs, st)))"

definition read_outputs ::
    "term_env \<Rightarrow> nat \<Rightarrow> (int \<Rightarrow> bool) \<Rightarrow> (int \<Rightarrow> bool) \<Rightarrow> term_proxy \<Rightarrow> term_host
       \<Rightarrow> (terminal_response list \<times> term_host) option" where
  "read_outputs e now busy ok px h =
     (case get_service (px_service_id px) h of
        None \<Rightarrow> Some ([], h)
      | Some sv \<Rightarrow>
          (case read_sessions e now busy ok (sv_sessions sv) of
             None \<Rightarrow> None
           | Some (ss, rs, fx, ended) \<Rightarrow>
               (case close_all_finished e (px_persistent px) ended
                       (sv\<lparr>sv_sessions := ss\<rparr>, log_effects fx h) of
                  (rs', sv, h) \<Rightarrow> Some (rs @ rs', put_service (px_service_id px) sv h))))"

definition on_disconnect :: "term_env \<Rightarrow> term_proxy \<Rightarrow> term_host \<Rightarrow> term_host" where
  "on_disconnect e px h = (if px_persistent px then h else remove_service e (px_service_id px) h)"

section \<open>The polling loop and the connection\<close>

text \<open>
  \<open>new\<close>: the service of the connection, also when the registry is full; one turn of \<open>run\<close>, which
  sends to the subscriber, and what follows when the last subscriber has left.
\<close>

definition terminal_new ::
    "string \<Rightarrow> bool \<Rightarrow> bool \<Rightarrow> nat \<Rightarrow> term_host \<Rightarrow> terminal_response service \<times> term_host" where
  "terminal_new i persistent token now h =
     (service_new i False, case get_or_create_service i persistent token now h of Inl _ \<Rightarrow> h | Inr h \<Rightarrow> h)"

definition run_turn ::
    "term_env \<Rightarrow> nat \<Rightarrow> (int \<Rightarrow> bool) \<Rightarrow> (int \<Rightarrow> bool) \<Rightarrow> string \<Rightarrow> bool
       \<Rightarrow> terminal_response service \<times> term_host \<Rightarrow> (terminal_response service \<times> term_host) option" where
  "run_turn e now busy ok i token st =
     (if \<not> service_ok (fst st) then Some st
      else map_option (\<lambda>(rs, h). (fold send_shared rs (fst st), h))
             (read_outputs e now busy ok (proxy_new i None token (snd st)) (snd st)))"

definition run_end :: "term_env \<Rightarrow> string \<Rightarrow> term_host \<Rightarrow> term_host" where
  "run_end e i h =
     (case get_service i h of
        Some sv \<Rightarrow> if sv_persistent sv then h else remove_service e i h
      | None \<Rightarrow> h)"

definition update_terminal_persistence :: "bool \<Rightarrow> conn \<times> term_host \<Rightarrow> conn \<times> term_host" where
  "update_terminal_persistence b st =
     (let c = (fst st)\<lparr>terminal_persistent := b\<rparr>
      in (c, case set_persistent (terminal_service_id c) b (snd st) of Inl _ \<Rightarrow> snd st | Inr h \<Rightarrow> h))"

definition generate_service_id :: "string \<Rightarrow> string" where
  "generate_service_id uuid = ''ts_'' @ uuid"

definition init_terminal_service ::
    "nat \<Rightarrow> string \<Rightarrow> conn \<times> term_host \<Rightarrow> terminal_response service option \<times> conn \<times> term_host" where
  "init_terminal_service now uuid st =
     (case terminal_has_token (fst st) of
        None \<Rightarrow> (None, st)
      | Some token \<Rightarrow>
          (let c = (if terminal_service_id (fst st) = []
                    then (fst st)\<lparr>terminal_service_id := generate_service_id uuid\<rparr> else fst st)
           in (case terminal_new (terminal_service_id c) (terminal_persistent c) token now (snd st) of
                 (s, h) \<Rightarrow> (Some (on_subscribe (conn_id c) s), c, h))))"

definition handle_terminal_action ::
    "term_env \<Rightarrow> nat \<Rightarrow> terminal_action \<Rightarrow> conn \<times> term_host \<Rightarrow> string + terminal_response list \<times> term_host" where
  "handle_terminal_action e now a st =
     (case terminal_has_token (fst st) of
        None \<Rightarrow> Inl ''Terminal user token is not set.''
      | Some token \<Rightarrow>
          (case handle_action e now
                  (proxy_new (terminal_service_id (fst st)) (Some (terminal_persistent (fst st))) token (snd st))
                  a (snd st) of
             (Inr (Some r), h) \<Rightarrow> Inr ([r], h)
           | (Inr None, h) \<Rightarrow> Inr ([], h)
           | (Inl err, h) \<Rightarrow> Inr ([RespError (''Failed to handle action: '' @ err)], h)))"

end
