(* ===== verification/TerminalRegistry.thy ===== *)
theory TerminalRegistry
  imports Terminal
begin

text \<open>
  The registry of terminal services: the reaper of ended children leaves exactly the running ones, and
  no sequence of steps (\<open>term_step\<close>) makes the registry larger than its limit.
\<close>

section \<open>Children that have ended\<close>

lemma reap_from_eq:
  "i \<le> length tasks \<Longrightarrow>
     reap_from w tasks i = take i tasks @ filter (\<lambda>c. w c = ChildRunning) (drop i tasks)"
proof (induction w tasks i rule: reap_from.induct)
  case (1 w tasks i)
  show ?case
  proof (cases "i < length tasks")
    case True
    then have "drop i tasks = tasks ! i # drop (Suc i) tasks" by (rule Cons_nth_drop_Suc [symmetric])
    then show ?thesis using 1 True
      by (subst reap_from.simps) (auto simp: take_Suc_conv_app_nth min_def split: child_status.split)
  qed (use 1 in \<open>simp add: reap_from.simps\<close>)
qed

lemma zombies_are_reaped:
  "th_tasks (check_zombie_terminals w h) = filter (\<lambda>c. w c = ChildRunning) (th_tasks h)"
  by (simp add: check_zombie_terminals_def reap_from_eq)

section \<open>The registry\<close>

definition registry_ok :: "term_host \<Rightarrow> bool" where
  "registry_ok h = (distinct (map fst (th_services h)) \<and> length (th_services h) \<le> MAX_SERVICES)"

lemma log_effects_services [simp]: "th_services (log_effects fx h) = th_services h"
  by (simp add: log_effects_def)

lemma reaper_services [simp]: "th_services (add_to_reaper c h) = th_services h"
  by (simp add: add_to_reaper_def)

lemma stop_services [simp]: "th_services (snd (stop_session e s h)) = th_services h"
  by (auto simp: stop_session_def Let_def split: option.split)

lemma stop_all_services [simp]: "th_services (stop_all e ss h) = th_services h"
  unfolding stop_all_def by (induction ss arbitrary: h) (auto simp: case_prod_unfold)

lemma get_service_iff: "get_service i h = None \<longleftrightarrow> i \<notin> fst ` set (th_services h)"
  by (simp add: get_service_def map_of_eq_None_iff)

lemma keys_put_service [simp]:
  "get_service i h \<noteq> None \<Longrightarrow> map fst (th_services (put_service i sv h)) = map fst (th_services h)"
  by (simp add: put_service_def get_service_iff AList.update_keys)

lemma registry_keys:
  "map fst (th_services h') = map fst (th_services h) \<Longrightarrow> registry_ok h' = registry_ok h"
  unfolding registry_ok_def by (metis length_map)

lemma registry_ok_remove: "registry_ok h \<Longrightarrow> registry_ok (remove_service e i h)"
  using AList.distinct_delete [of "th_services h" i] length_delete_le [of i "th_services h"]
  by (auto simp: registry_ok_def remove_service_def split: option.split)

lemma registry_ok_create:
  assumes "registry_ok h" and "get_or_create_service i p u now h = Inr h'"
  shows "registry_ok h'"
proof (cases "get_service i h")
  case None
  then have "map fst (th_services h') = map fst (th_services h) @ [i]" "length (th_services h) < MAX_SERVICES"
    using assms by (auto simp: get_or_create_service_def put_service_def get_service_iff AList.update_keys
        Let_def split: if_splits)
  moreover from this(1) have "length (th_services h') = Suc (length (th_services h))"
    by (metis length_append_singleton length_map)
  ultimately show ?thesis using assms(1) None by (auto simp: registry_ok_def get_service_iff)
next
  case (Some sv)
  then show ?thesis using assms registry_keys [of h' h]
    by (auto simp: get_or_create_service_def Let_def split: if_splits)
qed


lemma keys_handle_action [simp]:
  "map fst (th_services (snd (handle_action e now px a h))) = map fst (th_services h)"
proof (cases "get_service (px_service_id px) h")
  case None
  then show ?thesis by (simp add: handle_action_def Let_def)
next
  case (Some sv)
  then have keys: "map fst (th_services (put_service (px_service_id px) sv' h')) = map fst (th_services h)"
    if "th_services h' = th_services h" for sv' h'
    using that keys_put_service [of "px_service_id px" h' sv'] by (simp add: get_service_def)
  have close: "th_services (snd (snd (handle_close e i sv h))) = th_services h" for i sv
    by (auto simp: handle_close_def Let_def split: option.split)
  show ?thesis using Some
    by (cases a) (auto simp: handle_action_def Let_def keys close [THEN keys] case_prod_unfold
        split: option.split sum.split)
qed

lemma take_child_services [simp]: "th_services (snd (snd (take_child e s h))) = th_services h"
  by (auto simp: take_child_def split: option.split)

lemma close_finished_services [simp]:
  "th_services (snd (snd (close_finished e p i (sv, h)))) = th_services h"
  by (auto simp: close_finished_def case_prod_unfold split: option.split)

lemma close_all_services [simp]:
  "th_services (snd (snd (close_all_finished e p is st))) = th_services (snd st)"
proof (induction "is" arbitrary: st)
  case (Cons i "is")
  then show ?case by (cases st) (simp add: case_prod_unfold)
qed simp

lemma keys_read_outputs:
  assumes "read_outputs e now busy ok px h = Some (rs, h')"
  shows "map fst (th_services h') = map fst (th_services h)"
proof (cases "get_service (px_service_id px) h")
  case None
  then show ?thesis using assms by (simp add: read_outputs_def)
next
  case (Some sv)
  then obtain ss rs1 fx ended where r: "read_sessions e now busy ok (sv_sessions sv) = Some (ss, rs1, fx, ended)"
    using assms by (auto simp: read_outputs_def split: option.splits)
  let ?c = "close_all_finished e (px_persistent px) ended (sv\<lparr>sv_sessions := ss\<rparr>, log_effects fx h)"
  have h': "h' = put_service (px_service_id px) (fst (snd ?c)) (snd (snd ?c))"
    using assms Some r by (simp add: read_outputs_def case_prod_unfold)
  have "th_services (snd (snd ?c)) = th_services h" by simp
  then show ?thesis unfolding h' using Some keys_put_service [of "px_service_id px" "snd (snd ?c)"]
    by (simp add: get_service_def)
qed

text \<open>Everything that touches the registry; the reader threads change sessions where they are.\<close>

definition shell_output :: "string \<Rightarrow> int \<Rightarrow> (term_session \<Rightarrow> term_session) \<Rightarrow> term_host \<Rightarrow> term_host" where
  "shell_output i j f h =
     (case get_service i h of
        None \<Rightarrow> h
      | Some sv \<Rightarrow> (case map_of (sv_sessions sv) j of
                       None \<Rightarrow> h
                     | Some s \<Rightarrow> put_service i (put_session j (f s) sv) h))"

inductive term_step :: "term_env \<Rightarrow> term_host \<Rightarrow> term_host \<Rightarrow> bool" for e where
  create: "get_or_create_service i p u now h = Inr h' \<Longrightarrow> term_step e h h'"
| persist: "set_persistent i b h = Inr h' \<Longrightarrow> term_step e h h'"
| act: "term_step e h (snd (handle_action e now px a h))"
| read: "read_outputs e now busy ok px h = Some (rs, h') \<Longrightarrow> term_step e h h'"
| writes: "term_step e h (shell_output i j (shell_writes d) h)"
| shell_end: "term_step e h (shell_output i j shell_ends h)"
| run_end: "term_step e h (run_end e i h)"
| disconnect: "term_step e h (on_disconnect e px h)"
| cleanup: "term_step e h (cleanup_inactive_services e now h)"
| reap: "term_step e h (check_zombie_terminals w h)"

lemma registry_ok_cleanup: "registry_ok h \<Longrightarrow> registry_ok (cleanup_inactive_services e now h)"
proof -
  have "registry_ok h \<Longrightarrow> registry_ok (fold (remove_service e) is h)" for "is" h
    by (induction "is" arbitrary: h) (simp_all add: registry_ok_remove)
  then show "registry_ok h \<Longrightarrow> ?thesis" by (simp add: cleanup_inactive_services_def)
qed

lemma term_step_registry:
  assumes "term_step e h h'" and "registry_ok h"
  shows "registry_ok h'"
  using assms(1)
proof cases
  case (create i p u now)
  then show ?thesis using assms(2) by (rule registry_ok_create [rotated])
next
  case (persist i b)
  then show ?thesis using assms(2) registry_keys [of h' h]
    by (auto simp: set_persistent_def split: option.splits)
next
  case act
  then show ?thesis using assms(2) registry_keys [of h' h] by simp
next
  case read
  then show ?thesis using assms(2) registry_keys [of h' h] keys_read_outputs by blast
next
  case (writes i j d)
  then show ?thesis using assms(2) registry_keys [of h' h]
    by (auto simp: shell_output_def split: option.splits)
next
  case shell_end
  then show ?thesis using assms(2) registry_keys [of h' h]
    by (auto simp: shell_output_def split: option.splits)
next
  case run_end
  then show ?thesis using assms(2) by (auto simp: run_end_def registry_ok_remove split: option.split)
next
  case disconnect
  then show ?thesis using assms(2) by (simp add: on_disconnect_def registry_ok_remove)
next
  case cleanup
  then show ?thesis using assms(2) by (simp add: registry_ok_cleanup)
next
  case reap
  then show ?thesis using assms(2) by (simp add: check_zombie_terminals_def registry_ok_def)
qed

text \<open>
  C25. The host never keeps more than a hundred terminal services, each under its own name, whatever
  connections create, use, leave or clean up.
\<close>

theorem services_stay_bounded:
  assumes "(term_step e)\<^sup>*\<^sup>* \<lparr>th_services = [], th_tasks = [], th_log = []\<rparr> h"
  shows "length (th_services h) \<le> 100 \<and> distinct (map fst (th_services h))"
proof -
  have "registry_ok h"
    using assms
  proof (induction rule: rtranclp_induct)
    case base
    then show ?case by (simp add: registry_ok_def)
  qed (rule term_step_registry)
  then show ?thesis by (simp add: registry_ok_def MAX_SERVICES_def)
qed

definition demo_term :: term_env where
  "demo_term = \<lparr>te_windows = False, open_shell = (\<lambda>i rows cols. Inr (7, 100)), open_helper = (\<lambda>i rows cols. Inr 200),
     resize_error = Map.empty, kill_error = Map.empty, child_exit = (\<lambda>c. Some 0), compress = (\<lambda>d. d)\<rparr>"

theorem services_stay_bounded_witness:
  "length (th_services (put_service ''ts_1'' (reset_status True (term_service_new ''ts_1'' True False 0))
     \<lparr>th_services = [], th_tasks = [], th_log = []\<rparr>)) \<le> 100
   \<and> distinct (map fst (th_services (put_service ''ts_1'' (reset_status True (term_service_new ''ts_1'' True False 0))
     \<lparr>th_services = [], th_tasks = [], th_log = []\<rparr>)))"
proof (rule services_stay_bounded [of demo_term], rule r_into_rtranclp)
  show "term_step demo_term \<lparr>th_services = [], th_tasks = [], th_log = []\<rparr>
    (put_service ''ts_1'' (reset_status True (term_service_new ''ts_1'' True False 0))
     \<lparr>th_services = [], th_tasks = [], th_log = []\<rparr>)"
    by (rule create [where i = "''ts_1''" and p = True and u = False and now = 0])
       (simp add: get_or_create_service_def get_service_def MAX_SERVICES_def)
qed

end
