(* ===== verification/TerminalSession.thy ===== *)
theory TerminalSession
  imports TerminalRegistry
begin

text \<open>
  One terminal seen over many turns of the polling loop (\<open>poll\<close>): what a viewer that comes back
  sees of the output, that the redraw it triggers ends, and which sessions it finds.
\<close>

section \<open>Polling one session\<close>

text \<open>
  Turns of the loop on one session: the time, whether the system takes a resize, and the chunks the
  shell has written since the turn before. While no viewer is connected the loop does not run and there
  are no turns: what the shell writes then only goes into the channel (\<open>fold shell_writes\<close>), which drops
  what it has no room for.
\<close>

type_synonym poll_turn = "nat \<times> bool \<times> bytes list"

fun poll :: "term_env \<Rightarrow> int \<Rightarrow> poll_turn list \<Rightarrow> term_session
    \<Rightarrow> (term_session \<times> terminal_response list \<times> term_effect list) option" where
  "poll e i [] s = Some (s, [], [])"
| "poll e i ((now, ok, ds) # ts) s =
     (case read_session e now ok i (fold shell_writes ds s) of
        None \<Rightarrow> None
      | Some (s, rs, fx) \<Rightarrow> map_option (\<lambda>(s, rs', fx'). (s, rs @ rs', fx @ fx')) (poll e i ts s))"

fun chunks :: "poll_turn list \<Rightarrow> bytes list" where
  "chunks [] = []"
| "chunks ((now, ok, ds) # ts) = ds @ chunks ts"

text \<open>Between two turns the channel does not overflow.\<close>

definition turns_fit :: "poll_turn list \<Rightarrow> bool" where
  "turns_fit ts = (\<forall>(now, ok, ds) \<in> set ts. length ds \<le> CHANNEL_BUFFER_SIZE)"

text \<open>A session whose shell runs and whose channel has been emptied.\<close>

definition session_runs :: "term_session \<Rightarrow> bool" where
  "session_runs s = (ts_reader_finished s = Some False \<and> \<not> ts_exiting s \<and> ts_output s = Some [])"

text \<open>
  The turns as the loop sees them: the channel holds 500 chunks, \<open>q\<close> being the ones it holds at the start.
\<close>

fun carry :: "bytes list \<Rightarrow> poll_turn list \<Rightarrow> poll_turn list" where
  "carry q [] = []"
| "carry q ((now, ok, ds) # ts) = (now, ok, take CHANNEL_BUFFER_SIZE (q @ ds)) # carry [] ts"

abbreviation delivered :: "bytes list \<Rightarrow> poll_turn list \<Rightarrow> bytes list" where
  "delivered q ts \<equiv> chunks (carry q ts)"

definition left_over :: "bytes list \<Rightarrow> poll_turn list \<Rightarrow> bytes list" where
  "left_over q ts = (if ts = [] then take CHANNEL_BUFFER_SIZE q else [])"

lemma carry_fits: "turns_fit (carry q ts)"
  by (induction q ts rule: carry.induct) (auto simp: turns_fit_def)

lemma carry_empty [simp]: "carry q ts = [] \<longleftrightarrow> ts = []"
  by (cases ts) auto

lemma take_take_append: "take n (take n q @ ds) = take n (q @ ds)"
  by (cases "n \<le> length q") auto

lemma carry_take: "carry (take CHANNEL_BUFFER_SIZE q) ts = carry q ts"
  by (cases "(q, ts)" rule: carry.cases) (auto simp: take_take_append simp del: take_append)

lemma shell_writes_channel:
  "ts_reader_finished s = Some False \<Longrightarrow> \<not> ts_exiting s \<Longrightarrow> ts_output s = Some q \<Longrightarrow>
     length q \<le> CHANNEL_BUFFER_SIZE \<Longrightarrow>
     fold shell_writes ds s = s\<lparr>ts_output := Some (take CHANNEL_BUFFER_SIZE (q @ ds))\<rparr>"
proof (induction ds arbitrary: s q)
  case (Cons d ds)
  show ?case
  proof (cases "length q < CHANNEL_BUFFER_SIZE")
    case True
    then have "shell_writes d s = s\<lparr>ts_output := Some (q @ [d])\<rparr>" using Cons.prems by (simp add: shell_writes_def)
    then show ?thesis using Cons.IH [of "s\<lparr>ts_output := Some (q @ [d])\<rparr>" "q @ [d]"] Cons.prems True by simp
  next
    case False
    then have "shell_writes d s = s" using Cons.prems by (simp add: shell_writes_def)
    then show ?thesis using Cons.IH [of s q] Cons.prems False by simp
  qed
qed simp

lemma shell_writes_running:
  "ts_reader_finished s = Some False \<Longrightarrow> \<not> ts_exiting s \<Longrightarrow> ts_output s = Some q \<Longrightarrow>
     length q + length ds \<le> CHANNEL_BUFFER_SIZE \<Longrightarrow> fold shell_writes ds s = s\<lparr>ts_output := Some (q @ ds)\<rparr>"
  using shell_writes_channel [of s q ds] by simp

text \<open>What a shell writes beyond the channel while nobody reads is gone.\<close>

lemma output_beyond_channel_is_lost:
  "session_runs s \<Longrightarrow> length ds = CHANNEL_BUFFER_SIZE \<Longrightarrow>
     fold shell_writes (ds @ lost) s = fold shell_writes ds s \<and> ts_output (fold shell_writes ds s) = Some ds"
  using shell_writes_channel [of s "[]" "ds @ lost"] shell_writes_channel [of s "[]" ds]
  by (simp add: session_runs_def del: fold_append)

lemma shell_writes_carried:
  assumes "session_runs s"
  shows "fold shell_writes ds (s\<lparr>ts_output := Some (take CHANNEL_BUFFER_SIZE q)\<rparr>)
     = fold shell_writes (take CHANNEL_BUFFER_SIZE (q @ ds)) s"
  using assms shell_writes_channel [of s "[]" "take CHANNEL_BUFFER_SIZE (q @ ds)"]
    shell_writes_channel [of "s\<lparr>ts_output := Some (take CHANNEL_BUFFER_SIZE q)\<rparr>" "take CHANNEL_BUFFER_SIZE q" ds]
  by (simp add: session_runs_def take_take_append)

text \<open>What a turn leaves alone, and what it does to the state.\<close>

definition live_history :: "session_state \<Rightarrow> bytes list" where
  "live_history st = (case st of SessionActive (Some d) p \<Rightarrow> (if d \<noteq> [] then [d] else []) | _ \<Rightarrow> [])"

lemma sigwinch_turn_cong:
  assumes "ts_rows s' = ts_rows s" "ts_cols s' = ts_cols s" "ts_pid s' = ts_pid s" "ts_pty s' = ts_pty s"
    "ts_input s' = ts_input s" "ts_helper_mode s' = ts_helper_mode s"
  shows "sigwinch_turn e ok s' p = sigwinch_turn e ok s p"
proof -
  have "do_sigwinch_resize e ok a s' = do_sigwinch_resize e ok a s" for a
    using assms by (simp add: do_sigwinch_resize_def Let_def)
  then show ?thesis by (simp add: sigwinch_turn_def split: prod.split option.split)
qed

lemma sigwinch_turn_upd [simp]:
  "sigwinch_turn e ok (s\<lparr>ts_output := v\<rparr>) p = sigwinch_turn e ok s p"
  "sigwinch_turn e ok (s\<lparr>ts_closed_sent := b\<rparr>) p = sigwinch_turn e ok s p"
  "sigwinch_turn e ok (s\<lparr>ts_last_activity := n\<rparr>) p = sigwinch_turn e ok s p"
  "sigwinch_turn e ok (s\<lparr>ts_buffer := u\<rparr>) p = sigwinch_turn e ok s p"
  by (rule sigwinch_turn_cong; simp)+

lemma read_running:
  assumes "session_runs s" and "length ds \<le> CHANNEL_BUFFER_SIZE"
    and "read_session e now ok i (fold shell_writes ds s) = Some (s', rs, fx)"
  shows "session_runs s'" and "put_all append_output (ts_buffer s) ds = Some (ts_buffer s')"
    and "ts_state s = SessionClosed \<Longrightarrow> ts_state s' = SessionClosed \<and> rs = [] \<and> fx = []"
    and "ts_state s = SessionActive pending p \<Longrightarrow>
      ts_state s' = SessionActive None (fst (sigwinch_turn e ok s p))
      \<and> rs = map (create_terminal_data_response e i) (live_history (ts_state s) @ ds)
      \<and> fx = snd (sigwinch_turn e ok s p)"
    and "ts_rows s' = ts_rows s" "ts_cols s' = ts_cols s" "ts_pid s' = ts_pid s" "ts_pty s' = ts_pty s"
      "ts_input s' = ts_input s" "ts_helper_mode s' = ts_helper_mode s"
proof -
  have w: "fold shell_writes ds s = s\<lparr>ts_output := Some ds\<rparr>"
    using assms(1,2) shell_writes_running [of s "[]" ds] by (simp add: session_runs_def)
  note d = assms(3) [unfolded w read_session_def Let_def drain_output_def]
  have r: "session_runs s'" "put_all append_output (ts_buffer s) ds = Some (ts_buffer s')"
     "ts_rows s' = ts_rows s" "ts_cols s' = ts_cols s" "ts_pid s' = ts_pid s" "ts_pty s' = ts_pty s"
     "ts_input s' = ts_input s" "ts_helper_mode s' = ts_helper_mode s"
    using d assms(1) by (auto simp: session_runs_def case_prod_unfold split: option.splits session_state.splits)
  show "session_runs s'" "put_all append_output (ts_buffer s) ds = Some (ts_buffer s')"
     "ts_rows s' = ts_rows s" "ts_cols s' = ts_cols s" "ts_pid s' = ts_pid s" "ts_pty s' = ts_pty s"
     "ts_input s' = ts_input s" "ts_helper_mode s' = ts_helper_mode s" by fact+
  show "ts_state s = SessionClosed \<Longrightarrow> ts_state s' = SessionClosed \<and> rs = [] \<and> fx = []"
    using d by (auto split: option.splits)
  show "ts_state s = SessionActive pending p \<Longrightarrow>
      ts_state s' = SessionActive None (fst (sigwinch_turn e ok s p))
      \<and> rs = map (create_terminal_data_response e i) (live_history (ts_state s) @ ds)
      \<and> fx = snd (sigwinch_turn e ok s p)"
    using d by (auto simp: live_history_def case_prod_unfold split: option.splits)
qed

text \<open>A turn only sees what the channel kept.\<close>

lemma poll_carried:
  assumes "session_runs s"
  shows "poll e i ts (s\<lparr>ts_output := Some (take CHANNEL_BUFFER_SIZE q)\<rparr>)
     = (if ts = [] then Some (s\<lparr>ts_output := Some (take CHANNEL_BUFFER_SIZE q)\<rparr>, [], [])
        else poll e i (carry q ts) s)"
  using assms
proof (induction q ts arbitrary: s rule: carry.induct)
  case (2 q now ok ds ts)
  let ?r = "read_session e now ok i (fold shell_writes (take CHANNEL_BUFFER_SIZE (q @ ds)) s)"
  show ?case
  proof (cases ?r)
    case None
    then show ?thesis by (simp add: shell_writes_carried [OF 2(2)])
  next
    case (Some r)
    obtain s1 rs fx where r: "r = (s1, rs, fx)" by (rule prod_cases3)
    have runs: "session_runs s1" using read_running(1) [OF 2(2) _ Some [unfolded r]] by simp
    then have "s1\<lparr>ts_output := Some (take CHANNEL_BUFFER_SIZE [])\<rparr> = s1" by (simp add: session_runs_def)
    then have "poll e i ts s1 = poll e i (carry [] ts) s1" using 2(1) [OF runs] by (cases "ts = []") auto
    then show ?thesis using Some r by (simp add: shell_writes_carried [OF 2(2)])
  qed
qed simp

lemma poll_carry: "session_runs s \<Longrightarrow> poll e i ts s = poll e i (carry [] ts) s"
proof -
  assume runs: "session_runs s"
  then have "s\<lparr>ts_output := Some (take CHANNEL_BUFFER_SIZE [])\<rparr> = s" by (simp add: session_runs_def)
  then show ?thesis using poll_carried [OF runs, of e i ts "[]"] by (cases "ts = []") auto
qed


section \<open>The two phases of a redraw\<close>

text \<open>The turns a phase can still take.\<close>

fun phase_turns :: "sigwinch_phase \<Rightarrow> nat" where
  "phase_turns SigwinchIdle = 0"
| "phase_turns (RestorePhase n) = Suc n"
| "phase_turns (TempResizePhase n) = n + 5"

text \<open>The outcomes of successive turns of one session.\<close>

fun sigwinch_run :: "term_env \<Rightarrow> bool list \<Rightarrow> term_session \<Rightarrow> sigwinch_phase \<Rightarrow> sigwinch_phase \<times> term_effect list" where
  "sigwinch_run e [] s p = (p, [])"
| "sigwinch_run e (ok # oks) s p =
     (case sigwinch_turn e ok s p of (p, fx) \<Rightarrow>
        (case sigwinch_run e oks s p of (p, fx') \<Rightarrow> (p, fx @ fx')))"

lemma sigwinch_turn_decreases:
  "p \<noteq> SigwinchIdle \<Longrightarrow> phase_turns (fst (sigwinch_turn e ok s p)) < phase_turns p"
  by (cases p) (auto simp: sigwinch_turn_def sigwinch_done_def MAX_SIGWINCH_PHASE_ATTEMPTS_def split: option.split)

lemma sigwinch_turn_idle [simp]: "sigwinch_turn e ok s SigwinchIdle = (SigwinchIdle, [])"
  by (simp add: sigwinch_turn_def)

lemma sigwinch_run_ends:
  "phase_turns p \<le> length oks \<Longrightarrow> fst (sigwinch_run e oks s p) = SigwinchIdle"
proof (induction oks arbitrary: p)
  case Nil
  then show ?case by (cases p) auto
next
  case (Cons ok oks)
  have "phase_turns (fst (sigwinch_turn e ok s p)) \<le> length oks"
    using sigwinch_turn_decreases [of p e ok s] Cons.prems by (cases "p = SigwinchIdle") auto
  then show ?case using Cons.IH by (simp add: case_prod_unfold)
qed

definition resize_effect :: "term_env \<Rightarrow> sigwinch_action \<Rightarrow> term_session \<Rightarrow> term_effect" where
  "resize_effect e a s =
     (if te_windows e \<and> ts_helper_mode s
      then ToShell (ts_pid s) (encode_resize_message (sigwinch_rows a (ts_rows s)) (ts_cols s))
      else PtyResized (ts_pid s) (sigwinch_rows a (ts_rows s)) (ts_cols s))"

lemma do_resize_effect: "do_sigwinch_resize e ok a s = Some fx \<Longrightarrow> fx = [resize_effect e a s]"
  by (auto simp: do_sigwinch_resize_def resize_effect_def Let_def split: if_splits)

lemma restore_effects:
  "snd (sigwinch_run e oks s SigwinchIdle) = []"
  "snd (sigwinch_run e oks s (RestorePhase n)) \<in> {[], [resize_effect e Restore s]}"
proof -
  show idle: "snd (sigwinch_run e oks s SigwinchIdle) = []" for oks
    by (induction oks) (auto simp: case_prod_unfold)
  show "snd (sigwinch_run e oks s (RestorePhase n)) \<in> {[], [resize_effect e Restore s]}"
  proof (induction oks arbitrary: n)
    case (Cons ok oks)
    then show ?case
      by (auto simp: sigwinch_turn_def sigwinch_done_def case_prod_unfold idle
          dest: do_resize_effect split: option.split)
  qed simp
qed

lemma temp_effects:
  "snd (sigwinch_run e oks s (TempResizePhase n)) \<in> {[], [resize_effect e TempResize s],
     [resize_effect e TempResize s, resize_effect e Restore s]}"
proof (induction oks arbitrary: n)
  case (Cons ok oks)
  then show ?case
    using restore_effects(2) [of e oks s MAX_SIGWINCH_PHASE_ATTEMPTS]
    by (auto simp: sigwinch_turn_def sigwinch_done_def case_prod_unfold restore_effects(1)
        dest: do_resize_effect split: option.split)
qed simp

lemma poll_active:
  assumes "session_runs s" and "turns_fit ts"
    and "ts_state s = SessionActive pending p" and "poll e i ts s = Some (s', rs, fx)" and "ts \<noteq> []"
  shows "session_runs s' \<and> ts_state s' = SessionActive None (fst (sigwinch_run e (map (fst \<circ> snd) ts) s p))
    \<and> fx = snd (sigwinch_run e (map (fst \<circ> snd) ts) s p)
    \<and> rs = map (create_terminal_data_response e i) (live_history (ts_state s) @ chunks ts)
    \<and> put_all append_output (ts_buffer s) (chunks ts) = Some (ts_buffer s')"
  using assms
proof (induction ts arbitrary: s pending p s' rs fx)
  case (Cons t ts)
  obtain now ok ds where t: "t = (now, ok, ds)" by (rule prod_cases3)
  obtain s1 rs1 fx1 where r: "read_session e now ok i (fold shell_writes ds s) = Some (s1, rs1, fx1)"
    using Cons.prems(4) by (auto simp: t split: option.splits)
  have ds: "length ds \<le> CHANNEL_BUFFER_SIZE" using Cons.prems(2) by (auto simp: t turns_fit_def)
  note r1 = read_running [OF Cons.prems(1) ds r]
  note st = r1(4) [OF Cons.prems(3)]
  obtain rs2 fx2 where p: "poll e i ts s1 = Some (s', rs2, fx2)" "rs = rs1 @ rs2" "fx = fx1 @ fx2"
    using Cons.prems(4) r by (auto simp: t)
  have cong: "sigwinch_run e oks s1 q = sigwinch_run e oks s q" for oks q
    using r1(5-10) by (induction oks arbitrary: q) (simp_all add: sigwinch_turn_cong [of s1 s])
  show ?case
  proof (cases "ts = []")
    case True
    then show ?thesis using p st r1(1,2) by (simp add: t case_prod_unfold)
  next
    case False
    let ?q = "fst (sigwinch_turn e ok s p)"
    have "live_history (ts_state s1) = []" using st by (simp add: live_history_def)
    with Cons.IH [OF r1(1) _ conjunct1 [OF st] p(1) False] Cons.prems(2) st r1(2)
    show ?thesis by (auto simp: t p(2,3) cong case_prod_unfold put_all_append turns_fit_def)
  qed
qed simp


lemma poll_closed:
  assumes "session_runs s" and "turns_fit ts" and "ts_state s = SessionClosed"
    and "poll e i ts s = Some (s', rs, fx)"
  shows "session_runs s' \<and> ts_state s' = SessionClosed \<and> rs = [] \<and> fx = []
    \<and> put_all append_output (ts_buffer s) (chunks ts) = Some (ts_buffer s')"
  using assms
proof (induction ts arbitrary: s s' rs fx)
  case (Cons t ts)
  obtain now ok ds where t: "t = (now, ok, ds)" by (rule prod_cases3)
  obtain s1 rs1 fx1 where r: "read_session e now ok i (fold shell_writes ds s) = Some (s1, rs1, fx1)"
    using Cons.prems(4) by (auto simp: t split: option.splits)
  have ds: "length ds \<le> CHANNEL_BUFFER_SIZE" using Cons.prems(2) by (auto simp: t turns_fit_def)
  note r1 = read_running [OF Cons.prems(1) ds r]
  note st = r1(3) [OF Cons.prems(3)]
  obtain rs2 fx2 where p: "poll e i ts s1 = Some (s', rs2, fx2)" "rs = rs1 @ rs2" "fx = fx1 @ fx2"
    using Cons.prems(4) r by (auto simp: t)
  then show ?case using Cons.IH [OF r1(1) _ _ p(1)] Cons.prems(2) st r1(2)
    by (auto simp: t put_all_append turns_fit_def)
qed simp

lemma read_returns:
  assumes "session_runs s" and "length ds \<le> CHANNEL_BUFFER_SIZE"
    and "put_all append_output (ts_buffer s) ds = Some b"
  shows "\<exists>s' rs fx. read_session e now ok i (fold shell_writes ds s) = Some (s', rs, fx)"
proof -
  have "fold shell_writes ds s = s\<lparr>ts_output := Some ds\<rparr>"
    using assms(1,2) shell_writes_running [of s "[]" ds] by (simp add: session_runs_def)
  then show ?thesis using assms(3)
    by (simp add: read_session_def drain_output_def Let_def case_prod_unfold split: session_state.split)
qed

lemma poll_returns:
  assumes "session_runs s" and "turns_fit ts"
    and "put_all append_output (ts_buffer s) (chunks ts) = Some b"
  shows "\<exists>s' rs fx. poll e i ts s = Some (s', rs, fx)"
  using assms
proof (induction ts arbitrary: s)
  case (Cons t ts)
  obtain now ok ds where t: "t = (now, ok, ds)" by (rule prod_cases3)
  have ds: "length ds \<le> CHANNEL_BUFFER_SIZE" using Cons.prems(2) by (auto simp: t turns_fit_def)
  obtain b1 where b1: "put_all append_output (ts_buffer s) ds = Some b1"
    "put_all append_output b1 (chunks ts) = Some b"
    using Cons.prems(3) by (auto simp: t put_all_append split: option.splits)
  obtain s1 rs1 fx1 where r: "read_session e now ok i (fold shell_writes ds s) = Some (s1, rs1, fx1)"
    using read_returns [OF Cons.prems(1) ds b1(1)] by blast
  note r1 = read_running [OF Cons.prems(1) ds r]
  have "\<exists>s' rs fx. poll e i ts s1 = Some (s', rs, fx)"
    using Cons.IH [OF r1(1)] Cons.prems(2) b1 r1(2) by (auto simp: t turns_fit_def)
  then show ?case using r by (auto simp: t)
qed simp

lemma reopened:
  "map_of (sv_sessions (snd (reopen_session px i s sv))) i
     = Some (s\<lparr>ts_state := SessionActive
          (if get_recent (ts_buffer s) DEFAULT_RECONNECT_BUFFER_BYTES \<noteq> []
           then Some (get_recent (ts_buffer s) DEFAULT_RECONNECT_BUFFER_BYTES) else None)
          (TempResizePhase MAX_SIGWINCH_PHASE_ATTEMPTS)\<rparr>)"
  by (simp add: reopen_session_def Let_def AList.update_conv')

text \<open>
  C22. After a viewer has come back, the host stops nudging the terminal: within eight turns of the loop the
  redraw sequence is over, however the resizes turn out, and at most one resize to another height
  and then one back have been made.
\<close>

theorem redraw_ends:
  assumes "session_runs s" and "turns_fit ts" and "8 \<le> length ts"
    and "put_all append_output (ts_buffer s) (chunks ts) = Some b"
    and "map_of (sv_sessions (snd (reopen_session px i s sv))) i = Some s'"
  shows "\<exists>s'' rs fx. poll e i ts s' = Some (s'', rs, fx) \<and> ts_state s'' = SessionActive None SigwinchIdle
    \<and> fx \<in> {[], [resize_effect e TempResize s], [resize_effect e TempResize s, resize_effect e Restore s]}"
proof -
  let ?p = "TempResizePhase MAX_SIGWINCH_PHASE_ATTEMPTS"
  obtain pending where s': "s' = s\<lparr>ts_state := SessionActive pending ?p\<rparr>" using assms(5) reopened by auto
  have runs: "session_runs s'" using assms(1) by (simp add: s' session_runs_def)
  obtain s'' rs fx where p: "poll e i ts s' = Some (s'', rs, fx)"
    using poll_returns [OF runs assms(2), of b e i] assms(4) by (auto simp: s')
  have "ts \<noteq> []" using assms(3) by auto
  note a = poll_active [OF runs assms(2) _ p this, of pending ?p]
  have "fst (sigwinch_run e (map (fst \<circ> snd) ts) s' ?p) = SigwinchIdle"
    using assms(3) by (intro sigwinch_run_ends) (simp add: MAX_SIGWINCH_PHASE_ATTEMPTS_def)
  moreover have "resize_effect e a s' = resize_effect e a s" for a by (simp add: s' resize_effect_def)
  ultimately show ?thesis
    using p a temp_effects [of e "map (fst \<circ> snd) ts" s' MAX_SIGWINCH_PHASE_ATTEMPTS] by (simp add: s')
qed

text \<open>What a viewer makes of the responses for its terminal.\<close>

fun viewer_data :: "(bytes \<Rightarrow> bytes) \<Rightarrow> terminal_response \<Rightarrow> bytes" where
  "viewer_data dc (RespData i d z) = (if z then dc d else d)"
| "viewer_data dc _ = []"

lemma viewer_data_response:
  "\<forall>d. dc (compress e d) = d \<Longrightarrow> viewer_data dc (create_terminal_data_response e i d) = d"
  by (simp add: create_terminal_data_response_def Let_def)

lemma viewer_data_responses:
  "\<forall>d. dc (compress e d) = d \<Longrightarrow>
     concat (map (viewer_data dc) (map (create_terminal_data_response e i) ds)) = concat ds"
  by (induction ds) (simp_all add: viewer_data_response)

text \<open>Turns on a terminal nobody has opened: the output only goes into the buffer.\<close>

lemma closed_gap:
  assumes "session_runs s" and "put_all append_output (ts_buffer s) (delivered away waiting) = Some b"
  shows "\<exists>t. session_runs t \<and> ts_buffer t = b
    \<and> poll e i waiting ((fold shell_writes away s)\<lparr>ts_state := SessionClosed\<rparr>)
        = Some (t\<lparr>ts_output := Some (take CHANNEL_BUFFER_SIZE (left_over away waiting))\<rparr>, [], [])"
proof -
  let ?c = "s\<lparr>ts_state := SessionClosed\<rparr>"
  have c: "session_runs ?c" using assms(1) by (simp add: session_runs_def)
  have w: "(fold shell_writes away s)\<lparr>ts_state := SessionClosed\<rparr>
      = ?c\<lparr>ts_output := Some (take CHANNEL_BUFFER_SIZE away)\<rparr>"
    using assms(1) shell_writes_channel [of s "[]" away] by (simp add: session_runs_def)
  show ?thesis
  proof (cases "waiting = []")
    case True
    then show ?thesis using c assms(2) by (intro exI [of _ ?c]) (simp add: w left_over_def)
  next
    case False
    obtain t rs fx where p: "poll e i (carry away waiting) ?c = Some (t, rs, fx)"
      using poll_returns [OF c carry_fits, of away waiting b e i] assms(2) by auto
    note q = poll_closed [OF c carry_fits _ p]
    then have t: "session_runs t" "rs = []" "fx = []" "ts_buffer t = b" using assms(2) by auto
    then have "t\<lparr>ts_output := Some []\<rparr> = t" by (simp add: session_runs_def)
    then show ?thesis using t p False poll_carried [OF c, of e i waiting away]
      by (intro exI [of _ t]) (simp add: w left_over_def)
  qed
qed

text \<open>
  C19. A viewer of a persistent service that loses its connection and comes back sees a stretch of the shell's output with nothing
  doubled or out of order: what the loop had read before, of which at most the last eight kilobytes are shown
  again (all, when there is no more), then without a gap everything it reads from the return on. While nobody is connected the loop does not run,
  and of what the shell writes then the first 500 chunks, those the channel holds, are read at the first
  turn after; turns may pass between the login and the opening of the terminal. What a shell writes while its channel is full is lost.
  The buffer is assumed to take the output (C21 is where it does not).
\<close>

theorem reconnection_is_seamless:
  assumes "\<forall>d. dc (compress e d) = d" and "session_runs s" and "ts_buffer s = buffer_new"
    and "ts_state s = SessionActive None SigwinchIdle" and "after \<noteq> []"
    and "put_all append_output buffer_new (delivered [] before @ delivered away waiting
           @ delivered (left_over away waiting) after) = Some b"
  shows "\<exists>s1 rs1 fx1 s2 s3 s4 rs fx.
      poll e i before s = Some (s1, rs1, fx1)
    \<and> poll e i waiting ((fold shell_writes away s1)\<lparr>ts_state := SessionClosed\<rparr>) = Some (s2, [], [])
    \<and> map_of (sv_sessions (snd (reopen_session px i s2 sv))) i = Some s3
    \<and> poll e i after s3 = Some (s4, rs, fx)
    \<and> (let seen = concat (map (viewer_data dc) rs);
           old = concat (delivered [] before @ delivered away waiting);
           new = concat (delivered (left_over away waiting) after)
       in suffix seen (old @ new) \<and> suffix new seen \<and> length seen \<le> 8192 + length new
          \<and> (length old \<le> 8192 \<longrightarrow> seen = old @ new))"
proof -
  let ?l = "left_over away waiting"
  obtain b1 b2 where b: "put_all append_output buffer_new (delivered [] before) = Some b1"
    "put_all append_output b1 (delivered away waiting) = Some b2"
    "put_all append_output b2 (delivered ?l after) = Some b"
    using assms(6) by (auto simp: put_all_append split: option.splits)
  note before = poll_carry [OF assms(2), of e i before]
  obtain s1 rs1 fx1 where p1: "poll e i before s = Some (s1, rs1, fx1)"
    using poll_returns [OF assms(2) carry_fits, of "[]" before b1 e i] b(1) assms(3) before by auto
  have s1: "session_runs s1" "ts_buffer s1 = b1"
    using poll_active [OF assms(2) carry_fits assms(4) p1 [unfolded before]] b(1) assms(2,3) p1
    by (cases "before = []"; auto)+
  obtain t2 where t2: "session_runs t2" "ts_buffer t2 = b2"
    "poll e i waiting ((fold shell_writes away s1)\<lparr>ts_state := SessionClosed\<rparr>)
       = Some (t2\<lparr>ts_output := Some (take CHANNEL_BUFFER_SIZE ?l)\<rparr>, [], [])"
    using closed_gap [OF s1(1), of away waiting b2 e i] b(2) s1(2) by auto
  let ?s2 = "t2\<lparr>ts_output := Some (take CHANNEL_BUFFER_SIZE ?l)\<rparr>"
  let ?r = "get_recent b2 DEFAULT_RECONNECT_BUFFER_BYTES"
  let ?st = "SessionActive (if ?r \<noteq> [] then Some ?r else None) (TempResizePhase MAX_SIGWINCH_PHASE_ATTEMPTS)"
  let ?t3 = "t2\<lparr>ts_state := ?st\<rparr>"
  have r3: "session_runs ?t3" using t2(1) by (simp add: session_runs_def)
  have s3: "map_of (sv_sessions (snd (reopen_session px i ?s2 sv))) i
      = Some (?t3\<lparr>ts_output := Some (take CHANNEL_BUFFER_SIZE ?l)\<rparr>)"
    using reopened [of px i ?s2 sv] t2(2) by simp
  obtain s4 rs fx where p4: "poll e i (carry ?l after) ?t3 = Some (s4, rs, fx)"
    using poll_returns [OF r3 carry_fits, of ?l after b e i] b(3) t2(2) by auto
  have "rs = map (create_terminal_data_response e i) (live_history ?st @ delivered ?l after)"
    using poll_active [OF r3 carry_fits _ p4] assms(5) by simp
  then have "concat (map (viewer_data dc) rs) = concat (live_history ?st @ delivered ?l after)"
    using viewer_data_responses [OF assms(1)] by metis
  also have "\<dots> = ?r @ concat (delivered ?l after)" by (simp add: live_history_def)
  finally have seen: "concat (map (viewer_data dc) rs) = ?r @ concat (delivered ?l after)" .
  have all: "put_all append_output buffer_new (delivered [] before @ delivered away waiting) = Some b2"
    using b by (simp add: put_all_append)
  have "suffix ?r (concat (delivered [] before @ delivered away waiting))" "length ?r \<le> 8192"
    using terminal_log.recent_of_puts [OF all, of DEFAULT_RECONNECT_BUFFER_BYTES]
    by (simp_all add: held_output_def buffer_new_def DEFAULT_RECONNECT_BUFFER_BYTES_def)
  then have "let seen = concat (map (viewer_data dc) rs);
           old = concat (delivered [] before @ delivered away waiting); new = concat (delivered ?l after)
       in suffix seen (old @ new) \<and> suffix new seen \<and> length seen \<le> 8192 + length new
          \<and> (length old \<le> 8192 \<longrightarrow> seen = old @ new)"
    unfolding Let_def seen using all_is_replayed [OF all]
    by (auto simp: suffix_def DEFAULT_RECONNECT_BUFFER_BYTES_def)
  moreover have "poll e i after (?t3\<lparr>ts_output := Some (take CHANNEL_BUFFER_SIZE ?l)\<rparr>) = Some (s4, rs, fx)"
    using p4 poll_carried [OF r3, of e i after ?l] assms(5) by simp
  ultimately show ?thesis using p1 t2(3) s3 by blast
qed

section \<open>A terminal at work\<close>

definition demo_session :: term_session where
  "demo_session = (session_new 1 24 80 0)\<lparr>ts_pid := 100, ts_pty := True, ts_child := Some 7, ts_input := True,
     ts_output := Some [], ts_reader_finished := Some False, ts_state := SessionActive None SigwinchIdle\<rparr>"

definition demo_service :: term_service where
  "demo_service = (term_service_new ''ts_1'' True False 0)\<lparr>sv_sessions := [(1, demo_session)]\<rparr>"

definition demo_px :: term_proxy where
  "demo_px = \<lparr>px_service_id = ''ts_1'', px_persistent = True, px_user_token = False\<rparr>"

lemma demo_runs: "session_runs demo_session" "ts_buffer demo_session = buffer_new"
    "ts_state demo_session = SessionActive None SigwinchIdle"
  by (simp_all add: session_runs_def demo_session_def session_new_def)

lemma quiet_turns: "chunks (replicate n (now, ok, [])) = []" "turns_fit (replicate n (now, ok, []))"
  by (induction n) (auto simp: turns_fit_def)

theorem redraw_ends_witness:
  "\<exists>s'' rs fx. poll demo_term 1 (replicate 8 (50, True, []))
       (demo_session\<lparr>ts_state := SessionActive None (TempResizePhase 3)\<rparr>) = Some (s'', rs, fx)
    \<and> ts_state s'' = SessionActive None SigwinchIdle
    \<and> fx \<in> {[], [resize_effect demo_term TempResize demo_session],
              [resize_effect demo_term TempResize demo_session, resize_effect demo_term Restore demo_session]}"
  by (rule redraw_ends [where sv = demo_service and px = demo_px and b = buffer_new])
     (simp_all only: demo_runs quiet_turns reopened, simp_all add: get_recent_def buffer_new_def MAX_SIGWINCH_PHASE_ATTEMPTS_def)

text \<open>Three failures on the way back leave the terminal a row too small.\<close>

lemma redraw_can_leave_wrong_size:
  "sigwinch_run demo_term [True, False, False, False, True] demo_session (TempResizePhase 3)
     = (SigwinchIdle, [PtyResized 100 23 80])"
  by (simp add: sigwinch_turn_def do_sigwinch_resize_def sigwinch_done_def sigwinch_rows_def demo_term_def
      demo_session_def session_new_def MAX_SIGWINCH_PHASE_ATTEMPTS_def Let_def)

lemma demo_scenario:
  "put_all append_output buffer_new (delivered [] [(50, True, [[36, 32]])] @ delivered [[108]] [(80, True, [[115, 10]])]
       @ delivered (left_over [[108]] [(80, True, [[115, 10]])]) [(110, True, [[97, 10]])])
     = Some \<lparr>buf_lines = [[36, 32, 108, 115, 10], [97, 10]], total_size = 5, last_line_incomplete = False\<rparr>"
  by (simp add: append_output_def add_lines_def buffer_new_def trim_done Let_def CHANNEL_BUFFER_SIZE_def
      left_over_def MAX_OUTPUT_BUFFER_SIZE_def MAX_BUFFER_LINES_def)

theorem reconnection_is_seamless_witness:
  "\<exists>s1 rs1 fx1 s2 s3 s4 rs fx.
      poll demo_term 1 [(50, True, [[36, 32]])] demo_session = Some (s1, rs1, fx1)
    \<and> poll demo_term 1 [(80, True, [[115, 10]])] ((fold shell_writes [[108]] s1)\<lparr>ts_state := SessionClosed\<rparr>)
        = Some (s2, [], [])
    \<and> map_of (sv_sessions (snd (reopen_session demo_px 1 s2 demo_service))) 1 = Some s3
    \<and> poll demo_term 1 [(110, True, [[97, 10]])] s3 = Some (s4, rs, fx)
    \<and> (let seen = concat (map (viewer_data (\<lambda>d. d)) rs);
           old = concat (delivered [] [(50, True, [[36, 32]])] @ delivered [[108]] [(80, True, [[115, 10]])]);
           new = concat (delivered (left_over [[108]] [(80, True, [[115, 10]])]) [(110, True, [[97, 10]])])
       in suffix seen (old @ new) \<and> suffix new seen \<and> length seen \<le> 8192 + length new
          \<and> (length old \<le> 8192 \<longrightarrow> seen = old @ new))"
  by (rule reconnection_is_seamless [OF _ demo_runs _ demo_scenario]) (simp_all add: demo_term_def)

section \<open>Coming back\<close>

lemma min_list_mem: "xs \<noteq> [] \<Longrightarrow> min_list xs \<in> set (xs :: int list)"
proof (induction xs)
  case (Cons x xs)
  then show ?case by (cases xs) (auto simp: min_def)
qed simp

definition reconnect_key :: "int \<Rightarrow> term_service \<Rightarrow> int" where
  "reconnect_key i sv = (if i \<in> fst ` set (sv_sessions sv) then i else min_list (map fst (sv_sessions sv)))"

lemma keys_update: "fst ` set (AList.update k v xs) = insert k (fst ` set xs)"
  using arg_cong [OF AList.update_keys [of k v xs], of set] by auto

lemma keys_delete: "fst ` set (AList.delete k xs) = fst ` set xs - {k}"
  using arg_cong [OF AList.delete_keys [of k xs], of set] by auto

lemma remap_session_finds:
  assumes "sv_needs_sync sv" and "sv_sessions sv \<noteq> []"
  shows "\<exists>s. map_of (sv_sessions sv) (reconnect_key i sv) = Some s
    \<and> map_of (sv_sessions (remap_session i sv)) i = Some s
    \<and> fst ` set (sv_sessions (remap_session i sv)) = insert i (fst ` set (sv_sessions sv) - {reconnect_key i sv})
    \<and> (\<forall>j. j \<noteq> i \<longrightarrow> j \<noteq> reconnect_key i sv \<longrightarrow>
         map_of (sv_sessions (remap_session i sv)) j = map_of (sv_sessions sv) j)
    \<and> sv_needs_sync (remap_session i sv)"
proof (cases "map_of (sv_sessions sv) i")
  case None
  let ?k = "min_list (map fst (sv_sessions sv))"
  have "?k \<in> set (map fst (sv_sessions sv))" using assms(2) by (intro min_list_mem) simp
  then obtain s where s: "map_of (sv_sessions sv) ?k = Some s"
    by (metis map_of_eq_None_iff not_Some_eq set_map)
  moreover from None have "reconnect_key i sv = ?k"
    unfolding reconnect_key_def map_of_eq_None_iff by simp
  ultimately show ?thesis using None assms
    by (simp add: remap_session_def Let_def AList.update_conv' keys_update keys_delete)
next
  case (Some s)
  then have "i \<in> fst ` set (sv_sessions sv)" by (metis map_of_eq_None_iff option.distinct(1))
  then show ?thesis using Some assms by (auto simp: remap_session_def reconnect_key_def)
qed

text \<open>
  C24. The first terminal a returning viewer opens is one it left: the shell under the number it names, or
  else the one with the lowest number, which takes over that number. No shell is started, the other
  shells keep theirs, and the viewer is told of exactly these.
\<close>

theorem reconnection_finds_sessions:
  assumes "sv_needs_sync sv" and "sv_sessions sv \<noteq> []"
  shows "\<exists>s others sv'.
      handle_open e now px i rows cols sv
        = (Inr (RespOpened i ''Reconnected to existing terminal'' (ts_pid s) (px_service_id px) others), sv')
    \<and> map_of (sv_sessions sv) (reconnect_key i sv) = Some s
    \<and> (\<exists>st. map_of (sv_sessions sv') i = Some (s\<lparr>ts_state := st\<rparr>))
    \<and> set others = fst ` set (sv_sessions sv) - {i, reconnect_key i sv}
    \<and> (\<forall>j \<in> set others. map_of (sv_sessions sv') j = map_of (sv_sessions sv) j)
    \<and> fst ` set (sv_sessions sv') = insert i (set others)"
proof -
  let ?sv = "remap_session i sv"
  obtain s where s: "map_of (sv_sessions sv) (reconnect_key i sv) = Some s" "map_of (sv_sessions ?sv) i = Some s"
    "fst ` set (sv_sessions ?sv) = insert i (fst ` set (sv_sessions sv) - {reconnect_key i sv})"
    "\<And>j. j \<noteq> i \<Longrightarrow> j \<noteq> reconnect_key i sv \<Longrightarrow> map_of (sv_sessions ?sv) j = map_of (sv_sessions sv) j"
    "sv_needs_sync ?sv"
    using remap_session_finds [OF assms, of i] by blast
  define others where
    "others = (if length (sv_sessions ?sv) > 1 then filter (\<lambda>j. j \<noteq> i) (map fst (sv_sessions ?sv)) else [])"
  have others: "set others = fst ` set (sv_sessions ?sv) - {i}"
  proof (cases "length (sv_sessions ?sv) > 1")
    case False
    then obtain x where "sv_sessions ?sv = [x]" using s(2)
      by (metis One_nat_def length_0_conv length_Suc_conv less_one linorder_neqE_nat map_of.simps(1) option.distinct(1))
    then show ?thesis using s(2) by (auto simp: others_def split: if_splits)
  qed (auto simp: others_def)
  have opened: "handle_open e now px i rows cols sv
      = (Inr (RespOpened i ''Reconnected to existing terminal'' (ts_pid s) (px_service_id px) others),
         snd (reopen_session px i s ?sv))"
    using s(2,5) by (simp add: handle_open_def Let_def reopen_session_def others_def)
  have keys: "fst ` set (sv_sessions (snd (reopen_session px i s ?sv))) = fst ` set (sv_sessions ?sv)"
    using s(3) by (simp add: reopen_session_def Let_def keys_update)
  have other: "map_of (sv_sessions (snd (reopen_session px i s ?sv))) j = map_of (sv_sessions ?sv) j" if "j \<noteq> i" for j
    using that by (simp add: reopen_session_def Let_def AList.update_conv')
  show ?thesis
    using s(1,3) others reopened [of px i s ?sv]
    by (intro exI [of _ s] exI [of _ others] exI [of _ "snd (reopen_session px i s ?sv)"])
       (auto simp: opened keys other s(4))
qed

lemma demo_reset: "sv_needs_sync (reset_status True demo_service)" "sv_sessions (reset_status True demo_service) \<noteq> []"
  by (simp_all add: reset_status_def demo_service_def)

theorem reconnection_finds_sessions_witness:
  "\<exists>s others sv'.
      handle_open demo_term 90 demo_px 5 24 80 (reset_status True demo_service)
        = (Inr (RespOpened 5 ''Reconnected to existing terminal'' (ts_pid s) ''ts_1'' others), sv')
    \<and> map_of (sv_sessions (reset_status True demo_service)) (reconnect_key 5 (reset_status True demo_service)) = Some s
    \<and> (\<exists>st. map_of (sv_sessions sv') 5 = Some (s\<lparr>ts_state := st\<rparr>))
    \<and> set others = fst ` set (sv_sessions (reset_status True demo_service))
         - {5, reconnect_key 5 (reset_status True demo_service)}
    \<and> (\<forall>j \<in> set others. map_of (sv_sessions sv') j = map_of (sv_sessions (reset_status True demo_service)) j)
    \<and> fst ` set (sv_sessions sv') = insert 5 (set others)"
  using reconnection_finds_sessions [OF demo_reset, of demo_term 90 demo_px 5 24 80] by (simp add: demo_px_def)

end
