(* ===== verification/TerminalCleanup.thy ===== *)
theory TerminalCleanup
  imports TerminalSession
begin

text \<open>
  Which services the clean-up removes and what becomes of their shells; sessions whose shell has ended.
\<close>

section \<open>Cleaning up\<close>

lemma get_service_remove:
  "get_service i (remove_service e j h) = (if i = j then None else get_service i h)"
  by (auto simp: remove_service_def get_service_def AList.delete_conv' split: option.split)

lemma get_service_removes:
  "get_service i (fold (remove_service e) is h) = (if i \<in> set is then None else get_service i h)"
  by (induction "is" arbitrary: h) (auto simp: get_service_remove)

text \<open>Exactly the idle services go.\<close>

lemma cleanup_exactly:
  assumes "distinct (map fst (th_services h))"
  shows "get_service i (cleanup_inactive_services e now h) =
     (case get_service i h of Some sv \<Rightarrow> if is_idle now sv then None else Some sv | None \<Rightarrow> None)"
proof -
  have "i \<in> set (map fst (filter (\<lambda>(i, sv). is_idle now sv) (th_services h)))
      \<longleftrightarrow> (\<exists>sv. get_service i h = Some sv \<and> is_idle now sv)"
    using assms by (force simp: get_service_def dest: map_of_SomeD)
  then show ?thesis
    unfolding cleanup_inactive_services_def get_service_removes by (auto split: option.split)
qed

lemma stop_log:
  "set (th_log h) \<subseteq> set (th_log (snd (stop_session e s h)))"
  "ts_child s = Some c \<Longrightarrow> ChildKilled c \<in> set (th_log (snd (stop_session e s h)))"
  by (auto simp: stop_session_def log_effects_def add_to_reaper_def Let_def split: option.split)

lemma stop_all_log: "set (th_log h) \<subseteq> set (th_log (stop_all e ss h))"
proof (induction ss arbitrary: h)
  case (Cons p ss)
  then show ?case using stop_log(1) [of h e "snd p"]
    by (force simp: stop_all_def case_prod_unfold)
qed (simp add: stop_all_def)

lemma stop_all_kills:
  "(j, s) \<in> set ss \<Longrightarrow> ts_child s = Some c \<Longrightarrow> ChildKilled c \<in> set (th_log (stop_all e ss h))"
proof (induction ss arbitrary: h)
  case (Cons p ss)
  then show ?case
    using stop_log(2) [of s c e h] stop_all_log [of "snd (stop_session e s h)" e ss]
    by (auto simp: stop_all_def case_prod_unfold)
qed simp

lemma remove_log: "set (th_log h) \<subseteq> set (th_log (remove_service e i h))"
  using stop_all_log [of "h\<lparr>th_services := AList.delete i (th_services h)\<rparr>" e]
  by (auto simp: remove_service_def split: option.split)

lemma removes_kill:
  assumes "i \<in> set is" and "get_service i h = Some sv" and "(j, s) \<in> set (sv_sessions sv)" "ts_child s = Some c"
  shows "ChildKilled c \<in> set (th_log (fold (remove_service e) is h))"
  using assms(1,2)
proof (induction "is" arbitrary: h)
  case (Cons k ks)
  have mono: "set (th_log h) \<subseteq> set (th_log (fold (remove_service e) ks h))" for h
  proof (induction ks arbitrary: h)
    case (Cons k ks)
    then show ?case using remove_log [of h e k] by (simp, blast)
  qed simp
  show ?case
  proof (cases "k = i")
    case True
    then have "ChildKilled c \<in> set (th_log (remove_service e k h))"
      using Cons.prems(2) stop_all_kills [OF assms(3,4)] by (simp add: remove_service_def)
    then show ?thesis using mono by auto
  next
    case False
    then show ?thesis using Cons by (auto simp: get_service_remove)
  qed
qed simp

text \<open>What happens to a service while its viewer types nothing: the shells write and the loop reads.\<close>

inductive watch_step :: "term_env \<Rightarrow> string \<Rightarrow> term_host \<Rightarrow> term_host \<Rightarrow> bool" for e i where
  shell: "watch_step e i h (shell_output i j (shell_writes d) h)"
| poll: "read_outputs e now busy ok (proxy_new i None token h) h = Some (rs, h') \<Longrightarrow> watch_step e i h h'"

definition service_like :: "term_service \<Rightarrow> term_service option \<Rightarrow> bool" where
  "service_like sv o' = (\<exists>sv'. o' = Some sv' \<and> sv_last_activity sv' = sv_last_activity sv
     \<and> sv_persistent sv' = sv_persistent sv)"

lemma get_put_service [simp]: "get_service i (put_service i sv h) = Some sv"
  by (simp add: get_service_def put_service_def AList.update_conv')

lemma close_finished_like:
  "sv_last_activity (fst (snd (close_finished e p i st))) = sv_last_activity (fst st)"
  "sv_persistent (fst (snd (close_finished e p i st))) = sv_persistent (fst st)"
  by (cases st; auto simp: close_finished_def case_prod_unfold put_session_def split: option.split)+

lemma close_all_like:
  "sv_last_activity (fst (snd (close_all_finished e p is st))) = sv_last_activity (fst st)
   \<and> sv_persistent (fst (snd (close_all_finished e p is st))) = sv_persistent (fst st)"
  by (induction "is" arbitrary: st) (simp_all add: case_prod_unfold close_finished_like)

lemma watch_like:
  assumes "watch_step e i h h'" and "service_like sv (get_service i h)"
  shows "service_like sv (get_service i h')"
  using assms(1)
proof cases
  case (shell j d)
  then show ?thesis using assms(2)
    by (auto simp: shell_output_def service_like_def put_session_def split: option.splits)
next
  case (poll now busy ok token rs)
  obtain sv1 where sv1: "get_service i h = Some sv1" "sv_last_activity sv1 = sv_last_activity sv"
    "sv_persistent sv1 = sv_persistent sv" using assms(2) by (auto simp: service_like_def)
  have i: "px_service_id (proxy_new i None token h) = i" by (simp add: proxy_new_def)
  obtain ss rs1 fx ended where r: "read_sessions e now busy ok (sv_sessions sv1) = Some (ss, rs1, fx, ended)"
    using poll sv1 by (auto simp: read_outputs_def i split: option.splits)
  let ?c = "close_all_finished e (px_persistent (proxy_new i None token h)) ended
              (sv1\<lparr>sv_sessions := ss\<rparr>, log_effects fx h)"
  have "h' = put_service i (fst (snd ?c)) (snd (snd ?c))"
    using poll sv1 r by (simp add: read_outputs_def i case_prod_unfold)
  then have "get_service i h' = Some (fst (snd ?c))" by (simp only: get_put_service)
  then show ?thesis
    using sv1 close_all_like [of e "px_persistent (proxy_new i None token h)" ended
      "(sv1\<lparr>sv_sessions := ss\<rparr>, log_effects fx h)"]
    by (simp add: service_like_def)
qed

text \<open>
  C23. A terminal of a connection that does not ask for persistence is killed while its viewer is looking on:
  output that is written and sent does not count as activity, so an hour after the last key the
  clean-up removes the service and kills the shell.
\<close>

theorem watched_terminal_is_killed:
  assumes "(watch_step e i)\<^sup>*\<^sup>* h h'" and "get_service i h = Some sv" and "\<not> sv_persistent sv"
    and "now - sv_last_activity sv > SERVICE_IDLE_TIMEOUT"
  shows "get_service i (cleanup_inactive_services e now h') = None
    \<and> (\<forall>sv' j s c. get_service i h' = Some sv' \<and> (j, s) \<in> set (sv_sessions sv') \<and> ts_child s = Some c
         \<longrightarrow> ChildKilled c \<in> set (th_log (cleanup_inactive_services e now h')))"
proof -
  have "service_like sv (get_service i h')"
    using assms(1) by (induction rule: rtranclp_induct) (use assms(2) watch_like in \<open>auto simp: service_like_def\<close>)
  then obtain sv' where sv': "get_service i h' = Some sv'" "is_idle now sv'"
    using assms(3,4) by (auto simp: service_like_def is_idle_def)
  then have "i \<in> set (map fst (filter (\<lambda>(i, sv). is_idle now sv) (th_services h')))"
    by (force simp: get_service_def dest: map_of_SomeD)
  from this removes_kill [OF this] show ?thesis
    unfolding cleanup_inactive_services_def get_service_removes by auto
qed


definition demo_host :: "bool \<Rightarrow> term_host" where
  "demo_host persistent =
     \<lparr>th_services = [(''ts_1'', demo_service\<lparr>sv_persistent := persistent\<rparr>)], th_tasks = [], th_log = []\<rparr>"

theorem watched_terminal_is_killed_witness:
  "get_service ''ts_1'' (cleanup_inactive_services demo_term 3600001
       (shell_output ''ts_1'' 1 (shell_writes [97]) (demo_host False))) = None"
  by (rule conjunct1 [OF watched_terminal_is_killed [OF r_into_rtranclp, OF shell,
        where sv = "demo_service\<lparr>sv_persistent := False\<rparr>"]])
     (simp_all add: demo_host_def get_service_def demo_service_def term_service_new_def SERVICE_IDLE_TIMEOUT_def)

section \<open>A shell that has ended\<close>

text \<open>
  A persistent service keeps the session of a shell that has ended, which it has reported once. It counts
  as a terminal, so the service is never idle; opening it again succeeds, and nothing says that the
  shell is gone.
\<close>

lemma dead_session_keeps_service:
  "sv_persistent sv \<Longrightarrow> sv_sessions sv \<noteq> [] \<Longrightarrow> \<not> is_idle now sv"
  by (simp add: is_idle_def)

lemma closed_is_said_once:
  assumes "ts_closed_sent s" and "read_session e now ok i s = Some (s', rs, fx)"
  shows "\<not> closed_due s" and "ts_closed_sent s'"
  using assms by (auto simp: closed_due_def read_session_def drain_output_def Let_def case_prod_unfold
      split: option.splits session_state.splits)

lemma dead_terminal_reopens:
  "handle_open e now px i rows cols
     (sv\<lparr>sv_sessions := [(i, s\<lparr>ts_child := None, ts_closed_sent := True, ts_reader_finished := Some True\<rparr>)]\<rparr>)
   = (Inr (RespOpened i ''Reconnected to existing terminal'' (ts_pid s) (px_service_id px) []),
      snd (reopen_session px i (s\<lparr>ts_child := None, ts_closed_sent := True, ts_reader_finished := Some True\<rparr>)
        (sv\<lparr>sv_sessions := [(i, s\<lparr>ts_child := None, ts_closed_sent := True, ts_reader_finished := Some True\<rparr>)]\<rparr>)))"
  by (simp add: handle_open_def remap_session_def reopen_session_def Let_def)

section \<open>Whose shells they are\<close>

text \<open>A second connection that names a service gets its shells, whatever user it asks for itself.\<close>

lemma reset_keeps_user [simp]: "sv_specified_user (reset_status b sv) = sv_specified_user sv"
  by (simp add: reset_status_def)

lemma create_keeps_user:
  assumes "get_or_create_service i p u now h = Inr h'" and "is_service_specified_user i h = Some u'"
  shows "is_service_specified_user i h' = Some u'"
  using assms by (auto simp: get_or_create_service_def is_service_specified_user_def Let_def split: if_splits)

end
