(* ===== verification/Input.thy ===== *)
theory Input
  imports Text "HOL-Library.AList"
begin

text \<open>
  How the host plays the input of its viewers (\<open>src/server/input_service.rs\<close> in its Linux build, and
  the input thread of \<open>src/server/connection.rs\<close>). The keyboard and mouse of the system are
  known by what was done to them: every call of \<open>enigo\<close> and \<open>rdev\<close> is an entry of \<open>played\<close>, and
  the questions the code asks the system (the mask of modifiers on X11, whether a key is down in a
  Wayland session, where the pointer is, whether a key could be pressed) are functions of that history,
  parameters in \<open>input_env\<close>. Control keys have
  their numbers in the protocol; characters are code points. Sleeps are left out; the thread that locks
  the screen is an entry of the history.
\<close>

section \<open>Data\<close>

datatype enigo_key = KNamed string | KLayout nat | KRaw nat

datatype mouse_button = BtnLeft | BtnRight | BtnMiddle | BtnBack | BtnForward

datatype input_effect =
    EnDown enigo_key
  | EnUp enigo_key
  | EnClick enigo_key
  | EnText "nat list"
  | SimPress nat
  | SimRelease nat
  | SimShiftRelease bool
  | SetClipboardText "nat list"
  | SpawnLockScreen
  | MoveTo int int
  | MoveRelative int int
  | BtnDown mouse_button
  | BtnUp mouse_button
  | ScrollY int
  | ScrollX int
  | DrawCursor int int int int
  | BlockInput bool

text \<open>A key that was recorded as pressed: a raw key code, or the number of a control key or character.\<close>

datatype keys_down = RdevKey nat | EnigoKey nat

datatype input_union = ControlKeyEv int | ChrEv nat | UnicodeEv nat | SeqEv "nat list" | OtherEv

datatype input_mode = LegacyMode | MapMode | TranslateMode | AutoMode

record input_key =
  ik_union :: input_union
  ik_mode :: input_mode
  ik_down :: bool
  ik_modifiers :: "int list"

record input_mouse =
  im_mask :: int
  im_x :: int
  im_y :: int
  im_modifiers :: "int list"

record peer_cursor =
  pc_conn :: int
  pc_time :: int
  pc_x :: int
  pc_y :: int

record input_state =
  keys_recorded :: "(keys_down \<times> nat) list"
  exiting :: bool
  latest_peer_input :: peer_cursor
  relative_conns :: "int set"
  played :: "input_effect list"

record input_env =
  is_x11 :: bool
  is_server :: bool
  input_mask :: "input_effect list \<Rightarrow> u32"
  key_state :: "input_effect list \<Rightarrow> enigo_key \<Rightarrow> bool"
  down_ok :: "input_effect list \<Rightarrow> enigo_key \<Rightarrow> bool"
  cursor_pos :: "input_effect list \<Rightarrow> (int \<times> int) option"
  clipboard_ok :: bool
  is_char :: "nat \<Rightarrow> bool"
  upper :: "nat \<Rightarrow> nat list"
  raw_keycode :: "nat \<Rightarrow> nat"
  rdev_key_name :: "nat \<Rightarrow> string"

definition KEY_CHAR_START :: nat where
  "KEY_CHAR_START = 9999"

text \<open>The control keys by number, with the key \<open>KEY_MAP\<close> gives them.\<close>

definition KEY_MAP :: "(int \<times> string) list" where
  "KEY_MAP =
    [(1, ''Alt''), (2, ''Backspace''), (3, ''CapsLock''), (4, ''Control''), (5, ''Delete''), (6, ''DownArrow''),
     (7, ''End''), (8, ''Escape''), (9, ''F1''), (10, ''F10''), (11, ''F11''), (12, ''F12''), (13, ''F2''),
     (14, ''F3''), (15, ''F4''), (16, ''F5''), (17, ''F6''), (18, ''F7''), (19, ''F8''), (20, ''F9''),
     (21, ''Home''), (22, ''LeftArrow''), (23, ''Meta''), (24, ''Option''), (25, ''PageDown''),
     (26, ''PageUp''), (27, ''Return''), (28, ''RightArrow''), (29, ''Shift''), (30, ''Space''), (31, ''Tab''),
     (32, ''UpArrow''), (33, ''Numpad0''), (34, ''Numpad1''), (35, ''Numpad2''), (36, ''Numpad3''),
     (37, ''Numpad4''), (38, ''Numpad5''), (39, ''Numpad6''), (40, ''Numpad7''), (41, ''Numpad8''),
     (42, ''Numpad9''), (43, ''Cancel''), (44, ''Clear''), (45, ''Alt''), (46, ''Pause''), (47, ''Kana''),
     (48, ''Hangul''), (49, ''Junja''), (50, ''Final''), (51, ''Hanja''), (52, ''Kanji''), (53, ''Convert''),
     (54, ''Select''), (55, ''Print''), (56, ''Execute''), (57, ''Snapshot''), (58, ''Insert''),
     (59, ''Help''), (60, ''Sleep''), (61, ''Separator''), (62, ''Scroll''), (63, ''NumLock''), (64, ''RWin''),
     (65, ''Apps''), (66, ''Multiply''), (67, ''Add''), (68, ''Subtract''), (69, ''Decimal''),
     (70, ''Divide''), (71, ''Equals''), (72, ''NumpadEnter''), (73, ''RightShift''), (74, ''RightControl''),
     (75, ''RightAlt'')]"

abbreviation (input) "CK_Alt \<equiv> (1 :: int)"
abbreviation (input) "CK_CapsLock \<equiv> (3 :: int)"
abbreviation (input) "CK_Control \<equiv> (4 :: int)"
abbreviation (input) "CK_Meta \<equiv> (23 :: int)"
abbreviation (input) "CK_Return \<equiv> (27 :: int)"
abbreviation (input) "CK_Shift \<equiv> (29 :: int)"
abbreviation (input) "CK_Tab \<equiv> (31 :: int)"
abbreviation (input) "CK_NumLock \<equiv> (63 :: int)"
abbreviation (input) "CK_RWin \<equiv> (64 :: int)"
abbreviation (input) "CK_NumpadEnter \<equiv> (72 :: int)"
abbreviation (input) "CK_RShift \<equiv> (73 :: int)"
abbreviation (input) "CK_RControl \<equiv> (74 :: int)"
abbreviation (input) "CK_RAlt \<equiv> (75 :: int)"
abbreviation (input) "CK_CtrlAltDel \<equiv> (100 :: int)"
abbreviation (input) "CK_LockScreen \<equiv> (101 :: int)"

definition input_start :: input_state where
  "input_start = \<lparr>keys_recorded = [], exiting = False,
     latest_peer_input = \<lparr>pc_conn = 0, pc_time = 0, pc_x = 0, pc_y = 0\<rparr>, relative_conns = {}, played = []\<rparr>"

section \<open>Keys\<close>

definition play :: "input_effect list \<Rightarrow> input_state \<Rightarrow> input_state" where
  "play fx s = s\<lparr>played := played s @ fx\<rparr>"

definition wayland_use_uinput :: "input_env \<Rightarrow> bool" where
  "wayland_use_uinput e = (\<not> is_x11 e \<and> is_server e)"

text \<open>\<open>key_down\<close>: the key is pressed unless the system refuses it.\<close>

definition en_down :: "input_env \<Rightarrow> enigo_key \<Rightarrow> input_state \<Rightarrow> input_state" where
  "en_down e k s = (if down_ok e (played s) k then play [EnDown k] s else s)"

text \<open>
  \<open>get_key_state\<close> of the X11 keyboard (\<open>libs/enigo/src/linux/xdo.rs\<close>) reads the mask of modifiers, which
  does not tell left from right: the keys of the right side are never down by it.
\<close>

definition x11_key_state :: "u32 \<Rightarrow> enigo_key \<Rightarrow> bool" where
  "x11_key_state m k =
     (if k = KNamed ''Shift'' then bit m 0
      else if k = KNamed ''CapsLock'' then bit m 1
      else if k = KNamed ''Control'' then bit m 2
      else if k = KNamed ''Alt'' then bit m 3
      else if k = KNamed ''NumLock'' then bit m 4
      else if k = KNamed ''Meta'' then bit m 6
      else False)"

definition get_key_state :: "input_env \<Rightarrow> enigo_key \<Rightarrow> input_state \<Rightarrow> bool" where
  "get_key_state e k s =
     (if is_x11 e then x11_key_state (input_mask e (played s)) k else key_state e (played s) k)"

definition other_side :: "enigo_key \<Rightarrow> enigo_key option" where
  "other_side k =
     (if k = KNamed ''Shift'' then Some (KNamed ''RightShift'')
      else if k = KNamed ''Control'' then Some (KNamed ''RightControl'')
      else if k = KNamed ''Alt'' then Some (KNamed ''RightAlt'')
      else if k = KNamed ''Meta'' then Some (KNamed ''RWin'')
      else if k = KNamed ''RightShift'' then Some (KNamed ''Shift'')
      else if k = KNamed ''RightControl'' then Some (KNamed ''Control'')
      else if k = KNamed ''RightAlt'' then Some (KNamed ''Alt'')
      else if k = KNamed ''RWin'' then Some (KNamed ''Meta'')
      else None)"

definition get_modifier_state :: "input_env \<Rightarrow> enigo_key \<Rightarrow> input_state \<Rightarrow> bool" where
  "get_modifier_state e k s =
     (case other_side k of
        Some k' \<Rightarrow> get_key_state e k s \<or> get_key_state e k' s
      | None \<Rightarrow> get_key_state e k s)"

definition control_key_value_to_key :: "int \<Rightarrow> enigo_key option" where
  "control_key_value_to_key v = map_option KNamed (map_of KEY_MAP v)"

definition char_value_to_key :: "input_env \<Rightarrow> nat \<Rightarrow> enigo_key" where
  "char_value_to_key e c = KLayout (if is_char e c then c else 0)"

text \<open>\<open>value() as u64\<close>: a number below zero becomes a large one.\<close>

definition record_of_control :: "int \<Rightarrow> nat" where
  "record_of_control v = nat (v mod 2 ^ 64)"

definition record_key_to_key :: "input_env \<Rightarrow> nat \<Rightarrow> enigo_key option" where
  "record_key_to_key e r =
     (if r < KEY_CHAR_START then control_key_value_to_key (int r)
      else Some (char_value_to_key e ((r - KEY_CHAR_START) mod 2 ^ 32)))"

definition record_pressed_key :: "keys_down \<Rightarrow> bool \<Rightarrow> nat \<Rightarrow> input_state \<Rightarrow> input_state" where
  "record_pressed_key k down now s =
     s\<lparr>keys_recorded := (if down then AList.update k now (keys_recorded s) else AList.delete k (keys_recorded s))\<rparr>"

definition release_record_key :: "input_env \<Rightarrow> keys_down \<Rightarrow> input_state \<Rightarrow> input_state" where
  "release_record_key e k s =
     (case k of
        RdevKey c \<Rightarrow> play [SimRelease c] s
      | EnigoKey r \<Rightarrow> (case record_key_to_key e r of Some k \<Rightarrow> play [EnUp k] s | None \<Rightarrow> s))"

definition fix_key_down_timeout :: "input_env \<Rightarrow> nat \<Rightarrow> bool \<Rightarrow> input_state \<Rightarrow> input_state" where
  "fix_key_down_timeout e now force s =
     fold (\<lambda>(k, t) s. if force \<or> now - t \<ge> 360000
                      then release_record_key e k (record_pressed_key k False now s) else s)
       (keys_recorded s) s"

definition fix_key_down_timeout_at_exit :: "input_env \<Rightarrow> nat \<Rightarrow> input_state \<Rightarrow> input_state" where
  "fix_key_down_timeout_at_exit e now s =
     (if exiting s then s else fix_key_down_timeout e now True (s\<lparr>exiting := True\<rparr>))"

definition release_device_modifiers :: "input_env \<Rightarrow> input_state \<Rightarrow> input_state" where
  "release_device_modifiers e s =
     fold (\<lambda>k s. if get_modifier_state e k s then play [EnUp k] s else s)
       (map KNamed [''Shift'', ''Control'', ''Alt'', ''Meta'', ''RightShift'', ''RightControl'', ''RightAlt'', ''RWin'']) s"

section \<open>Modifiers\<close>

definition fix_modifier :: "input_env \<Rightarrow> int list \<Rightarrow> int \<Rightarrow> enigo_key \<Rightarrow> input_state \<Rightarrow> input_state" where
  "fix_modifier e modifiers key0 key1 s =
     (if get_modifier_state e key1 s \<and> key0 \<notin> set modifiers then play [EnUp key1] s else s)"

definition fix_modifiers :: "input_env \<Rightarrow> int list \<Rightarrow> int \<Rightarrow> input_state \<Rightarrow> input_state" where
  "fix_modifiers e modifiers ck s =
     fold (\<lambda>(own, key0, key1) s. if ck \<noteq> own then fix_modifier e modifiers key0 (KNamed key1) s else s)
       [(CK_Shift, CK_Shift, ''Shift''), (CK_RShift, CK_Shift, ''RightShift''), (CK_Alt, CK_Alt, ''Alt''),
        (CK_RAlt, CK_Alt, ''RightAlt''), (CK_Control, CK_Control, ''Control''),
        (CK_RControl, CK_Control, ''RightControl''), (CK_Meta, CK_Meta, ''Meta''), (CK_RWin, CK_Meta, ''RWin'')] s"

definition get_control_key_value :: "input_key \<Rightarrow> int" where
  "get_control_key_value k = (case ik_union k of ControlKeyEv v \<Rightarrow> v | _ \<Rightarrow> -1)"

definition release_unpressed_modifiers :: "input_env \<Rightarrow> input_key \<Rightarrow> input_state \<Rightarrow> input_state" where
  "release_unpressed_modifiers e k = fix_modifiers e (ik_modifiers k) (get_control_key_value k)"

text \<open>It looks for the number of the control key among the key codes of the system.\<close>

definition is_altgr_pressed :: "input_env \<Rightarrow> input_state \<Rightarrow> bool" where
  "is_altgr_pressed e s = (map_of (keys_recorded s) (RdevKey (raw_keycode e (nat CK_RAlt))) \<noteq> None)"

fun press_modifiers :: "input_env \<Rightarrow> int list \<Rightarrow> input_state \<times> enigo_key list \<Rightarrow> input_state \<times> enigo_key list" where
  "press_modifiers e [] st = st"
| "press_modifiers e (v # vs) (s, to_release) =
     (case control_key_value_to_key v of
        None \<Rightarrow> press_modifiers e vs (s, to_release)
      | Some k \<Rightarrow>
          (if get_modifier_state e k s \<or> (k = KNamed ''Alt'' \<and> is_altgr_pressed e s)
           then press_modifiers e vs (s, to_release)
           else press_modifiers e vs (en_down e k s, to_release @ [k])))"

definition sync_modifiers :: "input_env \<Rightarrow> input_key \<Rightarrow> input_state \<Rightarrow> input_state \<times> enigo_key list" where
  "sync_modifiers e k s =
     (if ik_down k then press_modifiers e (ik_modifiers k) (release_unpressed_modifiers e k s, []) else (s, []))"

definition release_keys :: "enigo_key list \<Rightarrow> input_state \<Rightarrow> input_state" where
  "release_keys ks = play (map EnUp ks)"

definition is_hotkey_modifier_pressed :: "input_env \<Rightarrow> input_state \<Rightarrow> bool" where
  "is_hotkey_modifier_pressed e s =
     (\<exists>k \<in> set [''Control'', ''RightControl'', ''Alt'', ''RightAlt'', ''Meta'', ''RWin''].
        get_modifier_state e (KNamed k) s)"

definition release_shift_for_char_input :: "input_env \<Rightarrow> input_state \<Rightarrow> input_state" where
  "release_shift_for_char_input e s =
     (if is_hotkey_modifier_pressed e s then s
      else
        let s = (if get_modifier_state e (KNamed ''Shift'') s
                 then play [if is_x11 e then SimShiftRelease True else EnUp (KNamed ''Shift'')] s else s)
        in (if get_modifier_state e (KNamed ''RightShift'') s
            then play [if is_x11 e then SimShiftRelease False else EnUp (KNamed ''RightShift'')] s else s))"

section \<open>Key events\<close>

definition process_control_key :: "input_env \<Rightarrow> int \<Rightarrow> bool \<Rightarrow> input_state \<Rightarrow> input_state" where
  "process_control_key e v down s =
     (case control_key_value_to_key v of
        Some k \<Rightarrow> if down then en_down e k s else play [EnUp k] s
      | None \<Rightarrow> s)"

definition need_to_uppercase :: "input_env \<Rightarrow> input_state \<Rightarrow> bool" where
  "need_to_uppercase e s = (get_modifier_state e (KNamed ''Shift'') s \<or> get_modifier_state e (KNamed ''CapsLock'') s)"

definition XKB_KEY_INSERT :: nat where
  "XKB_KEY_INSERT = 118"

definition input_text_via_clipboard_server :: "input_env \<Rightarrow> nat list \<Rightarrow> input_state \<Rightarrow> input_state" where
  "input_text_via_clipboard_server e text s =
     (if text = [] \<or> \<not> clipboard_ok e then s
      else
        let s = play [SetClipboardText text] s; shift = KNamed ''Shift''; ins = KRaw XKB_KEY_INSERT
        in (if \<not> down_ok e (played s) shift then s
            else
              let s = play [EnDown shift] s
              in (if \<not> down_ok e (played s) ins then play [EnUp shift] s
                  else play [EnDown ins, EnUp ins, EnUp shift] s)))"

definition process_chr :: "input_env \<Rightarrow> nat \<Rightarrow> bool \<Rightarrow> input_state \<Rightarrow> input_state" where
  "process_chr e c down s =
     (if wayland_use_uinput e \<and> \<not> is_hotkey_modifier_pressed e s then
        (if down \<and> is_char e c then input_text_via_clipboard_server e [c] s else s)
      else
        let k = char_value_to_key e c
        in (if down then
              (if down_ok e (played s) k then play [EnDown k] s
               else if is_char e c then play [EnText (if need_to_uppercase e s then upper e c else [c])] s
               else s)
            else play [EnUp k] s))"

definition process_unicode :: "input_env \<Rightarrow> nat \<Rightarrow> input_state \<Rightarrow> input_state" where
  "process_unicode e c s =
     (if \<not> is_char e c then s
      else if wayland_use_uinput e then input_text_via_clipboard_server e [c] s
      else play [EnText [c]] s)"

definition process_seq :: "input_env \<Rightarrow> nat list \<Rightarrow> input_state \<Rightarrow> input_state" where
  "process_seq e text s =
     (if wayland_use_uinput e then input_text_via_clipboard_server e text s else play [EnText text] s)"

definition is_function_key :: "int \<Rightarrow> bool" where
  "is_function_key v = (v = CK_CtrlAltDel \<or> v = CK_LockScreen)"

definition run_function_key :: "int \<Rightarrow> input_state \<Rightarrow> input_state" where
  "run_function_key v s = (if v = CK_LockScreen then play [SpawnLockScreen] s else s)"

definition legacy_keyboard_mode :: "input_env \<Rightarrow> nat \<Rightarrow> input_key \<Rightarrow> input_state \<Rightarrow> input_state" where
  "legacy_keyboard_mode e now k s =
     (case sync_modifiers e k s of
        (s, to_release) \<Rightarrow>
          (case ik_union k of
             ControlKeyEv v \<Rightarrow>
               (if is_function_key v then run_function_key v s
                else release_keys to_release
                       (process_control_key e v (ik_down k)
                         (record_pressed_key (EnigoKey (record_of_control v)) (ik_down k) now s)))
           | ChrEv c \<Rightarrow>
               release_keys to_release
                 (process_chr e c (ik_down k)
                   (record_pressed_key (EnigoKey (c + KEY_CHAR_START)) (ik_down k) now
                     (release_shift_for_char_input e s)))
           | UnicodeEv c \<Rightarrow> release_keys to_release (process_unicode e c (release_shift_for_char_input e s))
           | SeqEv text \<Rightarrow> release_keys to_release (process_seq e text s)
           | OtherEv \<Rightarrow> release_keys to_release s))"

definition sim_rdev_rawkey_position :: "input_env \<Rightarrow> nat \<Rightarrow> nat \<Rightarrow> bool \<Rightarrow> input_state \<Rightarrow> input_state" where
  "sim_rdev_rawkey_position e now code down s =
     play [if down then SimPress (raw_keycode e code) else SimRelease (raw_keycode e code)]
       (record_pressed_key (RdevKey (raw_keycode e code)) down now s)"

definition wayland_send_raw_key :: "input_env \<Rightarrow> nat \<Rightarrow> bool \<Rightarrow> input_state \<Rightarrow> input_state" where
  "wayland_send_raw_key e code down s = (if down then en_down e (KRaw code) s else play [EnUp (KRaw code)] s)"

definition event_chr :: "input_key \<Rightarrow> nat" where
  "event_chr k = (case ik_union k of ChrEv c \<Rightarrow> c | _ \<Rightarrow> 0)"

definition map_keyboard_mode :: "input_env \<Rightarrow> nat \<Rightarrow> input_key \<Rightarrow> input_state \<Rightarrow> input_state" where
  "map_keyboard_mode e now k s =
     (if \<not> is_x11 e then wayland_send_raw_key e (event_chr k mod 65536) (ik_down k) s
      else sim_rdev_rawkey_position e now (event_chr k) (ik_down k) s)"

definition translate_keyboard_mode :: "input_env \<Rightarrow> nat \<Rightarrow> input_key \<Rightarrow> input_state \<Rightarrow> input_state" where
  "translate_keyboard_mode e now k s =
     (case ik_union k of
        SeqEv text \<Rightarrow>
          (if \<not> is_x11 e then
             (if is_hotkey_modifier_pressed e s then play (map (\<lambda>c. EnClick (KLayout c)) text) s
              else input_text_via_clipboard_server e text (release_shift_for_char_input e s))
           else play (map (\<lambda>c. EnClick (KLayout c)) text) (release_shift_for_char_input e s))
      | ChrEv c \<Rightarrow>
          (if \<not> is_x11 e then wayland_send_raw_key e (c mod 65536) (ik_down k) s
           else sim_rdev_rawkey_position e now c (ik_down k) s)
      | _ \<Rightarrow> s)"

section \<open>Lock keys\<close>

text \<open>\<open>LockModesHandler\<close>: the lock keys are clicked to match the event and, when dropped, back.\<close>

definition lock_modes_new :: "input_env \<Rightarrow> input_key \<Rightarrow> bool \<Rightarrow> input_state \<Rightarrow> (bool \<times> bool) \<times> input_state" where
  "lock_modes_new e k is_numpad_key s =
     (let caps_lock_changed = ((CK_CapsLock \<in> set (ik_modifiers k)) \<noteq> get_key_state e (KNamed ''CapsLock'') s);
          s = (if caps_lock_changed then play [EnClick (KNamed ''CapsLock'')] s else s);
          num_lock_changed = (is_numpad_key
            \<and> (CK_NumLock \<in> set (ik_modifiers k)) \<noteq> get_key_state e (KNamed ''NumLock'') s);
          s = (if num_lock_changed then play [EnClick (KNamed ''NumLock'')] s else s)
      in ((caps_lock_changed, num_lock_changed), s))"

definition lock_modes_drop :: "input_env \<Rightarrow> bool \<times> bool \<Rightarrow> input_state \<Rightarrow> input_state" where
  "lock_modes_drop e changed s =
     (if wayland_use_uinput e then s
      else
        let s = (if fst changed then play [EnClick (KNamed ''CapsLock'')] s else s)
        in (if snd changed then play [EnClick (KNamed ''NumLock'')] s else s))"

definition skip_led_sync_control_key :: "int \<Rightarrow> bool" where
  "skip_led_sync_control_key v =
     (v \<in> {CK_Control, CK_RControl, CK_Meta, CK_Shift, CK_RShift, CK_Alt, CK_RAlt, CK_Tab, CK_Return})"

definition is_numpad_control_key :: "int \<Rightarrow> bool" where
  "is_numpad_control_key v = (33 \<le> v \<and> v \<le> 42 \<or> v = CK_NumpadEnter)"

definition skip_led_sync_rdev_key :: "string \<Rightarrow> bool" where
  "skip_led_sync_rdev_key n =
     (n \<in> set [''ControlLeft'', ''ControlRight'', ''MetaLeft'', ''MetaRight'', ''ShiftLeft'', ''ShiftRight'', ''Alt'',
               ''AltGr'', ''Tab'', ''Return''])"

definition is_numpad_rdev_key :: "string \<Rightarrow> bool" where
  "is_numpad_rdev_key n =
     (n \<in> set [''Kp0'', ''Kp1'', ''Kp2'', ''Kp3'', ''Kp4'', ''Kp5'', ''Kp6'', ''Kp7'', ''Kp8'', ''Kp9'', ''KpMinus'',
               ''KpMultiply'', ''KpDivide'', ''KpPlus'', ''KpDecimal''])"

definition is_legacy_mode :: "input_key \<Rightarrow> bool" where
  "is_legacy_mode k = (ik_mode k = LegacyMode)"

text \<open>Whether the lock keys are matched for an event, and whether it is a key of the number pad.\<close>

definition lock_modes_wanted :: "input_env \<Rightarrow> input_key \<Rightarrow> bool option" where
  "lock_modes_wanted e k =
     (case ik_union k of
        UnicodeEv c \<Rightarrow> Some False
      | SeqEv text \<Rightarrow> Some False
      | ControlKeyEv v \<Rightarrow> if skip_led_sync_control_key v then None else Some (is_numpad_control_key v)
      | ChrEv c \<Rightarrow>
          if is_legacy_mode k then Some False
          else if skip_led_sync_rdev_key (rdev_key_name e c) then None
          else Some (is_numpad_rdev_key (rdev_key_name e c))
      | OtherEv \<Rightarrow> None)"

definition play_key :: "input_env \<Rightarrow> nat \<Rightarrow> input_key \<Rightarrow> input_state \<Rightarrow> input_state" where
  "play_key e now k s =
     (case ik_mode k of
        MapMode \<Rightarrow> map_keyboard_mode e now k s
      | TranslateMode \<Rightarrow> translate_keyboard_mode e now k s
      | _ \<Rightarrow> legacy_keyboard_mode e now k s)"

definition handle_key :: "input_env \<Rightarrow> nat \<Rightarrow> input_key \<Rightarrow> input_state \<Rightarrow> input_state" where
  "handle_key e now k s =
     (if exiting s then s
      else (case lock_modes_wanted e k of
              None \<Rightarrow> play_key e now k s
            | Some numpad \<Rightarrow>
                (case lock_modes_new e k numpad s of
                   (changed, s) \<Rightarrow> lock_modes_drop e changed (play_key e now k s))))"

text \<open>What the thread of \<open>SpawnLockScreen\<close> plays: the hotkey of the desktop, pressed and released.\<close>

definition lock_screen :: "input_env \<Rightarrow> nat \<Rightarrow> input_state \<Rightarrow> input_state" where
  "lock_screen e now s =
     (let k = \<lparr>ik_union = ChrEv 108, ik_mode = LegacyMode, ik_down = True, ik_modifiers = [CK_Meta]\<rparr>
      in handle_key e now (k\<lparr>ik_down := False\<rparr>) (handle_key e now k s))"

section \<open>The mouse\<close>

abbreviation (input) "MOUSE_TYPE_MOVE \<equiv> (0 :: int)"
abbreviation (input) "MOUSE_TYPE_DOWN \<equiv> (1 :: int)"
abbreviation (input) "MOUSE_TYPE_UP \<equiv> (2 :: int)"
abbreviation (input) "MOUSE_TYPE_WHEEL \<equiv> (3 :: int)"
abbreviation (input) "MOUSE_TYPE_TRACKPAD \<equiv> (4 :: int)"
abbreviation (input) "MOUSE_TYPE_MOVE_RELATIVE \<equiv> (5 :: int)"

definition mouse_type :: "input_mouse \<Rightarrow> int" where
  "mouse_type m = im_mask m mod 8"

definition mouse_buttons :: "input_mouse \<Rightarrow> int" where
  "mouse_buttons m = im_mask m div 8"

definition button_of :: "int \<Rightarrow> mouse_button option" where
  "button_of b =
     (if b = 1 then Some BtnLeft else if b = 2 then Some BtnRight else if b = 4 then Some BtnMiddle
      else if b = 8 then Some BtnBack else if b = 16 then Some BtnForward else None)"

definition set_relative_mouse_active :: "int \<Rightarrow> bool \<Rightarrow> input_state \<Rightarrow> input_state" where
  "set_relative_mouse_active conn active s =
     s\<lparr>relative_conns := (if active then insert conn (relative_conns s) else relative_conns s - {conn})\<rparr>"

definition is_relative_mouse_active :: "int \<Rightarrow> input_state \<Rightarrow> bool" where
  "is_relative_mouse_active conn s = (conn \<in> relative_conns s)"

definition clear_relative_mouse_active :: "int \<Rightarrow> input_state \<Rightarrow> input_state" where
  "clear_relative_mouse_active conn = set_relative_mouse_active conn False"

definition update_latest_input_cursor_time :: "int \<Rightarrow> int \<Rightarrow> input_state \<Rightarrow> input_state" where
  "update_latest_input_cursor_time now conn s =
     s\<lparr>latest_peer_input := (latest_peer_input s)\<lparr>pc_conn := conn, pc_time := now\<rparr>\<rparr>"

definition get_last_input_cursor_pos :: "input_state \<Rightarrow> int \<times> int" where
  "get_last_input_cursor_pos s = (pc_x (latest_peer_input s), pc_y (latest_peer_input s))"

text \<open>The modifiers of a click are pressed for its duration, the lock keys left alone.\<close>

fun press_for_click :: "input_env \<Rightarrow> int list \<Rightarrow> input_state \<times> enigo_key list \<Rightarrow> input_state \<times> enigo_key list" where
  "press_for_click e [] st = st"
| "press_for_click e (v # vs) (s, to_release) =
     (case control_key_value_to_key v of
        None \<Rightarrow> press_for_click e vs (s, to_release)
      | Some k \<Rightarrow>
          (if k = KNamed ''CapsLock'' \<or> k = KNamed ''NumLock'' \<or> get_modifier_state e k s
           then press_for_click e vs (s, to_release)
           else press_for_click e vs (en_down e k s, to_release @ [k])))"

abbreviation MAX_RELATIVE_MOUSE_DELTA :: int where
  "MAX_RELATIVE_MOUSE_DELTA \<equiv> 10000"

definition clamp_delta :: "int \<Rightarrow> int" where
  "clamp_delta d = max (- MAX_RELATIVE_MOUSE_DELTA) (min MAX_RELATIVE_MOUSE_DELTA d)"

text \<open>The negation of an \<open>i32\<close>, which the least value does not have.\<close>

definition neg_i32 :: "int \<Rightarrow> int" where
  "neg_i32 x = (if x = - (2 ^ 31) then x else - x)"

definition mouse_action :: "input_env \<Rightarrow> int \<Rightarrow> input_mouse \<Rightarrow> int \<Rightarrow> input_state \<Rightarrow> input_state" where
  "mouse_action e now m conn s =
     (if mouse_type m = MOUSE_TYPE_MOVE then
        (play [MoveTo (im_x m) (im_y m)] (set_relative_mouse_active conn False s))
          \<lparr>latest_peer_input := \<lparr>pc_conn = conn, pc_time = now, pc_x = im_x m, pc_y = im_y m\<rparr>\<rparr>
      else if mouse_type m = MOUSE_TYPE_MOVE_RELATIVE then
        (let s = play [MoveRelative (clamp_delta (im_x m)) (clamp_delta (im_y m))]
                   (set_relative_mouse_active conn True s)
         in (case cursor_pos e (played s) of
               Some (x, y) \<Rightarrow>
                 s\<lparr>latest_peer_input := \<lparr>pc_conn = conn, pc_time = now, pc_x = x, pc_y = y\<rparr>\<rparr>
             | None \<Rightarrow> s))
      else if mouse_type m = MOUSE_TYPE_DOWN then
        (case button_of (mouse_buttons m) of Some b \<Rightarrow> play [BtnDown b] s | None \<Rightarrow> s)
      else if mouse_type m = MOUSE_TYPE_UP then
        (case button_of (mouse_buttons m) of Some b \<Rightarrow> play [BtnUp b] s | None \<Rightarrow> s)
      else if mouse_type m = MOUSE_TYPE_WHEEL \<or> mouse_type m = MOUSE_TYPE_TRACKPAD then
        (let x = neg_i32 (im_x m); y = neg_i32 (im_y m)
         in play ((if y \<noteq> 0 then [ScrollY y] else []) @ (if x \<noteq> 0 then [ScrollX x] else [])) s)
      else s)"

definition handle_mouse_simulation :: "input_env \<Rightarrow> int \<Rightarrow> input_mouse \<Rightarrow> int \<Rightarrow> input_state \<Rightarrow> input_state" where
  "handle_mouse_simulation e now m conn s =
     (if exiting s then s
      else (case (if mouse_type m = MOUSE_TYPE_DOWN
                  then press_for_click e (im_modifiers m) (fix_modifiers e (im_modifiers m) 0 s, [])
                  else (s, [])) of
              (s, to_release) \<Rightarrow> release_keys to_release (mouse_action e now m conn s)))"

definition handle_mouse_show_cursor :: "input_mouse \<Rightarrow> int \<Rightarrow> input_state \<Rightarrow> input_state" where
  "handle_mouse_show_cursor m conn s =
     (if mouse_type m = MOUSE_TYPE_MOVE then play [DrawCursor conn (im_x m) (im_y m) 0] s
      else if mouse_type m = MOUSE_TYPE_UP \<and> mouse_buttons m = 1 then
        (let p = (if im_x m = 0 \<and> im_y m = 0 then get_last_input_cursor_pos s else (im_x m, im_y m))
         in play [DrawCursor conn (fst p) (snd p) 1] s)
      else s)"

definition handle_mouse :: "input_env \<Rightarrow> int \<Rightarrow> input_mouse \<Rightarrow> int \<Rightarrow> bool \<Rightarrow> bool \<Rightarrow> input_state \<Rightarrow> input_state" where
  "handle_mouse e now m conn simulate show_cursor s =
     (let s = (if simulate then handle_mouse_simulation e now m conn s else s)
      in (if show_cursor \<and> \<not> is_relative_mouse_active conn s \<and> mouse_type m \<noteq> MOUSE_TYPE_MOVE_RELATIVE
          then handle_mouse_show_cursor m conn s else s))"

section \<open>The input thread\<close>

datatype message_input =
    MsgMouse input_mouse int bool bool
  | MsgKey input_key bool
  | MsgPointer
  | MsgBlockOn
  | MsgBlockOff

datatype input_wait = Received message_input | TimedOut | Disconnected

text \<open>
  One turn of \<open>handle_input\<close>: whether the thread goes on, whether input is blocked, the block errors
  it reports (\<open>True\<close> for a failed block). \<open>block\<close> says whether the system blocks or unblocks. A
  pointer event does nothing on Linux.
\<close>

definition input_turn ::
    "input_env \<Rightarrow> nat \<Rightarrow> int \<Rightarrow> (bool \<Rightarrow> bool) \<Rightarrow> input_wait \<Rightarrow> bool \<times> input_state
       \<Rightarrow> bool \<times> bool list \<times> bool \<times> input_state" where
  "input_turn e now tm block w st =
     (case st of (blocked, s) \<Rightarrow>
        (case w of
           Received (MsgMouse m conn simulate show_cursor) \<Rightarrow>
             (True, [], blocked, handle_mouse e tm m conn simulate show_cursor s)
         | Received (MsgKey k press) \<Rightarrow>
             (let k = (if press then k\<lparr>ik_down := True\<rparr> else k);
                  s = handle_key e now k s
              in (True, [], blocked, if press then handle_key e now (k\<lparr>ik_down := False\<rparr>) s else s))
         | Received MsgPointer \<Rightarrow> (True, [], blocked, s)
         | Received MsgBlockOn \<Rightarrow>
             (True, if block True then [] else [True], block True \<or> blocked, play [BlockInput True] s)
         | Received MsgBlockOff \<Rightarrow>
             (True, if block False then [] else [False], \<not> block False \<and> blocked, play [BlockInput False] s)
         | TimedOut \<Rightarrow> (True, [], blocked, if blocked then play [BlockInput True] s else s)
         | Disconnected \<Rightarrow> (False, [], blocked, if blocked then play [BlockInput True] s else s)))"

section \<open>The thread as a whole\<close>

text \<open>\<open>handle_input\<close>: its turns until the channel is closed; it collects the block errors it reports.\<close>

fun handle_input ::
    "input_env \<Rightarrow> (bool \<Rightarrow> bool) \<Rightarrow> (nat \<times> int \<times> input_wait) list \<Rightarrow> bool \<times> input_state \<Rightarrow> bool list \<times> bool \<times> input_state" where
  "handle_input e block [] st = ([], st)"
| "handle_input e block ((now, tm, w) # ws) st =
     (case input_turn e now tm block w st of
        (goes_on, errors, st) \<Rightarrow>
          if goes_on then (case handle_input e block ws st of (es, st) \<Rightarrow> (errors @ es, st)) else (errors, st))"

end
