(* ===== verification/InputSafety.thy ===== *)
theory InputSafety
  imports Input
begin

text \<open>
  What playing the input of a viewer guarantees: keys that are down are recorded and released at the
  end, modifiers follow the events, relative motion is bounded and draws no cursor; and the cases in
  which a key stays down after all.
\<close>

section \<open>No key stays down\<close>

text \<open>The keys that were pressed and not released since: by \<open>enigo\<close>, and by \<open>rdev\<close>.\<close>

definition en_effect :: "input_effect \<Rightarrow> enigo_key set \<Rightarrow> enigo_key set" where
  "en_effect f h = (case f of EnDown k \<Rightarrow> insert k h | EnUp k \<Rightarrow> h - {k} | EnClick k \<Rightarrow> h - {k} | _ \<Rightarrow> h)"

definition sim_effect :: "input_effect \<Rightarrow> nat set \<Rightarrow> nat set" where
  "sim_effect f h = (case f of SimPress c \<Rightarrow> insert c h | SimRelease c \<Rightarrow> h - {c} | _ \<Rightarrow> h)"

definition en_held :: "input_effect list \<Rightarrow> enigo_key set" where
  "en_held fx = fold en_effect fx {}"

definition sim_held :: "input_effect list \<Rightarrow> nat set" where
  "sim_held fx = fold sim_effect fx {}"

definition recorded :: "input_state \<Rightarrow> keys_down set" where
  "recorded s = set (map fst (keys_recorded s))"

definition recorded_keys :: "input_env \<Rightarrow> input_state \<Rightarrow> enigo_key set" where
  "recorded_keys e s = {k. \<exists>r. EnigoKey r \<in> recorded s \<and> record_key_to_key e r = Some k}"

text \<open>Every key that is held is recorded, apart from the modifiers \<open>X\<close> that are about to be released.\<close>

definition held_recorded :: "input_env \<Rightarrow> enigo_key set \<Rightarrow> input_state \<Rightarrow> bool" where
  "held_recorded e X s \<longleftrightarrow>
     en_held (played s) \<subseteq> recorded_keys e s \<union> X \<and> (\<forall>c \<in> sim_held (played s). RdevKey c \<in> recorded s)"

lemma held_append [simp]:
  "en_held (a @ b) = fold en_effect b (en_held a)" "sim_held (a @ b) = fold sim_effect b (sim_held a)"
  by (simp_all add: en_held_def sim_held_def)

lemma held_Nil [simp]: "en_held [] = {}" "sim_held [] = {}"
  by (simp_all add: en_held_def sim_held_def)

lemma effects [simp]:
  "en_effect (EnDown k) h = insert k h" "en_effect (EnUp k) h = h - {k}" "en_effect (EnClick k) h = h - {k}"
  "sim_effect (SimPress c) g = insert c g" "sim_effect (SimRelease c) g = g - {c}"
  "en_effect (SimPress c) h = h" "en_effect (SimRelease c) h = h" "sim_effect (EnDown k) g = g"
  "sim_effect (EnUp k) g = g" "sim_effect (EnClick k) g = g"
  by (simp_all add: en_effect_def sim_effect_def)

text \<open>Entries of the history that hold no key.\<close>

definition harmless :: "input_effect \<Rightarrow> bool" where
  "harmless f = (case f of EnDown k \<Rightarrow> False | SimPress c \<Rightarrow> False | _ \<Rightarrow> True)"

lemma harmless_effect: "harmless f \<Longrightarrow> en_effect f h \<subseteq> h" "harmless f \<Longrightarrow> sim_effect f g \<subseteq> g"
  by (auto simp: harmless_def en_effect_def sim_effect_def split: input_effect.splits)

lemma harmless_en: "\<forall>f \<in> set fx. harmless f \<Longrightarrow> fold en_effect fx h \<subseteq> h"
proof (induction fx arbitrary: h)
  case (Cons f fx)
  then show ?case using Cons.IH [of "en_effect f h"] harmless_effect(1) [of f h] by auto
qed simp

lemma harmless_sim: "\<forall>f \<in> set fx. harmless f \<Longrightarrow> fold sim_effect fx g \<subseteq> g"
proof (induction fx arbitrary: g)
  case (Cons f fx)
  then show ?case using Cons.IH [of "sim_effect f g"] harmless_effect(2) [of f g] by auto
qed simp

lemma played_play [simp]:
  "played (play fx s) = played s @ fx" "keys_recorded (play fx s) = keys_recorded s" "exiting (play fx s) = exiting s"
  "recorded (play fx s) = recorded s" "recorded_keys e (play fx s) = recorded_keys e s"
  by (simp_all add: play_def recorded_def recorded_keys_def)

lemma recorded_record [simp]:
  "recorded (record_pressed_key k True now s) = insert k (recorded s)"
  "recorded (record_pressed_key k False now s) = recorded s - {k}"
  "played (record_pressed_key k d now s) = played s"
  by (auto simp: record_pressed_key_def recorded_def update_keys delete_keys simp del: map_map)

lemma held_harmless:
  assumes "held_recorded e X s" "\<forall>f \<in> set fx. harmless f"
  shows "held_recorded e X (play fx s)"
  using assms harmless_en [OF assms(2), of "en_held (played s)"] harmless_sim [OF assms(2), of "sim_held (played s)"]
  by (auto simp: held_recorded_def)

lemma held_down: "held_recorded e X s \<Longrightarrow> held_recorded e (insert k X) (en_down e k s)"
  by (auto simp: held_recorded_def en_down_def)

lemma held_up: "held_recorded e X s \<Longrightarrow> held_recorded e (X - {k}) (play [EnUp k] s)"
  by (auto simp: held_recorded_def)

lemma held_record: "held_recorded e X s \<Longrightarrow> held_recorded e X (record_pressed_key k True now s)"
  by (auto simp: held_recorded_def recorded_keys_def)

lemma held_weaken: "held_recorded e X s \<Longrightarrow> X \<subseteq> Y \<union> recorded_keys e s \<Longrightarrow> held_recorded e Y s"
  by (auto simp: held_recorded_def)

lemma held_release:
  "held_recorded e X s \<Longrightarrow> held_recorded e X (release_record_key e k (record_pressed_key k False now s))"
  by (cases k; cases "\<exists>r. k = EnigoKey r \<and> record_key_to_key e r \<noteq> None")
    (fastforce simp: held_recorded_def release_record_key_def recorded_keys_def subset_iff)+

lemma held_release_keys: "held_recorded e X s \<Longrightarrow> held_recorded e (X - set ks) (release_keys ks s)"
proof (induction ks arbitrary: X s)
  case (Cons k ks)
  have "X - {k} - set ks = X - set (k # ks)" by auto
  with Cons.IH [OF held_up [OF Cons.prems, of k]] show ?case by (simp add: release_keys_def play_def)
qed (simp add: release_keys_def play_def)


subsection \<open>Every operation keeps it\<close>

lemma held_fix_modifier: "held_recorded e X s \<Longrightarrow> held_recorded e X (fix_modifier e ms key0 key1 s)"
  by (simp add: fix_modifier_def held_harmless harmless_def)

lemma held_fold:
  "held_recorded e X s \<Longrightarrow> (\<And>x s. held_recorded e X s \<Longrightarrow> held_recorded e X (f x s)) \<Longrightarrow> held_recorded e X (fold f xs s)"
  by (induction xs arbitrary: s) simp_all

lemma held_fix_modifiers: "held_recorded e X s \<Longrightarrow> held_recorded e X (fix_modifiers e ms ck s)"
  unfolding fix_modifiers_def by (rule held_fold) (auto simp: held_fix_modifier)

text \<open>The keys that the control keys of a list name.\<close>

definition named_keys :: "int list \<Rightarrow> enigo_key set" where
  "named_keys vs = {k. \<exists>v \<in> set vs. control_key_value_to_key v = Some k}"

lemma named_keys_simps [simp]:
  "named_keys [] = {}"
  "named_keys (v # vs) = set_option (control_key_value_to_key v) \<union> named_keys vs"
  by (auto simp: named_keys_def)

lemma held_press_modifiers:
  "held_recorded e (X \<union> set ks) s \<Longrightarrow> press_modifiers e vs (s, ks) = (s', ks')
    \<Longrightarrow> held_recorded e (X \<union> set ks') s' \<and> set ks' \<subseteq> set ks \<union> named_keys vs"
proof (induction e vs "(s, ks)" arbitrary: s ks rule: press_modifiers.induct)
  case (2 e v vs s ks)
  then show ?case
    using held_down [OF 2(4)] by (fastforce split: option.splits if_splits)
qed simp

lemma held_press_for_click:
  "held_recorded e (X \<union> set ks) s \<Longrightarrow> press_for_click e vs (s, ks) = (s', ks') \<Longrightarrow> held_recorded e (X \<union> set ks') s'"
proof (induction e vs "(s, ks)" arbitrary: s ks rule: press_for_click.induct)
  case (2 e v vs s ks)
  then show ?case
    using held_down [OF 2(4)] by (auto split: option.splits if_splits)
qed simp

lemma held_sync_modifiers:
  "held_recorded e X s \<Longrightarrow> sync_modifiers e k s = (s', ks)
    \<Longrightarrow> held_recorded e (X \<union> set ks) s' \<and> set ks \<subseteq> named_keys (ik_modifiers k)"
  using held_press_modifiers [of e X "[]" "release_unpressed_modifiers e k s"]
  by (auto simp: sync_modifiers_def release_unpressed_modifiers_def held_fix_modifiers split: if_splits)

lemma held_release_shift: "held_recorded e X s \<Longrightarrow> held_recorded e X (release_shift_for_char_input e s)"
  by (simp add: release_shift_for_char_input_def Let_def held_harmless harmless_def)

text \<open>The number of a control key, as the protocol has them, stands for its key in the record.\<close>

lemma record_of_control_key:
  "0 \<le> v \<Longrightarrow> v < 9999 \<Longrightarrow> record_key_to_key e (record_of_control v) = control_key_value_to_key v"
  using nat_less_iff [of v 9999] by (simp add: record_of_control_def record_key_to_key_def KEY_CHAR_START_def)

lemma record_of_char:
  "c < 2 ^ 32 \<Longrightarrow> record_key_to_key e (c + KEY_CHAR_START) = Some (char_value_to_key e c)"
  by (simp add: record_key_to_key_def)

text \<open>Pressing or releasing a key together with its record.\<close>

lemma held_press_recorded:
  assumes "held_recorded e X s" "record_key_to_key e r = Some k"
  shows "held_recorded e X (en_down e k (record_pressed_key (EnigoKey r) True now s))"
proof -
  have "held_recorded e (insert k X) (en_down e k (record_pressed_key (EnigoKey r) True now s))"
    by (rule held_down [OF held_record [OF assms(1)]])
  moreover have "k \<in> recorded_keys e (en_down e k (record_pressed_key (EnigoKey r) True now s))"
    using assms(2) by (auto simp: recorded_keys_def en_down_def)
  ultimately show ?thesis by (auto intro: held_weaken)
qed

lemma held_release_recorded:
  "held_recorded e X s \<Longrightarrow> record_key_to_key e r = Some k
    \<Longrightarrow> held_recorded e X (play [EnUp k] (record_pressed_key (EnigoKey r) False now s))"
  using held_release [of e X s "EnigoKey r" now] by (simp add: release_record_key_def)

lemma held_forget:
  "held_recorded e X s \<Longrightarrow> record_key_to_key e r = None
    \<Longrightarrow> held_recorded e X (record_pressed_key (EnigoKey r) d now s)"
  using held_release [of e X s "EnigoKey r" now] held_record [of e X s "EnigoKey r" now]
  by (cases d) (simp_all add: release_record_key_def)

lemma held_control_key:
  assumes "held_recorded e X s" "0 \<le> v" "v < 9999"
  shows "held_recorded e X (process_control_key e v d (record_pressed_key (EnigoKey (record_of_control v)) d now s))"
  using assms record_of_control_key [OF assms(2,3), of e]
  by (cases "control_key_value_to_key v"; cases d)
    (simp_all add: process_control_key_def held_forget held_press_recorded held_release_recorded)

lemma held_chr:
  assumes "held_recorded e X s" "c < 2 ^ 32" "is_x11 e"
  shows "held_recorded e X (process_chr e c d (record_pressed_key (EnigoKey (c + KEY_CHAR_START)) d now s))"
proof -
  let ?r = "record_pressed_key (EnigoKey (c + KEY_CHAR_START)) d now s"
  note r = record_of_char [OF assms(2), of e]
  have down: "held_recorded e X (en_down e (char_value_to_key e c) ?r)" if d
    using held_press_recorded [OF assms(1) r, of now] that by simp
  have up: "held_recorded e X (play [EnUp (char_value_to_key e c)] ?r)" if "\<not> d"
    using held_release_recorded [OF assms(1) r, of now] that by simp
  have "held_recorded e X ?r" if d using held_record [OF assms(1)] that by simp
  with down up assms(3) show ?thesis
    by (auto simp: process_chr_def wayland_use_uinput_def Let_def en_down_def held_harmless harmless_def split: if_splits)
qed

lemma held_position:
  "held_recorded e X s \<Longrightarrow> held_recorded e X (sim_rdev_rawkey_position e now c d s)"
  by (cases d) (auto simp: sim_rdev_rawkey_position_def held_recorded_def recorded_keys_def)

text \<open>
  An event of the protocol: a character has 32 bits, and a control key, which the wire could give any
  number, has one of those below the characters.
\<close>

definition known_key :: "input_key \<Rightarrow> bool" where
  "known_key k =
     (case ik_union k of ControlKeyEv v \<Rightarrow> 0 \<le> v \<and> v < 9999 | ChrEv c \<Rightarrow> c < 2 ^ 32 | _ \<Rightarrow> True)"

text \<open>The modifiers that a function key carries.\<close>

definition left_by :: "input_key \<Rightarrow> enigo_key set" where
  "left_by k =
     (case ik_union k of
        ControlKeyEv v \<Rightarrow> if is_function_key v then named_keys (ik_modifiers k) else {}
      | _ \<Rightarrow> {})"

lemma held_more: "held_recorded e X s \<Longrightarrow> held_recorded e (X \<union> Y) s"
  by (auto intro: held_weaken)

lemma held_legacy:
  assumes "held_recorded e X s" "known_key k" "is_x11 e"
  shows "held_recorded e (X \<union> left_by k) (legacy_keyboard_mode e now k s)"
proof -
  obtain s' ks where sync: "sync_modifiers e k s = (s', ks)" by fastforce
  have held: "held_recorded e (X \<union> set ks) s'" and ks: "set ks \<subseteq> named_keys (ik_modifiers k)"
    using held_sync_modifiers [OF assms(1) sync] by auto
  have rel: "held_recorded e (X \<union> Y) (release_keys ks s)" if "held_recorded e (X \<union> set ks) s" for s Y
    using held_release_keys [OF that, of ks] by (rule held_weaken) auto
  show ?thesis
  proof (cases "\<exists>v. ik_union k = ControlKeyEv v \<and> is_function_key v")
    case True
    then have "held_recorded e (X \<union> left_by k) s'" by (intro held_weaken [OF held]) (use ks in \<open>auto simp: left_by_def\<close>)
    with True sync show ?thesis
      by (auto simp: legacy_keyboard_mode_def run_function_key_def held_harmless harmless_def)
  next
    case False
    with held rel assms(2,3) show ?thesis
      by (auto simp: legacy_keyboard_mode_def sync known_key_def held_control_key held_chr held_release_shift
          process_unicode_def process_seq_def wayland_use_uinput_def held_harmless harmless_def
          split: input_union.splits)
  qed
qed

lemma held_play_key:
  assumes "held_recorded e X s" "known_key k" "is_x11 e"
  shows "held_recorded e (X \<union> left_by k) (play_key e now k s)"
  using assms held_legacy [OF assms]
  by (auto simp: play_key_def map_keyboard_mode_def translate_keyboard_mode_def held_position held_release_shift
      held_harmless harmless_def held_more split: input_mode.splits input_union.splits)

lemma held_handle_key:
  assumes "held_recorded e X s" "known_key k" "is_x11 e"
  shows "held_recorded e (X \<union> left_by k) (handle_key e now k s)"
proof -
  have new: "held_recorded e X (snd (lock_modes_new e k n s))" for n
    using assms(1) by (simp add: lock_modes_new_def Let_def held_harmless harmless_def)
  have drop: "held_recorded e Y s \<Longrightarrow> held_recorded e Y (lock_modes_drop e ch s)" for s ch Y
    by (simp add: lock_modes_drop_def Let_def held_harmless harmless_def)
  show ?thesis
  proof (cases "lock_modes_wanted e k")
    case None
    then show ?thesis using assms(1) held_play_key [OF assms] by (simp add: handle_key_def held_more)
  next
    case (Some n)
    obtain ch s1 where l: "lock_modes_new e k n s = (ch, s1)" by fastforce
    then have "held_recorded e X s1" using new [of n] by simp
    from drop [OF held_play_key [OF this assms(2,3)]] show ?thesis
      using assms(1) by (simp add: handle_key_def Some l held_more)
  qed
qed

lemma keys_mouse_fields [simp]:
  "held_recorded e X (s\<lparr>latest_peer_input := p\<rparr>) = held_recorded e X s"
  "held_recorded e X (s\<lparr>relative_conns := cs\<rparr>) = held_recorded e X s"
  "held_recorded e X (s\<lparr>exiting := b\<rparr>) = held_recorded e X s"
  by (simp_all add: held_recorded_def recorded_def recorded_keys_def)

lemma held_mouse_action: "held_recorded e X s \<Longrightarrow> held_recorded e X (mouse_action e now m conn s)"
  by (auto simp: mouse_action_def Let_def set_relative_mouse_active_def held_harmless harmless_def split: option.splits)

lemma held_mouse_simulation:
  assumes "held_recorded e X s"
  shows "held_recorded e X (handle_mouse_simulation e now m conn s)"
proof -
  obtain s' ks where pressed: "(if mouse_type m = 1
      then press_for_click e (im_modifiers m) (fix_modifiers e (im_modifiers m) 0 s, []) else (s, [])) = (s', ks)"
    by fastforce
  have "held_recorded e (X \<union> set ks) s'"
    using pressed assms held_press_for_click [of e X "[]" "fix_modifiers e (im_modifiers m) 0 s"]
    by (auto simp: held_fix_modifiers split: if_splits)
  then have "held_recorded e X (release_keys ks (mouse_action e now m conn s'))"
    using held_release_keys [OF held_mouse_action, of e "X \<union> set ks" s' ks now m conn] by (auto intro: held_weaken)
  with assms pressed show ?thesis by (simp add: handle_mouse_simulation_def)
qed

lemma held_mouse: "held_recorded e X s \<Longrightarrow> held_recorded e X (handle_mouse e now m conn sim cur s)"
  by (auto simp: handle_mouse_def handle_mouse_show_cursor_def Let_def held_mouse_simulation held_harmless harmless_def)

fun known_input :: "input_wait \<Rightarrow> bool" where
  "known_input (Received (MsgKey k press)) = known_key k"
| "known_input w = True"

fun left_by_input :: "input_wait \<Rightarrow> enigo_key set" where
  "left_by_input (Received (MsgKey k press)) = left_by k"
| "left_by_input w = {}"

lemma known_key_down [simp]:
  "known_key (k\<lparr>ik_down := d\<rparr>) = known_key k" "left_by (k\<lparr>ik_down := d\<rparr>) = left_by k"
  by (simp_all add: known_key_def left_by_def split: input_union.splits)

lemma held_turn:
  assumes "held_recorded e X s" "known_input w" "is_x11 e" "input_turn e now tm block w (b, s) = (go, es, b', s')"
  shows "held_recorded e (X \<union> left_by_input w) s'"
proof (cases "\<exists>k press. w = Received (MsgKey k press)")
  case True
  then obtain k press where w: "w = Received (MsgKey k press)" by blast
  have one: "held_recorded e (Y \<union> left_by k) (handle_key e now (k\<lparr>ik_down := d\<rparr>) s)"
    "held_recorded e (Y \<union> left_by k) (handle_key e now k s)" if "held_recorded e Y s" for Y s d
    using held_handle_key [OF that, of "k\<lparr>ik_down := d\<rparr>"] held_handle_key [OF that, of k] assms(2,3) w by simp_all
  show ?thesis
    using assms(4) w one [OF assms(1)] one(1) [OF one(1) [OF assms(1)]]
    by (auto simp: input_turn_def Let_def Un_assoc split: if_splits)
next
  case False
  then have "held_recorded e X s'"
    using assms by (auto simp: input_turn_def Let_def held_mouse held_harmless harmless_def
        split: input_wait.splits message_input.splits if_splits)
  then show ?thesis by (rule held_more)
qed

lemma held_input:
  assumes "held_recorded e X s" "\<forall>(now, tm, w) \<in> set ws. known_input w" "is_x11 e"
  shows "held_recorded e (X \<union> (\<Union>(now, tm, w) \<in> set ws. left_by_input w)) (snd (snd (handle_input e block ws (b, s))))"
  using assms
proof (induction e block ws "(b, s)" arbitrary: b s X rule: handle_input.induct)
  case (2 e block now tm w ws b s)
  obtain go es b' s' where t: "input_turn e now tm block w (b, s) = (go, es, b', s')" by (metis prod_cases4)
  have h: "held_recorded e (X \<union> left_by_input w) s'"
    by (rule held_turn [OF 2(2) _ 2(4) t]) (use 2(3) in simp)
  show ?case
  proof (cases go)
    case True
    have "held_recorded e (X \<union> left_by_input w \<union> (\<Union>(now, tm, w) \<in> set ws. left_by_input w))
        (snd (snd (handle_input e block ws (b', s'))))"
      by (rule 2(1) [OF t [symmetric] refl True h]) (use 2(3,4) in simp_all)
    then show ?thesis using t True by (cases "handle_input e block ws (b', s')") (simp add: Un_assoc)
  next
    case False
    then show ?thesis using t held_more [OF h] by (simp add: Un_assoc)
  qed
qed simp

subsection \<open>Releasing everything\<close>

lemma released_fold:
  assumes "held_recorded e X s"
  shows "held_recorded e X (fold (\<lambda>(k, t) s. if force \<or> now - t \<ge> 360000
            then release_record_key e k (record_pressed_key k False now s) else s) ks s)"
  by (rule held_fold [OF assms]) (auto simp: held_release split: prod.splits)

lemma recorded_release [simp]: "recorded (release_record_key e k s) = recorded s"
  by (simp add: release_record_key_def split: keys_down.splits option.splits)

lemma recorded_fold:
  "recorded (fold (\<lambda>(k, t) s. if True \<or> now - t \<ge> 360000
      then release_record_key e k (record_pressed_key k False now s) else s) ks s) = recorded s - fst ` set ks"
  by (induction ks arbitrary: s) auto

lemma forced_forgets: "recorded (fix_key_down_timeout e now True s) = {}"
  unfolding fix_key_down_timeout_def recorded_fold by (auto simp: recorded_def)

lemma held_timeout: "held_recorded e X s \<Longrightarrow> held_recorded e X (fix_key_down_timeout e now force s)"
  unfolding fix_key_down_timeout_def by (rule released_fold)

lemma held_start [simp]: "held_recorded e {} input_start"
  by (simp add: held_recorded_def input_start_def)

text \<open>
  C15. The host releases what it pressed: on X11, whatever the viewers send with the control keys of the
  protocol, in any order, with the presses of modifiers, clicks and lock keys in between, every key that is down
  is recorded, but for the modifiers that came with \<open>CtrlAltDel\<close> or \<open>LockScreen\<close>: the handler of these
  returns before it releases them. When the last viewer has left and the pointer service is reset,
  every other key has been released, so none is down if no such key came with a modifier.
\<close>

theorem no_key_stays_down:
  assumes "is_x11 e" and "list_all (\<lambda>(now, tm, w). known_input w) ws"
    and "handle_input e block ws (False, input_start) = (errors, blocked, s)"
  defines "left \<equiv> \<Union>(now, tm, w) \<in> set ws. left_by_input w"
  shows "en_held (played s) \<subseteq> recorded_keys e s \<union> left \<and> RdevKey ` sim_held (played s) \<subseteq> recorded s
    \<and> en_held (played (fix_key_down_timeout e now True s)) \<subseteq> left
    \<and> sim_held (played (fix_key_down_timeout e now True s)) = {}"
proof -
  have held: "held_recorded e left s"
    using held_input [OF held_start _ assms(1), of ws block False] assms(2,3) by (simp add: list_all_iff left_def)
  with held_timeout [OF held, of now True] forced_forgets [of e now s] show ?thesis
    by (auto simp: held_recorded_def recorded_keys_def)
qed

text \<open>Keyboards for examples: every key can be pressed, and is down when it was pressed and not released.\<close>

definition either_side :: "string \<Rightarrow> string \<Rightarrow> enigo_key set \<Rightarrow> u32" where
  "either_side a b h = of_bool (KNamed a \<in> h \<or> KNamed b \<in> h)"

definition mask_of :: "enigo_key set \<Rightarrow> u32" where
  "mask_of h =
     or (either_side ''Shift'' ''RightShift'' h)
       (or (push_bit 2 (either_side ''Control'' ''RightControl'' h))
          (or (push_bit 3 (either_side ''Alt'' ''RightAlt'' h)) (push_bit 6 (either_side ''Meta'' ''RWin'' h))))"


lemma mask_of_empty [simp]: "mask_of {} = 0"
  by (simp add: mask_of_def either_side_def)

definition input_demo_env :: "bool \<Rightarrow> input_env" where
  "input_demo_env x11 =
     \<lparr>is_x11 = x11, is_server = False, input_mask = (\<lambda>fx. mask_of (en_held fx)),
      key_state = (\<lambda>fx k. k \<in> en_held fx), down_ok = (\<lambda>_ _. True),
      cursor_pos = (\<lambda>_. None), clipboard_ok = True, is_char = (\<lambda>c. c < 1114112), upper = (\<lambda>c. [c]),
      raw_keycode = id, rdev_key_name = (\<lambda>_. ''KeyA'')\<rparr>"

definition demo_event :: "input_mode \<Rightarrow> input_union \<Rightarrow> bool \<Rightarrow> int list \<Rightarrow> input_key" where
  "demo_event m u d ms = \<lparr>ik_union = u, ik_mode = m, ik_down = d, ik_modifiers = ms\<rparr>"

definition demo_inputs :: "(nat \<times> int \<times> input_wait) list" where
  "demo_inputs =
     [(1, 1, Received (MsgKey (demo_event MapMode (ChrEv 38) True []) False)),
      (2, 2, Received (MsgKey (demo_event LegacyMode (ChrEv 97) True [CK_Control]) False)),
      (3, 3, Disconnected)]"

theorem no_key_stays_down_witness:
  "(case handle_input (input_demo_env True) id demo_inputs (False, input_start) of (errors, blocked, s) \<Rightarrow>
      en_held (played (fix_key_down_timeout (input_demo_env True) 4 True s)) = {})"
proof -
  obtain es b s where run: "handle_input (input_demo_env True) id demo_inputs (False, input_start) = (es, b, s)"
    by (metis prod.exhaust)
  show ?thesis
    unfolding run
    using no_key_stays_down [OF _ _ run, of 4]
    by (simp add: input_demo_env_def demo_inputs_def known_key_def demo_event_def left_by_def)
qed

lemma control_key_value_names [simp]:
  "control_key_value_to_key 3 = Some (KNamed ''CapsLock'')" "control_key_value_to_key 4 = Some (KNamed ''Control'')"
  "control_key_value_to_key 100 = None"
  by (simp_all add: control_key_value_to_key_def KEY_MAP_def)

lemma demo_state [simp]:
  "en_held (played s) = {} \<Longrightarrow> \<not> get_key_state (input_demo_env b) k s"
  "down_ok (input_demo_env b) fx k" "is_x11 (input_demo_env b) = b" "\<not> is_server (input_demo_env b)"
  "en_down (input_demo_env b) k s = play [EnDown k] s" "rdev_key_name (input_demo_env b) c = ''KeyA''"
  by (simp_all add: get_key_state_def x11_key_state_def input_demo_env_def en_down_def)

lemma input_demo_env_chars: "is_char (input_demo_env b) c = (c < 1114112)"
  by (simp add: input_demo_env_def)

lemma demo_modifier [simp]: "en_held (played s) = {} \<Longrightarrow> \<not> get_modifier_state (input_demo_env b) k s"
  by (simp add: get_modifier_state_def split: option.splits)

lemma fold_keeps: "(\<And>x. x \<in> set xs \<Longrightarrow> f x s = s) \<Longrightarrow> fold f xs s = s"
  by (induction xs) auto

lemma demo_nothing_to_fix [simp]: "en_held (played s) = {} \<Longrightarrow> fix_modifiers (input_demo_env b) ms ck s = s"
proof -
  assume none: "en_held (played s) = {}"
  have "fix_modifier (input_demo_env b) ms key0 key1 s = s" for key0 key1
    using none by (simp add: fix_modifier_def split: option.splits)
  then show ?thesis unfolding fix_modifiers_def by (intro fold_keeps) auto
qed

lemma held_one [simp]: "en_held [EnDown k] = {k}"
  by (simp add: en_held_def)

lemma start_fields [simp]: "played input_start = []" "keys_recorded input_start = []" "\<not> exiting input_start"
  by (simp_all add: input_start_def)

text \<open>
  A function key (\<open>CtrlAltDel\<close> or \<open>LockScreen\<close>) that carries a modifier leaves the modifier
  down for good: the modifier was pressed for the event, the handler returns before it is released,
  nothing records it, and the reset at the end of the session does not find it.
\<close>

lemma function_key_leaves_modifier:
  "en_held (played (fix_key_down_timeout (input_demo_env True) 2 True
     (handle_key (input_demo_env True) 1 (demo_event LegacyMode (ControlKeyEv CK_CtrlAltDel) True [CK_Control]) input_start)))
   = {KNamed ''Control''}"
  by (simp add: handle_key_def demo_event_def lock_modes_wanted_def skip_led_sync_control_key_def lock_modes_new_def
      is_numpad_control_key_def lock_modes_drop_def wayland_use_uinput_def play_key_def legacy_keyboard_mode_def
      sync_modifiers_def release_unpressed_modifiers_def other_side_def is_function_key_def run_function_key_def
      fix_key_down_timeout_def Let_def)

text \<open>
  A control key with a number that the protocol does not have is recorded by its number all the same:
  above 9999 that is the record of a character, so the release of such a key makes the host forget a
  character that is down, which then stays down.
\<close>

lemma unknown_key_forgets:
  "en_held (played (fix_key_down_timeout (input_demo_env True) 3 True
     (legacy_keyboard_mode (input_demo_env True) 2 (demo_event LegacyMode (ControlKeyEv 10096) False [])
       (legacy_keyboard_mode (input_demo_env True) 1 (demo_event LegacyMode (ChrEv 97) True []) input_start))))
   = {KLayout 97}"
  by (simp add: demo_event_def legacy_keyboard_mode_def sync_modifiers_def release_unpressed_modifiers_def
      release_shift_for_char_input_def is_hotkey_modifier_pressed_def process_chr_def wayland_use_uinput_def
      char_value_to_key_def input_demo_env_chars process_control_key_def is_function_key_def record_of_control_def
      control_key_value_to_key_def KEY_MAP_def KEY_CHAR_START_def record_pressed_key_def release_keys_def
      fix_key_down_timeout_def Let_def)

text \<open>In a Wayland session a key in map mode is pressed without a record.\<close>

lemma wayland_key_stays_down:
  "en_held (played (fix_key_down_timeout (input_demo_env False) 2 True
     (handle_key (input_demo_env False) 1 (demo_event MapMode (ChrEv 38) True []) input_start)))
   = {KRaw 38}"
  by (simp add: handle_key_def demo_event_def lock_modes_wanted_def lock_modes_new_def lock_modes_drop_def
      wayland_use_uinput_def play_key_def map_keyboard_mode_def wayland_send_raw_key_def event_chr_def is_legacy_mode_def
      skip_led_sync_rdev_key_def is_numpad_rdev_key_def fix_key_down_timeout_def Let_def)

section \<open>Modifiers follow the event\<close>







section \<open>The mouse\<close>

text \<open>
  Relative motion is bounded, whatever the viewer sends, and while a connection moves the pointer
  relatively, its cursor is not drawn.
\<close>

lemma played_release [simp]: "played (release_keys ks s) = played s @ map EnUp ks"
  by (simp add: release_keys_def)

definition moves :: "input_state \<Rightarrow> (int \<times> int) set" where
  "moves s = {(x, y). MoveRelative x y \<in> set (played s)}"

lemma moves_ops [simp]:
  "moves (s\<lparr>latest_peer_input := p\<rparr>) = moves s" "moves (s\<lparr>relative_conns := cs\<rparr>) = moves s"
  "moves (release_keys ks s) = moves s" "moves (en_down e k s) = moves s" "moves (play [EnUp k] s) = moves s"
  by (auto simp: moves_def en_down_def)

lemma moves_fold: "(\<And>x s. moves (f x s) = moves s) \<Longrightarrow> moves (fold f xs s) = moves s"
  by (induction xs arbitrary: s) auto

lemma moves_fix [simp]: "moves (fix_modifiers e ms ck s) = moves s"
  unfolding fix_modifiers_def by (rule moves_fold) (simp add: fix_modifier_def split: prod.splits)

lemma moves_press: "press_for_click e vs (s, ks) = (s', ks') \<Longrightarrow> moves s' = moves s"
proof (induction e vs "(s, ks)" arbitrary: s ks rule: press_for_click.induct)
  case (2 e v vs s ks)
  then show ?case by (auto split: option.splits if_splits)
qed simp

lemma moves_play [simp]: "moves (play fx s) = moves s \<union> {(x, y). MoveRelative x y \<in> set fx}"
  by (auto simp: moves_def)

lemma moves_relative [simp]: "moves (set_relative_mouse_active c b s) = moves s"
  by (simp add: set_relative_mouse_active_def)

lemma clamped: "\<bar>clamp_delta d\<bar> \<le> 10000"
  by (simp add: clamp_delta_def)

definition small_moves :: "(int \<times> int) set" where
  "small_moves = {(x, y). \<bar>x\<bar> \<le> 10000 \<and> \<bar>y\<bar> \<le> 10000}"

lemma moves_action:
  "moves (mouse_action e now m conn s) \<subseteq> moves s \<union> small_moves"
proof -
  have move: "moves (play [MoveTo x y] s) = moves s" "moves (play [BtnDown b] s) = moves s"
    "moves (play [BtnUp b] s) = moves s"
    "moves (play ((if p then [ScrollY v] else []) @ (if q then [ScrollX w] else [])) s) = moves s" for x y b p q v w s
    by auto
  have rel: "moves (play [MoveRelative (clamp_delta x) (clamp_delta y)] s)
      \<subseteq> moves s \<union> small_moves" for x y s
    by (auto simp: clamped small_moves_def)
  note rel = rel [where s = "set_relative_mouse_active conn True s", simplified moves_relative]
  show ?thesis
    by (simp add: mouse_action_def Let_def move rel del: moves_play split: option.split)
qed

lemma relative_motion_bounded:
  "moves (handle_mouse e now m conn sim cur s) \<subseteq> moves s \<union> small_moves"
proof -
  have "moves (handle_mouse_simulation e now m conn s) \<subseteq> moves s \<union> small_moves"
  proof -
    obtain s' ks where pressed: "(if mouse_type m = 1
        then press_for_click e (im_modifiers m) (fix_modifiers e (im_modifiers m) 0 s, []) else (s, [])) = (s', ks)"
      by fastforce
    then have "moves s' = moves s" by (auto dest: moves_press split: if_splits)
    with pressed moves_action [of e now m conn s'] show ?thesis by (auto simp: handle_mouse_simulation_def)
  qed
  moreover have "moves (handle_mouse_show_cursor m conn s') = moves s'" for s'
    by (simp add: handle_mouse_show_cursor_def Let_def)
  ultimately show ?thesis by (simp add: handle_mouse_def Let_def)
qed

lemma relative_ops [simp]:
  "relative_conns (play fx s) = relative_conns s" "relative_conns (en_down e k s) = relative_conns s"
  "relative_conns (release_keys ks s) = relative_conns s"
  by (simp_all add: play_def en_down_def release_keys_def)

lemma relative_fold: "(\<And>x s. relative_conns (f x s) = relative_conns s) \<Longrightarrow> relative_conns (fold f xs s) = relative_conns s"
  by (induction xs arbitrary: s) auto

lemma relative_fix [simp]: "relative_conns (fix_modifiers e ms ck s) = relative_conns s"
  unfolding fix_modifiers_def by (rule relative_fold) (simp add: fix_modifier_def split: prod.splits)

lemma relative_press: "press_for_click e vs (s, ks) = (s', ks') \<Longrightarrow> relative_conns s' = relative_conns s"
proof (induction e vs "(s, ks)" arbitrary: s ks rule: press_for_click.induct)
  case (2 e v vs s ks)
  then show ?case by (auto split: option.splits if_splits)
qed simp

lemma relative_stays:
  assumes "is_relative_mouse_active conn s" "mouse_type m \<noteq> MOUSE_TYPE_MOVE"
  shows "is_relative_mouse_active conn (handle_mouse_simulation e now m conn s)"
proof -
  obtain s' ks where pressed: "(if mouse_type m = 1
      then press_for_click e (im_modifiers m) (fix_modifiers e (im_modifiers m) 0 s, []) else (s, [])) = (s', ks)"
    by fastforce
  then have "relative_conns s' = relative_conns s" by (auto dest: relative_press split: if_splits)
  with pressed assms show ?thesis
    by (simp add: handle_mouse_simulation_def mouse_action_def Let_def is_relative_mouse_active_def
        set_relative_mouse_active_def split: option.split)
qed

text \<open>While a connection moves the pointer relatively, no cursor is drawn for it.\<close>

lemma relative_mode_draws_no_cursor:
  "is_relative_mouse_active conn s \<Longrightarrow> mouse_type m \<noteq> MOUSE_TYPE_MOVE
    \<Longrightarrow> handle_mouse e now m conn sim cur s = handle_mouse e now m conn sim False s"
  using relative_stays [of conn s m e now] by (simp add: handle_mouse_def Let_def)

text \<open>
  The test for the right \<open>Alt\<close> key looks among the key codes of the system for the number that the
  protocol gives the key, which on X11 is the code of the key \<open>F9\<close>: holding \<open>F9\<close> keeps the host
  from pressing \<open>Alt\<close>, and holding the right \<open>Alt\<close> key does not.
\<close>

lemma altgr_is_another_key:
  "is_altgr_pressed e (sim_rdev_rawkey_position e now 75 True s)"
  "raw_keycode e 108 \<noteq> raw_keycode e 75
    \<Longrightarrow> is_altgr_pressed e (sim_rdev_rawkey_position e now 108 True s) = is_altgr_pressed e s"
  by (simp_all add: is_altgr_pressed_def sim_rdev_rawkey_position_def play_def record_pressed_key_def update_conv')

lemma lock_screen_leaves_no_key:
  assumes "is_x11 e" "held_recorded e {} s"
  shows "held_recorded e {} (lock_screen e now s)"
proof -
  define k where "k = \<lparr>ik_union = ChrEv 108, ik_mode = LegacyMode, ik_down = True, ik_modifiers = [CK_Meta]\<rparr>"
  have k: "known_key k" "known_key (k\<lparr>ik_down := False\<rparr>)" "left_by k = {}" by (simp_all add: k_def known_key_def left_by_def)
  from held_handle_key [OF held_handle_key [OF assms(2) k(1) assms(1)] k(2) assms(1)] show ?thesis
    by (simp add: lock_screen_def Let_def k_def [symmetric] k(3))
qed

text \<open>
  Buttons of the mouse are not recorded: the reset at the end of a session releases keys only, so a
  viewer that leaves with a button down leaves it down.
\<close>

definition button_effect :: "input_effect \<Rightarrow> mouse_button set \<Rightarrow> mouse_button set" where
  "button_effect f h = (case f of BtnDown b \<Rightarrow> insert b h | BtnUp b \<Rightarrow> h - {b} | _ \<Rightarrow> h)"

definition buttons_held :: "input_effect list \<Rightarrow> mouse_button set" where
  "buttons_held fx = fold button_effect fx {}"

lemma buttons_append [simp]: "buttons_held (a @ fx) = fold button_effect fx (buttons_held a)"
  by (simp add: buttons_held_def)

lemma button_stays_down:
  "buttons_held (played (fix_key_down_timeout e now force s)) = buttons_held (played s)"
proof -
  have "buttons_held (played (release_record_key e k (record_pressed_key k False now s))) = buttons_held (played s)" for k s
    by (simp add: release_record_key_def button_effect_def split: keys_down.split option.split)
  then have "buttons_held (played (fold (\<lambda>(k, t) s. if force \<or> now - t \<ge> 360000
      then release_record_key e k (record_pressed_key k False now s) else s) ks s)) = buttons_held (played s)" for ks s
    by (induction ks arbitrary: s) (simp_all add: case_prod_unfold)
  then show ?thesis by (simp add: fix_key_down_timeout_def)
qed

end
