(* ===== verification/Cursor.thy ===== *)
theory Cursor
  imports Service InputSafety
begin

text \<open>
  What the viewers see of the pointer (\<open>src/server/input_service.rs\<close>): the service of its shape with
  the cache that every subscriber keeps, the service of its position, and the service of the focused
  display. The system's answers (shape, position, focus) are arguments of each turn.
\<close>

section \<open>Data\<close>

datatype cursor_msg =
    NoUnion
  | CursorData nat bytes
  | CursorId nat
  | CursorPosition int int
  | FollowCurrentDisplay int

abbreviation (input) "INVALID_CURSOR_POS \<equiv> (- (2 ^ 31) :: int)"
abbreviation (input) "INVALID_DISPLAY_IDX \<equiv> (- 1 :: int)"

text \<open>The state of each callback.\<close>

record state_cursor =
  hcursor :: nat
  cursor_data :: cursor_msg
  cached_cursor_data :: "nat \<rightharpoonup> cursor_msg"

definition cursor_default :: state_cursor where
  "cursor_default = \<lparr>hcursor = 0, cursor_data = NoUnion, cached_cursor_data = Map.empty\<rparr>"

type_synonym state_pos = "int \<times> int"

definition pos_reset :: state_pos where
  "pos_reset = (INVALID_CURSOR_POS, INVALID_CURSOR_POS)"

definition pos_is_valid :: "state_pos \<Rightarrow> bool" where
  "pos_is_valid p = (fst p \<noteq> INVALID_CURSOR_POS)"

definition is_moved :: "int \<Rightarrow> int \<Rightarrow> state_pos \<Rightarrow> bool" where
  "is_moved x y p = (pos_is_valid p \<and> (fst p \<noteq> x \<or> snd p \<noteq> y))"

definition focus_default :: int where
  "focus_default = 0"

definition focus_reset :: int where
  "focus_reset = INVALID_DISPLAY_IDX"

definition focus_is_changed :: "int \<Rightarrow> int \<Rightarrow> bool" where
  "focus_is_changed i idx = (idx \<noteq> INVALID_DISPLAY_IDX \<and> idx \<noteq> i)"

section \<open>A subscriber of the shape\<close>

text \<open>\<open>MouseCursorSub::send\<close>: data that was sent before goes out as its number.\<close>

definition sub_send :: "cursor_msg \<Rightarrow> nat set \<Rightarrow> cursor_msg \<times> nat set" where
  "sub_send m cached =
     (case m of
        CursorData i d \<Rightarrow> if i \<in> cached then (CursorId i, cached) else (m, insert i cached)
      | _ \<Rightarrow> (m, cached))"

fun sub_sends :: "cursor_msg list \<Rightarrow> nat set \<Rightarrow> cursor_msg list \<times> nat set" where
  "sub_sends [] cached = ([], cached)"
| "sub_sends (m # ms) cached =
     (case sub_send m cached of
        (m, cached) \<Rightarrow> (case sub_sends ms cached of (ms, cached) \<Rightarrow> (m # ms, cached)))"

section \<open>The turns of the services\<close>

text \<open>
  \<open>run_cursor\<close>: \<open>cur\<close> is the answer of \<open>get_cursor\<close> (\<open>None\<close> for an error), \<open>data\<close> that of
  \<open>get_cursor_data\<close>. It returns whether the turn succeeded.
\<close>

definition run_cursor ::
    "(bytes \<Rightarrow> bytes) \<Rightarrow> nat option option \<Rightarrow> (nat \<Rightarrow> (nat \<times> bytes) option) \<Rightarrow> cursor_msg service \<times> state_cursor
       \<Rightarrow> bool \<times> cursor_msg service \<times> state_cursor" where
  "run_cursor compress cur data w =
     (case w of (sp, st) \<Rightarrow>
        (case cur of
           None \<Rightarrow> (False, sp, st)
         | Some None \<Rightarrow> (True, snapshot [cursor_data st] sp, st)
         | Some (Some h) \<Rightarrow>
             if h = hcursor st then (True, snapshot [cursor_data st] sp, st)
             else
               (case (case cached_cursor_data st h of
                        Some m \<Rightarrow> Some (m, st)
                      | None \<Rightarrow>
                          (case data h of
                             None \<Rightarrow> None
                           | Some (i, colors) \<Rightarrow>
                               let m = CursorData i (compress colors)
                               in Some (m, st\<lparr>cached_cursor_data := (cached_cursor_data st)(h \<mapsto> m)\<rparr>))) of
                  None \<Rightarrow> (False, sp, st)
                | Some (m, st) \<Rightarrow>
                    (True, snapshot [m] (send_shared m sp), st\<lparr>hcursor := h, cursor_data := m\<rparr>))))"

text \<open>\<open>StateCursor::reset\<close>, which also releases the keys of the viewers that have left.\<close>

definition cursor_reset :: "input_env \<Rightarrow> nat \<Rightarrow> state_cursor \<times> input_state \<Rightarrow> state_cursor \<times> input_state" where
  "cursor_reset e now st = (cursor_default, fix_key_down_timeout e now True (snd st))"

text \<open>
  \<open>run_pos\<close>: \<open>sys\<close> is the position noted last, \<open>peer\<close> the last input of a viewer; the viewer that moved
  the pointer within 300 milliseconds is left out.
\<close>

definition run_pos ::
    "int \<Rightarrow> int \<times> int \<Rightarrow> peer_cursor \<Rightarrow> cursor_msg service \<times> state_pos \<Rightarrow> cursor_msg service \<times> state_pos" where
  "run_pos now sys peer w =
     (case (sys, w) of ((x, y), (sp, st)) \<Rightarrow>
        if x = INVALID_CURSOR_POS \<or> y = INVALID_CURSOR_POS then (sp, st)
        else
          let sp = (if is_moved x y st
                    then send_without (CursorPosition x y) (if now - pc_time peer < 300 then pc_conn peer else 0) sp
                    else sp)
          in (snapshot [CursorPosition x y] sp, (x, y)))"

definition run_window_focus ::
    "nat \<Rightarrow> nat option \<Rightarrow> cursor_msg service \<times> int \<Rightarrow> cursor_msg service \<times> int" where
  "run_window_focus displays focused w =
     (case w of (sp, idx) \<Rightarrow>
        if displays \<le> 1 then (sp, idx)
        else (case focused of
                None \<Rightarrow> (sp, idx)
              | Some i \<Rightarrow>
                  (if focus_is_changed (int i) idx then send_shared (FollowCurrentDisplay (int i)) sp else sp, int i)))"

text \<open>The thread that notes the position of the pointer: it runs while a remote session is open.\<close>

record pos_recorder =
  recording :: bool
  noted_at :: "nat option"
  noted :: "int \<times> int"

definition update_last_cursor_pos :: "nat \<Rightarrow> int \<times> int \<Rightarrow> pos_recorder \<Rightarrow> pos_recorder" where
  "update_last_cursor_pos now p r = (if noted r \<noteq> p then r\<lparr>noted_at := Some now, noted := p\<rparr> else r)"

definition try_start_record_cursor_pos :: "pos_recorder \<Rightarrow> bool \<times> pos_recorder" where
  "try_start_record_cursor_pos r = (if recording r then (False, r) else (True, r\<lparr>recording := True\<rparr>))"

definition try_stop_record_cursor_pos :: "nat \<Rightarrow> pos_recorder \<Rightarrow> pos_recorder" where
  "try_stop_record_cursor_pos remote_count r = (if remote_count > 0 then r else r\<lparr>recording := False\<rparr>)"

definition record_turn :: "nat \<Rightarrow> (int \<times> int) option \<Rightarrow> pos_recorder \<Rightarrow> bool \<times> pos_recorder" where
  "record_turn now pos r =
     (if \<not> recording r then (False, update_last_cursor_pos now (INVALID_CURSOR_POS, INVALID_CURSOR_POS) r)
      else (True, case pos of Some p \<Rightarrow> update_last_cursor_pos now p r | None \<Rightarrow> r))"

section \<open>The shape at the viewers\<close>

text \<open>
  The viewer shows the data it gets and keeps it; a number stands for the data kept under it, as the
  protocol asks for.
\<close>

definition viewer_cursor :: "cursor_msg \<Rightarrow> (nat \<rightharpoonup> bytes) \<times> bytes option \<Rightarrow> (nat \<rightharpoonup> bytes) \<times> bytes option" where
  "viewer_cursor m v =
     (case m of
        CursorData i d \<Rightarrow> ((fst v)(i \<mapsto> d), Some d)
      | CursorId i \<Rightarrow> (fst v, fst v i)
      | _ \<Rightarrow> v)"

definition viewer_after :: "cursor_msg list \<Rightarrow> (nat \<rightharpoonup> bytes) \<times> bytes option" where
  "viewer_after wire = fold viewer_cursor wire (Map.empty, None)"

text \<open>The service with the caches of its subscribers and what went out to each connection.\<close>

record cursor_world =
  cw_sp :: "cursor_msg service"
  cw_state :: state_cursor
  cw_cached :: "int \<Rightarrow> nat set"
  cw_wire :: "int \<Rightarrow> cursor_msg list"

definition cursor_start :: cursor_world where
  "cursor_start = \<lparr>cw_sp = service_new ''mouse_cursor'' True, cw_state = cursor_default,
     cw_cached = (\<lambda>_. {}), cw_wire = (\<lambda>_. [])\<rparr>"

text \<open>What the service hands to a subscriber passes through its cache.\<close>

definition after_sends :: "cursor_msg service \<Rightarrow> state_cursor \<Rightarrow> cursor_world \<Rightarrow> cursor_world" where
  "after_sends sp st w =
     (let sent = (\<lambda>i. sub_sends (drop (length (inbox (cw_sp w) i)) (inbox sp i)) (cw_cached w i))
      in w\<lparr>cw_sp := sp, cw_state := st, cw_cached := (\<lambda>i. snd (sent i)),
           cw_wire := (\<lambda>i. cw_wire w i @ fst (sent i))\<rparr>)"

text \<open>
  The steps of the service: subscriptions, turns while there are subscribers, and the reset when there
  are none. The number in the data of a cursor is the one that was asked for, as the systems have it.
\<close>

inductive cursor_step :: "(bytes \<Rightarrow> bytes) \<Rightarrow> cursor_world \<Rightarrow> cursor_world \<Rightarrow> bool" for compress where
  sub: "cursor_step compress w
     (w\<lparr>cw_sp := on_subscribe i (cw_sp w),
        cw_cached := (if i \<in> subscribes (cw_sp w) then cw_cached w else (cw_cached w)(i := {}))\<rparr>)"
| unsub: "cursor_step compress w (w\<lparr>cw_sp := on_unsubscribe i (cw_sp w)\<rparr>)"
| turn: "has_subscribes (cw_sp w) \<Longrightarrow> (\<And>h i d. data h = Some (i, d) \<Longrightarrow> i = h)
    \<Longrightarrow> run_cursor compress cur data (cw_sp w, cw_state w) = (ok, sp, st)
    \<Longrightarrow> cursor_step compress w (after_sends sp st w)"
| reset: "\<not> has_subscribes (cw_sp w) \<Longrightarrow> cursor_step compress w (w\<lparr>cw_state := cursor_default\<rparr>)"

section \<open>Viewers show the pointer of the host\<close>

text \<open>One turn that ends with the message \<open>m\<close> as the current shape, new to the subscribers or not.\<close>

definition show_shape :: "bool \<Rightarrow> cursor_msg \<Rightarrow> cursor_msg service \<Rightarrow> cursor_msg service" where
  "show_shape changed m sp = snapshot [m] (if changed then send_shared m sp else sp)"

lemma show_shape_fields:
  "subscribes (show_shape ch m sp) = subscribes sp \<union> new_subscribes sp"
  "new_subscribes (show_shape ch m sp) = {}"
  "need_snapshot (show_shape ch m sp) = need_snapshot sp"
  by (auto simp: show_shape_def snapshot_def swap_new_subscribes_def send_new_subscribes_def send_shared_def deliver_def)

lemma show_shape_inbox:
  "service_inv sp \<Longrightarrow> inbox (show_shape ch m sp) i =
     inbox sp i @ (if i \<in> new_subscribes sp \<or> ch \<and> i \<in> subscribes sp then [m] else [])"
  by (auto simp: show_shape_def snapshot_def swap_new_subscribes_def send_new_subscribes_def send_shared_def
      deliver_def service_inv_def)

lemma run_cursor_cases:
  assumes "run_cursor compress cur data (sp, st) = (ok, sp', st')"
  obtains (failed) "\<not> ok" "sp' = sp" "st' = st"
  | (same) "ok" "sp' = show_shape False (cursor_data st) sp" "st' = st"
  | (known) h where "ok" "cur = Some (Some h)" "sp' = show_shape True (cursor_data st') sp"
      "cached_cursor_data st h = Some (cursor_data st')" "cached_cursor_data st' = cached_cursor_data st"
  | (fresh) h i d where "ok" "cur = Some (Some h)" "sp' = show_shape True (cursor_data st') sp"
      "cached_cursor_data st h = None" "data h = Some (i, d)" "cursor_data st' = CursorData i (compress d)"
      "cached_cursor_data st' = (cached_cursor_data st)(h \<mapsto> CursorData i (compress d))"
proof (cases "\<exists>h. cur = Some (Some h) \<and> h \<noteq> hcursor st")
  case False
  show thesis
  proof (cases cur)
    case None
    show ?thesis by (rule failed) (use assms None in \<open>auto simp: run_cursor_def\<close>)
  next
    case (Some c)
    with False have "(True, snapshot [cursor_data st] sp, st) = (ok, sp', st')"
      using assms by (cases c) (auto simp: run_cursor_def)
    then show ?thesis by (intro same) (auto simp: show_shape_def)
  qed
next
  case True
  then obtain h where h: "cur = Some (Some h)" "h \<noteq> hcursor st" by blast
  show thesis
  proof (cases "cached_cursor_data st h")
    case (Some m)
    show ?thesis by (rule known [of h]) (use assms h Some in \<open>auto simp: run_cursor_def show_shape_def\<close>)
  next
    case None
    show ?thesis
    proof (cases "data h")
      assume "data h = None"
      then show ?thesis by (intro failed) (use assms h None in \<open>auto simp: run_cursor_def\<close>)
    next
      fix x assume "data h = Some x"
      then show ?thesis
        by (intro fresh [of h "fst x" "snd x"]) (use assms h None in \<open>auto simp: run_cursor_def show_shape_def Let_def case_prod_unfold\<close>)
    qed
  qed
qed

text \<open>What a subscriber has been sent agrees with the cache of the service.\<close>

definition cache_agrees :: "state_cursor \<Rightarrow> nat set \<Rightarrow> (nat \<rightharpoonup> bytes) \<times> bytes option \<Rightarrow> bool" where
  "cache_agrees st c v \<longleftrightarrow> (\<forall>k \<in> c. \<exists>d. cached_cursor_data st k = Some (CursorData k d) \<and> fst v k = Some d)"

definition shows_shape :: "state_cursor \<Rightarrow> (nat \<rightharpoonup> bytes) \<times> bytes option \<Rightarrow> bool" where
  "shows_shape st v \<longleftrightarrow> (\<forall>k d. cursor_data st = CursorData k d \<longrightarrow> snd v = Some d)"

definition cursor_inv :: "cursor_world \<Rightarrow> bool" where
  "cursor_inv w \<longleftrightarrow>
     service_inv (cw_sp w) \<and> need_snapshot (cw_sp w)
     \<and> (\<forall>h m. cached_cursor_data (cw_state w) h = Some m \<longrightarrow> (\<exists>d. m = CursorData h d))
     \<and> (cursor_data (cw_state w) = NoUnion
        \<or> (\<exists>h. cached_cursor_data (cw_state w) h = Some (cursor_data (cw_state w))))
     \<and> (\<forall>i \<in> new_subscribes (cw_sp w). cw_cached w i = {})
     \<and> (\<forall>i \<in> subscribes (cw_sp w). cache_agrees (cw_state w) (cw_cached w i) (viewer_after (cw_wire w i))
          \<and> shows_shape (cw_state w) (viewer_after (cw_wire w i)))"

lemma viewer_after_append: "viewer_after (a @ b) = fold viewer_cursor b (viewer_after a)"
  by (simp add: viewer_after_def)

text \<open>A shape that the service has cached reaches the screen through the cache of the subscriber.\<close>

lemma sent_shape_shows:
  assumes "cache_agrees st c v" "m = NoUnion \<or> (\<exists>h d. m = CursorData h d \<and> cached_cursor_data st h = Some m)"
    and "sub_sends [m] c = (ms, c')" "cursor_data st = m"
  shows "cache_agrees st c' (fold viewer_cursor ms v) \<and> shows_shape st (fold viewer_cursor ms v)"
proof (cases m)
  case (CursorData h d)
  with assms(1) have "fst v h = Some d" if "h \<in> c"
    using that assms(2) by (auto simp: cache_agrees_def)
  with CursorData assms show ?thesis
    by (auto simp: sub_send_def viewer_cursor_def cache_agrees_def shows_shape_def split: if_splits)
qed (use assms in \<open>auto simp: sub_send_def viewer_cursor_def shows_shape_def\<close>)

lemma cache_agrees_grows:
  "cache_agrees st c v \<Longrightarrow> cached_cursor_data st \<subseteq>\<^sub>m cached_cursor_data st' \<Longrightarrow> cache_agrees st' c v"
  by (fastforce simp: cache_agrees_def map_le_def dom_def)

lemma cache_agrees_empty [simp]: "cache_agrees st {} v"
  by (simp add: cache_agrees_def)

lemma turn_keeps_inv:
  assumes inv: "cursor_inv w"
    and grows: "cached_cursor_data (cw_state w) \<subseteq>\<^sub>m cached_cursor_data st"
    and keyed: "\<forall>h m. cached_cursor_data st h = Some m \<longrightarrow> (\<exists>d. m = CursorData h d)"
    and m: "cursor_data st = NoUnion \<or> (\<exists>h. cached_cursor_data st h = Some (cursor_data st))"
    and same: "\<not> ch \<Longrightarrow> cursor_data st = cursor_data (cw_state w)"
  shows "cursor_inv (after_sends (show_shape ch (cursor_data st) (cw_sp w)) st w)"
proof -
  let ?sp = "show_shape ch (cursor_data st) (cw_sp w)"
  let ?w = "after_sends ?sp st w"
  have si: "service_inv (cw_sp w)" using inv by (simp add: cursor_inv_def)
  have m': "cursor_data st = NoUnion \<or> (\<exists>h d. cursor_data st = CursorData h d \<and> cached_cursor_data st h = Some (cursor_data st))"
    using m keyed by fastforce
  have sub: "cache_agrees st (cw_cached ?w i) (viewer_after (cw_wire ?w i)) \<and> shows_shape st (viewer_after (cw_wire ?w i))"
    if i: "i \<in> subscribes ?sp" for i
  proof -
    have agrees: "cache_agrees st (cw_cached w i) (viewer_after (cw_wire w i))"
      using i inv grows by (auto simp: show_shape_fields cursor_inv_def intro: cache_agrees_grows)
    show ?thesis
    proof (cases "i \<in> new_subscribes (cw_sp w) \<or> ch \<and> i \<in> subscribes (cw_sp w)")
      case True
      obtain ms c' where sent: "sub_sends [cursor_data st] (cw_cached w i) = (ms, c')" by fastforce
      from sent_shape_shows [OF agrees m' sent refl] True sent show ?thesis
        by (simp add: after_sends_def show_shape_inbox [OF si] viewer_after_append Let_def)
    next
      case False
      with i have "i \<in> subscribes (cw_sp w)" "\<not> ch" by (auto simp: show_shape_fields)
      with inv same have "shows_shape st (viewer_after (cw_wire w i))"
        by (simp add: cursor_inv_def shows_shape_def)
      with agrees False \<open>\<not> ch\<close> show ?thesis by (simp add: after_sends_def show_shape_inbox [OF si] Let_def)
    qed
  qed
  have "service_inv ?sp" "need_snapshot ?sp"
    using inv by (auto simp: cursor_inv_def service_inv_def show_shape_fields)
  with keyed m sub show ?thesis
    by (simp add: cursor_inv_def after_sends_def Let_def show_shape_fields)
qed

lemma no_sends [simp]: "after_sends (cw_sp w) (cw_state w) w = w"
  by (simp add: after_sends_def Let_def)

lemma cursor_step_inv:
  assumes "cursor_step compress w w'" "cursor_inv w"
  shows "cursor_inv w'"
  using assms
proof cases
  case (sub i)
  with assms(2) show ?thesis
    by (auto simp: cursor_inv_def on_subscribe_def service_inv_def)
next
  case (unsub i)
  with assms(2) show ?thesis
    by (auto simp: cursor_inv_def on_unsubscribe_def service_inv_def)
next
  case (turn data cur ok sp st)
  note inv = assms(2)
  from turn(4) show ?thesis
  proof (cases rule: run_cursor_cases)
    case failed
    with inv turn(1) show ?thesis by simp
  next
    case same
    with turn_keeps_inv [OF inv, of st False] inv turn(1) show ?thesis by (simp add: cursor_inv_def)
  next
    case (known h)
    have "cursor_inv (after_sends (show_shape True (cursor_data st) (cw_sp w)) st w)"
      by (rule turn_keeps_inv [OF inv]) (use known inv in \<open>auto simp: cursor_inv_def\<close>)
    with known turn(1) show ?thesis by simp
  next
    case (fresh h i d)
    have "i = h" using turn(3) fresh(5) by blast
    have "cursor_inv (after_sends (show_shape True (cursor_data st) (cw_sp w)) st w)"
      by (rule turn_keeps_inv [OF inv])
        (use fresh \<open>i = h\<close> inv in \<open>auto simp: cursor_inv_def map_le_def\<close>)
    with fresh turn(1) show ?thesis by simp
  qed
next
  case reset
  with assms(2) show ?thesis
    by (auto simp: cursor_inv_def cursor_default_def has_subscribes_def)
qed

lemma cursor_start_inv: "cursor_inv cursor_start"
  by (simp add: cursor_inv_def cursor_start_def cursor_default_def service_inv_def service_new_def)

text \<open>
  C27. Every viewer that is subscribed to the shape of the pointer shows the shape the host has, however
  viewers come, go and come back, whatever turns fail, and although each shape is sent to a viewer only
  once: the caches of the service, of each subscriber and of the viewer agree.
\<close>

theorem viewers_show_the_cursor:
  assumes "(cursor_step compress)\<^sup>*\<^sup>* cursor_start w" "i \<in> subscribes (cw_sp w)"
    and "cursor_data (cw_state w) = CursorData k d"
  shows "snd (viewer_after (cw_wire w i)) = Some d"
proof -
  from assms(1) have "cursor_inv w"
    by (induction rule: rtranclp_induct) (auto intro: cursor_start_inv cursor_step_inv)
  with assms(2,3) show ?thesis by (simp add: cursor_inv_def shows_shape_def)
qed

definition demo_viewer :: cursor_world where
  "demo_viewer = cursor_start\<lparr>cw_sp := on_subscribe 3 (cw_sp cursor_start)\<rparr>"

definition demo_shape :: "nat \<Rightarrow> (nat \<times> bytes) option" where
  "demo_shape h = Some (h, [1, 2])"

definition demo_shown :: cursor_world where
  "demo_shown = (case run_cursor id (Some (Some 7)) demo_shape (cw_sp demo_viewer, cw_state demo_viewer) of
     (ok, sp, st) \<Rightarrow> after_sends sp st demo_viewer)"

lemma demo_shown_reached: "(cursor_step id)\<^sup>*\<^sup>* cursor_start demo_shown"
proof -
  obtain ok sp st where run: "run_cursor id (Some (Some 7)) demo_shape (cw_sp demo_viewer, cw_state demo_viewer) = (ok, sp, st)"
    using prod_cases3 by blast
  have "cursor_step id cursor_start demo_viewer"
    using cursor_step.sub [of id cursor_start 3]
    by (simp add: demo_viewer_def cursor_start_def service_new_def fun_upd_idem)
  moreover have "cursor_step id demo_viewer demo_shown"
    using cursor_step.turn [OF _ _ run]
    by (simp add: demo_shown_def run demo_shape_def) (simp add: demo_viewer_def cursor_start_def service_new_def
        on_subscribe_def has_subscribes_def)
  ultimately show ?thesis by (meson converse_rtranclp_into_rtranclp rtranclp.rtrancl_refl)
qed

lemma demo_shown_fields:
  "subscribes (cw_sp demo_shown) = {3}" "cursor_data (cw_state demo_shown) = CursorData 7 [1, 2]"
  by (simp_all add: demo_shown_def demo_viewer_def run_cursor_def demo_shape_def cursor_start_def cursor_default_def
      service_new_def on_subscribe_def snapshot_def send_shared_def deliver_def after_sends_def Let_def
      swap_new_subscribes_def send_new_subscribes_def)

theorem viewers_show_the_cursor_witness: "snd (viewer_after (cw_wire demo_shown 3)) = Some [1, 2]"
  by (rule viewers_show_the_cursor [OF demo_shown_reached, where k = 7]) (simp_all add: demo_shown_fields)

text \<open>A turn that succeeds leaves the service with the shape the system has.\<close>

lemma shape_is_current:
  assumes "run_cursor compress (Some (Some h)) data (sp, st) = (True, sp', st')"
  shows "hcursor st' = h \<and> (h \<noteq> hcursor st \<longrightarrow> cached_cursor_data st' h = Some (cursor_data st'))"
  using assms by (auto simp: run_cursor_def Let_def split: option.splits if_splits)

section \<open>The position and the focus\<close>

text \<open>
  The position goes to every subscriber but the viewer that moved the pointer, and only when it has
  moved; the service takes no snapshots, so a viewer that joins is told at the next motion.
\<close>

lemma run_pos_sends:
  assumes "service_inv sp" "\<not> need_snapshot sp" "x \<noteq> INVALID_CURSOR_POS" "y \<noteq> INVALID_CURSOR_POS"
    and "run_pos now (x, y) peer (sp, st) = (sp', st')"
  shows "st' = (x, y)"
    and "inbox sp' i = inbox sp i @
      (if i \<in> subscribes sp \<and> is_moved x y st \<and> \<not> (now - pc_time peer < 300 \<and> i = pc_conn peer)
          \<and> (now - pc_time peer < 300 \<or> i \<noteq> 0)
       then [CursorPosition x y] else [])"
  using assms by (auto simp: run_pos_def snapshot_def send_without_def deliver_def service_inv_def Let_def)

text \<open>
  What the viewer that moved the pointer was spared is not made up for: once the pointer rests, nothing
  is sent, even if the host had moved it elsewhere.
\<close>

lemma resting_pointer_is_not_sent:
  assumes "service_inv sp" "\<not> need_snapshot sp" "x \<noteq> INVALID_CURSOR_POS" "y \<noteq> INVALID_CURSOR_POS"
  shows "run_pos now' (x, y) peer' (run_pos now (x, y) peer (sp, st)) = run_pos now (x, y) peer (sp, st)"
  using assms
  by (auto simp: run_pos_def snapshot_def send_without_def deliver_def service_inv_def Let_def is_moved_def)

text \<open>
  The state of the focus service starts with the first display and is reset to no display: only after
  a reset does the first turn keep quiet.
\<close>

lemma first_focus:
  "run_window_focus 2 (Some 1) (sp, focus_default) = (send_shared (FollowCurrentDisplay 1) sp, 1)"
  "run_window_focus 2 (Some 1) (sp, focus_reset) = (sp, 1)"
  by (simp_all add: run_window_focus_def focus_is_changed_def focus_default_def focus_reset_def)

text \<open>When the last remote session has gone, the recorder stops and no position is sent any more.\<close>

lemma stopped_recorder_is_silent:
  assumes "record_turn now pos (try_stop_record_cursor_pos 0 r) = (goes_on, r')"
  shows "\<not> goes_on" "run_pos now' (noted r') peer (sp, st) = (sp, st)"
  using assms
  by (auto simp: record_turn_def try_stop_record_cursor_pos_def update_last_cursor_pos_def run_pos_def split: if_splits)

end
