(* ===== verification/Displays.thy ===== *)
theory Displays
  imports Service "HOL-Library.AList"
begin

text \<open>
  The displays of the host (\<open>src/server/display_service.rs\<close>): the list that the viewers are told, the
  service that tells them, and the resolutions that viewers have changed. The displays of the system
  are an argument of the functions that ask for them; in an X11 session their scale is one. Displays of
  Wayland come from its own module and are not refreshed here.
\<close>

section \<open>Data\<close>

record display_info =
  d_x :: int
  d_y :: int
  d_width :: int
  d_height :: int
  d_name :: string
  d_online :: bool
  d_original :: "int \<times> int"

text \<open>A display as the system has it.\<close>

record sys_display =
  sys_origin :: "int \<times> int"
  sys_width :: nat
  sys_height :: nat
  sys_name :: string
  sys_online :: bool

text \<open>\<open>SYNC_DISPLAYS\<close>, the flag to ignore changes, and \<open>CHANGED_RESOLUTIONS\<close> with original and last change.\<close>

record display_state =
  displays :: "display_info list"
  is_synced :: bool
  temp_ignore :: bool
  changed_resolutions :: "(string \<times> ((int \<times> int) \<times> (int \<times> int))) list"

definition display_start :: display_state where
  "display_start = \<lparr>displays = [], is_synced = False, temp_ignore = False, changed_resolutions = []\<rparr>"

section \<open>The list of displays\<close>

definition set_displays :: "display_info list \<Rightarrow> display_state \<Rightarrow> display_state" where
  "set_displays ds s = s\<lparr>displays := ds, is_synced := (if temp_ignore s then is_synced s else False)\<rparr>"

definition check_changed :: "display_info list \<Rightarrow> display_state \<Rightarrow> display_state" where
  "check_changed ds s =
     (if length (displays s) \<noteq> length ds then set_displays ds s
      else if list_ex (\<lambda>(d, d'). d \<noteq> d') (zip ds (displays s)) then set_displays ds s
      else s)"

definition get_update_sync_displays :: "display_state \<Rightarrow> display_info list option \<times> display_state" where
  "get_update_sync_displays s =
     (if is_synced s then (None, s) else (Some (displays s), s\<lparr>is_synced := True\<rparr>))"

text \<open>\<open>temp_ignore_displays_changed\<close>, and what its guard does when it is dropped.\<close>

definition temp_ignore_displays_changed :: "display_state \<Rightarrow> display_state" where
  "temp_ignore_displays_changed s = s\<lparr>temp_ignore := True\<rparr>"

definition end_ignore_displays_changed :: "display_state \<Rightarrow> display_state" where
  "end_ignore_displays_changed s = s\<lparr>temp_ignore := False, is_synced := False\<rparr>"

definition check_display_changed ::
    "bool \<Rightarrow> nat \<Rightarrow> nat \<Rightarrow> int \<times> int \<times> nat \<times> nat \<Rightarrow> display_state \<Rightarrow> display_info option" where
  "check_display_changed x11 ndisplay idx area s =
     (if \<not> x11 then None
      else if length (displays s) \<le> idx then None
      else
        let d = displays s ! idx
        in (if ndisplay \<noteq> length (displays s) then Some d
            else if \<not> (case area of (x, y, w, h) \<Rightarrow> d_x d = x \<and> d_y d = y \<and> d_width d = int w \<and> d_height d = int h)
            then Some d else None))"

section \<open>Resolutions\<close>

definition set_last_changed_resolution ::
    "string \<Rightarrow> int \<times> int \<Rightarrow> int \<times> int \<Rightarrow> display_state \<Rightarrow> display_state" where
  "set_last_changed_resolution name original changed s =
     (case map_of (changed_resolutions s) name of
        Some (o', c) \<Rightarrow> s\<lparr>changed_resolutions := AList.update name (o', changed) (changed_resolutions s)\<rparr>
      | None \<Rightarrow> s\<lparr>changed_resolutions := AList.update name (original, changed) (changed_resolutions s)\<rparr>)"

text \<open>\<open>restore_resolutions\<close> gives the resolutions it asks the system for.\<close>

definition restore_resolutions :: "display_state \<Rightarrow> (string \<times> (int \<times> int)) list \<times> display_state" where
  "restore_resolutions s =
     (map (\<lambda>(name, (original, changed)). (name, original)) (changed_resolutions s), s\<lparr>changed_resolutions := []\<rparr>)"

definition get_original_resolution :: "display_state \<Rightarrow> string \<Rightarrow> nat \<Rightarrow> nat \<Rightarrow> int \<times> int" where
  "get_original_resolution s name w h =
     (case map_of (changed_resolutions s) name of Some (original, changed) \<Rightarrow> original | None \<Rightarrow> (int w, int h))"

definition display_info_of :: "display_state \<Rightarrow> sys_display \<Rightarrow> display_info" where
  "display_info_of s d =
     \<lparr>d_x = fst (sys_origin d), d_y = snd (sys_origin d), d_width = int (sys_width d), d_height = int (sys_height d),
      d_name = sys_name d, d_online = sys_online d,
      d_original = get_original_resolution s (sys_name d) (sys_width d) (sys_height d)\<rparr>"

definition check_update_displays :: "sys_display list \<Rightarrow> display_state \<Rightarrow> display_state" where
  "check_update_displays all s = check_changed (map (display_info_of s) all) s"

text \<open>The answer of the system may be an error, \<open>None\<close>.\<close>

definition check_displays_changed :: "bool \<Rightarrow> sys_display list option \<Rightarrow> display_state \<Rightarrow> bool \<times> display_state" where
  "check_displays_changed x11 all s =
     (if \<not> x11 then (True, s)
      else (case all of None \<Rightarrow> (False, s) | Some ds \<Rightarrow> (True, check_update_displays ds s)))"

definition update_get_sync_displays_on_login ::
    "sys_display list option \<Rightarrow> display_state \<Rightarrow> display_info list option \<times> display_state" where
  "update_get_sync_displays_on_login all s =
     (case all of
        None \<Rightarrow> (None, s)
      | Some ds \<Rightarrow> let s = check_update_displays ds s in (Some (displays s), s))"

section \<open>The service\<close>

definition check_get_displays_changed_msg ::
    "bool \<Rightarrow> sys_display list option \<Rightarrow> display_state \<Rightarrow> display_info list option \<times> display_state" where
  "check_get_displays_changed_msg x11 all s =
     (if \<not> x11 then get_update_sync_displays s
      else (case all of
              None \<Rightarrow> (None, s)
            | Some ds \<Rightarrow> get_update_sync_displays (check_update_displays ds s)))"

text \<open>
  One turn of \<open>run\<close>, whose messages are the lists of displays: whether the loop goes on. When somebody
  new has subscribed, the loop ends with an error after the swap, and the service starts it again.
\<close>

definition display_turn ::
    "bool \<Rightarrow> sys_display list option \<Rightarrow> display_info list service \<times> display_state
       \<Rightarrow> bool \<times> display_info list service \<times> display_state" where
  "display_turn x11 all w =
     (case w of (sp, s) \<Rightarrow>
        if new_subscribes sp \<noteq> {} \<and> \<not> temp_ignore s \<and> has_subscribes sp then
          (False, swap_new_subscribes sp, s\<lparr>is_synced := False\<rparr>)
        else
          let sp = snapshot [] sp
          in (case check_get_displays_changed_msg x11 all s of
                (None, s) \<Rightarrow> (True, sp, s)
              | (Some ds, s) \<Rightarrow> (True, send_shared ds sp, s)))"

section \<open>What the viewers know\<close>

text \<open>Everything that changes the list or the service.\<close>

inductive display_step :: "display_info list service \<times> display_state \<Rightarrow> display_info list service \<times> display_state \<Rightarrow> bool" where
  "display_step (sp, s) (on_subscribe i sp, s)"
| "display_step (sp, s) (on_unsubscribe i sp, s)"
| "display_turn x11 all (sp, s) = (goes_on, sp', s') \<Longrightarrow> display_step (sp, s) (sp', s')"
| "check_displays_changed x11 all s = (ok, s') \<Longrightarrow> display_step (sp, s) (sp, s')"
| "update_get_sync_displays_on_login all s = (ds, s') \<Longrightarrow> display_step (sp, s) (sp, s')"
| "display_step (sp, s) (sp, temp_ignore_displays_changed s)"
| "display_step (sp, s) (sp, end_ignore_displays_changed s)"
| "display_step (sp, s) (sp, set_last_changed_resolution name original changed s)"
| "restore_resolutions s = (rs, s') \<Longrightarrow> display_step (sp, s) (sp, s')"

definition display_service_new :: "display_info list service" where
  "display_service_new = service_new ''display'' True"

definition told :: "display_info list service \<Rightarrow> int \<Rightarrow> display_info list option" where
  "told sp i = (if inbox sp i = [] then None else Some (last (inbox sp i)))"

text \<open>While the list counts as told and changes are not ignored, every subscriber has been told it.\<close>

definition all_told :: "display_info list service \<times> display_state \<Rightarrow> bool" where
  "all_told w \<longleftrightarrow> (case w of (sp, s) \<Rightarrow>
     service_inv sp \<and> need_snapshot sp
     \<and> (is_synced s \<and> \<not> temp_ignore s \<longrightarrow> (\<forall>i \<in> subscribes sp. told sp i = Some (displays s))))"

lemma check_changed_list: "displays (check_changed ds s) = ds"
  "check_changed ds s = s \<or> (\<not> temp_ignore s \<longrightarrow> \<not> is_synced (check_changed ds s))"
  "temp_ignore (check_changed ds s) = temp_ignore s"
proof -
  have "ds = displays s" if "length (displays s) = length ds" "\<not> list_ex (\<lambda>(d, d'). d \<noteq> d') (zip ds (displays s))"
    using that by (intro nth_equalityI) (auto simp: list_ex_iff set_zip)
  then show "displays (check_changed ds s) = ds"
    by (auto simp: check_changed_def set_displays_def)
qed (auto simp: check_changed_def set_displays_def)

lemma told_check_changed: "all_told (sp, s) \<Longrightarrow> all_told (sp, check_changed ds s)"
  using check_changed_list(2) [of ds s] check_changed_list(3) [of ds s] by (auto simp: all_told_def)

lemma told_sends:
  assumes "service_inv sp" "need_snapshot sp"
  shows "all_told (send_shared (displays s) sp, s\<lparr>is_synced := True\<rparr>)"
  using assms by (auto simp: all_told_def send_shared_def told_def deliver_def service_inv_def)

lemma told_message:
  assumes "all_told (sp, s)" "get_update_sync_displays s = (m, s')"
  shows "all_told ((case m of None \<Rightarrow> sp | Some ds \<Rightarrow> send_shared ds sp), s')"
  using assms told_sends [of sp s]
  by (auto simp: get_update_sync_displays_def all_told_def split: if_splits)

lemma told_swap: "all_told (sp, s) \<Longrightarrow> temp_ignore s \<or> new_subscribes sp = {} \<Longrightarrow> all_told (snapshot [] sp, s)"
  by (auto simp: all_told_def snapshot_def service_inv_ops swap_new_subscribes_def service_inv_def)

lemma told_fields [simp]:
  "told (sp\<lparr>subscribes := x\<rparr>) i = told sp i" "told (sp\<lparr>new_subscribes := x\<rparr>) i = told sp i"
  by (simp_all add: told_def)

lemma message_source:
  assumes "check_get_displays_changed_msg x11 all s = (m, s')"
  shows "m = None \<and> s' = s
    \<or> (\<exists>s0. (s0 = s \<or> (\<exists>ds. s0 = check_changed ds s)) \<and> get_update_sync_displays s0 = (m, s'))"
proof (cases x11)
  case True
  with assms show ?thesis
    by (cases all) (auto simp: check_get_displays_changed_msg_def check_update_displays_def)
qed (use assms in \<open>auto simp: check_get_displays_changed_msg_def\<close>)

lemma display_step_told: "display_step w w' \<Longrightarrow> all_told w \<Longrightarrow> all_told w'"
proof (induction rule: display_step.induct)
  case (3 x11 all sp s goes_on sp' s')
  show ?case
  proof (cases "new_subscribes sp \<noteq> {} \<and> \<not> temp_ignore s \<and> has_subscribes sp")
    case True
    with 3 show ?thesis
      by (auto simp: display_turn_def all_told_def service_inv_def swap_new_subscribes_def)
  next
    case False
    then have swapped: "all_told (snapshot [] sp, s)"
      using 3(2) by (intro told_swap) (auto simp: has_subscribes_def)
    obtain m s2 where m: "check_get_displays_changed_msg x11 all s = (m, s2)" by fastforce
    from message_source [OF m] consider "m = None" "s2 = s"
      | s0 where "all_told (snapshot [] sp, s0)" "get_update_sync_displays s0 = (m, s2)"
      using swapped told_check_changed [OF swapped] by metis
    then have "all_told ((case m of None \<Rightarrow> snapshot [] sp | Some ds \<Rightarrow> send_shared ds (snapshot [] sp)), s2)"
    proof cases
      case 1
      with swapped show ?thesis by simp
    next
      case 2
      then show ?thesis by (rule told_message)
    qed
    with False m 3(1) show ?thesis
      by (auto simp: display_turn_def Let_def split: option.splits if_splits)
  qed
next
  case (4 x11 all s ok s' sp)
  then show ?case
    by (auto simp: check_displays_changed_def check_update_displays_def told_check_changed split: if_splits option.splits)
next
  case (5 all s ds s' sp)
  then show ?case
    by (auto simp: update_get_sync_displays_on_login_def check_update_displays_def Let_def told_check_changed
        split: option.splits)
qed (auto simp: all_told_def on_subscribe_def on_unsubscribe_def service_inv_def temp_ignore_displays_changed_def
    end_ignore_displays_changed_def set_last_changed_resolution_def restore_resolutions_def split: option.splits)

lemma told_start: "all_told (display_service_new, display_start)"
  by (simp add: all_told_def display_service_new_def display_start_def service_new_def service_inv_def)

text \<open>
  C18. Whatever happened before, when viewers came and went, sessions were opened, displays were plugged
  in and out and resolutions were changed, a turn of the service that succeeds leaves every subscriber
  told the displays that the system has, with their original resolutions.
\<close>

theorem viewers_know_the_displays:
  assumes "display_step\<^sup>*\<^sup>* (display_service_new, display_start) (sp, s)" "\<not> temp_ignore s"
    and turn: "display_turn True (Some ds) (sp, s) = (True, sp', s')" and "i \<in> subscribes sp'"
  shows "told sp' i = Some (map (display_info_of s) ds) \<and> displays s' = map (display_info_of s) ds"
proof -
  have "all_told (sp, s)"
    using assms(1) by (induction rule: rtranclp_induct) (auto intro: told_start display_step_told)
  then have told: "all_told (sp', s')" by (rule display_step_told [OF display_step.intros(3) [OF turn]])
  have "s' = (check_update_displays ds s)\<lparr>is_synced := True\<rparr>"
    using turn assms(2)
    by (auto simp: display_turn_def check_get_displays_changed_msg_def get_update_sync_displays_def Let_def
        split: if_splits)
  then have "is_synced s'" "\<not> temp_ignore s'" "displays s' = map (display_info_of s) ds"
    using assms(2) by (simp_all add: check_update_displays_def check_changed_list)
  with told assms(4) show ?thesis by (simp add: all_told_def)
qed

definition demo_display :: "nat \<Rightarrow> sys_display" where
  "demo_display w = \<lparr>sys_origin = (0, 0), sys_width = w, sys_height = 1080, sys_name = ''DP-1'', sys_online = True\<rparr>"

text \<open>The first turn with a new subscriber fails, and the second one tells it.\<close>

definition demo_told :: "display_info list service \<times> display_state" where
  "demo_told = snd (display_turn True (Some [demo_display 1920])
     (swap_new_subscribes (on_subscribe 4 display_service_new), display_start))"

theorem viewers_know_the_displays_witness:
  "told (fst demo_told) 4 = Some [display_info_of display_start (demo_display 1920)]"
proof -
  let ?sp1 = "on_subscribe 4 display_service_new"
  let ?sp2 = "swap_new_subscribes ?sp1"
  have turn1: "display_turn True (Some [demo_display 1920]) (?sp1, display_start) = (False, ?sp2, display_start)"
    by (simp add: display_turn_def display_service_new_def service_new_def on_subscribe_def display_start_def
        has_subscribes_def)
  have reach: "display_step\<^sup>*\<^sup>* (display_service_new, display_start) (?sp2, display_start)"
    using display_step.intros(1) [of display_service_new display_start 4] display_step.intros(3) [OF turn1]
    by (meson converse_rtranclp_into_rtranclp rtranclp.rtrancl_refl)
  have sp2: "new_subscribes ?sp2 = {}" "subscribes ?sp2 = {4}" "\<not> temp_ignore display_start" "\<not> is_synced display_start"
    by (simp_all add: display_service_new_def service_new_def on_subscribe_def swap_new_subscribes_def display_start_def)
  have turn2: "display_turn True (Some [demo_display 1920]) (?sp2, display_start) = (True, fst demo_told, snd demo_told)"
    using sp2 by (simp add: demo_told_def display_turn_def Let_def case_prod_unfold split: option.split)
  have "4 \<in> subscribes (fst demo_told)"
    using sp2 by (simp add: demo_told_def display_turn_def Let_def case_prod_unfold snapshot_def send_shared_def
        split: option.split)
  from viewers_know_the_displays [OF reach sp2(3) turn2 this] show ?thesis by simp
qed

text \<open>
  A viewer that subscribes while changes are ignored is swapped in without the list; it is told when
  the ignoring ends, which forgets that the list was told.
\<close>

lemma end_of_ignoring_tells:
  assumes "new_subscribes sp = {}" "display_turn x11 (Some all) (sp, end_ignore_displays_changed s) = (goes_on, sp', s')"
  shows "goes_on \<and> sp' = send_shared (displays s') sp"
  using assms check_changed_list(2)
  by (auto simp: display_turn_def end_ignore_displays_changed_def snapshot_def check_get_displays_changed_msg_def
      get_update_sync_displays_def check_update_displays_def check_changed_def set_displays_def Let_def
      split: if_splits)

text \<open>
  Resolutions are restored to what they were before the first change, however often a viewer has changed
  them.
\<close>

definition first_resolution :: "display_state \<Rightarrow> string \<Rightarrow> (int \<times> int) option" where
  "first_resolution s n = map_option fst (map_of (changed_resolutions s) n)"

lemma first_resolution_kept:
  "first_resolution (set_last_changed_resolution name original changed s) n =
     (if first_resolution s n = None \<and> n = name then Some original else first_resolution s n)"
  by (cases original) (auto simp: first_resolution_def set_last_changed_resolution_def update_conv' split: option.splits)

lemma first_resolution_is_restored:
  "map_of (fst (restore_resolutions (fold (\<lambda>(n, o', c). set_last_changed_resolution n o' c) cs s))) n =
     (if first_resolution s n = None then map_of (map (\<lambda>(n, o', c). (n, o')) cs) n else first_resolution s n)"
proof -
  have restored: "map_of (fst (restore_resolutions s)) n = first_resolution s n" for s
  proof -
    have "map_of (map (\<lambda>(name, original, changed). (name, original)) xs) n = map_option fst (map_of xs n)" for xs
      by (induction xs) auto
    then show ?thesis by (simp add: restore_resolutions_def first_resolution_def)
  qed
  show ?thesis
    unfolding restored by (induction cs arbitrary: s) (auto simp: first_resolution_kept)
qed

end
