(* ===== verification/VideoService.thy ===== *)
theory VideoService
  imports VideoQos Displays
begin

text \<open>
  The service that sends the frames of a display or camera (\<open>src/server/video_service.rs\<close>): the loop of
  \<open>run\<close> turn by turn, the encoder it shares among its viewers, the wait until they have fetched a
  frame, and the screenshots. Capturer and encoder are known by their answers; an encoder produces the
  frames 0, 1, 2 and so on, of which the first stands alone and every other one needs the one before.
  The branches for Windows and Android are not modelled.
\<close>

section \<open>Data\<close>

datatype video_msg =
    VideoFrame nat nat
  | SwitchDisplayMsg nat display_info
  | PrvOnByOther

text \<open>Why \<open>run\<close> ends: \<open>bail!("SWITCH")\<close>, another error, or a panic.\<close>

datatype run_error = Switch | Failed string | Panicked

datatype capture = CapFrame bool "string + unit" "string + unit" | WouldBlock | CapError string

text \<open>What does not change during one \<open>run\<close>.\<close>

record video_env =
  ve_monitor :: bool
  ve_idx :: nat
  ve_name :: string
  ve_x11 :: bool
  ve_ndisplay :: nat
  ve_area :: "int \<times> int \<times> nat \<times> nat"
  ve_privacy :: int
  ve_latency_free :: bool
  ve_hardware :: bool
  ve_changing_quality :: bool
  ve_bitrate :: "rat \<Rightarrow> nat"
  ve_client_record :: bool

text \<open>The local variables of \<open>run\<close> with the encoder and the frame controller.\<close>

record video_run =
  enc :: nat
  next_frame :: nat
  enc_disabled :: bool
  first_frame :: bool
  encode_fail_counter :: nat
  repeat_encode_counter :: nat
  yuv_filled :: bool
  frames_sent :: nat
  second_instant :: nat
  run_quality :: rat
  run_spf :: rat
  last_check_displays :: nat
  send_conn_ids :: "int set"

text \<open>The globals: notifiers, viewers of the current frame, screenshots, quality control.\<close>

record video_shared =
  frame_fetched :: "nat \<rightharpoonup> int list"
  display_conn_ids :: "nat \<rightharpoonup> int set"
  screenshots :: "nat \<rightharpoonup> string"
  screenshot_answers :: "(string \<times> string) list"
  vqos :: video_qos

record video_world =
  vw_sp :: "video_msg service"
  vw_run :: video_run
  vw_shared :: video_shared
  vw_displays :: display_state

text \<open>What the system and the other threads do during one turn.\<close>

record turn_input =
  ti_now :: nat
  ti_displays :: "sys_display list option"
  ti_privacy :: int
  ti_codec_changed :: bool
  ti_i444_changed :: bool
  ti_capture :: capture
  ti_encode :: "string + unit"
  ti_wait :: "(int \<times> int list) list"

section \<open>Frames that were fetched\<close>

definition notify_video_frame_fetched :: "nat \<Rightarrow> int \<Rightarrow> video_shared \<Rightarrow> video_shared" where
  "notify_video_frame_fetched idx conn g =
     (case frame_fetched g idx of
        Some q \<Rightarrow> g\<lparr>frame_fetched := (frame_fetched g)(idx \<mapsto> q @ [conn])\<rparr>
      | None \<Rightarrow> g)"

definition notify_video_frame_fetched_by_conn_id :: "int \<Rightarrow> video_shared \<Rightarrow> video_shared" where
  "notify_video_frame_fetched_by_conn_id conn g =
     g\<lparr>frame_fetched := (\<lambda>idx.
         (case display_conn_ids g idx of
            Some ids \<Rightarrow> if conn \<in> ids then map_option (\<lambda>q. q @ [conn]) (frame_fetched g idx) else frame_fetched g idx
          | None \<Rightarrow> frame_fetched g idx))\<rparr>"

text \<open>\<open>new\<close> makes the notifier of a display, or of the camera with the same number, once.\<close>

definition video_new :: "nat \<Rightarrow> video_shared \<Rightarrow> video_shared" where
  "video_new idx g =
     (if frame_fetched g idx = None then g\<lparr>frame_fetched := (frame_fetched g)(idx \<mapsto> [])\<rparr> else g)"

definition controller_reset :: "video_run \<Rightarrow> video_run" where
  "controller_reset v = v\<lparr>send_conn_ids := {}\<rparr>"

definition set_send :: "nat \<Rightarrow> int set \<Rightarrow> video_run \<times> video_shared \<Rightarrow> video_run \<times> video_shared" where
  "set_send idx ids w =
     (if ids \<noteq> {}
      then ((fst w)\<lparr>send_conn_ids := ids\<rparr>, (snd w)\<lparr>display_conn_ids := (display_conn_ids (snd w))(idx \<mapsto> ids)\<rparr>)
      else w)"

text \<open>
  \<open>try_wait_next\<close>: what is in the channel, or what arrives while it waits (nothing when the time is
  over), counts as fetched.
\<close>

definition try_wait_next :: "nat \<Rightarrow> int set \<Rightarrow> int list \<Rightarrow> int set \<times> video_shared \<Rightarrow> int set \<times> video_shared" where
  "try_wait_next idx send arrivals w =
     (case w of (fetched, g) \<Rightarrow>
        if send = {} then (fetched, g)
        else (case frame_fetched g idx of
                None \<Rightarrow> (fetched, g)
              | Some q \<Rightarrow>
                  (fetched \<union> set (q @ arrivals), g\<lparr>frame_fetched := (frame_fetched g)(idx \<mapsto> [])\<rparr>)))"

section \<open>Steps of a turn\<close>

text \<open>A step that may end \<open>run\<close>, and the next one when it does not.\<close>

definition and_then ::
    "(video_world \<Rightarrow> (run_error + unit) \<times> video_world) \<Rightarrow> (video_world \<Rightarrow> (run_error + 'a) \<times> video_world)
       \<Rightarrow> video_world \<Rightarrow> (run_error + 'a) \<times> video_world" where
  "and_then f g w = (case f w of (Inl err, w) \<Rightarrow> (Inl err, w) | (Inr u, w) \<Rightarrow> g w)"

definition switch_if :: "(video_world \<Rightarrow> bool) \<Rightarrow> video_world \<Rightarrow> (run_error + unit) \<times> video_world" where
  "switch_if c w = (if c w then Inl Switch else Inr (), w)"

definition upd_run :: "(video_run \<Rightarrow> video_run) \<Rightarrow> video_world \<Rightarrow> video_world" where
  "upd_run f w = w\<lparr>vw_run := f (vw_run w)\<rparr>"

definition upd_shared :: "(video_shared \<Rightarrow> video_shared) \<Rightarrow> video_world \<Rightarrow> video_world" where
  "upd_shared f w = w\<lparr>vw_shared := f (vw_shared w)\<rparr>"

definition check_qos :: "video_env \<Rightarrow> nat \<Rightarrow> video_world \<Rightarrow> (run_error + unit) \<times> video_world" where
  "check_qos e now w =
     (let q = vqos (vw_shared w); v = (vw_run w)\<lparr>run_spf := spf q\<rparr>;
          (ratio, q) = get_ratio q;
          changed = (run_quality v \<noteq> ratio);
          v = v\<lparr>run_quality := ratio\<rparr>;
          q' = (if changed \<and> ve_changing_quality e then store_bitrate (ve_bitrate e ratio) q else q);
          out = (\<lambda>r v q. (r, w\<lparr>vw_run := v, vw_shared := (vw_shared w)\<lparr>vqos := q\<rparr>\<rparr>))
      in (if changed \<and> \<not> ve_changing_quality e \<and> \<not> in_vbr_state q' \<and> \<not> is_custom (latest_quality q')
          then out (Inl Switch) v q'
          else if ve_client_record e \<noteq> any_record q' then out (Inl Switch) v q'
          else if now - second_instant v > 1000 then
            (case update_display_data now (ve_name e) (frames_sent v) q' of
               Some q'' \<Rightarrow> out (Inr ()) (v\<lparr>second_instant := now, frames_sent := 0\<rparr>) q''
             | None \<Rightarrow> out (Inl Panicked) v q')
          else out (Inr ()) v q'))"

text \<open>\<open>check_displays_changed\<close> is asked only for a refresh.\<close>

definition try_broadcast_display_changed ::
    "video_env \<Rightarrow> bool \<Rightarrow> sys_display list option \<Rightarrow> video_world \<Rightarrow> (run_error + unit) \<times> video_world" where
  "try_broadcast_display_changed e refresh all w =
     (let w = (if refresh then w\<lparr>vw_displays := snd (check_displays_changed (ve_x11 e) all (vw_displays w))\<rparr> else w)
      in (case check_display_changed (ve_x11 e) (ve_ndisplay e) (ve_idx e) (ve_area e) (vw_displays w) of
            None \<Rightarrow> (Inr (), w)
          | Some d \<Rightarrow>
              (let m = SwitchDisplayMsg (ve_idx e) d
               in (Inl Switch, w\<lparr>vw_sp := snapshot [m] (send_shared m (vw_sp w))\<rparr>))))"

definition check_privacy_mode_changed ::
    "video_env \<Rightarrow> int \<Rightarrow> sys_display list option \<Rightarrow> video_world \<Rightarrow> (run_error + unit) \<times> video_world" where
  "check_privacy_mode_changed e privacy all w =
     (if ve_privacy e \<noteq> privacy then
        (let w = (if privacy \<noteq> 0 then w\<lparr>vw_sp := send_to_others PrvOnByOther privacy (vw_sp w)\<rparr> else w)
         in (Inl Switch, snd (try_broadcast_display_changed e True all w)))
      else (Inr (), w))"

definition switch_to_refresh ::
    "video_env \<Rightarrow> sys_display list option \<Rightarrow> video_world \<Rightarrow> (run_error + unit) \<times> video_world" where
  "switch_to_refresh e all w =
     (if is_option_true ''refresh'' (vw_sp w) then
        (Inl Switch, if ve_monitor e then snd (try_broadcast_display_changed e True all w) else w)
      else (Inr (), w))"

text \<open>
  \<open>handle_one_frame\<close>: a new subscriber ends the run, so that it starts with a fresh encoder for
  everybody; otherwise the frame goes to the subscribers, which are returned.
\<close>

definition handle_one_frame ::
    "video_env \<Rightarrow> string + unit \<Rightarrow> video_world \<Rightarrow> (run_error + int set) \<times> video_world" where
  "handle_one_frame e result w =
     (let sp = vw_sp w; v = vw_run w in
      if new_subscribes sp \<noteq> {} \<and> has_subscribes sp then (Inl Switch, w\<lparr>vw_sp := swap_new_subscribes sp\<rparr>)
      else
        let first = first_frame v; v = v\<lparr>first_frame := False\<rparr>
        in (case result of
              Inr u \<Rightarrow>
                (case send_video_frame_shared (VideoFrame (enc v) (next_frame v)) sp of
                   (ids, sp) \<Rightarrow>
                     (Inr ids, w\<lparr>vw_sp := sp, vw_run := v\<lparr>encode_fail_counter := 0, next_frame := next_frame v + 1\<rparr>\<rparr>))
            | Inl err \<Rightarrow>
                (let failures = encode_fail_counter v + 1;
                     give_up = (first \<and> ve_latency_free e \<or> failures \<ge> 3);
                     v = v\<lparr>encode_fail_counter := (if give_up then 0 else failures)\<rparr>
                 in if give_up \<and> ve_hardware e \<or> err = ''ENCODE_NEED_SWITCH''
                    then (Inl Switch, w\<lparr>vw_run := v\<lparr>enc_disabled := True\<rparr>\<rparr>)
                    else (Inr {}, w\<lparr>vw_run := v\<rparr>))))"

text \<open>A frame is handed on and the controller notes who was sent it.\<close>

definition send_frame :: "video_env \<Rightarrow> string + unit \<Rightarrow> video_world \<Rightarrow> (run_error + unit) \<times> video_world" where
  "send_frame e result w =
     (case handle_one_frame e result w of
        (Inl err, w) \<Rightarrow> (Inl err, w)
      | (Inr ids, w) \<Rightarrow>
          (case set_send (ve_idx e) ids (vw_run w, vw_shared w) of
             (v, g) \<Rightarrow> (Inr (), w\<lparr>vw_run := v\<lparr>frames_sent := frames_sent v + 1\<rparr>, vw_shared := g\<rparr>)))"

definition set_take_screenshot :: "nat \<Rightarrow> string \<Rightarrow> video_shared \<Rightarrow> video_shared" where
  "set_take_screenshot idx sid g = g\<lparr>screenshots := (screenshots g)(idx \<mapsto> sid)\<rparr>"

text \<open>A pending screenshot is taken from the frame; the answer carries the error, if any.\<close>

definition take_screenshot :: "nat \<Rightarrow> string + unit \<Rightarrow> video_shared \<Rightarrow> video_shared" where
  "take_screenshot idx rgba g =
     (case screenshots g idx of
        None \<Rightarrow> g
      | Some sid \<Rightarrow>
          g\<lparr>screenshots := (screenshots g)(idx := None),
            screenshot_answers := screenshot_answers g
              @ [(sid, case rgba of Inr u \<Rightarrow> '''' | Inl err \<Rightarrow> ''Convert pixfmt: '' @ err)]\<rparr>)"

definition capture_frame :: "video_env \<Rightarrow> turn_input \<Rightarrow> video_world \<Rightarrow> (run_error + unit) \<times> video_world" where
  "capture_frame e i w =
     (case ti_capture i of
        CapFrame valid rgba conv \<Rightarrow>
          (let w = upd_run (\<lambda>v. v\<lparr>repeat_encode_counter := 0\<rparr>) w
           in if valid then
                (let w = upd_shared (take_screenshot (ve_idx e) rgba) w
                 in (case conv of
                       Inl err \<Rightarrow> (Inl (Failed err), w)
                     | Inr u \<Rightarrow> send_frame e (ti_encode i) (upd_run (\<lambda>v. v\<lparr>yuv_filled := True\<rparr>) w)))
              else (Inr (), w))
      | WouldBlock \<Rightarrow>
          (if \<not> ve_latency_free e \<and> yuv_filled (vw_run w) \<and> repeat_encode_counter (vw_run w) < 10
           then send_frame e (ti_encode i) (upd_run (\<lambda>v. v\<lparr>repeat_encode_counter := repeat_encode_counter v + 1\<rparr>) w)
           else (Inr (), w))
      | CapError err \<Rightarrow>
          and_then (if ve_monitor e then try_broadcast_display_changed e True (ti_displays i) else (\<lambda>w. (Inr (), w)))
            (\<lambda>w. (Inl (Failed err), w)) w)"

text \<open>
  The wait for the viewers, three seconds at most: for every round the privacy mode and what arrives
  in it. It returns who has fetched something.
\<close>

fun wait_fetched ::
    "video_env \<Rightarrow> sys_display list option \<Rightarrow> (int \<times> int list) list \<Rightarrow> int set \<Rightarrow> video_world
       \<Rightarrow> (run_error + int set) \<times> video_world" where
  "wait_fetched e all [] fetched w = (Inr fetched, w)"
| "wait_fetched e all ((privacy, arrivals) # rounds) fetched w =
     and_then (if ve_monitor e then check_privacy_mode_changed e privacy all else (\<lambda>w. (Inr (), w)))
       (\<lambda>w. case try_wait_next (ve_idx e) (send_conn_ids (vw_run w)) arrivals (fetched, vw_shared w) of
              (fetched, g) \<Rightarrow>
                let w = w\<lparr>vw_shared := g\<rparr>
                in (if card fetched \<ge> card (send_conn_ids (vw_run w)) then (Inr fetched, w)
                    else wait_fetched e all rounds fetched w)) w"

definition wait_for_viewers :: "video_env \<Rightarrow> turn_input \<Rightarrow> video_world \<Rightarrow> (run_error + unit) \<times> video_world" where
  "wait_for_viewers e i w =
     (case wait_fetched e (ti_displays i) (ti_wait i) {} w of
        (Inl err, w) \<Rightarrow> (Inl err, w)
      | (Inr fetched, w) \<Rightarrow>
          (Inr (), upd_shared (\<lambda>g. g\<lparr>display_conn_ids := (display_conn_ids g)(ve_idx e := None)\<rparr>) w))"

definition check_displays :: "video_env \<Rightarrow> turn_input \<Rightarrow> video_world \<Rightarrow> (run_error + unit) \<times> video_world" where
  "check_displays e i w =
     (if ve_monitor e \<and> ti_now i - last_check_displays (vw_run w) > 1000
      then try_broadcast_display_changed e False (ti_displays i)
             (upd_run (\<lambda>v. v\<lparr>last_check_displays := ti_now i\<rparr>) w)
      else (Inr (), w))"

text \<open>One turn of the loop.\<close>

definition video_turn :: "video_env \<Rightarrow> turn_input \<Rightarrow> video_world \<Rightarrow> (run_error + unit) \<times> video_world" where
  "video_turn e i =
     and_then (check_qos e (ti_now i))
    (and_then (switch_to_refresh e (ti_displays i))
    (and_then (switch_if (\<lambda>w. ti_codec_changed i))
    (and_then (switch_if (\<lambda>w. ti_i444_changed i))
    (and_then (if ve_monitor e then check_privacy_mode_changed e (ti_privacy i) (ti_displays i) else (\<lambda>w. (Inr (), w)))
    (and_then (check_displays e i)
    (and_then (\<lambda>w. (Inr (), upd_run controller_reset w))
    (and_then (capture_frame e i)
              (wait_for_viewers e i))))))))"

text \<open>The start of \<open>run\<close> with its new encoder, and its end, however it comes.\<close>

definition video_run_start :: "video_env \<Rightarrow> nat \<Rightarrow> nat \<Rightarrow> video_world \<Rightarrow> video_world" where
  "video_run_start e now enc_no w =
     (let q = new_display (ve_name e) (vqos (vw_shared w)); s = spf q; (ratio, q) = get_ratio q;
          q = set_support_changing_quality (ve_name e) (ve_changing_quality e) (store_bitrate (ve_bitrate e ratio) q)
      in w\<lparr>vw_sp := (if is_option_true ''refresh'' (vw_sp w) then set_option_bool ''refresh'' False (vw_sp w) else vw_sp w),
           vw_run := \<lparr>enc = enc_no, next_frame = 0, enc_disabled = False, first_frame = True, encode_fail_counter = 0,
             repeat_encode_counter = 0, yuv_filled = False, frames_sent = 0, second_instant = now, run_quality = ratio,
             run_spf = s, last_check_displays = now, send_conn_ids = {}\<rparr>,
           vw_shared := (vw_shared w)\<lparr>vqos := q\<rparr>\<rparr>)"

definition video_run_end :: "video_env \<Rightarrow> video_world \<Rightarrow> video_world" where
  "video_run_end e w =
     upd_shared (\<lambda>g. g\<lparr>vqos := remove_display (ve_name e) (vqos g),
       display_conn_ids := (display_conn_ids g)(ve_idx e := None)\<rparr>) w"

end
