(* ===== verification/VideoStreams.thy ===== *)
theory VideoStreams
  imports VideoService
begin

text \<open>
  What the frame service guarantees: every viewer can decode what it is sent, although all share one
  encoder; the wait for the viewers and what it counts; the quality control is used without panics.
\<close>

section \<open>Every viewer can decode what it gets\<close>

text \<open>
  A frame can be decoded when it stands alone or follows the frame before it of the same encoder.
\<close>

fun frames_of :: "video_msg list \<Rightarrow> (nat \<times> nat) list" where
  "frames_of [] = []"
| "frames_of (VideoFrame e n # ms) = (e, n) # frames_of ms"
| "frames_of (m # ms) = frames_of ms"

definition last_frame :: "video_msg list \<Rightarrow> (nat \<times> nat) option" where
  "last_frame ms = (if frames_of ms = [] then None else Some (last (frames_of ms)))"

fun decodable :: "(nat \<times> nat) option \<Rightarrow> (nat \<times> nat) list \<Rightarrow> bool" where
  "decodable before [] = True"
| "decodable before ((e, n) # fs) = ((n = 0 \<or> before = Some (e, n - 1)) \<and> decodable (Some (e, n)) fs)"

lemma frames_append: "frames_of (ms @ [m]) = frames_of ms @ frames_of [m]"
  by (induction ms rule: frames_of.induct) (auto split: video_msg.splits)

lemma decodable_append:
  "decodable before (fs @ [(e, n)]) \<longleftrightarrow>
     decodable before fs \<and> (n = 0 \<or> (if fs = [] then before else Some (last fs)) = Some (e, n - 1))"
  by (induction before fs rule: decodable.induct) auto

definition plain_msg :: "video_msg \<Rightarrow> bool" where
  "plain_msg m = (case m of VideoFrame e n \<Rightarrow> False | _ \<Rightarrow> True)"

lemma plain_frames [simp]: "plain_msg m \<Longrightarrow> frames_of [m] = []"
  by (cases m) (auto simp: plain_msg_def)

definition streams_ok :: "video_msg service \<Rightarrow> bool" where
  "streams_ok sp \<longleftrightarrow> service_inv sp \<and> need_snapshot sp \<and> (\<forall>i. decodable None (frames_of (inbox sp i)))"

text \<open>While an encoder runs, every subscriber has its last frame.\<close>

definition running_ok :: "video_msg service \<Rightarrow> nat \<Rightarrow> nat \<Rightarrow> bool" where
  "running_ok sp en nx \<longleftrightarrow>
     streams_ok sp \<and> (\<forall>i \<in> subscribes sp. 0 < nx \<longrightarrow> last_frame (inbox sp i) = Some (en, nx - 1))"

lemma deliver_plain:
  assumes "plain_msg m"
  shows "streams_ok sp \<Longrightarrow> streams_ok (deliver ids m sp)" "running_ok sp en nx \<Longrightarrow> running_ok (deliver ids m sp) en nx"
  using assms by (auto simp: running_ok_def streams_ok_def service_inv_ops deliver_def frames_append last_frame_def
      service_inv_def)

lemma streams_swap: "streams_ok sp \<Longrightarrow> streams_ok (swap_new_subscribes sp)"
  by (auto simp: streams_ok_def service_inv_ops swap_new_subscribes_def service_inv_def)

lemma streams_snapshot: "streams_ok sp \<Longrightarrow> plain_msg m \<Longrightarrow> streams_ok (snapshot [m] sp)"
  by (simp add: snapshot_def streams_swap send_new_subscribes_def deliver_plain)

lemma send_next_frame:
  assumes "running_ok sp en nx"
  shows "running_ok (deliver (subscribes sp) (VideoFrame en nx) sp) en (nx + 1)"
  using assms by (auto simp: running_ok_def streams_ok_def service_inv_ops deliver_def frames_append last_frame_def
      decodable_append service_inv_def split: if_splits)

text \<open>A step keeps the streams, and those of the running encoder unless it ends the run.\<close>

definition world_ok :: "video_world \<Rightarrow> bool" where
  "world_ok w \<longleftrightarrow> running_ok (vw_sp w) (enc (vw_run w)) (next_frame (vw_run w))"

definition step_ok :: "(video_world \<Rightarrow> (run_error + 'a) \<times> video_world) \<Rightarrow> bool" where
  "step_ok f \<longleftrightarrow> (\<forall>w. world_ok w \<longrightarrow>
     (case f w of (Inl err, w') \<Rightarrow> streams_ok (vw_sp w') | (Inr x, w') \<Rightarrow> world_ok w'))"

lemma step_okI:
  "(\<And>w. world_ok w \<Longrightarrow> (case f w of (Inl err, w') \<Rightarrow> streams_ok (vw_sp w') | (Inr x, w') \<Rightarrow> world_ok w')) \<Longrightarrow> step_ok f"
  by (simp add: step_ok_def)

lemma step_okD:
  "step_ok f \<Longrightarrow> world_ok w \<Longrightarrow> (case f w of (Inl err, w') \<Rightarrow> streams_ok (vw_sp w') | (Inr x, w') \<Rightarrow> world_ok w')"
  by (simp add: step_ok_def)

lemma world_streams: "world_ok w \<Longrightarrow> streams_ok (vw_sp w)"
  by (simp add: world_ok_def running_ok_def)

lemma and_then_ok: "step_ok f \<Longrightarrow> step_ok g \<Longrightarrow> step_ok (and_then f g)"
  by (fastforce simp: step_ok_def and_then_def split: sum.splits prod.splits)

lemma skip_ok [simp]: "step_ok (\<lambda>w. (Inr x, w))"
  by (simp add: step_ok_def)

lemma switch_if_ok [simp]: "step_ok (switch_if c)"
  by (auto simp: step_ok_def switch_if_def world_streams)

lemma world_upd [simp]:
  "world_ok (w\<lparr>vw_shared := g\<rparr>) = world_ok w" "world_ok (w\<lparr>vw_displays := ds\<rparr>) = world_ok w"
  "world_ok (upd_shared f w) = world_ok w"
  by (simp_all add: world_ok_def upd_shared_def)

lemma world_run:
  "enc (f (vw_run w)) = enc (vw_run w) \<Longrightarrow> next_frame (f (vw_run w)) = next_frame (vw_run w) \<Longrightarrow> world_ok (upd_run f w) = world_ok w"
  by (simp add: world_ok_def upd_run_def)

lemma check_qos_ok: "step_ok (check_qos e now)"
  by (auto simp: step_ok_def check_qos_def Let_def world_ok_def running_ok_def split: prod.splits option.splits)

lemma try_broadcast_ok: "step_ok (try_broadcast_display_changed e r all)"
proof -
  have "streams_ok sp \<Longrightarrow> streams_ok (snapshot [SwitchDisplayMsg i d] (send_shared (SwitchDisplayMsg i d) sp))" for sp i d
    by (intro streams_snapshot) (simp_all add: send_shared_def deliver_plain plain_msg_def)
  then show ?thesis
    by (auto simp: step_ok_def try_broadcast_display_changed_def Let_def world_streams split: option.split)
qed

lemma try_broadcast_streams: "world_ok w \<Longrightarrow> streams_ok (vw_sp (snd (try_broadcast_display_changed e r all w)))"
  using try_broadcast_ok [of e r all]
  by (cases "try_broadcast_display_changed e r all w"; cases "fst (try_broadcast_display_changed e r all w)")
    (force simp: step_ok_def world_streams)+

lemma check_privacy_ok: "step_ok (check_privacy_mode_changed e p all)"
proof -
  have "world_ok w \<Longrightarrow> world_ok (w\<lparr>vw_sp := send_to_others PrvOnByOther p (vw_sp w)\<rparr>)" for w
    by (simp add: world_ok_def send_to_others_def deliver_plain plain_msg_def)
  then show ?thesis
    by (auto simp: step_ok_def check_privacy_mode_changed_def Let_def try_broadcast_streams)
qed

lemma refresh_ok: "step_ok (switch_to_refresh e all)"
  by (auto simp: step_ok_def switch_to_refresh_def try_broadcast_streams world_streams)

lemma handle_one_frame_ok: "step_ok (handle_one_frame e r)"
proof -
  have "world_ok w \<Longrightarrow> (case handle_one_frame e r w of (Inl err, w') \<Rightarrow> streams_ok (vw_sp w') | (Inr x, w') \<Rightarrow> world_ok w')" for w
  proof (cases "new_subscribes (vw_sp w) \<noteq> {} \<and> has_subscribes (vw_sp w)")
    case True
    assume "world_ok w"
    with True show ?thesis by (simp add: handle_one_frame_def Let_def streams_swap world_streams)
  next
    case False
    assume ok: "world_ok w"
    show ?thesis
    proof (cases r)
      case (Inr u)
      from False Inr send_next_frame [of "vw_sp w" "enc (vw_run w)" "next_frame (vw_run w)"] ok show ?thesis
        by (auto simp: handle_one_frame_def Let_def send_video_frame_shared_def world_ok_def)
    next
      case (Inl err)
      have "world_ok (w\<lparr>vw_run := (vw_run w)\<lparr>first_frame := b, encode_fail_counter := n\<rparr>\<rparr>)" for b n
        using ok by (simp add: world_ok_def)
      with False Inl world_streams [OF ok] show ?thesis
        by (auto simp: handle_one_frame_def Let_def world_ok_def)
    qed
  qed
  then show ?thesis by (simp add: step_ok_def)
qed

lemma set_send_stream:
  "set_send idx ids (v, g) = (v', g') \<Longrightarrow> enc v' = enc v \<and> next_frame v' = next_frame v"
  by (auto simp: set_send_def split: if_splits)

lemma send_frame_ok: "step_ok (send_frame e r)"
  using handle_one_frame_ok [of e r]
  by (fastforce simp: step_ok_def send_frame_def world_ok_def split: prod.splits sum.splits dest: set_send_stream)

lemma capture_ok: "step_ok (capture_frame e i)"
proof -
  have broadcast: "step_ok (and_then (if ve_monitor e then try_broadcast_display_changed e True (ti_displays i) else (\<lambda>w. (Inr (), w)))
      (\<lambda>w. (Inl (Failed err), w) :: (run_error + unit) \<times> video_world))" for err
  proof (rule and_then_ok)
    show "step_ok (if ve_monitor e then try_broadcast_display_changed e True (ti_displays i) else (\<lambda>w. (Inr (), w)))"
      by (simp add: try_broadcast_ok)
    show "step_ok (\<lambda>w. (Inl (Failed err), w) :: (run_error + unit) \<times> video_world)"
      by (simp add: step_ok_def world_streams)
  qed
  have send: "world_ok w \<Longrightarrow> (case send_frame e (ti_encode i) w of
      (Inl err, w') \<Rightarrow> streams_ok (vw_sp w') | (Inr x, w') \<Rightarrow> world_ok w')" for w
    using send_frame_ok [of e "ti_encode i"] by (simp add: step_ok_def)
  show ?thesis
  proof (cases "ti_capture i")
    case (CapError err)
    then show ?thesis using broadcast by (simp add: step_ok_def capture_frame_def)
  next
    case (CapFrame valid rgba conv)
    then show ?thesis
      by (cases conv) (auto simp: step_ok_def capture_frame_def Let_def world_run send intro!: world_streams)
  next
    case WouldBlock
    then show ?thesis
      by (auto simp: step_ok_def capture_frame_def world_run send)
  qed
qed

lemma wait_fetched_ok: "step_ok (wait_fetched e all rounds fetched)"
proof (induction rounds arbitrary: fetched)
  case (Cons r rounds)
  obtain p arrivals where r: "r = (p, arrivals)" by fastforce
  have "step_ok (\<lambda>w. case try_wait_next (ve_idx e) (send_conn_ids (vw_run w)) arrivals (fetched, vw_shared w) of
              (fetched, g) \<Rightarrow>
                let w = w\<lparr>vw_shared := g\<rparr>
                in (if card fetched \<ge> card (send_conn_ids (vw_run w)) then (Inr fetched, w)
                    else wait_fetched e all rounds fetched w))"
  proof (rule step_okI)
    fix w assume "world_ok w"
    moreover obtain f' g' where "try_wait_next (ve_idx e) (send_conn_ids (vw_run w)) arrivals (fetched, vw_shared w) = (f', g')"
      by fastforce
    moreover from \<open>world_ok w\<close> have "world_ok (w\<lparr>vw_shared := g'\<rparr>)" by simp
    note step_okD [OF Cons.IH [of f'] this]
    ultimately show "case (case try_wait_next (ve_idx e) (send_conn_ids (vw_run w)) arrivals (fetched, vw_shared w) of
              (fetched, g) \<Rightarrow>
                let w = w\<lparr>vw_shared := g\<rparr>
                in (if card fetched \<ge> card (send_conn_ids (vw_run w)) then (Inr fetched, w)
                    else wait_fetched e all rounds fetched w)) of
        (Inl err, w') \<Rightarrow> streams_ok (vw_sp w') | (Inr x, w') \<Rightarrow> world_ok w'"
      by (simp add: Let_def)
  qed
  moreover have "step_ok (if ve_monitor e then check_privacy_mode_changed e p all else (\<lambda>w. (Inr (), w)))"
    by (simp add: check_privacy_ok)
  moreover have "wait_fetched e all ((p, arrivals) # rounds) fetched =
      and_then (if ve_monitor e then check_privacy_mode_changed e p all else (\<lambda>w. (Inr (), w)))
       (\<lambda>w. case try_wait_next (ve_idx e) (send_conn_ids (vw_run w)) arrivals (fetched, vw_shared w) of
              (fetched, g) \<Rightarrow>
                let w = w\<lparr>vw_shared := g\<rparr>
                in (if card fetched \<ge> card (send_conn_ids (vw_run w)) then (Inr fetched, w)
                    else wait_fetched e all rounds fetched w))"
    by (rule ext) (simp only: wait_fetched.simps)
  ultimately show ?case unfolding r by (simp only: and_then_ok)
qed (simp add: step_ok_def)

lemma wait_ok: "step_ok (wait_for_viewers e i)"
  using wait_fetched_ok [of e "ti_displays i" "ti_wait i" "{}"]
  by (fastforce simp: step_ok_def wait_for_viewers_def split: prod.splits sum.splits)

lemma check_displays_ok: "step_ok (check_displays e i)"
proof -
  have "world_ok (upd_run (\<lambda>v. v\<lparr>last_check_displays := ti_now i\<rparr>) w) = world_ok w" for w
    by (simp add: world_run)
  then show ?thesis
    using try_broadcast_ok [of e False "ti_displays i"] by (simp add: step_ok_def check_displays_def)
qed

lemma video_turn_ok: "step_ok (video_turn e i)"
proof -
  have "step_ok (\<lambda>w. (Inr (), upd_run controller_reset w))"
    by (simp add: step_ok_def world_run controller_reset_def)
  then show ?thesis
    unfolding video_turn_def
    by (intro and_then_ok) (auto simp: check_qos_ok refresh_ok check_privacy_ok check_displays_ok capture_ok wait_ok)
qed

text \<open>
  The life of the service: viewers come and go, runs start with a new encoder, take turns and end; other
  threads report fetched frames, ask for screenshots and change the list of displays.
\<close>

record video_life =
  vl_world :: video_world
  vl_running :: bool
  vl_encoders :: nat

inductive video_step :: "video_env \<Rightarrow> video_life \<Rightarrow> video_life \<Rightarrow> bool" for e where
  subscribe: "video_step e l (l\<lparr>vl_world := (vl_world l)\<lparr>vw_sp := on_subscribe i (vw_sp (vl_world l))\<rparr>\<rparr>)"
| unsubscribe: "video_step e l (l\<lparr>vl_world := (vl_world l)\<lparr>vw_sp := on_unsubscribe i (vw_sp (vl_world l))\<rparr>\<rparr>)"
| option: "video_step e l (l\<lparr>vl_world := (vl_world l)\<lparr>vw_sp := set_option_bool k b (vw_sp (vl_world l))\<rparr>\<rparr>)"
| start: "\<not> vl_running l \<Longrightarrow> has_subscribes (vw_sp (vl_world l))
    \<Longrightarrow> video_step e l (l\<lparr>vl_world := video_run_start e now (vl_encoders l) (vl_world l), vl_running := True,
          vl_encoders := vl_encoders l + 1\<rparr>)"
| turn: "vl_running l \<Longrightarrow> service_ok (vw_sp (vl_world l)) \<Longrightarrow> video_turn e i (vl_world l) = (Inr (), w)
    \<Longrightarrow> video_step e l (l\<lparr>vl_world := w\<rparr>)"
| fail: "vl_running l \<Longrightarrow> service_ok (vw_sp (vl_world l)) \<Longrightarrow> video_turn e i (vl_world l) = (Inl err, w)
    \<Longrightarrow> video_step e l (l\<lparr>vl_world := video_run_end e w, vl_running := False\<rparr>)"
| stop: "vl_running l \<Longrightarrow> \<not> service_ok (vw_sp (vl_world l))
    \<Longrightarrow> video_step e l (l\<lparr>vl_world := video_run_end e (vl_world l), vl_running := False\<rparr>)"
| shared: "video_step e l (l\<lparr>vl_world := (vl_world l)\<lparr>vw_shared := g\<rparr>\<rparr>)"
| displays: "video_step e l (l\<lparr>vl_world := (vl_world l)\<lparr>vw_displays := ds\<rparr>\<rparr>)"

definition life_ok :: "video_life \<Rightarrow> bool" where
  "life_ok l \<longleftrightarrow> streams_ok (vw_sp (vl_world l)) \<and> (vl_running l \<longrightarrow> world_ok (vl_world l))"

lemma subscribing_ok:
  "streams_ok sp \<Longrightarrow> streams_ok (on_subscribe i sp)" "running_ok sp en nx \<Longrightarrow> running_ok (on_subscribe i sp) en nx"
  "streams_ok sp \<Longrightarrow> streams_ok (on_unsubscribe i sp)" "running_ok sp en nx \<Longrightarrow> running_ok (on_unsubscribe i sp) en nx"
  "streams_ok sp \<Longrightarrow> streams_ok (set_option_bool k b sp)" "running_ok sp en nx \<Longrightarrow> running_ok (set_option_bool k b sp) en nx"
  by (auto simp: running_ok_def streams_ok_def on_subscribe_def on_unsubscribe_def service_inv_def set_option_bool_def
      service_set_option_def)

lemma video_run_start_ok: "streams_ok (vw_sp w) \<Longrightarrow> world_ok (video_run_start e now k w)"
  by (simp add: video_run_start_def Let_def world_ok_def running_ok_def subscribing_ok case_prod_unfold)

lemma video_step_ok: "video_step e l l' \<Longrightarrow> life_ok l \<Longrightarrow> life_ok l'"
proof (induction rule: video_step.induct)
  case (turn l i w)
  then show ?case
    using video_turn_ok [of e i] by (fastforce simp: step_ok_def life_ok_def intro: world_streams)
next
  case (fail l i err w)
  then show ?case
    using video_turn_ok [of e i] by (fastforce simp: step_ok_def life_ok_def video_run_end_def upd_shared_def)
next
  case (start l now)
  then show ?case
    using video_run_start_ok by (auto simp: life_ok_def intro: world_streams)
qed (auto simp: life_ok_def world_ok_def subscribing_ok video_run_end_def upd_shared_def)

definition video_life_start :: "video_env \<Rightarrow> nat \<Rightarrow> video_life" where
  "video_life_start e now =
     \<lparr>vl_world = \<lparr>vw_sp = service_new (ve_name e) True,
        vw_run = \<lparr>enc = 0, next_frame = 0, enc_disabled = False, first_frame = True, encode_fail_counter = 0,
          repeat_encode_counter = 0, yuv_filled = False, frames_sent = 0, second_instant = now, run_quality = 0,
          run_spf = 0, last_check_displays = now, send_conn_ids = {}\<rparr>,
        vw_shared = video_new (ve_idx e) \<lparr>frame_fetched = Map.empty, display_conn_ids = Map.empty, screenshots = Map.empty,
          screenshot_answers = [], vqos = default_qos now\<rparr>,
        vw_displays = display_start\<rparr>,
      vl_running = False, vl_encoders = 0\<rparr>"

lemma life_start_ok: "life_ok (video_life_start e now)"
  by (simp add: life_ok_def video_life_start_def streams_ok_def service_new_def service_inv_def)

text \<open>
  C17. Every viewer can decode every frame it is sent, from the first one on: although all viewers share
  one encoder, whenever viewers come, go and come back, and whatever ends a run, a viewer gets a frame that
  needs another one only right after that one.
\<close>

theorem every_frame_decodable:
  assumes "(video_step e)\<^sup>*\<^sup>* (video_life_start e now) l"
  shows "decodable None (frames_of (inbox (vw_sp (vl_world l)) i))"
proof -
  from assms have "life_ok l"
    by (induction rule: rtranclp_induct) (auto intro: life_start_ok video_step_ok)
  then show ?thesis by (simp add: life_ok_def streams_ok_def)
qed

section \<open>Waiting for the viewers\<close>

text \<open>
  When nothing was left in the channel and only viewers that were sent the frame report, the wait goes
  on until all of them have fetched it or the time is over.
\<close>

lemma wait_round:
  assumes "wait_fetched e all ((p, arrivals) # rounds) fetched w = (Inr f, w')"
    and "try_wait_next (ve_idx e) (send_conn_ids (vw_run w)) arrivals (fetched, vw_shared w) = (f', g')"
  shows "f = f' \<or> wait_fetched e all rounds f' (w\<lparr>vw_shared := g'\<rparr>) = (Inr f, w')"
proof (cases "ve_monitor e \<and> ve_privacy e \<noteq> p")
  case True
  with assms(1) show ?thesis
    by (simp add: and_then_def check_privacy_mode_changed_def Let_def split: prod.splits)
next
  case False
  then have "(if ve_monitor e then check_privacy_mode_changed e p all else (\<lambda>w. (Inr (), w))) w = (Inr (), w)"
    by (simp add: check_privacy_mode_changed_def)
  with assms show ?thesis
    by (simp add: and_then_def Let_def split: if_splits)
qed

lemma waits_for_every_viewer:
  assumes "wait_fetched e all rounds fetched w = (Inr f, w')" "finite (send_conn_ids (vw_run w))"
    and "fetched \<subseteq> send_conn_ids (vw_run w)" "frame_fetched (vw_shared w) (ve_idx e) = Some []"
    and "\<forall>(p, arrivals) \<in> set rounds. set arrivals \<subseteq> send_conn_ids (vw_run w)"
    and "card f \<ge> card (send_conn_ids (vw_run w))"
  shows "f = send_conn_ids (vw_run w)"
proof -
  have "f \<subseteq> send_conn_ids (vw_run w)"
    using assms(1,3-5)
  proof (induction rounds arbitrary: fetched w)
    case (Cons r rounds)
    obtain p arrivals where r: "r = (p, arrivals)" by fastforce
    obtain f' g' where step: "try_wait_next (ve_idx e) (send_conn_ids (vw_run w)) arrivals (fetched, vw_shared w) = (f', g')"
      by fastforce
    then have "f' \<subseteq> send_conn_ids (vw_run w)" "frame_fetched g' (ve_idx e) = Some []"
      using Cons.prems by (auto simp: r try_wait_next_def split: if_splits)
    with wait_round [OF Cons.prems(1) [unfolded r] step] Cons.prems(4) Cons.IH [of f' "w\<lparr>vw_shared := g'\<rparr>"] show ?case
      by (auto simp: r)
  qed simp
  with assms(2,6) show ?thesis by (simp add: card_seteq)
qed

text \<open>
  The wait counts reports, not viewers: a report of a connection that was not sent the frame, or of the
  frame before, stands for one that is still missing.
\<close>

lemma stale_report_counts:
  assumes "\<not> ve_monitor e" "send_conn_ids (vw_run w) = {1, 2}" "frame_fetched (vw_shared w) (ve_idx e) = Some [3]"
  shows "fst (wait_fetched e all ((0, [1]) # rounds) {} w) = Inr {1, 3}"
  using assms by (simp add: and_then_def try_wait_next_def Let_def insert_commute)

text \<open>
  A monitor and a camera with the same number share the channel: what the wait of one takes out, the
  other does not get.
\<close>

lemma sources_share_reports:
  assumes "send \<noteq> {}" "try_wait_next idx send arrivals (f, g) = (f', g')" "frame_fetched g idx \<noteq> None"
  shows "frame_fetched g' idx = Some []" "video_new idx g' = g'"
  using assms by (auto simp: try_wait_next_def video_new_def split: if_splits)

text \<open>A second request for a screenshot of a display replaces the first, which is never answered.\<close>

lemma second_screenshot_replaces_first:
  "screenshot_answers (take_screenshot idx rgba (set_take_screenshot idx b (set_take_screenshot idx a g)))
     = screenshot_answers g @ [(b, case rgba of Inr u \<Rightarrow> [] | Inl err \<Rightarrow> ''Convert pixfmt: '' @ err)]"
  "screenshots (take_screenshot idx rgba (set_take_screenshot idx b (set_take_screenshot idx a g))) idx = None"
  by (simp_all add: take_screenshot_def set_take_screenshot_def)

text \<open>The check of the quality control does not panic, and the frame time follows the control.\<close>

lemma check_qos_safe:
  assumes "qos_ok (vqos (vw_shared w))" "check_qos e now w = (r, w')"
  shows "r \<noteq> Inl Panicked \<and> qos_ok (vqos (vw_shared w')) \<and> run_spf (vw_run w') = spf (vqos (vw_shared w))"
proof -
  obtain ratio q where q: "get_ratio (vqos (vw_shared w)) = (ratio, q)" by fastforce
  then have ok: "qos_ok q" using qos_step_ok [OF assms(1), of False now QRatio] by auto
  then have stored: "qos_ok (store_bitrate b q)" for b using qos_step_ok [OF ok, of False now "QBitrate b"] by auto
  have counted: "\<exists>q''. update_display_data now n c q' = Some q'' \<and> qos_ok q''" if "qos_ok q'" for n c q'
    using qos_step_ok [OF that, of False now "QDisplayData n c"] by simp
  define q' where "q' = (if run_quality (vw_run w) \<noteq> ratio \<and> ve_changing_quality e then store_bitrate (ve_bitrate e ratio) q else q)"
  have "qos_ok q'" using ok stored by (simp add: q'_def)
  from counted [OF this, of "ve_name e" "frames_sent (vw_run w)"] this ok assms(2) show ?thesis
    by (auto simp: check_qos_def Let_def q q'_def [symmetric] split: if_splits option.splits)
qed

definition demo_camera :: video_env where
  "demo_camera = \<lparr>ve_monitor = False, ve_idx = 0, ve_name = ''camera0'', ve_x11 = True, ve_ndisplay = 1,
     ve_area = (0, 0, 640, 480), ve_privacy = 0, ve_latency_free = True, ve_hardware = False,
     ve_changing_quality = True, ve_bitrate = (\<lambda>_. 1000), ve_client_record = False\<rparr>"

definition demo_turn :: turn_input where
  "demo_turn = \<lparr>ti_now = 5, ti_displays = None, ti_privacy = 0, ti_codec_changed = False, ti_i444_changed = False,
     ti_capture = CapFrame True (Inr ()) (Inr ()), ti_encode = Inr (), ti_wait = [(0, [4])]\<rparr>"

definition demo_joined :: video_life where
  "demo_joined = (video_life_start demo_camera 0)
     \<lparr>vl_world := (vl_world (video_life_start demo_camera 0))
        \<lparr>vw_sp := on_subscribe 4 (vw_sp (vl_world (video_life_start demo_camera 0)))\<rparr>\<rparr>"

lemma demo_fields [simp]:
  "\<not> ve_monitor demo_camera" "ve_idx demo_camera = 0" "ve_name demo_camera = ''camera0''" "ve_latency_free demo_camera"
  "\<not> ve_hardware demo_camera" "\<not> ve_client_record demo_camera" "ti_now demo_turn = 5" "\<not> ti_codec_changed demo_turn"
  "\<not> ti_i444_changed demo_turn" "ti_capture demo_turn = CapFrame True (Inr ()) (Inr ())" "ti_encode demo_turn = Inr ()"
  "ti_wait demo_turn = [(0, [4])]"
  by (simp_all add: demo_camera_def demo_turn_def)

lemma ratio_of_balanced: "q_ratio q = BR_BALANCED \<Longrightarrow> get_ratio q = (BR_BALANCED, q)"
  using br_bounds by (simp add: get_ratio_def BR_MAX_def)

lemma quiet_qos:
  assumes "q_ratio (vqos (vw_shared w)) = BR_BALANCED" "run_quality (vw_run w) = BR_BALANCED"
    and "ve_client_record e = any_record (vqos (vw_shared w))" "now - second_instant (vw_run w) \<le> 1000"
  shows "check_qos e now w = (Inr (), upd_run (\<lambda>v. v\<lparr>run_spf := spf (vqos (vw_shared w))\<rparr>) w)"
  using assms by (simp add: check_qos_def ratio_of_balanced Let_def upd_run_def)

lemma quiet_turn:
  assumes "check_qos e (ti_now i) w = (Inr (), w')" "\<not> ve_monitor e" "\<not> is_option_true ''refresh'' (vw_sp w')"
    and "\<not> ti_codec_changed i" "\<not> ti_i444_changed i"
  shows "video_turn e i w = and_then (capture_frame e i) (wait_for_viewers e i) (upd_run controller_reset w')"
  using assms by (simp add: video_turn_def and_then_def switch_to_refresh_def switch_if_def check_displays_def)


lemma qos_fields [simp]:
  "q_ratio (new_display n q) = q_ratio q" "q_users (new_display n q) = q_users q"
  "q_ratio (store_bitrate b q) = q_ratio q" "q_users (store_bitrate b q) = q_users q"
  "q_ratio (set_support_changing_quality n c q) = q_ratio q" "q_users (set_support_changing_quality n c q) = q_users q"
  "q_ratio (remove_display n q) = q_ratio q" "q_users (remove_display n q) = q_users q"
  by (simp_all add: new_display_def store_bitrate_def set_support_changing_quality_def modify_display_def remove_display_def)

lemma video_run_start_fields:
  assumes "q_ratio (vqos (vw_shared w)) = BR_BALANCED" "\<not> is_option_true ''refresh'' (vw_sp w)"
  shows "q_ratio (vqos (vw_shared (video_run_start e now k w))) = BR_BALANCED"
    "q_users (vqos (vw_shared (video_run_start e now k w))) = q_users (vqos (vw_shared w))"
    "frame_fetched (vw_shared (video_run_start e now k w)) = frame_fetched (vw_shared w)"
    "run_quality (vw_run (video_run_start e now k w)) = BR_BALANCED" "second_instant (vw_run (video_run_start e now k w)) = now"
    "enc (vw_run (video_run_start e now k w)) = k" "next_frame (vw_run (video_run_start e now k w)) = 0"
    "vw_sp (video_run_start e now k w) = vw_sp w" "screenshots (vw_shared (video_run_start e now k w)) = screenshots (vw_shared w)"
  using assms by (simp_all add: video_run_start_def Let_def ratio_of_balanced case_prod_unfold)

text \<open>The first turn of a camera with a viewer that joins, and with one that has joined.\<close>

lemma camera_turn:
  assumes "q_ratio (vqos (vw_shared w)) = BR_BALANCED" "\<not> is_option_true ''refresh'' (vw_sp w)" "q_users (vqos (vw_shared w)) = []"
  shows "video_turn demo_camera demo_turn (video_run_start demo_camera 0 k w) =
      and_then (capture_frame demo_camera demo_turn) (wait_for_viewers demo_camera demo_turn)
        (upd_run controller_reset
          (upd_run (\<lambda>v. v\<lparr>run_spf := spf (vqos (vw_shared (video_run_start demo_camera 0 k w)))\<rparr>) (video_run_start demo_camera 0 k w)))"
proof -
  have "check_qos demo_camera (ti_now demo_turn) (video_run_start demo_camera 0 k w)
      = (Inr (), upd_run (\<lambda>v. v\<lparr>run_spf := spf (vqos (vw_shared (video_run_start demo_camera 0 k w)))\<rparr>) (video_run_start demo_camera 0 k w))"
    by (rule quiet_qos)
      (simp_all add: video_run_start_fields assms(1-3) any_record_def)
  then show ?thesis
    by (rule quiet_turn) (simp_all add: video_run_start_fields assms(1-3) upd_run_def)
qed

lemma joining_viewer_switches:
  assumes "q_ratio (vqos (vw_shared w)) = BR_BALANCED" "\<not> is_option_true ''refresh'' (vw_sp w)"
    "q_users (vqos (vw_shared w)) = []" "new_subscribes (vw_sp w) \<noteq> {}" "screenshots (vw_shared w) = Map.empty"
  shows "\<exists>w'. video_turn demo_camera demo_turn (video_run_start demo_camera 0 k w) = (Inl Switch, w')
    \<and> vw_sp w' = swap_new_subscribes (vw_sp w) \<and> vqos (vw_shared w') = vqos (vw_shared (video_run_start demo_camera 0 k w))"
  using assms(4,5)
  by (simp add: camera_turn [OF assms(1-3)] and_then_def capture_frame_def send_frame_def handle_one_frame_def
      upd_run_def upd_shared_def video_run_start_fields [OF assms(1,2)] take_screenshot_def has_subscribes_def Let_def)

lemma joined_viewer_gets_frame:
  assumes "q_ratio (vqos (vw_shared w)) = BR_BALANCED" "\<not> is_option_true ''refresh'' (vw_sp w)"
    "q_users (vqos (vw_shared w)) = []" "new_subscribes (vw_sp w) = {}"
  shows "\<exists>w'. video_turn demo_camera demo_turn (video_run_start demo_camera 0 k w) = (Inr (), w')
    \<and> vw_sp w' = deliver (subscribes (vw_sp w)) (VideoFrame k 0) (vw_sp w)"
proof -
  have waits: "\<exists>f w'. wait_fetched demo_camera all rounds fetched w = (Inr f, w') \<and> vw_sp w' = vw_sp w" for all rounds fetched w
  proof (induction rounds arbitrary: fetched w)
    case (Cons r rounds)
    obtain p arrivals f' g' where r: "r = (p, arrivals)"
      and "try_wait_next 0 (send_conn_ids (vw_run w)) arrivals (fetched, vw_shared w) = (f', g')" by fastforce
    with Cons.IH [of f' "w\<lparr>vw_shared := g'\<rparr>"] show ?case by (simp add: and_then_def Let_def)
  qed simp
  have done': "\<exists>w'. wait_for_viewers demo_camera demo_turn w = (Inr (), w') \<and> vw_sp w' = vw_sp w" for w
    using waits [of "ti_displays demo_turn" "ti_wait demo_turn" "{}" w]
    by (auto simp: wait_for_viewers_def upd_shared_def)
  have sent: "\<exists>w'. capture_frame demo_camera demo_turn (upd_run controller_reset (upd_run f (video_run_start demo_camera 0 k w)))
      = (Inr (), w') \<and> vw_sp w' = deliver (subscribes (vw_sp w)) (VideoFrame k 0) (vw_sp w)"
    if "\<And>v. enc (f v) = enc v \<and> next_frame (f v) = next_frame v" for f
    using assms(4) that
    by (simp add: capture_frame_def send_frame_def handle_one_frame_def upd_run_def upd_shared_def controller_reset_def
        video_run_start_fields [OF assms(1,2)] send_video_frame_shared_def Let_def split: prod.split)
  from sent [of "\<lambda>v. v\<lparr>run_spf := spf (vqos (vw_shared (video_run_start demo_camera 0 k w)))\<rparr>"] done' show ?thesis
    by (fastforce simp: camera_turn [OF assms(1-3)] and_then_def)
qed

lemma demo_joined_fields:
  "vw_sp (vl_world demo_joined) = on_subscribe 4 (service_new ''camera0'' True)"
  "vw_shared (vl_world demo_joined) = video_new 0 \<lparr>frame_fetched = Map.empty, display_conn_ids = Map.empty,
     screenshots = Map.empty, screenshot_answers = [], vqos = default_qos 0\<rparr>"
  "\<not> vl_running demo_joined" "vl_encoders demo_joined = 0"
  by (simp_all add: demo_joined_def video_life_start_def)

lemma fresh_service_fields:
  "\<not> is_option_true ''refresh'' (on_subscribe 4 (service_new n True))" "new_subscribes (on_subscribe 4 (service_new n True)) = {4}"
  "subscribes (on_subscribe 4 (service_new n True)) = {}" "s_active (on_subscribe 4 (service_new n True))"
  by (simp_all add: on_subscribe_def service_new_def is_option_true_def service_get_option_def)

lemma demo_qos_fields: "q_ratio (default_qos 0) = BR_BALANCED" "q_users (default_qos 0) = []"
  by (simp_all add: default_qos_def)

lemma swapped_fields:
  "\<not> is_option_true ''refresh'' (swap_new_subscribes (on_subscribe 4 (service_new n True)))"
  "new_subscribes (swap_new_subscribes (on_subscribe 4 (service_new n True))) = {}"
  "subscribes (swap_new_subscribes (on_subscribe 4 (service_new n True))) = {4}"
  "s_active (swap_new_subscribes (on_subscribe 4 (service_new n True)))"
  "inbox (swap_new_subscribes (on_subscribe 4 (service_new n True))) 4 = []"
  by (simp_all add: swap_new_subscribes_def on_subscribe_def service_new_def is_option_true_def service_get_option_def)

lemma demo_seen_reached:
  "\<exists>l. (video_step demo_camera)\<^sup>*\<^sup>* (video_life_start demo_camera 0) l \<and> frames_of (inbox (vw_sp (vl_world l)) 4) = [(1, 0)]"
proof -
  let ?w1 = "vl_world demo_joined"
  let ?q1 = "vqos (vw_shared ?w1)"
  have w1: "q_ratio ?q1 = BR_BALANCED" "q_users ?q1 = []" "screenshots (vw_shared ?w1) = Map.empty"
    "\<not> is_option_true ''refresh'' (vw_sp ?w1)" "new_subscribes (vw_sp ?w1) = {4}"
    by (simp_all add: demo_joined_fields video_new_def demo_qos_fields fresh_service_fields)
  let ?l2 = "demo_joined\<lparr>vl_world := video_run_start demo_camera 0 0 ?w1, vl_running := True, vl_encoders := 1\<rparr>"
  have s1: "video_step demo_camera (video_life_start demo_camera 0) demo_joined"
    unfolding demo_joined_def by (rule video_step.subscribe)
  have s2: "video_step demo_camera demo_joined ?l2"
    using video_step.start [of demo_joined demo_camera 0] by (simp add: demo_joined_fields fresh_service_fields has_subscribes_def)
  obtain w2 where turn1: "video_turn demo_camera demo_turn (video_run_start demo_camera 0 0 ?w1) = (Inl Switch, w2)"
    and w2: "vw_sp w2 = swap_new_subscribes (vw_sp ?w1)" "vqos (vw_shared w2) = vqos (vw_shared (video_run_start demo_camera 0 0 ?w1))"
    using joining_viewer_switches [OF w1(1,4,2) _ w1(3), of 0] w1(5) by auto
  define w3 where "w3 = video_run_end demo_camera w2"
  let ?l3 = "?l2\<lparr>vl_world := w3, vl_running := False\<rparr>"
  have ok2: "service_ok (vw_sp (vl_world ?l2))"
    by (simp add: video_run_start_fields [OF w1(1,4)] service_ok_def has_subscribes_def demo_joined_fields fresh_service_fields)
  have s3: "video_step demo_camera ?l2 ?l3"
    using video_step.fail [OF _ ok2, of demo_camera demo_turn] turn1 by (simp add: w3_def)
  have w3: "q_ratio (vqos (vw_shared w3)) = BR_BALANCED" "q_users (vqos (vw_shared w3)) = []"
    "vw_sp w3 = swap_new_subscribes (vw_sp ?w1)"
    using video_run_start_fields [OF w1(1,4), of demo_camera 0 0] w1(2) w2 by (simp_all add: w3_def video_run_end_def upd_shared_def)
  have sp3: "\<not> is_option_true ''refresh'' (vw_sp w3)" "new_subscribes (vw_sp w3) = {}" "subscribes (vw_sp w3) = {4}"
    "s_active (vw_sp w3)" "inbox (vw_sp w3) 4 = []"
    by (simp_all add: w3(3) demo_joined_fields swapped_fields)
  let ?l4 = "?l3\<lparr>vl_world := video_run_start demo_camera 0 1 w3, vl_running := True, vl_encoders := 2\<rparr>"
  have s4: "video_step demo_camera ?l3 ?l4"
    using video_step.start [of ?l3 demo_camera 0] sp3 by (simp add: has_subscribes_def numeral_2_eq_2)
  obtain w5 where turn2: "video_turn demo_camera demo_turn (video_run_start demo_camera 0 1 w3) = (Inr (), w5)"
    and sp5: "vw_sp w5 = deliver (subscribes (vw_sp w3)) (VideoFrame 1 0) (vw_sp w3)"
    using joined_viewer_gets_frame [OF w3(1) sp3(1) w3(2) sp3(2), of 1] by blast
  have s5: "video_step demo_camera ?l4 (?l4\<lparr>vl_world := w5\<rparr>)"
    using video_step.turn [of ?l4 demo_camera demo_turn w5] turn2 sp3
    by (simp add: video_run_start_fields [OF w3(1) sp3(1)] service_ok_def has_subscribes_def)
  have "(video_step demo_camera)\<^sup>*\<^sup>* (video_life_start demo_camera 0) (?l4\<lparr>vl_world := w5\<rparr>)"
    using s1 s2 s3 s4 s5 by (meson converse_rtranclp_into_rtranclp rtranclp.rtrancl_refl)
  moreover have "frames_of (inbox (vw_sp w5) 4) = [(1, 0)]"
    using sp3 by (simp add: sp5 deliver_def)
  ultimately show ?thesis by (intro exI [of _ "?l4\<lparr>vl_world := w5\<rparr>"]) simp
qed

theorem every_frame_decodable_witness:
  "\<exists>l :: video_life. frames_of (inbox (vw_sp (vl_world l)) 4) = [(1, 0)] \<and> decodable None (frames_of (inbox (vw_sp (vl_world l)) 4))"
  using demo_seen_reached every_frame_decodable by blast

end
