(* ===== verification/Spec2Isabelle.thy ===== *)
theory Spec2Isabelle
  imports BytesCodec SecureStream Service Address LoginSessions SessionMessages VntBridge VideoQos TerminalCleanup Cursor VideoStreams
begin

text \<open>
  VNT combines a virtual network with a remote-desktop program derived from RustDesk. This library
  models the Rust code that decides what the two sides of a remote-desktop session may see and do,
  what they send each other, and how the application starts the virtual network. The sources are
  under \<open>src/vntcrustdesk-src/src\<close> (below: \<open>src/\<close>), \<open>src/vntcrustdesk-src/libs/hbb_common/src\<close>
  (\<open>hbb/\<close>), \<open>src/rust/src/api/vnt_api.rs\<close> and the text forms it uses of
  \<open>src/vendor/vnt-core-2.0.0\<close>.

  \<^bold>\<open>How the program works.\<close> A viewer dials a target (\<open>src/vntc.rs\<close>), which in the VNT build is
  always an IPv4 address of the virtual network (\<open>vnt_api.rs\<close>). Bytes travel in length-prefixed
  frames (\<open>hbb/bytes_codec.rs\<close>) that are sealed once a key is agreed (\<open>hbb/tcp.rs\<close>). For each
  incoming stream the host runs a connection (\<open>src/server/connection.rs\<close>): it sends a salt and a
  challenge, the viewer (\<open>src/client.rs\<close>) answers with a login, the host checks it against the
  passwords and the policy (\<open>hbb/password_security.rs\<close>) in its configuration (\<open>hbb/config.rs\<close>),
  counts failures, and then subscribes the connection to services (\<open>src/server.rs\<close>,
  \<open>src/server/service.rs\<close>) that send video, audio, clipboard and pointer messages until the session
  ends. Input of the viewer is played on the host (\<open>src/server/input_service.rs\<close>), files travel in
  jobs (\<open>hbb/fs.rs\<close>, \<open>src/ui_cm_interface.rs\<close>, \<open>src/client/io_loop.rs\<close>), and shells can outlive
  the connection that opened them (\<open>src/server/terminal_service.rs\<close>).

  \<^bold>\<open>The theories\<close>, in the order of their dependencies:
  \<^item> \<open>Prelude\<close>: fixed-width integers and byte strings, the collection \<open>frames\<close> of facts about what an
    operation leaves alone, word and list lemmas; \<open>Text\<close>: the Rust string operations the code uses.
  \<^item> \<open>Framing\<close>: the loop of \<open>tokio_util\<close>'s framed reader with a locale \<open>framing\<close> for decoders of a
    prefix code; \<open>BytesCodec\<close>: \<open>decode\<close> and \<open>encode\<close>, which interpret it; \<open>SecureStream\<close>: \<open>Encrypt\<close>
    and \<open>FramedStream\<close> over a box given as a parameter.
  \<^item> \<open>PasswordStore\<close>: how secrets are written into the configuration files; \<open>OptionStore\<close>: the
    locales \<open>option_store\<close> and \<open>saved_options\<close> for a table of options with defaults, pinned values
    and a file; \<open>Config\<close>: the state of \<open>config.rs\<close>, one definition per function, four
    interpretations of the option locales, and the relation \<open>cfg_step\<close>.
  \<^item> \<open>Address\<close>: dial targets, mangled addresses, version numbers; \<open>Policy\<close>: which passwords count,
    how a connection is approved, what \<open>vntc::apply_profile\<close> pins; \<open>Permissions\<close>: the two-bit
    permission fields; \<open>LoginGuard\<close>: the counters of wrong guesses per address and IPv6 prefix.
  \<^item> \<open>Service\<close>: a service with its subscribers (locale \<open>subscription\<close>), snapshots and its loops;
    \<open>Server\<close>: the table of services and the subscriptions of a connection.
  \<^item> \<open>Connection\<close>: the record of a session, the flags set by the local user, the peer and voice calls,
    and the subscriptions that follow them; \<open>Login\<close>: every message before the authorisation, the
    answer to a login, sessions, trusted devices and closing; \<open>LoginSessions\<close>: which kinds of session
    the messages before the authorisation can end in; \<open>SessionMessages\<close>: what an authorised
    peer can cause, \<open>on_session_msg\<close> for every message and the timers.
  \<^item> \<open>FileTree\<close>: listing and cleaning of directory trees, with directories and entries that can
    not be read; \<open>FileRemoveLog\<close>: how removals become log
    lines; \<open>FileTransfer\<close>: reading and writing jobs over a disk of numbered files, where a
    write may still be pending when the file's time is set (\<open>write_lags\<close>); \<open>FileManager\<close>: the
    file process of the host (\<open>handle_fs\<close>, \<open>handle_read_jobs\<close>); \<open>FileClient\<close>: the viewer's side;
    \<open>FileSession\<close>: the two sides composed turn by turn (\<open>upload_turns\<close>); \<open>FileSafety\<close>: what names
    and numbers of a peer can reach.
  \<^item> \<open>VntBridge\<close>: settings, start with fallback, and queries of the virtual network.
  \<^item> \<open>PeerStore\<close>: what the viewer keeps for every host, on file and in memory; \<open>ClientLogin\<close>: the
    viewer's \<open>LoginConfigHandler\<close> and its answers to the host's challenge.
  \<^item> \<open>Float32\<close>: single-precision rounding on the rationals; \<open>VideoQos\<close>: the control of frame rate and
    bitrate in that arithmetic (\<open>src/server/video_qos.rs\<close>).
  \<^item> \<open>TerminalBuffer\<close>: the output a terminal keeps for a viewer that comes back (locale \<open>output_log\<close>);
    \<open>TerminalHelper\<close>: the protocol with the helper process on Windows; \<open>Terminal\<close>: sessions,
    services, actions and polling; \<open>TerminalRegistry\<close>, \<open>TerminalSession\<close>, \<open>TerminalCleanup\<close>: their
    invariants, the view of a returning viewer, and the clean-up.
  \<^item> \<open>Input\<close>: how the Linux host plays keys and mouse events (\<open>src/server/input_service.rs\<close>) and the thread
    that does it; \<open>InputSafety\<close>: which keys can stay down, modifiers, relative motion; \<open>Cursor\<close>: shape,
    position and focus as the viewers get them, over \<open>Service\<close> and the caches of the subscribers.
  \<^item> \<open>Displays\<close>: the list of displays and who is told it (\<open>src/server/display_service.rs\<close>); \<open>VideoService\<close>: the
    loop that encodes frames and waits for the viewers (\<open>src/server/video_service.rs\<close>), over \<open>VideoQos\<close>,
    \<open>Displays\<close> and \<open>Service\<close>; \<open>VideoStreams\<close>: that every viewer can decode what it is sent.

  Records follow the structs of the code, one field per field; a mutex-protected global is a field of
  the state that its users take and return. A handler returns the new state with what it sends or
  asks the system to do, in order; a Rust error or early return is a branch, a panic the value
  \<open>None\<close>, as is a loop that never ends.

  \<^bold>\<open>What is shown.\<close> Each component has the property it exists for: frames survive any chunking; a
  secured stream delivers what was sent; secrets, identity, hosts and devices survive a restart;
  every setter keeps memory and files equal; the VNT profile can not be left; guesses are bounded; no
  sequence of messages authorises a peer without one of the four admitting events, or makes it a
  session of a kind it has no permission for, but for the answer to a switch of sides; a typed and a
  remembered password log a viewer in; viewer and host agree on the options of a session; a removed
  connection is silent under all later steps of the server until it subscribes again; the subscriptions of a session equal its flags; what an authorised peer causes
  is permitted; an upload arrives complete; paths of an upload stay inside; the start of the network
  is reported, in whatever order the events, sent by tasks of their own, arrive, and server lists read back; the frame rate and bitrate stay in range, give way and
  recover; a reconnected terminal shows the output without a gap as far as the channel of 500 chunks
  held what was written while nobody was connected (\<open>output_beyond_channel_is_lost\<close>), its redraw ends, and the registry
  stays bounded; on X11 no key stays down after the last viewer has left but the
  modifiers that CtrlAltDel and LockScreen leave; the modifiers follow the
  events; every viewer shows the shape of the pointer, knows the displays and can decode every frame. Where the code admits more than its design
  suggests, the theorem states what it does
  (\<open>code_alone_admits\<close>, \<open>clipboard_before_login\<close>, \<open>directions_reuse_nonces\<close>,
  \<open>file_session_can_watch_screen\<close>, \<open>download_follows_any_name\<close>, \<open>out_of_range_confirmation_panics\<close>,
  \<open>unlucky_output_hangs\<close>, \<open>watched_terminal_is_killed\<close>, and the lemmas
  \<open>switch_sides_opens_tunnel\<close>, \<open>late_write_changes_time\<close>, \<open>unknown_key_forgets\<close>, \<open>temporary_name_clash\<close>,
  \<open>oversized_input_ends_helper\<close>, \<open>long_password_lost\<close>,
  \<open>snapshot_missed\<close>, \<open>racing_failures_count_once\<close>, \<open>version_number_clash\<close>,
  \<open>cancelled_transfer_loses_file\<close>, \<open>late_resume_loses_start\<close>, \<open>reconnect_forgets_displays\<close>,
  \<open>unterminated_output_is_unbounded\<close>, \<open>dead_terminal_reopens\<close>,
  \<open>function_key_leaves_modifier\<close>, \<open>wayland_key_stays_down\<close>, \<open>button_stays_down\<close>,
  \<open>altgr_is_another_key\<close>, \<open>linux_notes_no_modifier\<close>).

  \<^bold>\<open>Bounds.\<close> Counters, lengths and addresses have their machine width where the code can reach it: the
  nonce counter and the byte count of a terminal are 64-bit words, versions are signed 64-bit,
  mangled addresses 128-bit, frame headers at most four bytes, frame rates and delays 32-bit with
  wrap-around, ratios single-precision. Failure counters, file numbers and times are unbounded, as
  they can not overflow within the limits that are proved. The queries of keys on X11 read the
  modifier mask of the server (\<open>x11_key_state\<close>), which has no bits for the right-hand keys. Loops are structural recursions over their
  input or have a measure (\<open>helper_input\<close>, \<open>reap_from\<close>); the reader loop of \<open>Framing\<close> and the
  trimming loop of \<open>TerminalBuffer\<close> may run forever and are partial functions: the first is shown to
  return, the second to return for whole lines and not for others. No definition takes fuel.

  \<^bold>\<open>What is a parameter.\<close> Hash, box, base64, JSON, compression, clocks, random choices, the file
  system calls, processes, the keyboard and the network are arguments or record fields
  (\<open>secret_fns\<close>, \<open>box_fns\<close>, \<open>cfg_env\<close>, \<open>login_env\<close>, \<open>fs_env\<close>, \<open>fm_env\<close>, \<open>client_env\<close>, \<open>sess_env\<close>,
  \<open>viewer_env\<close>, \<open>default_env\<close>, \<open>bridge_env\<close>, \<open>term_env\<close>, \<open>input_env\<close>); what the proofs need of them is a named
  hypothesis (\<open>secret_fns_ok\<close>, \<open>box_fns_ok\<close>, \<open>json_ok\<close> and the premises of the theorems) with an
  instance.

  \<^bold>\<open>What is not modelled.\<close> Screen, camera and sound capture themselves and the codecs, the platform layers and
  the input back ends of Windows, macOS and uinput, the
  contents of clipboards, the user interfaces with their generated bindings, the rendezvous and relay
  servers (the VNT profile switches them off), printing, plugins, the updater, and the packet paths of
  the virtual network itself: they call the system or third-party code at almost every line and keep
  little state of their own. The contents of the peer information in a login response, window
  positions and the list of recent hosts are left out. Messages of one connection are handled one at a
  time, as its loop does; state that connections share is changed by whole operations, and where the
  code releases a lock in between (\<open>snapshot\<close>, \<open>update_failure\<close>) the two parts are separate where the
  lemmas on races speak of them.
\<close>

end
